(* ===== verification/Prelude.thy ===== *)
theory Prelude
  imports Main "HOL-Library.Word" "HOL-Library.Monad_Syntax"
begin

text \<open>
  Shared vocabulary of the development: the C integer types of common/include/tamtypes.h as
  machine words, the error numbers of common/include/errno.h, memory images of C structures as
  word arrays, the C string comparison the sources use, and generic lemmas on the option monad.

  A C function that reads and writes global state is a HOL function that takes the state and
  returns it. A call that has no defined result (a null or out-of-range dereference, or a loop
  that never ends) is \<open>None\<close>; every result the C code returns is \<open>Some\<close>.
\<close>

unbundle bit_operations_syntax

type_synonym u8 = "8 word"
type_synonym u16 = "16 word"
type_synonym u32 = "32 word"
type_synonym u64 = "64 word"

text \<open>Memory images: a buffer seen as an array of 32-bit words.\<close>

type_synonym words = "nat \<Rightarrow> u32"

section \<open>Error numbers\<close>

text \<open>The errno values the sources return negated.\<close>

abbreviation (input) ENOENT :: int where "ENOENT \<equiv> 2"
abbreviation (input) EIO :: int where "EIO \<equiv> 5"
abbreviation (input) ENXIO :: int where "ENXIO \<equiv> 6"
abbreviation (input) EBADF :: int where "EBADF \<equiv> 9"
abbreviation (input) ENOMEM :: int where "ENOMEM \<equiv> 12"
abbreviation (input) EACCES :: int where "EACCES \<equiv> 13"
abbreviation (input) ENODEV :: int where "ENODEV \<equiv> 19"
abbreviation (input) EINVAL :: int where "EINVAL \<equiv> 22"
abbreviation (input) EMFILE :: int where "EMFILE \<equiv> 24"
abbreviation (input) ENOSPC :: int where "ENOSPC \<equiv> 28"

section \<open>Bytes and C strings over memory images\<close>

text \<open>Byte \<open>k\<close> of a word array on the little-endian processors of the console.\<close>

definition byte_at :: "words \<Rightarrow> nat \<Rightarrow> u8" where
  "byte_at w k = ucast (drop_bit (8 * (k mod 4)) (w (k div 4)))"

text \<open>A string literal with its terminating zero, as bytes.\<close>

definition str_byte :: "string \<Rightarrow> nat \<Rightarrow> u8" where
  "str_byte s k = (if k < length s then of_nat (of_char (s ! k)) else 0)"

definition word_of_bytes :: "(nat \<Rightarrow> u8) \<Rightarrow> nat \<Rightarrow> u32" where
  "word_of_bytes b i = ucast (b (4 * i)) OR push_bit 8 (ucast (b (4 * i + 1)))
     OR push_bit 16 (ucast (b (4 * i + 2))) OR push_bit 24 (ucast (b (4 * i + 3)))"

text \<open>Whether \<open>strncmp (a, b, n)\<close> is zero.\<close>

fun strncmp_eq :: "(nat \<Rightarrow> u8) \<Rightarrow> (nat \<Rightarrow> u8) \<Rightarrow> nat \<Rightarrow> bool" where
  "strncmp_eq a b 0 = True"
| "strncmp_eq a b (Suc n) =
     (a 0 = b 0 \<and> (a 0 = 0 \<or> strncmp_eq (\<lambda>k. a (Suc k)) (\<lambda>k. b (Suc k)) n))"

text \<open>Whether \<open>memcmp\<close> of \<open>n\<close> words is zero.\<close>

definition memcmp_eq :: "words \<Rightarrow> words \<Rightarrow> nat \<Rightarrow> bool" where
  "memcmp_eq a b n = list_all (\<lambda>i. a i = b i) [0..<n]"

text \<open>The words of an image from offset \<open>o\<close> on; \<open>n\<close> of them copied over another image.\<close>

definition words_from :: "words \<Rightarrow> nat \<Rightarrow> words" where
  "words_from w off i = w (off + i)"

definition copy_words :: "words \<Rightarrow> nat \<Rightarrow> words \<Rightarrow> nat \<Rightarrow> words" where
  "copy_words dst off src n i = (if off \<le> i \<and> i < off + n then src (i - off) else dst i)"

section \<open>Loops\<close>

text \<open>A \<open>for\<close> loop over the listed indices whose body may have no defined result.\<close>

fun foldO :: "('a \<Rightarrow> 's \<Rightarrow> 's option) \<Rightarrow> 'a list \<Rightarrow> 's \<Rightarrow> 's option" where
  "foldO f [] s = Some s"
| "foldO f (x # xs) s = Option.bind (f x s) (foldO f xs)"

text \<open>The indices of \<open>for (i = 1; i < n + 1; i++)\<close>, the loop of both caches over their entries.\<close>

definition slots :: "nat \<Rightarrow> nat list" where
  "slots n = [1..<n + 1]"

section \<open>Generic lemmas\<close>

lemma set_slots [simp]: "set (slots n) = {1..n}"
  by (auto simp: slots_def)

lemma distinct_slots [simp]: "distinct (slots n)"
  by (simp add: slots_def)

lemma find_slots: "find P (slots n) = Some i \<Longrightarrow> P i \<and> 1 \<le> i \<and> i \<le> n"
  by (metis atLeastAtMost_iff find_Some_iff nth_mem set_slots)

lemma find_slots_None: "find P (slots n) = None \<longleftrightarrow> (\<forall>i. 1 \<le> i \<and> i \<le> n \<longrightarrow> \<not> P i)"
  by (auto simp: find_None_iff)

lemma find_only:
  "i \<in> set xs \<Longrightarrow> (\<And>j. j \<in> set xs \<Longrightarrow> P j \<longleftrightarrow> j = i) \<Longrightarrow> find P xs = Some i"
  by (induction xs) auto

lemma foldO_append: "foldO f (xs @ ys) s = Option.bind (foldO f xs s) (foldO f ys)"
  by (induction xs arbitrary: s) (auto split: bind_splits)

text \<open>An invariant that every round keeps, with the rounds defined under it, holds after the loop.\<close>

lemma foldO_invariant:
  assumes "P s" "\<And>x s. x \<in> set xs \<Longrightarrow> P s \<Longrightarrow> \<exists>s'. f x s = Some s' \<and> P s'"
  shows "\<exists>s'. foldO f xs s = Some s' \<and> P s'"
  using assms
proof (induction xs arbitrary: s)
  case Nil
  then show ?case by simp
next
  case (Cons x xs)
  from Cons.prems(1) Cons.prems(2) [of x s] obtain s1 where s1: "f x s = Some s1" "P s1" by auto
  from Cons.prems(2) have "\<And>y s. y \<in> set xs \<Longrightarrow> P s \<Longrightarrow> \<exists>s'. f y s = Some s' \<and> P s'" by simp
  from Cons.IH [OF s1(2) this] s1(1) show ?case by simp
qed

lemma foldO_keeps:
  assumes "foldO f xs s = Some s'" "P s" "\<And>x s s'. f x s = Some s' \<Longrightarrow> P s \<Longrightarrow> P s'"
  shows "P s'"
  using assms by (induction xs arbitrary: s) (auto split: bind_splits)

lemma unat_u32_less: "unat (w :: u32) < 4294967296"
  by (rule order_less_le_trans [OF unsigned_less]) simp

lemma unat_u16_less: "unat (w :: u16) < 65536"
  by (rule less_le_trans [OF unsigned_less]) simp

lemma unat_u8_less: "unat (w :: u8) < 256"
  by (rule less_le_trans [OF unsigned_less]) simp

lemma unat_ucast16 [simp]: "unat (ucast (w :: u16) :: u32) = unat w"
proof -
  have "unat w < 2 ^ 32" using unat_u16_less [of w] by simp
  then show ?thesis by (simp add: unsigned_ucast_eq take_bit_nat_eq_self)
qed

lemma unat_ucast64 [simp]: "unat (ucast (w :: u32) :: u64) = unat w"
  using unat_u32_less [of w] by (simp add: unsigned_ucast_eq take_bit_nat_eq_self)

lemma bind_SomeE:
  assumes "Option.bind m f = Some r"
  obtains x where "m = Some x" "f x = Some r"
  using assms by (cases m) auto

lemma memcmp_eq_iff: "memcmp_eq a b n \<longleftrightarrow> (\<forall>i<n. a i = b i)"
  by (auto simp: memcmp_eq_def list_all_iff)

lemma copy_words_in [simp]: "i < n \<Longrightarrow> copy_words d off s n (off + i) = s i"
  by (simp add: copy_words_def)

lemma copy_words_out [simp]: "i < off \<or> off + n \<le> i \<Longrightarrow> copy_words d off s n i = d i"
  by (auto simp: copy_words_def)

lemma strncmp_eq_refl [simp]: "strncmp_eq a a n"
  by (induction n arbitrary: a) auto

lemma strncmp_eq_sym: "strncmp_eq a b n \<Longrightarrow> strncmp_eq b a n"
  by (induction n arbitrary: a b) auto

text \<open>Without a zero in the first \<open>n\<close> bytes, equality under \<open>strncmp\<close> is equality of all of them.\<close>

lemma strncmp_eq_nonzero:
  "(\<forall>k<n. b k \<noteq> 0) \<Longrightarrow> strncmp_eq a b n \<longleftrightarrow> (\<forall>k<n. a k = b k)"
proof (induction n arbitrary: a b)
  case 0
  then show ?case by simp
next
  case (Suc n)
  then have "strncmp_eq (\<lambda>k. a (Suc k)) (\<lambda>k. b (Suc k)) n \<longleftrightarrow> (\<forall>k<n. a (Suc k) = b (Suc k))"
    by auto
  with Suc.prems show ?case
    by (auto simp: less_Suc_eq_0_disj)
qed

lemma strncmp_eq_cong:
  "(\<And>k. k < n \<Longrightarrow> a k = a' k) \<Longrightarrow> strncmp_eq a b n = strncmp_eq a' b n"
proof (induction n arbitrary: a b a')
  case (Suc n)
  from Suc.IH [of "\<lambda>k. a (Suc k)" "\<lambda>k. a' (Suc k)" "\<lambda>k. b (Suc k)"] Suc.prems show ?case by auto
qed simp

text \<open>A word below the sign bit reads the same signed and unsigned.\<close>

lemma sint_small: "unat w < 2147483648 \<Longrightarrow> sint w = int (unat w)" for w :: u32
proof -
  assume "unat w < 2147483648"
  then have "int (unat w) < int 2147483648" by (simp only: of_nat_less_iff)
  then have "uint w < 2147483648" by simp
  moreover have "- 2147483648 \<le> uint w" by (rule order_trans [of _ 0]) simp_all
  ultimately have "signed_take_bit 31 (uint w) = uint w" by (intro signed_take_bit_int_eq_self) simp_all
  then show ?thesis by (simp add: sint_uint)
qed

lemma byte_of_word:
  assumes "r < 4"
  shows "ucast (drop_bit (8 * r) (word_of_bytes b q)) = b (4 * q + r)"
proof -
  from assms have "r = 0 \<or> r = 1 \<or> r = 2 \<or> r = 3" by auto
  then show ?thesis
    by (elim disjE; intro bit_word_eqI)
      (auto simp: word_of_bytes_def bit_simps simp del: drop_bit_or dest: bit_imp_le_length)
qed

lemma byte_at_word_of_bytes: "byte_at (word_of_bytes b) k = b k"
  using byte_of_word [of "k mod 4" b "k div 4"] by (simp add: byte_at_def)

end
