(* ===== verification/Ring.thy ===== *)
theory Ring
  imports Prelude
begin

text \<open>
  Circular doubly linked lists with a sentinel, the free-buffer lists of the APA cache
  (iop/hdd/libapa/src/cache.c) and of the PFS cache (iop/hdd/libpfs/src/cache.c). Both sources
  have the same two pointer operations; the locale \<open>linked_ring\<close> states what they do to the
  forward and backward links, and the lemmas that say which sequence of nodes the ring then holds
  are proved once for both.
\<close>

section \<open>Segments\<close>

text \<open>\<open>seg nx pv a xs b\<close>: from \<open>a\<close> the links lead through \<open>xs\<close> to \<open>b\<close>, and back.\<close>

fun seg :: "(nat \<Rightarrow> nat) \<Rightarrow> (nat \<Rightarrow> nat) \<Rightarrow> nat \<Rightarrow> nat list \<Rightarrow> nat \<Rightarrow> bool" where
  "seg nx pv a [] b = (nx a = b \<and> pv b = a)"
| "seg nx pv a (x # xs) b = (nx a = x \<and> pv x = a \<and> seg nx pv x xs b)"

definition is_ring :: "(nat \<Rightarrow> nat) \<Rightarrow> (nat \<Rightarrow> nat) \<Rightarrow> nat list \<Rightarrow> bool" where
  "is_ring nx pv xs \<longleftrightarrow> distinct (0 # xs) \<and> seg nx pv 0 xs 0"

lemma seg_append: "seg nx pv a (xs @ y # ys) b \<longleftrightarrow> seg nx pv a xs y \<and> seg nx pv y ys b"
  by (induction xs arbitrary: a) auto

lemma seg_cong:
  assumes "\<And>x. x \<in> set (a # xs) \<Longrightarrow> nx x = nx' x" "\<And>x. x \<in> set (xs @ [b]) \<Longrightarrow> pv x = pv' x"
  shows "seg nx pv a xs b = seg nx' pv' a xs b"
  using assms by (induction xs arbitrary: a) auto

lemma seg_first: "seg nx pv a xs b \<Longrightarrow> nx a = hd (xs @ [b])"
  by (cases xs) auto

lemma seg_last: "seg nx pv a xs b \<Longrightarrow> pv b = last (a # xs)"
  by (induction xs arbitrary: a) auto

lemma seg_unique:
  "seg nx pv a xs b \<Longrightarrow> seg nx pv a ys b \<Longrightarrow> b \<notin> set xs \<Longrightarrow> b \<notin> set ys \<Longrightarrow> xs = ys"
proof (induction xs arbitrary: a ys)
  case Nil
  then show ?case by (cases ys) auto
next
  case (Cons x xs)
  then show ?case by (cases ys) auto
qed

lemma is_ring_unique: "is_ring nx pv xs \<Longrightarrow> is_ring nx pv ys \<Longrightarrow> xs = ys"
  by (auto simp: is_ring_def intro: seg_unique)

lemma is_ring_nx0: "is_ring nx pv xs \<Longrightarrow> nx 0 = hd (xs @ [0])"
  by (auto simp: is_ring_def dest: seg_first)

lemma is_ring_pv0: "is_ring nx pv xs \<Longrightarrow> pv 0 = last (0 # xs)"
  unfolding is_ring_def by (blast dest: seg_last)

lemma is_ring_distinct: "is_ring nx pv xs \<Longrightarrow> distinct xs \<and> 0 \<notin> set xs"
  by (simp add: is_ring_def)

lemma is_ring_empty_iff: "is_ring nx pv xs \<Longrightarrow> pv 0 = 0 \<longleftrightarrow> xs = []"
  by (cases xs rule: rev_cases) (auto simp: is_ring_def dest!: seg_last)

text \<open>The test for an empty list that both caches write out: it is true of the empty ring only.\<close>

lemma is_ring_test: "is_ring nx pv xs \<Longrightarrow> pv 0 = 0 \<and> pv 0 = nx (pv 0) \<longleftrightarrow> xs = []"
  by (cases xs) (auto simp: is_ring_empty_iff, auto simp: is_ring_def)

lemma is_ring_frame:
  assumes "is_ring nx pv xs" "\<And>x. x \<in> set (0 # xs) \<Longrightarrow> nx' x = nx x \<and> pv' x = pv x"
  shows "is_ring nx' pv' xs"
  using assms seg_cong [of 0 xs nx nx' 0 pv pv'] by (auto simp: is_ring_def)

section \<open>Splicing\<close>

lemma seg_splice_in:
  assumes "seg nx pv a xs b" "n \<notin> set (a # xs @ [b])" "distinct (xs @ [b])" "a \<notin> set xs"
    and "c = last (a # xs)"
  shows "seg (nx(n := nx c, c := n)) (pv(n := c, nx c := n)) a (xs @ [n]) b"
proof (cases xs rule: rev_cases)
  case Nil
  with assms show ?thesis by auto
next
  case (snoc ys y)
  with assms have c: "c = y" by simp
  from assms(1) snoc have s: "seg nx pv a ys y" "nx y = b" "pv b = y"
    by (auto simp: seg_append)
  from assms snoc c have "seg (nx(n := nx c, c := n)) (pv(n := c, nx c := n)) a ys y"
    using s by (subst seg_cong [where nx' = nx and pv' = pv]) auto
  with assms snoc c s show ?thesis
    by (auto simp: seg_append)
qed

lemma ring_splice_tail:
  assumes "is_ring nx pv xs" "n \<notin> set (0 # xs)" "c = pv 0"
  shows "is_ring (nx(n := nx c, c := n)) (pv(n := c, nx c := n)) (xs @ [n])"
proof -
  from assms have "c = last (0 # xs)" by (simp add: is_ring_pv0 del: last.simps)
  then show ?thesis
    using assms seg_splice_in [of nx pv 0 xs 0 n c] by (auto simp: is_ring_def)
qed

lemma ring_splice_head:
  assumes "is_ring nx pv xs" "n \<notin> set (0 # xs)"
  shows "is_ring (nx(n := nx 0, 0 := n)) (pv(n := 0, nx 0 := n)) (n # xs)"
proof (cases xs)
  case Nil
  with assms show ?thesis by (auto simp: is_ring_def)
next
  case (Cons y ys)
  with assms have d: "distinct (0 # y # ys)" and s: "nx 0 = y" "seg nx pv y ys 0"
    by (auto simp: is_ring_def)
  have "seg (nx(n := nx 0, 0 := n)) (pv(n := 0, nx 0 := n)) y ys 0"
    using s d assms Cons by (subst seg_cong [where nx' = nx and pv' = pv]) (auto, metis neq0_conv)
  with assms Cons s d show ?thesis by (auto simp: is_ring_def)
qed

lemma ring_splice_out:
  assumes "is_ring nx pv xs" "y \<in> set xs"
  shows "is_ring (nx(pv y := nx y)) (pv(nx y := pv y)) (remove1 y xs)"
proof -
  from assms(2) obtain us vs where xs: "xs = us @ y # vs" by (auto simp: in_set_conv_decomp)
  with assms(1) have d: "distinct (0 # us @ y # vs)" and u: "seg nx pv 0 us y"
    and v: "seg nx pv y vs 0" by (auto simp: is_ring_def seg_append)
  from u have pv_y: "pv y = last (0 # us)" by (rule seg_last)
  from v have nx_y: "nx y = hd (vs @ [0])" by (rule seg_first)
  let ?n = "nx(pv y := nx y)" and ?p = "pv(nx y := pv y)"
  have goal: "seg ?n ?p 0 (us @ vs) 0"
  proof (cases us rule: rev_cases)
    case Nil
    with pv_y have p: "pv y = 0" by simp
    show ?thesis
    proof (cases vs)
      case (Cons w ws)
      with d v nx_y p have "seg ?n ?p w ws 0"
        by (subst seg_cong [where nx' = nx and pv' = pv]) auto
      with Nil Cons v nx_y p show ?thesis by auto
    qed (use Nil p nx_y in auto)
  next
    case (snoc us' z)
    with pv_y have p: "pv y = z" by simp
    with u snoc have z: "seg nx pv 0 us' z" "nx z = y" by (auto simp: seg_append)
    show ?thesis
    proof (cases vs)
      case Nil
      with d snoc p nx_y z have "seg ?n ?p 0 us' z"
        by (subst seg_cong [where nx' = nx and pv' = pv]) auto
      with snoc Nil nx_y p show ?thesis by (auto simp: seg_append)
    next
      case (Cons w ws)
      with d snoc p nx_y z have "seg ?n ?p 0 us' z"
        by (subst seg_cong [where nx' = nx and pv' = pv]) auto
      moreover from d snoc p nx_y v Cons have "seg ?n ?p w ws 0"
        by (subst seg_cong [where nx' = nx and pv' = pv]) auto
      ultimately show ?thesis
        using snoc Cons nx_y p d seg_append [of ?n ?p 0 us' z "w # ws" 0] by auto
    qed
  qed
  from d xs have "remove1 y xs = us @ vs" by (simp add: remove1_append)
  with goal d show ?thesis by (auto simp: is_ring_def)
qed

section \<open>The interface of the two caches\<close>

text \<open>
  \<open>link c n\<close> puts node \<open>n\<close> after node \<open>c\<close>, \<open>unlink c\<close> takes \<open>c\<close> out; the laws give the link
  fields after the four (two) assignments of the C bodies.
\<close>

locale linked_ring =
  fixes nx :: "'s \<Rightarrow> nat \<Rightarrow> nat" and pv :: "'s \<Rightarrow> nat \<Rightarrow> nat"
    and link :: "nat \<Rightarrow> nat \<Rightarrow> 's \<Rightarrow> 's" and unlink :: "nat \<Rightarrow> 's \<Rightarrow> 's"
  assumes nx_link: "c \<noteq> n \<Longrightarrow> nx (link c n s) = (nx s)(n := nx s c, c := n)"
    and pv_link: "c \<noteq> n \<Longrightarrow> pv (link c n s) = (pv s)(n := c, nx s c := n)"
    and nx_unlink: "pv s c \<noteq> c \<Longrightarrow> nx (unlink c s) = (nx s)(pv s c := nx s c)"
    and pv_unlink: "pv s c \<noteq> c \<Longrightarrow> pv (unlink c s) = (pv s)(nx s c := pv s c)"
begin

lemma link_tail:
  assumes "is_ring (nx s) (pv s) xs" "n \<notin> set (0 # xs)"
  shows "is_ring (nx (link (pv s 0) n s)) (pv (link (pv s 0) n s)) (xs @ [n])"
proof -
  have "pv s 0 \<noteq> n"
    using assms is_ring_pv0 [OF assms(1)] last_in_set [of "0 # xs"] by (auto split: if_splits)
  with ring_splice_tail [OF assms refl] show ?thesis by (simp add: nx_link pv_link)
qed

lemma link_head:
  assumes "is_ring (nx s) (pv s) xs" "n \<notin> set (0 # xs)"
  shows "is_ring (nx (link 0 n s)) (pv (link 0 n s)) (n # xs)"
  using ring_splice_head [OF assms] assms(2) by (simp add: nx_link pv_link)

lemma pv_not_self:
  assumes "is_ring (nx s) (pv s) xs" "y \<in> set xs"
  shows "pv s y \<noteq> y"
proof -
  from assms(2) obtain us vs where xs: "xs = us @ y # vs" by (auto simp: in_set_conv_decomp)
  with assms(1) have "seg (nx s) (pv s) 0 us y" "y \<notin> set (0 # us)"
    by (auto simp: is_ring_def seg_append)
  then show ?thesis
    using seg_last [of "nx s" "pv s" 0 us y] last_in_set [of "0 # us"] by (auto split: if_splits)
qed

lemma unlink_out:
  assumes "is_ring (nx s) (pv s) xs" "y \<in> set xs"
  shows "is_ring (nx (unlink y s)) (pv (unlink y s)) (remove1 y xs)"
  using ring_splice_out [OF assms] pv_not_self [OF assms] by (simp add: nx_unlink pv_unlink)

end

end
