(* ===== verification/Clock.thy ===== *)
theory Clock
  imports Prelude
begin

text \<open>
  The real-time clock as both file systems read it, \<open>apaGetTime\<close> of iop/hdd/libapa/src/misc.c and
  \<open>pfsGetTime\<close> of iop/hdd/libpfs/src/misc.c: the answer of the drive controller, in binary coded decimal,
  and the date structure they make of it.
\<close>

record cd_clock =
  ck_stat :: u8
  ck_second :: u8
  ck_minute :: u8
  ck_hour :: u8
  ck_day :: u8
  ck_month :: u8
  ck_year :: u8

definition btoi :: "u8 \<Rightarrow> u8" where
  "btoi b = b div 16 * 10 + b mod 16"

definition time_words :: "cd_clock \<Rightarrow> words \<Rightarrow> words" where
  "time_words ck w = (\<lambda>_. 0)(
     0 := (w 0 AND 0xFF) OR push_bit 8 (ucast (btoi (ck_second ck)))
            OR push_bit 16 (ucast (btoi (ck_minute ck))) OR push_bit 24 (ucast (btoi (ck_hour ck))),
     1 := ucast (btoi (ck_day ck)) OR push_bit 8 (ucast (btoi (ck_month ck AND 0x7F)))
            OR push_bit 16 (ucast (btoi (ck_year ck)) + 2000))"

end
