(* ===== verification/ApaCache.thy ===== *)
theory ApaCache
  imports Ring Clock
begin

text \<open>
  The header cache and the journal of the APA partition manager: iop/hdd/libapa/src/cache.c,
  iop/hdd/libapa/src/journal.c and the header transfer routines of iop/hdd/libapa/src/apa.c.

  The static array \<open>cacheBuf\<close> is a function from indices to cache entries; a pointer to an entry is
  its index and index 0 is the sentinel of the free list. An on-disk header (1024 bytes) and the
  journal (512 bytes) are kept as the arrays of 32-bit words the code itself treats them as when
  it computes checksums. The ATA driver, the clock and the system memory allocator are the
  parameter \<open>ata_ops\<close>: a transfer reports success or failure, and a failed read leaves an arbitrary
  buffer.
\<close>

section \<open>Layout\<close>

text \<open>Word offsets of the fields of \<open>apa_header_t\<close>.\<close>

abbreviation (input) H_CHECKSUM :: nat where "H_CHECKSUM \<equiv> 0"
abbreviation (input) H_MAGIC :: nat where "H_MAGIC \<equiv> 1"
abbreviation (input) H_NEXT :: nat where "H_NEXT \<equiv> 2"
abbreviation (input) H_PREV :: nat where "H_PREV \<equiv> 3"
abbreviation (input) H_ID :: nat where "H_ID \<equiv> 4"
abbreviation (input) H_RPWD :: nat where "H_RPWD \<equiv> 12"
abbreviation (input) H_FPWD :: nat where "H_FPWD \<equiv> 14"
abbreviation (input) H_START :: nat where "H_START \<equiv> 16"
abbreviation (input) H_LENGTH :: nat where "H_LENGTH \<equiv> 17"
abbreviation (input) H_TYPEFLAGS :: nat where "H_TYPEFLAGS \<equiv> 18"
abbreviation (input) H_NSUB :: nat where "H_NSUB \<equiv> 19"
abbreviation (input) H_CREATED :: nat where "H_CREATED \<equiv> 20"
abbreviation (input) H_MAIN :: nat where "H_MAIN \<equiv> 22"
abbreviation (input) H_NUMBER :: nat where "H_NUMBER \<equiv> 23"
abbreviation (input) H_MODVER :: nat where "H_MODVER \<equiv> 24"
abbreviation (input) H_MBR_MAGIC :: nat where "H_MBR_MAGIC \<equiv> 64"
abbreviation (input) H_MBR_VERSION :: nat where "H_MBR_VERSION \<equiv> 72"

abbreviation (input) APA_MAGIC :: u32 where "APA_MAGIC \<equiv> 0x00415041"
abbreviation (input) APAL_MAGIC :: u32 where "APAL_MAGIC \<equiv> 0x4150414C"
abbreviation (input) APA_SECTOR_MBR :: u32 where "APA_SECTOR_MBR \<equiv> 0"
abbreviation (input) APA_SECTOR_SECTOR_ERROR :: u32 where "APA_SECTOR_SECTOR_ERROR \<equiv> 6"
abbreviation (input) APA_SECTOR_PART_ERROR :: u32 where "APA_SECTOR_PART_ERROR \<equiv> 7"
abbreviation (input) APA_SECTOR_APAL :: u32 where "APA_SECTOR_APAL \<equiv> 8"
abbreviation (input) APA_SECTOR_APAL_HEADERS :: u32 where "APA_SECTOR_APAL_HEADERS \<equiv> 10"
abbreviation (input) APA_CACHE_FLAG_DIRTY :: u16 where "APA_CACHE_FLAG_DIRTY \<equiv> 1"
abbreviation (input) APA_IO_MODE_READ :: nat where "APA_IO_MODE_READ \<equiv> 0"
abbreviation (input) APA_IO_MODE_WRITE :: nat where "APA_IO_MODE_WRITE \<equiv> 1"

type_synonym apa_header_t = words

record apa_cache_t =
  c_next :: nat
  c_tail :: nat
  c_flags :: u16
  c_nused :: u16
  c_device :: u32
  c_sector :: u32
  c_header :: apa_header_t

text \<open>Word offsets of \<open>apa_journal_t\<close>: the magic, the number of logged headers, their sectors.\<close>

type_synonym apa_journal_t = words

abbreviation (input) J_MAGIC :: nat where "J_MAGIC \<equiv> 0"
abbreviation (input) J_NUM :: nat where "J_NUM \<equiv> 1"
abbreviation (input) J_SECTORS :: nat where "J_SECTORS \<equiv> 2"

section \<open>Parameters and state\<close>

text \<open>
  What the code calls outside the library: \<open>ata_device_sector_io\<close> in its two directions and
  \<open>ata_device_flush_cache\<close> (\<open>True\<close> for a zero result), \<open>sceCdReadClock\<close> with the resulting
  \<open>sceCdCLOCK\<close>, and \<open>AllocSysMemory\<close> (whether a request of that many bytes succeeds).
\<close>

record 'd ata_ops =
  io_read :: "u32 \<Rightarrow> u32 \<Rightarrow> nat \<Rightarrow> 'd \<Rightarrow> bool \<times> words \<times> 'd"
  io_write :: "u32 \<Rightarrow> words \<Rightarrow> u32 \<Rightarrow> nat \<Rightarrow> 'd \<Rightarrow> bool \<times> 'd"
  io_flush :: "u32 \<Rightarrow> 'd \<Rightarrow> bool \<times> 'd"
  io_clock :: "'d \<Rightarrow> int \<times> cd_clock \<times> 'd"
  sys_alloc :: "nat \<Rightarrow> bool"

record 'd apa_state =
  cacheBuf :: "nat \<Rightarrow> apa_cache_t"
  cacheSize :: nat
  journalBuf :: apa_journal_t
  timeBuf :: words
  dev :: 'd

text \<open>The assignment \<open>cacheBuf[i].f = v\<close>, with \<open>f\<close> the update of the field.\<close>

definition upd_c :: "nat \<Rightarrow> (apa_cache_t \<Rightarrow> apa_cache_t) \<Rightarrow> 'd apa_state \<Rightarrow> 'd apa_state" where
  "upd_c i f s = s\<lparr>cacheBuf := (cacheBuf s)(i := f (cacheBuf s i))\<rparr>"

section \<open>Header transfer\<close>

definition apaMBRMagic :: string where
  "apaMBRMagic = ''Sony Computer Entertainment Inc.''"

definition apaCheckSum :: "apa_header_t \<Rightarrow> u32" where
  "apaCheckSum h = fold (\<lambda>i sum. sum + h i) [1..<256] 0"

definition apaReadHeader ::
    "'d ata_ops \<Rightarrow> u32 \<Rightarrow> u32 \<Rightarrow> 'd \<Rightarrow> int \<times> apa_header_t \<times> 'd" where
  "apaReadHeader A device lba d =
     (case io_read A device lba 2 d of (ok, h, d') \<Rightarrow>
        (if \<not> ok then (- EIO, h, d')
         else if h H_MAGIC \<noteq> APA_MAGIC then (- EIO, h, d')
         else if apaCheckSum h \<noteq> h H_CHECKSUM then (- EIO, h, d')
         else if lba = APA_SECTOR_MBR
           then (if strncmp_eq (\<lambda>k. byte_at h (4 * H_MBR_MAGIC + k)) (str_byte apaMBRMagic) 32
                 then (0, h, d') else (- EIO, h, d'))
         else (0, h, d')))"

definition apaWriteHeader ::
    "'d ata_ops \<Rightarrow> u32 \<Rightarrow> apa_header_t \<Rightarrow> u32 \<Rightarrow> 'd \<Rightarrow> int \<times> 'd" where
  "apaWriteHeader A device h lba d =
     (case io_write A device h lba 2 d of (ok, d') \<Rightarrow> (if \<not> ok then - EIO else 0, d'))"

text \<open>\<open>apaSaveError\<close> clears the first 512 bytes of the buffer it is given and writes them.\<close>

definition apaSaveError ::
    "'d ata_ops \<Rightarrow> u32 \<Rightarrow> words \<Rightarrow> u32 \<Rightarrow> u32 \<Rightarrow> 'd \<Rightarrow> words \<times> 'd" where
  "apaSaveError A device buffer lba err_lba d =
     (let buffer = (copy_words buffer 0 (\<lambda>_. 0) 128)(0 := err_lba);
          d = snd (io_write A device buffer lba 1 d)
      in (buffer, snd (io_flush A device d)))"

section \<open>The free list\<close>

definition apaCacheLink :: "nat \<Rightarrow> nat \<Rightarrow> 'd apa_state \<Rightarrow> 'd apa_state" where
  "apaCacheLink clink cnew s =
     (let s = upd_c cnew (c_tail_update (\<lambda>_. clink)) s;
          s = upd_c cnew (c_next_update (\<lambda>_. c_next (cacheBuf s clink))) s;
          s = upd_c (c_next (cacheBuf s clink)) (c_tail_update (\<lambda>_. cnew)) s
      in upd_c clink (c_next_update (\<lambda>_. cnew)) s)"

definition apaCacheUnLink :: "nat \<Rightarrow> 'd apa_state \<Rightarrow> 'd apa_state" where
  "apaCacheUnLink clink s =
     (let s = upd_c (c_tail (cacheBuf s clink)) (c_next_update (\<lambda>_. c_next (cacheBuf s clink))) s
      in upd_c (c_next (cacheBuf s clink)) (c_tail_update (\<lambda>_. c_tail (cacheBuf s clink))) s)"

definition apaCacheInit :: "'d ata_ops \<Rightarrow> u32 \<Rightarrow> 'd apa_state \<Rightarrow> int \<times> 'd apa_state" where
  "apaCacheInit A sz s =
     (let s = s\<lparr>cacheSize := unat sz\<rparr> in
      if \<not> sys_alloc A (unat (sz * 1024)) then (- ENOMEM, s)
      else if \<not> sys_alloc A (unat ((sz + 1) * 24)) then (- ENOMEM, s)
      else
        let s = s\<lparr>cacheBuf := (\<lambda>i. \<lparr>c_next = 0, c_tail = 0, c_flags = 0, c_nused = 0,
                    c_device = 0, c_sector = 0, c_header = c_header (cacheBuf s i)\<rparr>)\<rparr>
        in (0, fold (\<lambda>i s.
               let s = upd_c i (c_device_update (\<lambda>_. -1)) s
               in apaCacheLink (c_tail (cacheBuf s 0)) i s) [1..<unat (sz + 1)] s))"

section \<open>Transfers, journal and flush\<close>

definition apaCacheTransfer ::
    "'d ata_ops \<Rightarrow> nat \<Rightarrow> nat \<Rightarrow> 'd apa_state \<Rightarrow> int \<times> 'd apa_state" where
  "apaCacheTransfer A clink type s =
     (let c = cacheBuf s clink;
          (err, s) =
            (if type \<noteq> 0
             then (case apaWriteHeader A (c_device c) (c_header c) (c_sector c) (dev s) of
                     (err, d) \<Rightarrow> (err, s\<lparr>dev := d\<rparr>))
             else (case apaReadHeader A (c_device c) (c_sector c) (dev s) of
                     (err, h, d) \<Rightarrow> (err, upd_c clink (c_header_update (\<lambda>_. h)) (s\<lparr>dev := d\<rparr>))));
          s = (if err \<noteq> 0 \<and> type = 0
               then (case apaSaveError A (c_device c) (c_header (cacheBuf s clink))
                            APA_SECTOR_SECTOR_ERROR (c_sector c) (dev s) of
                       (h, d) \<Rightarrow> upd_c clink (c_header_update (\<lambda>_. h)) (s\<lparr>dev := d\<rparr>))
               else s)
      in (err, upd_c clink (c_flags_update (\<lambda>f. f AND NOT APA_CACHE_FLAG_DIRTY)) s))"

definition apaCacheFlushDirty :: "'d ata_ops \<Rightarrow> nat \<Rightarrow> 'd apa_state \<Rightarrow> 'd apa_state" where
  "apaCacheFlushDirty A clink s =
     (if c_flags (cacheBuf s clink) AND APA_CACHE_FLAG_DIRTY \<noteq> 0
      then snd (apaCacheTransfer A clink APA_IO_MODE_WRITE s) else s)"

definition apaJournalFlush :: "'d ata_ops \<Rightarrow> u32 \<Rightarrow> 'd apa_state \<Rightarrow> int \<times> 'd apa_state" where
  "apaJournalFlush A device s =
     (case io_flush A device (dev s) of (ok, d) \<Rightarrow>
        if \<not> ok then (- EIO, s\<lparr>dev := d\<rparr>)
        else (case io_write A device (journalBuf s) APA_SECTOR_APAL 1 d of (ok, d) \<Rightarrow>
          if \<not> ok then (- EIO, s\<lparr>dev := d\<rparr>)
          else (case io_flush A device d of (ok, d) \<Rightarrow>
            if \<not> ok then (- EIO, s\<lparr>dev := d\<rparr>) else (0, s\<lparr>dev := d\<rparr>))))"

definition apaJournalReset :: "'d ata_ops \<Rightarrow> u32 \<Rightarrow> 'd apa_state \<Rightarrow> int \<times> 'd apa_state" where
  "apaJournalReset A device s =
     apaJournalFlush A device (s\<lparr>journalBuf := (\<lambda>_. 0)(J_MAGIC := APAL_MAGIC)\<rparr>)"

text \<open>
  The journal has room for 126 headers; storing a sector number behind its end has no defined
  result.
\<close>

definition apaJournalWrite ::
    "'d ata_ops \<Rightarrow> nat \<Rightarrow> 'd apa_state \<Rightarrow> (int \<times> 'd apa_state) option" where
  "apaJournalWrite A clink s =
     (let s = upd_c clink (\<lambda>c. c\<lparr>c_header :=
                (c_header c)(H_CHECKSUM := apaCheckSum (c_header c))\<rparr>) s;
          c = cacheBuf s clink; num = journalBuf s J_NUM
      in case io_write A (c_device c) (c_header c)
                (push_bit 1 num + APA_SECTOR_APAL_HEADERS) 2 (dev s) of (ok, d) \<Rightarrow>
           if \<not> ok then Some (- EIO, s\<lparr>dev := d\<rparr>)
           else if \<not> unat num < 126 then None
           else Some (0, s\<lparr>dev := d,
                  journalBuf := (journalBuf s)(J_SECTORS + unat num := c_sector c, J_NUM := num + 1)\<rparr>))"

definition is_dirty :: "u32 \<Rightarrow> apa_cache_t \<Rightarrow> bool" where
  "is_dirty device c \<longleftrightarrow> c_flags c AND APA_CACHE_FLAG_DIRTY \<noteq> 0 \<and> c_device c = device"

definition apaCacheFlushAllDirty ::
    "'d ata_ops \<Rightarrow> u32 \<Rightarrow> 'd apa_state \<Rightarrow> (int \<times> 'd apa_state) option" where
  "apaCacheFlushAllDirty A device s =
     do {
       s \<leftarrow> foldO (\<lambda>i s. if is_dirty device (cacheBuf s i)
                        then map_option snd (apaJournalWrite A i s) else Some s)
              (slots (cacheSize s)) s;
       let s = snd (apaJournalFlush A device s);
       let s = fold (\<lambda>i s. if is_dirty device (cacheBuf s i)
                           then snd (apaCacheTransfer A i APA_IO_MODE_WRITE s) else s)
                 (slots (cacheSize s)) s;
       Some (apaJournalReset A device s)
     }"

section \<open>Getting and releasing entries\<close>

text \<open>The test for an empty free list.\<close>

definition free_list_empty :: "'d apa_state \<Rightarrow> bool" where
  "free_list_empty s \<longleftrightarrow> c_tail (cacheBuf s 0) = 0 \<and>
     c_tail (cacheBuf s 0) = c_next (cacheBuf s (c_tail (cacheBuf s 0)))"

definition apaCacheGetHeader ::
    "'d ata_ops \<Rightarrow> u32 \<Rightarrow> u32 \<Rightarrow> nat \<Rightarrow> 'd apa_state \<Rightarrow> int \<times> nat option \<times> 'd apa_state" where
  "apaCacheGetHeader A device sector mode s =
     (case find (\<lambda>i. c_sector (cacheBuf s i) = sector \<and> c_device (cacheBuf s i) = device)
             (slots (cacheSize s)) of
        Some clink \<Rightarrow>
          let s = (if c_nused (cacheBuf s clink) = 0 then apaCacheUnLink clink s else s)
          in (0, Some clink, upd_c clink (c_nused_update (\<lambda>n. n + 1)) s)
      | None \<Rightarrow>
          if free_list_empty s then (- ENOMEM, None, s)
          else
            let clink = c_next (cacheBuf s 0);
                s = upd_c clink (\<lambda>c. c\<lparr>c_flags := 0, c_nused := 1, c_device := device,
                                       c_sector := sector\<rparr>) s;
                s = apaCacheUnLink clink s
            in if mode = 0
               then (case apaCacheTransfer A clink APA_IO_MODE_READ s of (result, s) \<Rightarrow>
                       if result < 0
                       then (result, None, apaCacheLink 0 clink
                               (upd_c clink (\<lambda>c. c\<lparr>c_nused := 0, c_device := -1\<rparr>) s))
                       else (result, Some clink, s))
               else (0, Some clink, s))"

definition apaCacheFree :: "nat option \<Rightarrow> 'd apa_state \<Rightarrow> 'd apa_state" where
  "apaCacheFree p s =
     (case p of
        None \<Rightarrow> s
      | Some clink \<Rightarrow>
          if c_nused (cacheBuf s clink) = 0 then s
          else
            let s = upd_c clink (c_nused_update (\<lambda>n. n - 1)) s
            in if c_nused (cacheBuf s clink) = 0
               then apaCacheLink (c_tail (cacheBuf s 0)) clink s else s)"

definition apaCacheAlloc :: "'d apa_state \<Rightarrow> nat option \<times> 'd apa_state" where
  "apaCacheAlloc s =
     (if free_list_empty s then (None, s)
      else
        let cnext = c_next (cacheBuf s 0);
            s = upd_c cnext (\<lambda>c. c\<lparr>c_nused := 1, c_flags := 0, c_device := -1, c_sector := -1\<rparr>) s
        in (Some cnext, apaCacheUnLink cnext s))"

definition apaJournalRestore ::
    "'d ata_ops \<Rightarrow> u32 \<Rightarrow> 'd apa_state \<Rightarrow> (int \<times> 'd apa_state) option" where
  "apaJournalRestore A device s =
     (case io_read A device APA_SECTOR_APAL 1 (dev s) of (ok, w, d) \<Rightarrow>
        let s = s\<lparr>journalBuf := copy_words (journalBuf s) 0 w 128, dev := d\<rparr> in
        if \<not> ok then Some (- EIO, snd (apaJournalReset A device s))
        else if journalBuf s J_MAGIC = APAL_MAGIC then
          (if journalBuf s J_NUM = 0 then Some (0, s)
           else case apaCacheAlloc s of
               (None, s) \<Rightarrow> None
             | (Some clink, s) \<Rightarrow>
                 do {
                   (go, s) \<leftarrow> foldO (\<lambda>i (go, s).
                       if \<not> go then Some (False, s)
                       else case io_read A device (APA_SECTOR_APAL_HEADERS + 2 * of_nat i) 2 (dev s) of
                         (ok, h, d) \<Rightarrow>
                           let s = upd_c clink (c_header_update (\<lambda>_. h)) (s\<lparr>dev := d\<rparr>) in
                           if \<not> ok then Some (False, s)
                           else if \<not> i < 126 then None
                           else case io_write A device (c_header (cacheBuf s clink))
                                       (journalBuf s (J_SECTORS + i)) 2 (dev s) of
                             (ok, d) \<Rightarrow> Some (ok, s\<lparr>dev := d\<rparr>))
                     [0..<nat (sint (journalBuf s J_NUM))] (True, s);
                   let s = apaCacheFree (Some clink) s;
                   Some (apaJournalReset A device s)
                 })
        else Some (0, s\<lparr>journalBuf := (\<lambda>_. 0)(J_MAGIC := APAL_MAGIC)\<rparr>))"

end
