(* ===== verification/AtaDisk.thy ===== *)
theory AtaDisk
  imports ApaCache
begin

text \<open>
  What the APA code relies on of the drive behind the ATA driver, as one predicate on the
  parameter \<open>ata_ops\<close>. The drive may buffer writes: it promises that a sector is on the medium
  only after a successful flush. Until then a power failure leaves any of the contents written
  since the last flush, or the one before them, sector by sector.
\<close>

section \<open>Laws of a drive\<close>

text \<open>The 128 words of sector \<open>k\<close> of a buffer.\<close>

definition sect :: "words \<Rightarrow> nat \<Rightarrow> words" where
  "sect w k i = (if i < 128 then w (128 * k + i) else 0)"

definition put_sectors ::
    "(u32 \<Rightarrow> u32 \<Rightarrow> words) \<Rightarrow> u32 \<Rightarrow> u32 \<Rightarrow> nat \<Rightarrow> words \<Rightarrow> u32 \<Rightarrow> u32 \<Rightarrow> words" where
  "put_sectors c dv lba n w x l =
     (if x = dv \<and> unat (l - lba) < n then sect w (unat (l - lba)) else c x l)"

definition put_poss ::
    "(u32 \<Rightarrow> u32 \<Rightarrow> words set) \<Rightarrow> u32 \<Rightarrow> u32 \<Rightarrow> nat \<Rightarrow> words \<Rightarrow> u32 \<Rightarrow> u32 \<Rightarrow> words set" where
  "put_poss p dv lba n w x l =
     (if x = dv \<and> unat (l - lba) < n then insert (sect w (unat (l - lba))) (p x l) else p x l)"

text \<open>
  \<open>cur d\<close> is what reads return, \<open>poss d\<close> the contents each sector may have after a power failure
  now, \<open>off d\<close> that power is lost: from then on every command fails and nothing changes. A write
  that fails is one that power loss cut short, after some of its sectors.
\<close>

definition read_spec where
  "read_spec cur poss off dv lba n d ok w d' \<longleftrightarrow>
     cur d' = cur d \<and> poss d' = poss d \<and> off d' = off d \<and> (ok \<longrightarrow> \<not> off d \<and>
     (\<forall>i<128 * n. (w :: words) i = cur d (dv :: u32) ((lba :: u32) + of_nat (i div 128)) (i mod 128)))"

definition write_spec where
  "write_spec cur poss off dv w lba n d ok d' \<longleftrightarrow>
     (off d \<longrightarrow> \<not> ok \<and> poss d' = poss d) \<and>
     (ok \<longrightarrow> \<not> off d' \<and> cur d' = put_sectors (cur d) dv lba n w \<and>
            poss d' = put_poss (poss d) dv lba n w) \<and>
     (\<not> ok \<longrightarrow> off d' \<and> (\<forall>x l. poss d' x l \<subseteq> put_poss (poss d) dv lba n w x l))"

definition flush_spec where
  "flush_spec cur poss off dv d ok d' \<longleftrightarrow>
     (off d \<longrightarrow> \<not> ok \<and> poss d' = poss d) \<and>
     (ok \<longrightarrow> \<not> off d' \<and> cur d' = cur d \<and>
            poss d' = (poss d)((dv :: u32) := (\<lambda>l :: u32. {cur d dv l}))) \<and>
     (\<not> ok \<longrightarrow> off d' \<and> (\<forall>x l. poss d' x l \<subseteq> poss d x l))"

definition disk_laws :: "'d ata_ops \<Rightarrow> ('d \<Rightarrow> u32 \<Rightarrow> u32 \<Rightarrow> words) \<Rightarrow>
    ('d \<Rightarrow> u32 \<Rightarrow> u32 \<Rightarrow> words set) \<Rightarrow> ('d \<Rightarrow> bool) \<Rightarrow> bool" where
  "disk_laws A cur poss off \<longleftrightarrow>
     (\<forall>dv lba n d ok w d'. io_read A dv lba n d = (ok, w, d') \<longrightarrow>
        read_spec cur poss off dv lba n d ok w d') \<and>
     (\<forall>dv w lba n d ok d'. io_write A dv w lba n d = (ok, d') \<longrightarrow>
        write_spec cur poss off dv w lba n d ok d') \<and>
     (\<forall>dv d ok d'. io_flush A dv d = (ok, d') \<longrightarrow> flush_spec cur poss off dv d ok d')"

text \<open>A drive whose reads fail only without power.\<close>

definition reads_ok :: "'d ata_ops \<Rightarrow> ('d \<Rightarrow> bool) \<Rightarrow> bool" where
  "reads_ok A off \<longleftrightarrow> (\<forall>dv lba n d. off d \<or> fst (io_read A dv lba n d))"

section \<open>A drive with a write cache\<close>

text \<open>
  An instance of the parameter: a drive in memory that loses power in the command with number
  \<open>rd_left\<close>, counting writes and flushes. Reading a header costs nothing.
\<close>

record ram =
  rd_cur :: "u32 \<Rightarrow> u32 \<Rightarrow> words"
  rd_poss :: "u32 \<Rightarrow> u32 \<Rightarrow> words set"
  rd_left :: nat

definition ram_off :: "ram \<Rightarrow> bool" where
  "ram_off d \<longleftrightarrow> rd_left d = 0"

definition ram_write :: "u32 \<Rightarrow> words \<Rightarrow> u32 \<Rightarrow> nat \<Rightarrow> ram \<Rightarrow> bool \<times> ram" where
  "ram_write dv w lba n d =
     (if rd_left d = 0 then (False, d)
      else if rd_left d = 1 then (False, d\<lparr>rd_poss := put_poss (rd_poss d) dv lba n w, rd_left := 0\<rparr>)
      else (True, d\<lparr>rd_cur := put_sectors (rd_cur d) dv lba n w,
                    rd_poss := put_poss (rd_poss d) dv lba n w, rd_left := rd_left d - 1\<rparr>))"

definition ram_flush :: "u32 \<Rightarrow> ram \<Rightarrow> bool \<times> ram" where
  "ram_flush dv d =
     (if rd_left d \<le> 1 then (False, d\<lparr>rd_left := 0\<rparr>)
      else (True, d\<lparr>rd_poss := (rd_poss d)(dv := (\<lambda>l. {rd_cur d dv l})), rd_left := rd_left d - 1\<rparr>))"

definition ram_ops :: "ram ata_ops" where
  "ram_ops = \<lparr>io_read = (\<lambda>dv lba n d.
       (0 < rd_left d, (\<lambda>i. rd_cur d dv (lba + of_nat (i div 128)) (i mod 128)), d)),
     io_write = ram_write, io_flush = ram_flush,
     io_clock = (\<lambda>d. (0, \<lparr>ck_stat = 0, ck_second = 0, ck_minute = 0, ck_hour = 0, ck_day = 1,
       ck_month = 1, ck_year = 0\<rparr>, d)),
     sys_alloc = (\<lambda>_. True)\<rparr>"

definition ram_disk :: "(u32 \<Rightarrow> words) \<Rightarrow> nat \<Rightarrow> ram" where
  "ram_disk im n = \<lparr>rd_cur = (\<lambda>_. im), rd_poss = (\<lambda>_ l. {im l}), rd_left = n\<rparr>"

text \<open>The state of the library before it is initialised.\<close>

definition boot_state :: "'d \<Rightarrow> 'd apa_state" where
  "boot_state d = \<lparr>cacheBuf = (\<lambda>_. \<lparr>c_next = 0, c_tail = 0, c_flags = 0, c_nused = 0, c_device = 0,
       c_sector = 0, c_header = (\<lambda>_. 0)\<rparr>), cacheSize = 0, journalBuf = (\<lambda>_. 0), timeBuf = (\<lambda>_. 0),
     dev = d\<rparr>"

section \<open>Consequences\<close>

lemma ram_laws: "disk_laws ram_ops rd_cur rd_poss ram_off"
  by (auto simp: disk_laws_def ram_ops_def ram_write_def ram_flush_def ram_off_def
      read_spec_def write_spec_def flush_spec_def put_poss_def split: if_splits)

lemma ram_reads_ok: "reads_ok ram_ops ram_off"
  by (auto simp: reads_ok_def ram_ops_def ram_off_def)

lemma unat_diff_2: "unat (l - a :: u32) < 2 \<longleftrightarrow> l = a \<or> l = a + 1"
proof -
  have "unat (l - a) < 2 \<longleftrightarrow> unat (l - a) = 0 \<or> unat (l - a) = 1" by linarith
  also have "\<dots> \<longleftrightarrow> l - a = 0 \<or> l - a = 1" by (simp add: word_unat_eq_iff)
  finally show ?thesis by (auto simp: algebra_simps)
qed

lemma unat_diff_1: "unat (l - a :: u32) < 1 \<longleftrightarrow> l = a"
  by (simp add: unat_eq_0)

lemma put_sectors_1 [simp]: "put_sectors c dv a 1 w = c(dv := (c dv)(a := sect w 0))"
  unfolding put_sectors_def fun_eq_iff unat_diff_1 by auto

lemma put_sectors_Suc0 [simp]: "put_sectors c dv a (Suc 0) w = c(dv := (c dv)(a := sect w 0))"
  using put_sectors_1 by simp

lemma put_sectors_2 [simp]:
  "put_sectors c dv a 2 w = c(dv := (c dv)(a := sect w 0, a + 1 := sect w 1))"
  unfolding put_sectors_def fun_eq_iff unat_diff_2 by auto

lemma put_poss_1 [simp]: "put_poss p dv a 1 w = p(dv := (p dv)(a := insert (sect w 0) (p dv a)))"
  unfolding put_poss_def fun_eq_iff unat_diff_1 by auto

lemma put_poss_Suc0 [simp]: "put_poss p dv a (Suc 0) w = p(dv := (p dv)(a := insert (sect w 0) (p dv a)))"
  using put_poss_1 by simp

lemma put_poss_2 [simp]:
  "put_poss p dv a 2 w =
     p(dv := (p dv)(a := insert (sect w 0) (p dv a), a + 1 := insert (sect w 1) (p dv (a + 1))))"
  unfolding put_poss_def fun_eq_iff unat_diff_2 by auto

text \<open>The laws as rules for the calls the code makes, with the device's effect read off the result.\<close>

lemma read_law:
  assumes "disk_laws A cur poss off" "io_read A dv lba n d = (ok, w, d')"
  shows "cur d' = cur d" "poss d' = poss d" "off d' = off d" "ok \<Longrightarrow> \<not> off d"
    "ok \<Longrightarrow> i < 128 * n \<Longrightarrow> w i = cur d dv (lba + of_nat (i div 128)) (i mod 128)"
proof -
  from assms have "read_spec cur poss off dv lba n d ok w d'" unfolding disk_laws_def by blast
  then show "cur d' = cur d" "poss d' = poss d" "off d' = off d" "ok \<Longrightarrow> \<not> off d"
    "ok \<Longrightarrow> i < 128 * n \<Longrightarrow> w i = cur d dv (lba + of_nat (i div 128)) (i mod 128)"
    by (auto simp: read_spec_def)
qed

lemma write_law:
  assumes "disk_laws A cur poss off" "io_write A dv w lba n d = (ok, d')"
  shows "off d \<Longrightarrow> \<not> ok" "off d \<Longrightarrow> poss d' = poss d" "off d' \<longleftrightarrow> \<not> ok"
    "ok \<Longrightarrow> cur d' = put_sectors (cur d) dv lba n w"
    "ok \<Longrightarrow> poss d' = put_poss (poss d) dv lba n w"
    "poss d' x l \<subseteq> put_poss (poss d) dv lba n w x l"
proof -
  from assms have "write_spec cur poss off dv w lba n d ok d'" unfolding disk_laws_def by blast
  then show "off d \<Longrightarrow> \<not> ok" "off d \<Longrightarrow> poss d' = poss d" "off d' \<longleftrightarrow> \<not> ok"
    "ok \<Longrightarrow> cur d' = put_sectors (cur d) dv lba n w"
    "ok \<Longrightarrow> poss d' = put_poss (poss d) dv lba n w"
    "poss d' x l \<subseteq> put_poss (poss d) dv lba n w x l"
    by (cases ok; simp add: write_spec_def)+
qed

lemma flush_law:
  assumes "disk_laws A cur poss off" "io_flush A dv d = (ok, d')"
  shows "off d \<Longrightarrow> \<not> ok" "off d \<Longrightarrow> poss d' = poss d" "off d' \<longleftrightarrow> \<not> ok"
    "ok \<Longrightarrow> cur d' = cur d" "ok \<Longrightarrow> poss d' = (poss d)(dv := (\<lambda>l. {cur d dv l}))"
    "\<not> ok \<Longrightarrow> poss d' x l \<subseteq> poss d x l"
proof -
  from assms have "flush_spec cur poss off dv d ok d'" unfolding disk_laws_def by blast
  then show "off d \<Longrightarrow> \<not> ok" "off d \<Longrightarrow> poss d' = poss d" "off d' \<longleftrightarrow> \<not> ok"
    "ok \<Longrightarrow> cur d' = cur d" "ok \<Longrightarrow> poss d' = (poss d)(dv := (\<lambda>l. {cur d dv l}))"
    "\<not> ok \<Longrightarrow> poss d' x l \<subseteq> poss d x l"
    by (cases ok; simp add: flush_spec_def)+
qed

lemma sect_join: "i < 256 \<Longrightarrow> sect w (i div 128) (i mod 128) = w i"
  by (simp add: sect_def)

end
