(* ===== verification/ApaLru.thy ===== *)
theory ApaLru
  imports AtaDisk
begin

text \<open>
  What the header cache of iop/hdd/libapa/src/cache.c promises: the ring of free entries never
  breaks, an entry is on it exactly while nobody holds it, and getting, releasing and allocating
  entries are the operations of a least-recently-used pool.
\<close>

section \<open>The free list is a ring\<close>

definition apa_nx :: "'d apa_state \<Rightarrow> nat \<Rightarrow> nat" where
  "apa_nx s i = c_next (cacheBuf s i)"

definition apa_pv :: "'d apa_state \<Rightarrow> nat \<Rightarrow> nat" where
  "apa_pv s i = c_tail (cacheBuf s i)"

interpretation aring: linked_ring apa_nx apa_pv apaCacheLink apaCacheUnLink
proof
  fix c n :: nat and s :: "'d apa_state"
  assume "c \<noteq> n"
  then show "apa_nx (apaCacheLink c n s) = (apa_nx s)(n := apa_nx s c, c := n)"
    and "apa_pv (apaCacheLink c n s) = (apa_pv s)(n := c, apa_nx s c := n)"
    by (auto simp: fun_eq_iff apa_nx_def apa_pv_def apaCacheLink_def upd_c_def Let_def)
next
  fix c :: nat and s :: "'d apa_state"
  assume "apa_pv s c \<noteq> c"
  then show "apa_nx (apaCacheUnLink c s) = (apa_nx s)(apa_pv s c := apa_nx s c)"
    and "apa_pv (apaCacheUnLink c s) = (apa_pv s)(apa_nx s c := apa_pv s c)"
    by (auto simp: fun_eq_iff apa_nx_def apa_pv_def apaCacheUnLink_def upd_c_def Let_def)
qed

lemma link_data [simp]:
  "c_flags (cacheBuf (apaCacheLink c n s) i) = c_flags (cacheBuf s i)"
  "c_nused (cacheBuf (apaCacheLink c n s) i) = c_nused (cacheBuf s i)"
  "c_device (cacheBuf (apaCacheLink c n s) i) = c_device (cacheBuf s i)"
  "c_sector (cacheBuf (apaCacheLink c n s) i) = c_sector (cacheBuf s i)"
  "c_header (cacheBuf (apaCacheLink c n s) i) = c_header (cacheBuf s i)"
  "cacheSize (apaCacheLink c n s) = cacheSize s"
  "journalBuf (apaCacheLink c n s) = journalBuf s"
  "dev (apaCacheLink c n s) = dev s"
  by (auto simp: apaCacheLink_def upd_c_def Let_def)

lemma unlink_data [simp]:
  "c_flags (cacheBuf (apaCacheUnLink c s) i) = c_flags (cacheBuf s i)"
  "c_nused (cacheBuf (apaCacheUnLink c s) i) = c_nused (cacheBuf s i)"
  "c_device (cacheBuf (apaCacheUnLink c s) i) = c_device (cacheBuf s i)"
  "c_sector (cacheBuf (apaCacheUnLink c s) i) = c_sector (cacheBuf s i)"
  "c_header (cacheBuf (apaCacheUnLink c s) i) = c_header (cacheBuf s i)"
  "cacheSize (apaCacheUnLink c s) = cacheSize s"
  "journalBuf (apaCacheUnLink c s) = journalBuf s"
  "dev (apaCacheUnLink c s) = dev s"
  by (auto simp: apaCacheUnLink_def upd_c_def Let_def)

text \<open>An update of an entry that leaves its links alone leaves the ring alone.\<close>

definition keeps_links :: "(apa_cache_t \<Rightarrow> apa_cache_t) \<Rightarrow> bool" where
  "keeps_links f \<longleftrightarrow> (\<forall>c. c_next (f c) = c_next c \<and> c_tail (f c) = c_tail c)"

lemma upd_c_data [simp]:
  "cacheSize (upd_c i f s) = cacheSize s"
  "journalBuf (upd_c i f s) = journalBuf s"
  "dev (upd_c i f s) = dev s"
  "cacheBuf (upd_c i f s) = (cacheBuf s)(i := f (cacheBuf s i))"
  by (simp_all add: upd_c_def)

lemma upd_c_links [simp]:
  "keeps_links f \<Longrightarrow> apa_nx (upd_c i f s) = apa_nx s"
  "keeps_links f \<Longrightarrow> apa_pv (upd_c i f s) = apa_pv s"
  by (auto simp: fun_eq_iff apa_nx_def apa_pv_def keeps_links_def)

lemma keeps_links_fields [simp]:
  "keeps_links (c_flags_update g)" "keeps_links (c_nused_update h)"
  "keeps_links (c_device_update k)" "keeps_links (c_header_update m)"
  "keeps_links (\<lambda>c. c\<lparr>c_flags := a, c_nused := n, c_device := d, c_sector := e\<rparr>)"
  "keeps_links (\<lambda>c. c\<lparr>c_nused := n, c_flags := a, c_device := d, c_sector := e\<rparr>)"
  "keeps_links (\<lambda>c. c\<lparr>c_nused := n, c_device := d\<rparr>)"
  by (simp_all add: keeps_links_def)

lemma dev_upd_links [simp]:
  "apa_nx (s\<lparr>dev := d\<rparr>) = apa_nx s" "apa_pv (s\<lparr>dev := d\<rparr>) = apa_pv s"
  "apa_nx (s\<lparr>journalBuf := j\<rparr>) = apa_nx s" "apa_pv (s\<lparr>journalBuf := j\<rparr>) = apa_pv s"
  by (auto simp: fun_eq_iff apa_nx_def apa_pv_def)

text \<open>
  The invariant of the cache: the free list is a ring of the entries in use by nobody, in the
  order in which they will be handed out.
\<close>

definition cache_inv :: "nat list \<Rightarrow> 'd apa_state \<Rightarrow> bool" where
  "cache_inv xs s \<longleftrightarrow> is_ring (apa_nx s) (apa_pv s) xs \<and> set xs \<subseteq> {1..cacheSize s} \<and>
     (\<forall>i. 1 \<le> i \<and> i \<le> cacheSize s \<longrightarrow> (c_nused (cacheBuf s i) = 0 \<longleftrightarrow> i \<in> set xs))"

record lru =
  lru_free :: "nat list"
  lru_refs :: "nat \<Rightarrow> u16"
  lru_key :: "nat \<Rightarrow> u32 \<times> u32"

definition lru_of :: "nat list \<Rightarrow> 'd apa_state \<Rightarrow> lru" where
  "lru_of xs s = \<lparr>lru_free = xs, lru_refs = (\<lambda>i. c_nused (cacheBuf s i)),
     lru_key = (\<lambda>i. (c_device (cacheBuf s i), c_sector (cacheBuf s i)))\<rparr>"

definition lru_get :: "nat \<Rightarrow> u32 \<times> u32 \<Rightarrow> bool \<Rightarrow> lru \<Rightarrow> nat option \<times> lru" where
  "lru_get n k ok a =
     (case find (\<lambda>i. lru_key a i = k) (slots n) of
        Some i \<Rightarrow> (Some i, a\<lparr>lru_free := (if lru_refs a i = 0 then remove1 i (lru_free a) else lru_free a),
                            lru_refs := (lru_refs a)(i := lru_refs a i + 1)\<rparr>)
      | None \<Rightarrow> (case lru_free a of
           [] \<Rightarrow> (None, a)
         | i # is \<Rightarrow> (if ok then (Some i, a\<lparr>lru_free := is, lru_refs := (lru_refs a)(i := 1),
                                          lru_key := (lru_key a)(i := k)\<rparr>)
                     else (None, a\<lparr>lru_key := (lru_key a)(i := (-1, snd k))\<rparr>))))"

definition lru_put :: "nat \<Rightarrow> lru \<Rightarrow> lru" where
  "lru_put i a =
     (if lru_refs a i = 0 then a
      else a\<lparr>lru_refs := (lru_refs a)(i := lru_refs a i - 1),
             lru_free := (if lru_refs a i = 1 then lru_free a @ [i] else lru_free a)\<rparr>)"

definition lru_alloc :: "lru \<Rightarrow> nat option \<times> lru" where
  "lru_alloc a = (case lru_free a of [] \<Rightarrow> (None, a)
     | i # is \<Rightarrow> (Some i, a\<lparr>lru_free := is, lru_refs := (lru_refs a)(i := 1),
                          lru_key := (lru_key a)(i := (-1, -1))\<rparr>))"

lemma cache_inv_ring: "cache_inv xs s \<Longrightarrow> is_ring (apa_nx s) (apa_pv s) xs"
  by (simp add: cache_inv_def)

lemma free_list_empty_iff: "cache_inv xs s \<Longrightarrow> free_list_empty s \<longleftrightarrow> xs = []"
  using is_ring_test [of "apa_nx s" "apa_pv s" xs]
  by (simp add: cache_inv_def free_list_empty_def apa_nx_def apa_pv_def)

lemma cache_inv_head: "cache_inv (i # is) s \<Longrightarrow> c_next (cacheBuf s 0) = i"
  using is_ring_nx0 [of "apa_nx s" "apa_pv s" "i # is"] by (simp add: cache_inv_def apa_nx_def)

lemma transfer_links [simp]:
  "apa_nx (snd (apaCacheTransfer A c t s)) = apa_nx s"
  "apa_pv (snd (apaCacheTransfer A c t s)) = apa_pv s"
  by (auto simp: apaCacheTransfer_def Let_def split: prod.splits)

lemma transfer_data [simp]:
  "c_nused (cacheBuf (snd (apaCacheTransfer A c t s)) i) = c_nused (cacheBuf s i)"
  "c_device (cacheBuf (snd (apaCacheTransfer A c t s)) i) = c_device (cacheBuf s i)"
  "c_sector (cacheBuf (snd (apaCacheTransfer A c t s)) i) = c_sector (cacheBuf s i)"
  "cacheSize (snd (apaCacheTransfer A c t s)) = cacheSize s"
  "journalBuf (snd (apaCacheTransfer A c t s)) = journalBuf s"
  by (auto simp: apaCacheTransfer_def Let_def split: prod.splits)

lemma transfer_inv: "cache_inv xs s \<Longrightarrow> cache_inv xs (snd (apaCacheTransfer A c t s))"
  by (simp add: cache_inv_def)

text \<open>Taking the first free entry for use.\<close>

lemma take_first_inv:
  assumes "cache_inv (i # is) s" "keeps_links f" "\<And>c. c_nused (f c) \<noteq> 0"
  shows "cache_inv is (apaCacheUnLink i (upd_c i f s))"
proof -
  from assms have r: "is_ring (apa_nx (upd_c i f s)) (apa_pv (upd_c i f s)) (i # is)"
    by (simp add: cache_inv_def)
  from aring.unlink_out [OF r, of i] have "is_ring (apa_nx (apaCacheUnLink i (upd_c i f s)))
      (apa_pv (apaCacheUnLink i (upd_c i f s))) is" by simp
  with assms is_ring_distinct [OF r] show ?thesis
    by (auto simp: cache_inv_def)
qed

lemma get_hit:
  assumes inv: "cache_inv xs s"
    and found: "find (\<lambda>i. c_sector (cacheBuf s i) = sector \<and> c_device (cacheBuf s i) = device)
             (slots (cacheSize s)) = Some i"
    and room: "c_nused (cacheBuf s i) \<noteq> -1"
    and run: "apaCacheGetHeader A device sector mode s = (r, c, s')"
  shows "\<exists>ys. cache_inv ys s' \<and>
    lru_get (cacheSize s) (device, sector) (0 \<le> r) (lru_of xs s) = (c, lru_of ys s')"
proof -
  from found have i: "1 \<le> i" "i \<le> cacheSize s" by (auto dest: find_slots)
  from room have nz: "c_nused (cacheBuf s i) + 1 \<noteq> 0" by (metis eq_neg_iff_add_eq_0)
  show ?thesis
  proof (cases "c_nused (cacheBuf s i) = 0")
    case True
    with inv i have "i \<in> set xs" by (simp add: cache_inv_def)
    let ?t = "upd_c i (c_nused_update (\<lambda>n. n + 1)) (apaCacheUnLink i s)"
    from run found True have t: "s' = ?t" "c = Some i" by (auto simp: apaCacheGetHeader_def)
    have "cache_inv (remove1 i xs) ?t"
      using inv nz aring.unlink_out [OF cache_inv_ring [OF inv] \<open>i \<in> set xs\<close>]
        is_ring_distinct [OF cache_inv_ring [OF inv]]
      by (auto simp: cache_inv_def)
    moreover have "lru_get (cacheSize s) (device, sector) (0 \<le> r) (lru_of xs s) = (c, lru_of (remove1 i xs) s')"
      using found True t by (auto simp: lru_get_def lru_of_def conj_commute fun_eq_iff)
    ultimately show ?thesis using t by blast
  next
    case False
    let ?t = "upd_c i (c_nused_update (\<lambda>n. n + 1)) s"
    from run found False have t: "s' = ?t" "c = Some i" by (auto simp: apaCacheGetHeader_def)
    have "cache_inv xs ?t" using inv nz False by (auto simp: cache_inv_def)
    moreover have "lru_get (cacheSize s) (device, sector) (0 \<le> r) (lru_of xs s) = (c, lru_of xs s')"
      using found False t by (auto simp: lru_get_def lru_of_def conj_commute fun_eq_iff)
    ultimately show ?thesis using t by blast
  qed
qed

text \<open>
  A miss with a free entry \<open>i\<close>: the entry is taken for the sector; if its header cannot be read
  the entry goes back to the front of the list.
\<close>

lemma get_miss:
  assumes inv: "cache_inv (i # xs') s"
    and new: "find (\<lambda>i. c_sector (cacheBuf s i) = sector \<and> c_device (cacheBuf s i) = device)
             (slots (cacheSize s)) = None"
    and run: "apaCacheGetHeader A device sector mode s = (r, c, s')"
  shows "\<exists>ys. cache_inv ys s' \<and>
    lru_get (cacheSize s) (device, sector) (0 \<le> r) (lru_of (i # xs') s) = (c, lru_of ys s')"
proof -
  let ?f = "\<lambda>c. c\<lparr>c_flags := 0, c_nused := 1, c_device := device, c_sector := sector\<rparr>"
  let ?s1 = "apaCacheUnLink i (upd_c i ?f s)"
  from new have nf: "find (\<lambda>j. lru_key (lru_of (i # xs') s) j = (device, sector)) (slots (cacheSize s)) = None"
    by (simp add: lru_of_def conj_commute)
  from inv have inv1: "cache_inv xs' ?s1" by (auto intro!: take_first_inv)
  from inv have i: "i \<notin> set (0 # xs')" "i \<in> {1..cacheSize s}"
    using is_ring_distinct [OF cache_inv_ring [OF inv]] by (auto simp: cache_inv_def)
  from inv have ne: "\<not> free_list_empty s" "c_next (cacheBuf s 0) = i"
    by (auto simp: free_list_empty_iff dest: cache_inv_head)
  obtain r2 s2 where tr: "apaCacheTransfer A i 0 ?s1 = (r2, s2)" by fastforce
  have d2: "cache_inv xs' s2" "cacheSize s2 = cacheSize s"
    "\<And>j. c_nused (cacheBuf s2 j) = c_nused (cacheBuf ?s1 j)"
    "\<And>j. c_device (cacheBuf s2 j) = c_device (cacheBuf ?s1 j)"
    "\<And>j. c_sector (cacheBuf s2 j) = c_sector (cacheBuf ?s1 j)"
    using transfer_inv [OF inv1, of A i 0] transfer_data [of A i 0 ?s1] tr by auto
  consider "mode \<noteq> 0" "s' = ?s1" "c = Some i" "r = 0"
    | "0 \<le> r2" "s' = s2" "c = Some i" "r = r2"
    | "r2 < 0" "s' = apaCacheLink 0 i (upd_c i (\<lambda>c. c\<lparr>c_nused := 0, c_device := -1\<rparr>) s2)" "c = None" "r = r2"
    using run new ne tr by (auto simp: apaCacheGetHeader_def Let_def split: if_splits)
  then show ?thesis
  proof cases
    case 1
    with inv1 nf show ?thesis
      by (intro exI [of _ xs']) (auto simp: lru_get_def, auto simp: lru_of_def fun_eq_iff)
  next
    case 2
    with d2 nf show ?thesis
      by (intro exI [of _ xs']) (auto simp: lru_get_def, auto simp: lru_of_def fun_eq_iff)
  next
    case 3
    let ?s3 = "upd_c i (\<lambda>c. c\<lparr>c_nused := 0, c_device := -1\<rparr>) s2"
    have "is_ring (apa_nx ?s3) (apa_pv ?s3) xs'" using d2(1) by (simp add: cache_inv_def)
    from aring.link_head [OF this i(1)] have "cache_inv (i # xs') s'"
      using d2 i inv1 3 by (auto simp: cache_inv_def)
    moreover have "c_nused (cacheBuf s i) = 0" using inv i by (simp add: cache_inv_def)
    ultimately show ?thesis using 3 nf d2
      by (intro exI [of _ "i # xs'"]) (auto simp: lru_get_def, auto simp: lru_of_def fun_eq_iff)
  qed
qed

definition refs_below_max :: "'d apa_state \<Rightarrow> bool" where
  "refs_below_max s \<longleftrightarrow> list_all (\<lambda>i. c_nused (cacheBuf s i) \<noteq> -1) (slots (cacheSize s))"

lemma refs_below_maxD: "refs_below_max s \<Longrightarrow> 1 \<le> i \<Longrightarrow> i \<le> cacheSize s \<Longrightarrow> c_nused (cacheBuf s i) \<noteq> -1"
  by (simp add: refs_below_max_def list_all_iff)

lemma get_refines:
  assumes inv: "cache_inv xs s" and room: "refs_below_max s"
    and run: "apaCacheGetHeader A device sector mode s = (r, c, s')"
  shows "\<exists>ys. cache_inv ys s' \<and>
    lru_get (cacheSize s) (device, sector) (0 \<le> r) (lru_of xs s) = (c, lru_of ys s')"
proof (cases "find (\<lambda>i. c_sector (cacheBuf s i) = sector \<and> c_device (cacheBuf s i) = device)
             (slots (cacheSize s))")
  case (Some i)
  then have "1 \<le> i" "i \<le> cacheSize s" by (auto dest: find_slots)
  with get_hit [OF inv Some _ run] refs_below_maxD [OF room] show ?thesis by blast
next
  case None
  show ?thesis
  proof (cases xs)
    case Nil
    with run None inv have "s' = s" "c = None"
      by (auto simp: apaCacheGetHeader_def free_list_empty_iff)
    moreover have "find (\<lambda>i. lru_key (lru_of xs s) i = (device, sector)) (slots (cacheSize s)) = None"
      using None by (simp add: lru_of_def conj_commute)
    ultimately show ?thesis using inv Nil
      unfolding lru_get_def by (intro exI [of _ xs]) (simp add: lru_of_def)
  next
    case (Cons i xs')
    with get_miss inv None run show ?thesis by blast
  qed
qed

lemma free_refines:
  assumes inv: "cache_inv xs s" and i: "1 \<le> i" "i \<le> cacheSize s"
  shows "\<exists>ys. cache_inv ys (apaCacheFree (Some i) s) \<and>
    lru_put i (lru_of xs s) = lru_of ys (apaCacheFree (Some i) s)"
proof -
  let ?n = "c_nused (cacheBuf s i)" and ?t = "upd_c i (c_nused_update (\<lambda>n. n - 1)) s"
  have one: "?n - 1 = 0 \<longleftrightarrow> ?n = 1" by simp
  consider "?n = 0" | "?n = 1" | "?n \<noteq> 0" "?n \<noteq> 1" by blast
  then show ?thesis
  proof cases
    case 1
    with inv show ?thesis
      by (intro exI [of _ xs]) (simp add: apaCacheFree_def lru_put_def lru_of_def)
  next
    case 2
    then have f: "apaCacheFree (Some i) s = apaCacheLink (apa_pv ?t 0) i ?t"
      using i by (simp add: apaCacheFree_def apa_pv_def)
    from 2 i inv have "i \<notin> set (0 # xs)" by (auto simp: cache_inv_def)
    moreover from inv have "is_ring (apa_nx ?t) (apa_pv ?t) xs" by (simp add: cache_inv_def)
    ultimately have "is_ring (apa_nx (apaCacheFree (Some i) s)) (apa_pv (apaCacheFree (Some i) s)) (xs @ [i])"
      unfolding f by (intro aring.link_tail)
    then have "cache_inv (xs @ [i]) (apaCacheFree (Some i) s)"
      using inv i 2 unfolding f by (auto simp: cache_inv_def)
    moreover have "lru_put i (lru_of xs s) = lru_of (xs @ [i]) (apaCacheFree (Some i) s)"
      using 2 unfolding f by (auto simp: lru_put_def lru_of_def fun_eq_iff)
    ultimately show ?thesis by blast
  next
    case 3
    then have f: "apaCacheFree (Some i) s = ?t" by (simp add: apaCacheFree_def)
    from inv i 3 have "cache_inv xs ?t" by (auto simp: cache_inv_def)
    moreover have "lru_put i (lru_of xs s) = lru_of xs ?t"
      using 3 by (auto simp: lru_put_def lru_of_def fun_eq_iff)
    ultimately show ?thesis unfolding f by blast
  qed
qed

lemma alloc_refines:
  assumes inv: "cache_inv xs s" and run: "apaCacheAlloc s = (c, s')"
  shows "\<exists>ys. cache_inv ys s' \<and> lru_alloc (lru_of xs s) = (c, lru_of ys s')"
proof (cases xs)
  case Nil
  with inv run have "c = None" "s' = s" by (auto simp: apaCacheAlloc_def free_list_empty_iff)
  with inv Nil show ?thesis by (intro exI [of _ xs]) (simp add: lru_alloc_def lru_of_def)
next
  case (Cons i xs')
  let ?f = "\<lambda>c. c\<lparr>c_nused := 1, c_flags := 0, c_device := -1, c_sector := -1\<rparr>"
  from inv Cons have inv1: "cache_inv xs' (apaCacheUnLink i (upd_c i ?f s))"
    by (auto intro!: take_first_inv)
  from inv Cons run have "c = Some i" "s' = apaCacheUnLink i (upd_c i ?f s)"
    by (auto simp: apaCacheAlloc_def free_list_empty_iff Let_def dest: cache_inv_head)
  with inv1 Cons show ?thesis
    by (intro exI [of _ xs']) (auto simp: lru_alloc_def lru_of_def fun_eq_iff)
qed

section \<open>Initialisation\<close>

abbreviation init_step :: "nat \<Rightarrow> 'd apa_state \<Rightarrow> 'd apa_state" where
  "init_step \<equiv> (\<lambda>i s. let s = upd_c i (c_device_update (\<lambda>_. -1)) s
                in apaCacheLink (c_tail (cacheBuf s 0)) i s)"

lemma init_steps:
  assumes "is_ring (apa_nx s) (apa_pv s) [1..<k]" "k \<le> m" "1 \<le> k"
    "\<And>i. c_nused (cacheBuf s i) = 0 \<and> c_flags (cacheBuf s i) = 0"
    "\<And>i. 1 \<le> i \<Longrightarrow> i < k \<Longrightarrow> c_device (cacheBuf s i) = -1"
  defines "t \<equiv> fold init_step [k..<m] s"
  shows "is_ring (apa_nx t) (apa_pv t) [1..<m] \<and> cacheSize t = cacheSize s \<and>
     (\<forall>i. c_nused (cacheBuf t i) = 0 \<and> c_flags (cacheBuf t i) = 0) \<and>
     (\<forall>i. 1 \<le> i \<and> i < m \<longrightarrow> c_device (cacheBuf t i) = -1)"
  using assms(1-5) unfolding t_def
proof (induction "m - k" arbitrary: k s)
  case 0
  then show ?case by auto
next
  case (Suc n)
  then have k: "[k..<m] = k # [Suc k..<m]" by (simp add: upt_rec)
  let ?u = "upd_c k (c_device_update (\<lambda>_. -1)) s"
  let ?v = "apaCacheLink (apa_pv ?u 0) k ?u"
  have st: "init_step k s = ?v" by (simp add: apa_pv_def Let_def)
  have "is_ring (apa_nx ?u) (apa_pv ?u) [1..<k]" using Suc.prems by simp
  from aring.link_tail [OF this, of k] have "is_ring (apa_nx ?v) (apa_pv ?v) [1..<Suc k]"
    using Suc.prems(3) by simp
  from Suc.hyps(1) [of "Suc k" ?v] this Suc.hyps(2) Suc.prems show ?case
    unfolding k fold_Cons comp_def st by auto
qed

lemma init_inv:
  assumes "apaCacheInit A sz s = (0, s')" "sz \<noteq> -1"
  shows "cache_inv (slots (unat sz)) s' \<and> cacheSize s' = unat sz \<and>
    (\<forall>i. 1 \<le> i \<and> i \<le> unat sz \<longrightarrow> c_device (cacheBuf s' i) = -1 \<and> c_flags (cacheBuf s' i) = 0)"
proof -
  let ?z = "\<lambda>i. \<lparr>c_next = 0, c_tail = 0, c_flags = 0, c_nused = 0, c_device = 0, c_sector = 0,
    c_header = c_header (cacheBuf s i)\<rparr>"
  let ?s = "s\<lparr>cacheSize := unat sz, cacheBuf := ?z\<rparr>"
  from assms(2) have u: "unat (sz + 1) = unat sz + 1"
    by (metis Suc_eq_plus1 add.commute eq_neg_iff_add_eq_0 unatSuc)
  from assms(1) have t: "s' = fold init_step [1..<unat sz + 1] ?s"
    by (auto simp: apaCacheInit_def Let_def u split: if_splits)
  have "is_ring (apa_nx ?s) (apa_pv ?s) [1..<1]"
    by (simp add: is_ring_def apa_nx_def apa_pv_def)
  from init_steps [OF this, of "unat sz + 1", folded t slots_def] show ?thesis
    by (auto simp: cache_inv_def)
qed

section \<open>Reachable states\<close>

text \<open>
  What the rest of the library may do to the cache: get an entry for a sector of a real device,
  allocate a scratch entry, release one, flush, and change the header of an entry and mark it dirty.
\<close>

inductive cache_step :: "'d ata_ops \<Rightarrow> 'd apa_state \<Rightarrow> 'd apa_state \<Rightarrow> bool" for A where
  step_get: "device \<noteq> -1 \<Longrightarrow> refs_below_max s \<Longrightarrow>
     apaCacheGetHeader A device sector mode s = (r, c, s') \<Longrightarrow> cache_step A s s'"
| step_alloc: "apaCacheAlloc s = (c, s') \<Longrightarrow> cache_step A s s'"
| step_free: "1 \<le> i \<Longrightarrow> i \<le> cacheSize s \<Longrightarrow> cache_step A s (apaCacheFree (Some i) s)"
| step_flush: "apaCacheFlushAllDirty A device s = Some (r, s') \<Longrightarrow> cache_step A s s'"
| step_modify: "cache_step A s (upd_c i (c_header_update f) s)"
| step_mark: "cache_step A s (upd_c i (c_flags_update (\<lambda>f. f OR APA_CACHE_FLAG_DIRTY)) s)"

inductive_cases cache_stepE: "cache_step A s s'"

inductive cache_reach :: "'d ata_ops \<Rightarrow> 'd apa_state \<Rightarrow> bool" for A where
  reach_init: "apaCacheInit A sz s0 = (0, s) \<Longrightarrow> sz \<noteq> -1 \<Longrightarrow> cache_reach A s"
| reach_step: "cache_reach A s \<Longrightarrow> cache_step A s s' \<Longrightarrow> cache_reach A s'"

definition keys_unique :: "nat \<Rightarrow> lru \<Rightarrow> bool" where
  "keys_unique n a \<longleftrightarrow> (\<forall>i j. i \<in> set (slots n) \<and> j \<in> set (slots n) \<and> i \<noteq> j \<and>
     fst (lru_key a i) \<noteq> -1 \<longrightarrow> lru_key a i \<noteq> lru_key a j)"

lemma lru_get_unique:
  assumes "keys_unique n a" "fst k \<noteq> -1"
  shows "keys_unique n (snd (lru_get n k ok a))"
proof (cases "find (\<lambda>i. lru_key a i = k) (slots n)")
  case None
  then have "\<forall>i\<in>set (slots n). lru_key a i \<noteq> k" by (simp add: find_None_iff)
  with None assms show ?thesis by (auto simp: lru_get_def keys_unique_def split: list.split)
next
  case (Some i)
  with assms show ?thesis by (auto simp: lru_get_def keys_unique_def)
qed

lemma lru_alloc_unique: "keys_unique n a \<Longrightarrow> keys_unique n (snd (lru_alloc a))"
  by (auto simp: lru_alloc_def keys_unique_def split: list.split)

lemma lru_put_unique: "keys_unique n (lru_put i a) \<longleftrightarrow> keys_unique n a"
  by (simp add: lru_put_def keys_unique_def)

text \<open>Operations that touch neither the links nor the keys nor the counters.\<close>

definition same_pool :: "'d apa_state \<Rightarrow> 'd apa_state \<Rightarrow> bool" where
  "same_pool s t \<longleftrightarrow> apa_nx t = apa_nx s \<and> apa_pv t = apa_pv s \<and> cacheSize t = cacheSize s \<and>
     (\<forall>i. c_nused (cacheBuf t i) = c_nused (cacheBuf s i) \<and>
          c_device (cacheBuf t i) = c_device (cacheBuf s i) \<and>
          c_sector (cacheBuf t i) = c_sector (cacheBuf s i))"

lemma same_pool_inv: "same_pool s t \<Longrightarrow> cache_inv xs s \<Longrightarrow> cache_inv xs t"
  by (simp add: same_pool_def cache_inv_def)

lemma same_pool_lru: "same_pool s t \<Longrightarrow> lru_of xs t = lru_of xs s"
  by (simp add: same_pool_def lru_of_def)

lemma same_pool_transfer: "same_pool s0 s \<Longrightarrow> same_pool s0 (snd (apaCacheTransfer A i t s))"
  by (simp add: same_pool_def)

lemma same_pool_journalWrite:
  "apaJournalWrite A i s = Some (r, t) \<Longrightarrow> same_pool s0 s \<Longrightarrow> same_pool s0 t"
  by (auto simp: apaJournalWrite_def same_pool_def Let_def apa_nx_def apa_pv_def fun_eq_iff
      split: prod.splits if_splits)

lemma same_pool_journalFlush: "same_pool s0 s \<Longrightarrow> same_pool s0 (snd (apaJournalFlush A dv s))"
  by (auto simp: apaJournalFlush_def same_pool_def split: prod.splits)

lemma same_pool_flush:
  assumes "apaCacheFlushAllDirty A dv s = Some (r, t)"
  shows "same_pool s t"
proof -
  let ?j = "\<lambda>i s. if is_dirty dv (cacheBuf s i) then map_option snd (apaJournalWrite A i s) else Some s"
  let ?w = "\<lambda>i s. if is_dirty dv (cacheBuf s i) then snd (apaCacheTransfer A i APA_IO_MODE_WRITE s) else s"
  from assms obtain s1 where s1: "foldO ?j (slots (cacheSize s)) s = Some s1"
    and t: "t = snd (apaJournalReset A dv (fold ?w (slots (cacheSize (snd (apaJournalFlush A dv s1))))
                  (snd (apaJournalFlush A dv s1))))"
    by (auto simp: apaCacheFlushAllDirty_def Let_def elim!: bind_SomeE dest: arg_cong [where f = snd])
  have "same_pool s s" by (simp add: same_pool_def)
  with s1 have "same_pool s s1"
    by (rule foldO_keeps) (auto split: if_splits intro: same_pool_journalWrite)
  then have p: "same_pool s (snd (apaJournalFlush A dv s1))" by (rule same_pool_journalFlush)
  have w: "same_pool s u \<Longrightarrow> same_pool s (fold ?w is u)" for u "is"
    by (induction "is" arbitrary: u) (auto intro!: same_pool_transfer simp del: One_nat_def)
  show ?thesis
    unfolding t apaJournalReset_def
    by (intro same_pool_journalFlush) (use w [OF p] in \<open>simp add: same_pool_def\<close>)
qed

definition pool_ok :: "'d apa_state \<Rightarrow> bool" where
  "pool_ok s \<longleftrightarrow> (\<exists>xs. cache_inv xs s \<and> keys_unique (cacheSize s) (lru_of xs s))"

lemma pool_okI: "cache_inv xs s \<Longrightarrow> keys_unique (cacheSize s) (lru_of xs s) \<Longrightarrow> pool_ok s"
  by (auto simp: pool_ok_def)

lemma same_pool_ok: "same_pool s t \<Longrightarrow> pool_ok s \<Longrightarrow> pool_ok t"
  using same_pool_inv same_pool_lru unfolding pool_ok_def by (metis same_pool_def)

lemma transfer_size: "apaCacheTransfer A c t s = (r, s') \<Longrightarrow> cacheSize s' = cacheSize s"
  using transfer_data(4) [of A c t s] by simp

lemma get_size: "apaCacheGetHeader A device sector mode s = (r, c, s') \<Longrightarrow> cacheSize s' = cacheSize s"
  by (auto simp: apaCacheGetHeader_def Let_def split: option.splits if_splits prod.splits
      dest!: transfer_size)

lemma alloc_size: "apaCacheAlloc s = (c, s') \<Longrightarrow> cacheSize s' = cacheSize s"
  by (auto simp: apaCacheAlloc_def Let_def split: if_splits)

lemma free_size: "cacheSize (apaCacheFree p s) = cacheSize s"
  by (auto simp: apaCacheFree_def Let_def split: option.splits)

lemma cache_step_ok:
  assumes "cache_step A s s'" "pool_ok s"
  shows "pool_ok s'"
  using assms(1)
proof (cases rule: cache_step.cases)
  case (step_get device sector mode r c)
  from assms(2) obtain xs where xs: "cache_inv xs s" "keys_unique (cacheSize s) (lru_of xs s)"
    by (auto simp: pool_ok_def)
  from get_refines [OF xs(1) step_get(2,3)] obtain ys where ys: "cache_inv ys s'"
    "lru_get (cacheSize s) (device, sector) (0 \<le> r) (lru_of xs s) = (c, lru_of ys s')" by blast
  with lru_get_unique [OF xs(2), of "(device, sector)" "0 \<le> r"] step_get(1) get_size [OF step_get(3)]
  show ?thesis by (auto intro: pool_okI)
next
  case (step_alloc c)
  from assms(2) obtain xs where xs: "cache_inv xs s" "keys_unique (cacheSize s) (lru_of xs s)"
    by (auto simp: pool_ok_def)
  from alloc_refines [OF xs(1) step_alloc] obtain ys where "cache_inv ys s'"
    "lru_alloc (lru_of xs s) = (c, lru_of ys s')" by blast
  with lru_alloc_unique [OF xs(2)] alloc_size [OF step_alloc] show ?thesis by (auto intro: pool_okI)
next
  case (step_free i)
  from assms(2) obtain xs where xs: "cache_inv xs s" "keys_unique (cacheSize s) (lru_of xs s)"
    by (auto simp: pool_ok_def)
  from free_refines [OF xs(1) step_free(2,3)] obtain ys where "cache_inv ys s'"
    "lru_put i (lru_of xs s) = lru_of ys s'" unfolding step_free(1) by blast
  with lru_put_unique [of "cacheSize s" i "lru_of xs s"] xs(2) free_size [of "Some i" s] step_free(1)
  show ?thesis by (auto intro: pool_okI)
next
  case step_flush
  from same_pool_flush [OF this] assms(2) show ?thesis by (rule same_pool_ok)
qed (auto intro!: same_pool_ok [OF _ assms(2)] simp: same_pool_def)

lemma init_keys:
  assumes "cache_inv (slots n) s" "cacheSize s = n"
    "\<forall>i. 1 \<le> i \<and> i \<le> n \<longrightarrow> c_device (cacheBuf s i) = -1 \<and> c_flags (cacheBuf s i) = 0"
  shows "pool_ok s"
  by (rule pool_okI [OF assms(1)]) (use assms in \<open>auto simp: keys_unique_def lru_of_def\<close>)

lemma lru_get_again:
  assumes "lru_get n k ok a = (Some c, b)" "\<forall>i\<in>set (slots n). lru_refs a i \<noteq> -1"
    "set (lru_free a) \<subseteq> set (slots n)"
  shows "find (\<lambda>i. lru_key b i = k) (slots n) = Some c \<and> lru_refs b c \<noteq> 0"
proof (cases "find (\<lambda>i. lru_key a i = k) (slots n)")
  case (Some i)
  then have "i \<in> set (slots n)" by (auto dest: find_slots)
  with assms(2) have "lru_refs a i + 1 \<noteq> 0" by (metis eq_neg_iff_add_eq_0)
  with Some assms(1) show ?thesis by (auto simp: lru_get_def)
next
  case None
  then obtain js where b: "lru_free a = c # js" "b = a\<lparr>lru_free := js, lru_refs := (lru_refs a)(c := 1),
      lru_key := (lru_key a)(c := k)\<rparr>"
    using assms(1) by (auto simp: lru_get_def split: list.splits if_splits)
  from None have "\<forall>i\<in>set (slots n). lru_key a i \<noteq> k" by (simp add: find_None_iff)
  with b assms(3) show ?thesis by (auto intro!: find_only)
qed

section \<open>The properties of the cache\<close>

text \<open>
  (C10) Every state the header cache can get into, from its initialisation through any sequence of
  lookups, allocations, releases, flushes and header changes, has an intact free list that holds
  exactly the entries nobody uses, and no sector is cached twice.
\<close>

theorem cache_reach_ok: "cache_reach A s \<Longrightarrow> pool_ok s"
proof (induction rule: cache_reach.induct)
  case (reach_init sz s0 s)
  then show ?case using init_inv init_keys by metis
next
  case (reach_step s s')
  then show ?case using cache_step_ok by blast
qed

definition boot2 :: "ram apa_state" where
  "boot2 = snd (apaCacheInit ram_ops 2 (boot_state (ram_disk (\<lambda>_ _. 0) 9)))"

lemma boot2_init: "apaCacheInit ram_ops 2 (boot_state (ram_disk (\<lambda>_ _. 0) 9)) = (0, boot2)"
  by (simp add: boot2_def apaCacheInit_def ram_ops_def)

theorem cache_reach_ok_witness: "pool_ok (snd (apaCacheAlloc boot2))"
proof -
  have "cache_reach ram_ops boot2" by (rule reach_init [OF boot2_init]) simp
  then have "cache_reach ram_ops (snd (apaCacheAlloc boot2))"
    by (rule reach_step) (rule step_alloc, rule prod.collapse [symmetric])
  then show ?thesis by (rule cache_reach_ok)
qed

text \<open>
  A sector that was just looked up is found again without touching the drive: the second
  lookup returns the same entry and only counts one more user.
\<close>

theorem get_again:
  assumes "cache_inv xs s" "refs_below_max s"
    and run: "apaCacheGetHeader A device sector mode s = (r, Some c, s')"
  shows "apaCacheGetHeader A device sector mode' s' =
     (0, Some c, upd_c c (c_nused_update (\<lambda>n. n + 1)) s')"
proof -
  from get_refines [OF assms] obtain ys where
    g: "lru_get (cacheSize s) (device, sector) (0 \<le> r) (lru_of xs s) = (Some c, lru_of ys s')" by blast
  have "find (\<lambda>i. lru_key (lru_of ys s') i = (device, sector)) (slots (cacheSize s)) = Some c \<and>
      lru_refs (lru_of ys s') c \<noteq> 0"
    by (rule lru_get_again [OF g])
      (use assms refs_below_maxD [OF assms(2)] in \<open>auto simp: lru_of_def cache_inv_def\<close>)
  then show ?thesis
    using get_size [OF run] by (simp add: apaCacheGetHeader_def lru_of_def conj_commute)
qed

text \<open>
  (C11) The three operations of the cache on its entries are those of a least-recently-used pool:
  a lookup finds the entry of the sector or takes the entry at the front of the free list, a
  failed read puts it back at the front, the last release of an entry appends it at the end, and
  an allocation takes the front.
\<close>

theorem cache_refines_lru:
  assumes "cache_inv xs s" "refs_below_max s" "1 \<le> i" "i \<le> cacheSize s"
  shows "(\<forall>r c s'. apaCacheGetHeader A device sector mode s = (r, c, s') \<longrightarrow>
      (\<exists>ys. cache_inv ys s' \<and>
         lru_get (cacheSize s) (device, sector) (0 \<le> r) (lru_of xs s) = (c, lru_of ys s'))) \<and>
    (\<forall>c s'. apaCacheAlloc s = (c, s') \<longrightarrow>
      (\<exists>ys. cache_inv ys s' \<and> lru_alloc (lru_of xs s) = (c, lru_of ys s'))) \<and>
    (\<exists>ys. cache_inv ys (apaCacheFree (Some i) s) \<and>
       lru_put i (lru_of xs s) = lru_of ys (apaCacheFree (Some i) s))"
  using get_refines [OF assms(1,2)] alloc_refines [OF assms(1)] free_refines [OF assms(1,3,4)]
  by blast

lemma boot2_inv: "cache_inv [1, 2] boot2 \<and> cacheSize boot2 = 2 \<and> refs_below_max boot2"
proof -
  from init_inv [OF boot2_init] have i: "cache_inv (slots 2) boot2" "cacheSize boot2 = 2" by auto
  moreover have s: "slots 2 = [1, 2]" by (simp add: slots_def upt_rec)
  moreover have "refs_below_max boot2"
    unfolding refs_below_max_def i(2) s using i by (auto simp: cache_inv_def s)
  ultimately show ?thesis by simp
qed

theorem cache_refines_lru_witness:
  "\<exists>ys. cache_inv ys (apaCacheFree (Some 1) boot2) \<and>
     lru_put 1 (lru_of [1, 2] boot2) = lru_of ys (apaCacheFree (Some 1) boot2)"
  using cache_refines_lru [of "[1, 2]" boot2 1] boot2_inv by simp

theorem get_again_witness:
  "apaCacheGetHeader ram_ops 0 0x1000 0 (snd (snd (apaCacheGetHeader ram_ops 0 0x1000 1 boot2))) =
     (0, Some 1, upd_c 1 (c_nused_update (\<lambda>n. n + 1))
        (snd (snd (apaCacheGetHeader ram_ops 0 0x1000 1 boot2))))"
proof -
  have s: "slots 2 = [1, 2]" by (simp add: slots_def upt_rec)
  have d: "c_device (cacheBuf boot2 i) = -1" if "i \<in> {1, 2}" for i
    using init_inv [OF boot2_init] that by auto
  have "apaCacheGetHeader ram_ops 0 0x1000 1 boot2 =
      (0, Some 1, snd (snd (apaCacheGetHeader ram_ops 0 0x1000 1 boot2)))"
    using boot2_inv cache_inv_head [of 1 "[2]" boot2] free_list_empty_iff [of "[1, 2]" boot2] d
    by (simp add: apaCacheGetHeader_def s Let_def)
  then show ?thesis using get_again boot2_inv by blast
qed

end
