(* ===== verification/ApaJournal.thy ===== *)
theory ApaJournal
  imports ApaLru
begin

text \<open>
  Crash consistency of the APA journal: \<open>apaCacheFlushAllDirty\<close> of iop/hdd/libapa/src/cache.c with
  \<open>apaJournalWrite\<close>, \<open>apaJournalFlush\<close> and \<open>apaJournalReset\<close> of iop/hdd/libapa/src/journal.c, and the
  recovery \<open>apaJournalRestore\<close>. Power may fail in any command the code gives the drive; the drive
  obeys the laws of AtaDisk. A flush first copies the dirty headers to the log, puts the log in
  force with one sector write, writes the headers to their places and voids the log.
\<close>

section \<open>The log\<close>

definition logsec :: "nat \<Rightarrow> u32" where
  "logsec j = APA_SECTOR_APAL_HEADERS + 2 * of_nat j"

definition sealed :: "apa_header_t \<Rightarrow> apa_header_t" where
  "sealed h = h(H_CHECKSUM := apaCheckSum h)"

abbreviation jbody :: "'d ata_ops \<Rightarrow> u32 \<Rightarrow> nat \<Rightarrow> 'd apa_state \<Rightarrow> 'd apa_state option" where
  "jbody A dv \<equiv> (\<lambda>i s. if is_dirty dv (cacheBuf s i)
                        then map_option snd (apaJournalWrite A i s) else Some s)"

lemma unat_logsec: "j < 126 \<Longrightarrow> unat (logsec j) = 10 + 2 * j"
  by (simp add: logsec_def unat_word_ariths take_bit_nat_eq_self unat_of_nat)

lemma unat_logsec_1: "j < 126 \<Longrightarrow> unat (logsec j + 1) = 11 + 2 * j"
  by (simp add: logsec_def unat_word_ariths take_bit_nat_eq_self unat_of_nat)

lemma logsec_num: "num * 2 + APA_SECTOR_APAL_HEADERS = logsec (unat num)"
  by (simp add: logsec_def algebra_simps)

lemma journalWrite_step:
  fixes i :: nat and s :: "'d apa_state"
  assumes L: "disk_laws A cur poss off" and num: "unat (journalBuf s J_NUM) < 126"
  defines "k \<equiv> unat (journalBuf s J_NUM)" and "c \<equiv> cacheBuf s i"
  shows "\<exists>r s1. apaJournalWrite A i s = Some (r, s1) \<and> cacheSize s1 = cacheSize s \<and>
     cacheBuf s1 = (cacheBuf s)(i := c\<lparr>c_header := sealed (c_header c)\<rparr>) \<and>
     (off (dev s) \<longrightarrow> off (dev s1) \<and> poss (dev s1) = poss (dev s)) \<and>
     (\<forall>x l. poss (dev s1) x l \<subseteq>
        put_poss (poss (dev s)) (c_device c) (logsec k) 2 (sealed (c_header c)) x l) \<and>
     (off (dev s1) \<longrightarrow> journalBuf s1 = journalBuf s) \<and>
     (\<not> off (dev s1) \<longrightarrow> \<not> off (dev s) \<and>
        cur (dev s1) = put_sectors (cur (dev s)) (c_device c) (logsec k) 2 (sealed (c_header c)) \<and>
        journalBuf s1 = (journalBuf s)(J_SECTORS + k := c_sector c, J_NUM := of_nat (Suc k)))"
proof -
  obtain ok d' where w: "io_write A (c_device c) (sealed (c_header c)) (logsec k) 2 (dev s) = (ok, d')"
    by fastforce
  let ?b = "(cacheBuf s)(i := c\<lparr>c_header := sealed (c_header c)\<rparr>)"
  have n: "of_nat (Suc k) = journalBuf s J_NUM + 1" by (simp add: k_def add.commute)
  have eq: "apaJournalWrite A i s = (if ok
      then Some (0, s\<lparr>cacheBuf := ?b, dev := d',
        journalBuf := (journalBuf s)(J_SECTORS + k := c_sector c, J_NUM := of_nat (Suc k))\<rparr>)
      else Some (- EIO, s\<lparr>cacheBuf := ?b, dev := d'\<rparr>))"
    using w num unfolding n
    by (simp add: apaJournalWrite_def Let_def logsec_num upd_c_def c_def k_def sealed_def)
  show ?thesis
    using write_law(1,2,3) [OF L w] write_law(4) [OF L w] write_law(6) [OF L w]
    by (cases ok) (auto simp: eq simp del: put_sectors_2 put_poss_2)
qed

definition dirty_list :: "u32 \<Rightarrow> 'd apa_state \<Rightarrow> nat list \<Rightarrow> nat list" where
  "dirty_list dv s is = filter (\<lambda>i. is_dirty dv (cacheBuf s i)) is"

definition in_log :: "u32 \<Rightarrow> bool" where
  "in_log l \<longleftrightarrow> 10 \<le> unat l \<and> unat l < 262"

lemma in_log_logsec: "j < 126 \<Longrightarrow> in_log (logsec j) \<and> in_log (logsec j + 1)"
  by (simp add: in_log_def unat_logsec unat_logsec_1)

lemma logsec_inj: "i < 126 \<Longrightarrow> j < 126 \<Longrightarrow> logsec i = logsec j \<longleftrightarrow> i = j"
  by (metis add_left_cancel mult_cancel1 unat_logsec zero_neq_numeral)

lemma logsec_odd:
  assumes "i < 126" "j < 126"
  shows "logsec i \<noteq> logsec j + 1"
proof
  assume "logsec i = logsec j + 1"
  then have "10 + 2 * i = 11 + 2 * j" using assms unat_logsec unat_logsec_1 by metis
  then show False by presburger
qed

type_synonym entry = "u32 \<times> words"

definition entry_of :: "'d apa_state \<Rightarrow> nat \<Rightarrow> entry" where
  "entry_of s i = (c_sector (cacheBuf s i), sealed (c_header (cacheBuf s i)))"

definition log_holds :: "(u32 \<Rightarrow> words) \<Rightarrow> apa_journal_t \<Rightarrow> entry list \<Rightarrow> bool" where
  "log_holds c jb E \<longleftrightarrow> jb J_MAGIC = APAL_MAGIC \<and> jb J_NUM = of_nat (length E) \<and>
     (\<forall>j<length E. jb (J_SECTORS + j) = fst (E ! j) \<and>
        c (logsec j) = sect (snd (E ! j)) 0 \<and> c (logsec j + 1) = sect (snd (E ! j)) 1)"

lemma log_holds_snoc:
  assumes "log_holds c jb E" "length E < 126"
  shows "log_holds (c(logsec (length E) := sect (snd e) 0, logsec (length E) + 1 := sect (snd e) 1))
           (jb(J_SECTORS + length E := fst e, J_NUM := of_nat (Suc (length E)))) (E @ [e])"
proof -
  have ne: "logsec j \<noteq> logsec (length E)" "logsec j + 1 \<noteq> logsec (length E)"
      "logsec j \<noteq> logsec (length E) + 1" if "j < length E" for j
    using that assms(2) logsec_inj [of j "length E"] logsec_odd [of "length E" j]
      logsec_odd [of j "length E"] by auto
  show ?thesis
    using assms ne unfolding log_holds_def
    by (auto simp: nth_append less_Suc_eq)
qed

text \<open>Where the loop that fills the log stands after the entries \<open>E\<close>.\<close>

definition logging where
  "logging cur poss off dv s0 E s \<longleftrightarrow> unat (journalBuf s J_NUM) \<le> length E \<and>
     (\<forall>l. \<not> in_log l \<longrightarrow> poss (dev s) dv l \<subseteq> poss (dev s0) dv l) \<and>
     (\<not> off (dev s) \<longrightarrow> log_holds (cur (dev s) dv) (journalBuf s) E \<and>
        (\<forall>l. \<not> in_log l \<longrightarrow> cur (dev s) dv l = cur (dev s0) dv l))"

lemma logging_step:
  assumes L: "disk_laws A cur poss off" and J: "logging cur poss off dv s0 E s"
    and room: "length E < 126" and dirty: "is_dirty dv (cacheBuf s i)"
  shows "\<exists>r s1. apaJournalWrite A i s = Some (r, s1) \<and> cacheSize s1 = cacheSize s \<and>
     cacheBuf s1 = (cacheBuf s)(i := (cacheBuf s i)\<lparr>c_header := sealed (c_header (cacheBuf s i))\<rparr>) \<and>
     logging cur poss off dv s0 (E @ [entry_of s i]) s1"
proof -
  let ?c = "cacheBuf s i"
  from J room have num: "unat (journalBuf s J_NUM) < 126" by (simp add: logging_def)
  from dirty have dv: "c_device ?c = dv" by (simp add: is_dirty_def)
  from journalWrite_step [OF L num, of i] obtain r s1 where
    s1: "apaJournalWrite A i s = Some (r, s1)" "cacheSize s1 = cacheSize s"
      "cacheBuf s1 = (cacheBuf s)(i := ?c\<lparr>c_header := sealed (c_header ?c)\<rparr>)"
      "\<And>x l. poss (dev s1) x l \<subseteq>
        put_poss (poss (dev s)) dv (logsec (unat (journalBuf s J_NUM))) 2 (sealed (c_header ?c)) x l"
    and off: "off (dev s1) \<Longrightarrow> journalBuf s1 = journalBuf s"
    and on: "\<not> off (dev s1) \<Longrightarrow> \<not> off (dev s) \<and>
       cur (dev s1) = put_sectors (cur (dev s)) dv (logsec (unat (journalBuf s J_NUM))) 2 (sealed (c_header ?c)) \<and>
       journalBuf s1 = (journalBuf s)(J_SECTORS + unat (journalBuf s J_NUM) := c_sector ?c,
         J_NUM := of_nat (Suc (unat (journalBuf s J_NUM))))"
    unfolding dv by auto
  have out: "poss (dev s1) dv l \<subseteq> poss (dev s0) dv l" if "\<not> in_log l" for l
  proof -
    have "poss (dev s1) dv l \<subseteq> poss (dev s) dv l"
      using s1(4) [of dv l] that in_log_logsec [OF num] by (auto split: if_splits)
    with J that show ?thesis by (auto simp: logging_def)
  qed
  have "logging cur poss off dv s0 (E @ [entry_of s i]) s1"
  proof (cases "off (dev s1)")
    case True
    with off J out show ?thesis by (simp add: logging_def)
  next
    case False
    from on [OF this] J room have n: "unat (journalBuf s J_NUM) = length E"
      by (auto simp: logging_def log_holds_def unat_of_nat take_bit_nat_eq_self)
    note on1 = on [OF False, unfolded n]
    from J on1 log_holds_snoc [of "cur (dev s) dv" "journalBuf s" E "entry_of s i"] room
    have "log_holds (cur (dev s1) dv) (journalBuf s1) (E @ [entry_of s i])"
      by (auto simp: logging_def entry_of_def)
    moreover have "cur (dev s1) dv l = cur (dev s0) dv l" if "\<not> in_log l" for l
      using J on1 that in_log_logsec [OF room] by (auto simp: logging_def)
    moreover have "unat (journalBuf s1 J_NUM) = Suc (length E)"
      using on1 room by (simp add: unat_of_nat take_bit_nat_eq_self del: of_nat_Suc)
    ultimately show ?thesis using False out by (auto simp: logging_def)
  qed
  with s1 show ?thesis by blast
qed

lemma logging_loop:
  assumes L: "disk_laws A cur poss off"
  shows "logging cur poss off dv s0 E s \<Longrightarrow> distinct is \<Longrightarrow>
     length E + length (dirty_list dv s is) \<le> 126 \<Longrightarrow>
     \<exists>s1. foldO (jbody A dv) is s = Some s1 \<and> cacheSize s1 = cacheSize s \<and>
       logging cur poss off dv s0 (E @ map (entry_of s) (dirty_list dv s is)) s1 \<and>
       (\<forall>i. cacheBuf s1 i = (if i \<in> set (dirty_list dv s is)
          then (cacheBuf s i)\<lparr>c_header := sealed (c_header (cacheBuf s i))\<rparr> else cacheBuf s i))"
proof (induction "is" arbitrary: s E)
  case Nil
  then show ?case by (simp add: dirty_list_def)
next
  case (Cons i "is")
  show ?case
  proof (cases "is_dirty dv (cacheBuf s i)")
    case False
    with Cons show ?thesis by (simp add: dirty_list_def)
  next
    case True
    then have D: "dirty_list dv s (i # is) = i # dirty_list dv s is" by (simp add: dirty_list_def)
    with Cons.prems have "length E < 126" by simp
    from logging_step [OF L Cons.prems(1) this True] obtain r s1 where
      s1: "apaJournalWrite A i s = Some (r, s1)" "cacheSize s1 = cacheSize s"
        "cacheBuf s1 = (cacheBuf s)(i := (cacheBuf s i)\<lparr>c_header := sealed (c_header (cacheBuf s i))\<rparr>)"
        "logging cur poss off dv s0 (E @ [entry_of s i]) s1" by blast
    have same: "dirty_list dv s1 is = dirty_list dv s is"
        "map (entry_of s1) (dirty_list dv s is) = map (entry_of s) (dirty_list dv s is)"
      using Cons.prems(2) s1(3)
      by (auto simp: dirty_list_def is_dirty_def entry_of_def intro!: filter_cong)
    from Cons.IH [OF s1(4)] Cons.prems(2,3) D same obtain s2 where
      "foldO (jbody A dv) is s1 = Some s2" "cacheSize s2 = cacheSize s1"
      "logging cur poss off dv s0 (E @ [entry_of s i] @ map (entry_of s) (dirty_list dv s is)) s2"
      "\<forall>j. cacheBuf s2 j = (if j \<in> set (dirty_list dv s is)
          then (cacheBuf s1 j)\<lparr>c_header := sealed (c_header (cacheBuf s1 j))\<rparr> else cacheBuf s1 j)"
      by auto
    with True s1 D Cons.prems(2) show ?thesis
      by (intro exI [of _ s2]) (auto simp: dirty_list_def)
  qed
qed

section \<open>Putting the log in force\<close>

lemma journalFlush_device:
  assumes L: "disk_laws A cur poss off" and run: "apaJournalFlush A dv s = (r, s')"
  defines "w \<equiv> sect (journalBuf s) 0"
  shows "cacheBuf s' = cacheBuf s" "cacheSize s' = cacheSize s" "journalBuf s' = journalBuf s"
    "off (dev s) \<Longrightarrow> off (dev s') \<and> poss (dev s') = poss (dev s)"
    "\<not> off (dev s') \<Longrightarrow> cur (dev s') = (cur (dev s))(dv := (cur (dev s) dv)(APA_SECTOR_APAL := w)) \<and>
       (\<forall>l. poss (dev s') dv l = {cur (dev s') dv l}) \<and> r = 0"
    "off (dev s') \<Longrightarrow> (\<forall>l. poss (dev s') dv l \<subseteq> poss (dev s) dv l) \<or>
       (\<not> off (dev s) \<and> (\<forall>l. poss (dev s') dv l \<subseteq>
          insert (cur (dev s) dv l) (if l = APA_SECTOR_APAL then {w} else {})))"
proof -
  obtain ok1 d1 where f1: "io_flush A dv (dev s) = (ok1, d1)" by fastforce
  obtain ok2 d2 where w2: "io_write A dv (journalBuf s) APA_SECTOR_APAL 1 d1 = (ok2, d2)" by fastforce
  obtain ok3 d3 where f3: "io_flush A dv d2 = (ok3, d3)" by fastforce
  have eq: "(r, s') = (if \<not> ok1 then (- EIO, s\<lparr>dev := d1\<rparr>) else if \<not> ok2 then (- EIO, s\<lparr>dev := d2\<rparr>)
      else if \<not> ok3 then (- EIO, s\<lparr>dev := d3\<rparr>) else (0, s\<lparr>dev := d3\<rparr>))"
    using run f1 w2 f3 by (simp add: apaJournalFlush_def split: if_splits)
  then show "cacheBuf s' = cacheBuf s" "cacheSize s' = cacheSize s" "journalBuf s' = journalBuf s"
    by (auto split: if_splits)
  note l1 = flush_law [OF L f1] and l2 = write_law [OF L w2] and l3 = flush_law [OF L f3]
  show "off (dev s) \<Longrightarrow> off (dev s') \<and> poss (dev s') = poss (dev s)"
    using eq l1(1,2,3) by auto
  show "\<not> off (dev s') \<Longrightarrow> cur (dev s') = (cur (dev s))(dv := (cur (dev s) dv)(APA_SECTOR_APAL := w)) \<and>
       (\<forall>l. poss (dev s') dv l = {cur (dev s') dv l}) \<and> r = 0"
    using eq l1(3,4) l2(3,4) l3(3,4,5) by (auto simp: w_def split: if_splits)
  have p2: "poss d2 dv l \<subseteq> insert (cur (dev s) dv l) (if l = APA_SECTOR_APAL then {w} else {})"
    if ok1 for l
    using l2(6) [of dv l] l1(5) [OF that] by (auto simp: w_def)
  show "off (dev s') \<Longrightarrow> (\<forall>l. poss (dev s') dv l \<subseteq> poss (dev s) dv l) \<or>
       (\<not> off (dev s) \<and> (\<forall>l. poss (dev s') dv l \<subseteq>
          insert (cur (dev s) dv l) (if l = APA_SECTOR_APAL then {w} else {})))"
  proof (cases ok1)
    case False
    with eq l1(6) show ?thesis by simp
  next
    case True
    assume o: "off (dev s')"
    have "poss (dev s') dv l \<subseteq> poss d2 dv l" for l
      using eq True o l3(3) l3(6) [of dv l] by (auto split: if_splits)
    with p2 [OF True] l1(1) True show ?thesis by (meson subset_trans)
  qed
qed

section \<open>Writing the headers back\<close>

fun spots :: "entry list \<Rightarrow> u32 list" where
  "spots [] = []"
| "spots (e # E) = fst e # (fst e + 1) # spots E"

fun apply_log :: "entry list \<Rightarrow> (u32 \<Rightarrow> words) \<Rightarrow> u32 \<Rightarrow> words" where
  "apply_log [] c = c"
| "apply_log (e # E) c = apply_log E (c(fst e := sect (snd e) 0, fst e + 1 := sect (snd e) 1))"

lemma spots_append [simp]: "spots (E @ F) = spots E @ spots F"
  by (induction E) auto

lemma apply_log_append: "apply_log (E @ F) c = apply_log F (apply_log E c)"
  by (induction E arbitrary: c) auto

lemma apply_log_out: "l \<notin> set (spots E) \<Longrightarrow> apply_log E c l = c l"
  by (induction E arbitrary: c) auto

lemma apply_log_in:
  "distinct (spots E) \<Longrightarrow> e \<in> set E \<Longrightarrow>
     apply_log E c (fst e) = sect (snd e) 0 \<and> apply_log E c (fst e + 1) = sect (snd e) 1"
  by (induction E arbitrary: c) (auto simp: apply_log_out)

lemma spots_mem: "e \<in> set E \<Longrightarrow> fst e \<in> set (spots E) \<and> fst e + 1 \<in> set (spots E)"
  by (induction E) auto

definition writing_back where
  "writing_back cur poss off dv c E E1 d \<longleftrightarrow>
     (\<forall>l. poss d dv l \<subseteq> {c l, apply_log E c l}) \<and> (\<not> off d \<longrightarrow> cur d dv = apply_log E1 c)"

abbreviation wbody :: "'d ata_ops \<Rightarrow> u32 \<Rightarrow> nat \<Rightarrow> 'd apa_state \<Rightarrow> 'd apa_state" where
  "wbody A dv \<equiv> (\<lambda>i s. if is_dirty dv (cacheBuf s i)
                        then snd (apaCacheTransfer A i APA_IO_MODE_WRITE s) else s)"

lemma transfer_write:
  assumes "io_write A (c_device (cacheBuf s i)) (c_header (cacheBuf s i)) (c_sector (cacheBuf s i)) 2 (dev s) = (ok, d)"
  shows "apaCacheTransfer A i APA_IO_MODE_WRITE s = (if ok then 0 else - EIO,
     s\<lparr>dev := d, cacheBuf := (cacheBuf s)(i := (cacheBuf s i)\<lparr>c_flags :=
       c_flags (cacheBuf s i) AND NOT APA_CACHE_FLAG_DIRTY\<rparr>)\<rparr>)"
  using assms by (cases "cacheBuf s i") (simp add: apaCacheTransfer_def apaWriteHeader_def upd_c_def Let_def)

lemma writing_back_step:
  assumes L: "disk_laws A cur poss off" and W: "writing_back cur poss off dv c E E1 (dev s)"
    and E: "E = E1 @ e # E2" "distinct (spots E)"
    and c: "is_dirty dv (cacheBuf s i)" "e = (c_sector (cacheBuf s i), c_header (cacheBuf s i))"
  shows "writing_back cur poss off dv c E (E1 @ [e]) (dev (snd (apaCacheTransfer A i APA_IO_MODE_WRITE s)))"
proof -
  from c have dv: "c_device (cacheBuf s i) = dv" by (simp add: is_dirty_def)
  obtain ok d where w: "io_write A dv (snd e) (fst e) 2 (dev s) = (ok, d)" by fastforce
  from transfer_write [of A s i ok d] w c dv
  have t: "dev (snd (apaCacheTransfer A i APA_IO_MODE_WRITE s)) = d" by simp
  have new: "sect (snd e) 0 = apply_log E c (fst e)" "sect (snd e) 1 = apply_log E c (fst e + 1)"
    using apply_log_in [OF E(2), of e] E(1) by auto
  have "poss d dv l \<subseteq> {c l, apply_log E c l}" for l
    using W write_law(6) [OF L w, of dv l] new
    by (auto simp: writing_back_def split: if_splits)
  moreover have "\<not> off d \<Longrightarrow> cur d dv = apply_log (E1 @ [e]) c"
    using W write_law(1,3,4) [OF L w] by (auto simp: writing_back_def apply_log_append)
  ultimately show ?thesis unfolding t writing_back_def by blast
qed

lemma write_back_keeps:
  assumes "i \<notin> set is"
  shows "is_dirty dv (cacheBuf s i) \<Longrightarrow>
     dirty_list dv (snd (apaCacheTransfer A i APA_IO_MODE_WRITE s)) is = dirty_list dv s is"
    "j \<in> set is \<Longrightarrow> cacheBuf (snd (apaCacheTransfer A i APA_IO_MODE_WRITE s)) j = cacheBuf s j"
    "cacheBuf (snd (apaCacheTransfer A i APA_IO_MODE_WRITE s)) = (cacheBuf s)(i := (cacheBuf s i)\<lparr>c_flags :=
       c_flags (cacheBuf s i) AND NOT APA_CACHE_FLAG_DIRTY\<rparr>)"
    "cacheSize (snd (apaCacheTransfer A i APA_IO_MODE_WRITE s)) = cacheSize s"
proof -
  obtain ok d where w: "io_write A (c_device (cacheBuf s i)) (c_header (cacheBuf s i))
      (c_sector (cacheBuf s i)) 2 (dev s) = (ok, d)" by fastforce
  note t = transfer_write [OF w]
  show "is_dirty dv (cacheBuf s i) \<Longrightarrow>
     dirty_list dv (snd (apaCacheTransfer A i APA_IO_MODE_WRITE s)) is = dirty_list dv s is"
    "j \<in> set is \<Longrightarrow> cacheBuf (snd (apaCacheTransfer A i APA_IO_MODE_WRITE s)) j = cacheBuf s j"
    "cacheBuf (snd (apaCacheTransfer A i APA_IO_MODE_WRITE s)) = (cacheBuf s)(i := (cacheBuf s i)\<lparr>c_flags :=
       c_flags (cacheBuf s i) AND NOT APA_CACHE_FLAG_DIRTY\<rparr>)"
    "cacheSize (snd (apaCacheTransfer A i APA_IO_MODE_WRITE s)) = cacheSize s"
    using assms unfolding t by (auto simp: dirty_list_def intro!: filter_cong)
qed

lemma write_back_cache:
  "distinct is \<Longrightarrow> cacheSize (fold (wbody A dv) is s) = cacheSize s \<and>
     cacheBuf (fold (wbody A dv) is s) j = (if j \<in> set (dirty_list dv s is)
        then (cacheBuf s j)\<lparr>c_flags := c_flags (cacheBuf s j) AND NOT APA_CACHE_FLAG_DIRTY\<rparr>
        else cacheBuf s j)"
proof (induction "is" arbitrary: s)
  case (Cons i "is")
  then have "i \<notin> set is" by simp
  note K = write_back_keeps [OF this]
  show ?case
    using Cons K(1) [of dv s A] by (auto simp: K(3,4) dirty_list_def simp del: One_nat_def)
qed (simp add: dirty_list_def)

lemma writing_back_loop:
  assumes L: "disk_laws A cur poss off"
  shows "writing_back cur poss off dv c E E1 (dev s) \<Longrightarrow> distinct is \<Longrightarrow>
     E = E1 @ map (\<lambda>i. (c_sector (cacheBuf s i), c_header (cacheBuf s i))) (dirty_list dv s is) \<Longrightarrow>
     distinct (spots E) \<Longrightarrow>
     writing_back cur poss off dv c E E (dev (fold (wbody A dv) is s))"
proof (induction "is" arbitrary: s E1)
  case Nil
  then show ?case by (simp add: dirty_list_def)
next
  case (Cons i "is")
  show ?case
  proof (cases "is_dirty dv (cacheBuf s i)")
    case False
    with Cons show ?thesis by (simp add: dirty_list_def)
  next
    case True
    let ?e = "(c_sector (cacheBuf s i), c_header (cacheBuf s i))"
    let ?s = "snd (apaCacheTransfer A i APA_IO_MODE_WRITE s)"
    have "i \<notin> set is" using Cons.prems(2) by simp
    note K = write_back_keeps [OF this]
    have D: "dirty_list dv s (i # is) = i # dirty_list dv ?s is"
      using K(1) [OF True] True by (simp add: dirty_list_def)
    have m: "map (\<lambda>j. (c_sector (cacheBuf ?s j), c_header (cacheBuf ?s j))) (dirty_list dv ?s is) =
        map (\<lambda>j. (c_sector (cacheBuf s j), c_header (cacheBuf s j))) (dirty_list dv ?s is)"
      by (auto simp: dirty_list_def K(2) simp del: One_nat_def)
    from writing_back_step [OF L Cons.prems(1) _ Cons.prems(4) True refl] Cons.prems(3) D
    have W: "writing_back cur poss off dv c E (E1 @ [?e]) (dev ?s)" by auto
    from Cons.IH [OF W] Cons.prems(2-4) D m True show ?thesis by simp
  qed
qed

section \<open>Images after a power failure\<close>

definition clean_journal :: "(u32 \<Rightarrow> words) \<Rightarrow> bool" where
  "clean_journal im \<longleftrightarrow> im APA_SECTOR_APAL J_MAGIC = APAL_MAGIC \<and> im APA_SECTOR_APAL J_NUM = 0"

definition outside :: "u32 \<Rightarrow> bool" where
  "outside l \<longleftrightarrow> l \<noteq> APA_SECTOR_APAL \<and> \<not> in_log l"

definition good_log :: "entry list \<Rightarrow> bool" where
  "good_log E \<longleftrightarrow> length E \<le> 126 \<and> distinct (spots E) \<and> (\<forall>l\<in>set (spots E). outside l)"

definition recoverable :: "(u32 \<Rightarrow> words) \<Rightarrow> entry list \<Rightarrow> (u32 \<Rightarrow> words) \<Rightarrow> bool" where
  "recoverable old E im \<longleftrightarrow>
     clean_journal im \<and> (\<forall>l. outside l \<longrightarrow> im l = old l) \<or>
     log_holds im (im APA_SECTOR_APAL) E \<and>
       (\<forall>l. outside l \<longrightarrow> im l = old l \<or> im l = apply_log E old l) \<or>
     clean_journal im \<and> (\<forall>l. outside l \<longrightarrow> im l = apply_log E old l)"

definition crash_image where
  "crash_image poss d dv im \<longleftrightarrow> (\<forall>l. im l \<in> poss d dv l)"

lemma log_holds_cong:
  "log_holds c jb E \<Longrightarrow> length E \<le> 126 \<Longrightarrow> (\<And>l. in_log l \<Longrightarrow> c' l = c l) \<Longrightarrow>
     (\<And>i. i < 128 \<Longrightarrow> jb' i = jb i) \<Longrightarrow> log_holds c' jb' E"
  unfolding log_holds_def using in_log_logsec by (simp add: in_log_logsec)

lemma spots_not_log: "good_log E \<Longrightarrow> \<not> outside l \<Longrightarrow> apply_log E c l = c l"
  by (auto simp: good_log_def intro: apply_log_out)

lemma apply_log_twice:
  assumes "good_log E" "\<And>l. outside l \<Longrightarrow> c' l = c l \<or> c' l = apply_log E c l" "outside l"
  shows "apply_log E c' l = apply_log E c l"
proof (cases "l \<in> set (spots E)")
  case True
  then obtain e where "e \<in> set E" "l = fst e \<or> l = fst e + 1" by (induction E) auto
  then show ?thesis using apply_log_in [of E e] assms(1) by (auto simp: good_log_def)
next
  case False
  then show ?thesis using assms(2) [OF assms(3)] by (auto simp: apply_log_out)
qed

lemma upd_ext: "f a = v \<Longrightarrow> (\<And>l. l \<noteq> a \<Longrightarrow> f l = g l) \<Longrightarrow> f = g(a := v)"
  by auto

lemma reset_image:
  "clean_journal (c(APA_SECTOR_APAL := sect ((\<lambda>_. 0)(J_MAGIC := APAL_MAGIC)) 0))"
  by (simp add: clean_journal_def sect_def)

lemma journalReset_device:
  assumes L: "disk_laws A cur poss off" and run: "apaJournalReset A dv s = (r, s')"
  defines "w \<equiv> sect ((\<lambda>_. 0)(J_MAGIC := APAL_MAGIC)) 0"
  shows "cacheBuf s' = cacheBuf s" "cacheSize s' = cacheSize s"
    "off (dev s) \<Longrightarrow> off (dev s') \<and> poss (dev s') = poss (dev s)"
    "\<not> off (dev s') \<Longrightarrow> cur (dev s') = (cur (dev s))(dv := (cur (dev s) dv)(APA_SECTOR_APAL := w)) \<and>
       (\<forall>l. poss (dev s') dv l = {cur (dev s') dv l}) \<and> r = 0"
    "off (dev s') \<Longrightarrow> (\<forall>l. poss (dev s') dv l \<subseteq> poss (dev s) dv l) \<or>
       (\<not> off (dev s) \<and> (\<forall>l. poss (dev s') dv l \<subseteq>
          insert (cur (dev s) dv l) (if l = APA_SECTOR_APAL then {w} else {})))"
proof -
  note F = journalFlush_device [OF L run [unfolded apaJournalReset_def]]
  show "cacheBuf s' = cacheBuf s" "cacheSize s' = cacheSize s" using F(1,2) by simp_all
  show "off (dev s) \<Longrightarrow> off (dev s') \<and> poss (dev s') = poss (dev s)" using F(4) by simp
  show "\<not> off (dev s') \<Longrightarrow> cur (dev s') = (cur (dev s))(dv := (cur (dev s) dv)(APA_SECTOR_APAL := w)) \<and>
       (\<forall>l. poss (dev s') dv l = {cur (dev s') dv l}) \<and> r = 0" using F(5) by (simp add: w_def)
  show "off (dev s') \<Longrightarrow> (\<forall>l. poss (dev s') dv l \<subseteq> poss (dev s) dv l) \<or>
       (\<not> off (dev s) \<and> (\<forall>l. poss (dev s') dv l \<subseteq>
          insert (cur (dev s) dv l) (if l = APA_SECTOR_APAL then {w} else {})))"
    using F(6) by (simp add: w_def split del: if_split cong: if_cong)
qed

text \<open>
  The end of both routines: with the log on the medium and the headers written, the journal is
  reset. \<open>c\<close> is the image before the headers were written.
\<close>

lemma reset_recoverable:
  assumes L: "disk_laws A cur poss off" and W: "writing_back cur poss off dv c E E (dev s)"
    and E: "good_log E" and log: "log_holds c (c APA_SECTOR_APAL) E"
    and c: "\<And>l. outside l \<Longrightarrow> c l = old l \<or> c l = apply_log E old l"
    and run: "apaJournalReset A dv s = (r, s')"
  shows "crash_image poss (dev s') dv im \<Longrightarrow> recoverable old E im"
    "\<not> off (dev s') \<Longrightarrow> r = 0 \<and> clean_journal (cur (dev s') dv) \<and>
       (\<forall>l. poss (dev s') dv l = {cur (dev s') dv l}) \<and>
       (\<forall>l. outside l \<longrightarrow> cur (dev s') dv l = apply_log E old l)"
proof -
  let ?w = "sect ((\<lambda>_. 0)(J_MAGIC := APAL_MAGIC)) 0"
  note F = journalReset_device [OF L run]
  have twice: "outside l \<Longrightarrow> apply_log E c l = apply_log E old l" for l
    using apply_log_twice [OF E c] by blast
  have in8: "\<not> outside APA_SECTOR_APAL" "in_log l \<Longrightarrow> \<not> outside l" "\<not> in_log APA_SECTOR_APAL" for l
    by (auto simp: outside_def in_log_def)
  have B: "recoverable old E im" if "\<And>l. im l = c l \<or> im l = apply_log E c l" for im
  proof -
    have "im l = c l" if "\<not> outside l" for l
      using \<open>\<And>l. im l = c l \<or> im l = apply_log E c l\<close> [of l] spots_not_log [OF E that] by auto
    then have "log_holds im (im APA_SECTOR_APAL) E"
      using log_holds_cong [OF log] E in8 by (auto simp: good_log_def)
    then show ?thesis using that c twice unfolding recoverable_def by metis
  qed
  have C: "recoverable old E im" "\<And>l. outside l \<Longrightarrow> im l = apply_log E old l" "clean_journal im"
    if "im = (apply_log E c)(APA_SECTOR_APAL := ?w)" for im
  proof -
    show cl: "clean_journal im" using reset_image that by simp
    show o: "\<And>l. outside l \<Longrightarrow> im l = apply_log E old l" using that twice in8 by auto
    from cl o show "recoverable old E im" by (simp add: recoverable_def)
  qed
  show "\<not> off (dev s') \<Longrightarrow> r = 0 \<and> clean_journal (cur (dev s') dv) \<and>
       (\<forall>l. poss (dev s') dv l = {cur (dev s') dv l}) \<and>
       (\<forall>l. outside l \<longrightarrow> cur (dev s') dv l = apply_log E old l)"
  proof -
    assume on: "\<not> off (dev s')"
    with F(3,4) W have "cur (dev s') dv = (apply_log E c)(APA_SECTOR_APAL := ?w)"
      by (auto simp: writing_back_def)
    with F(4) [OF on] C(2,3) show ?thesis by metis
  qed
  assume im: "crash_image poss (dev s') dv im"
  show "recoverable old E im"
  proof (cases "off (dev s')")
    case False
    with F(3,4) W have "cur (dev s') dv = (apply_log E c)(APA_SECTOR_APAL := ?w)"
      "\<forall>l. poss (dev s') dv l = {cur (dev s') dv l}" by (auto simp: writing_back_def)
    with im show ?thesis by (intro C(1)) (auto simp: crash_image_def)
  next
    case True
    from F(5) [OF True] show ?thesis
    proof
      assume "\<forall>l. poss (dev s') dv l \<subseteq> poss (dev s) dv l"
      with im W show ?thesis by (intro B) (fastforce simp: crash_image_def writing_back_def)
    next
      assume a: "\<not> off (dev s) \<and> (\<forall>l. poss (dev s') dv l \<subseteq>
          insert (cur (dev s) dv l) (if l = 8 then {?w} else {}))"
      with W have cur: "cur (dev s) dv = apply_log E c" by (simp add: writing_back_def)
      have el: "im l = apply_log E c l \<or> l = APA_SECTOR_APAL \<and> im l = ?w" for l
      proof -
        from im a have "im l \<in> insert (cur (dev s) dv l) (if l = 8 then {?w} else {})"
          unfolding crash_image_def by blast
        then show ?thesis by (simp add: cur split: if_splits)
      qed
      show ?thesis
      proof (cases "im APA_SECTOR_APAL = ?w")
        case True
        have "im = (apply_log E c)(APA_SECTOR_APAL := ?w)" by (rule upd_ext) (use True el in blast)+
        then show ?thesis by (rule C(1))
      next
        case False
        with el show ?thesis by (intro B) blast
      qed
    qed
  qed
qed

lemma logging_start:
  assumes "\<forall>l. poss (dev s) dv l = {cur (dev s) dv l}"
    and "journalBuf s J_MAGIC = APAL_MAGIC" "journalBuf s J_NUM = 0"
  shows "logging cur poss off dv s [] s"
  using assms by (simp add: logging_def log_holds_def)

text \<open>
  The commit point: after the log is filled, \<open>apaJournalFlush\<close> either leaves the journal sector
  as it was, with nothing outside the log changed, or puts the whole log in force.
\<close>

lemma commit:
  assumes L: "disk_laws A cur poss off" and J: "logging cur poss off dv s0 E s1"
    and E: "length E \<le> 126"
    and quiet: "\<forall>l. poss (dev s0) dv l = {cur (dev s0) dv l}"
    and clean: "clean_journal (cur (dev s0) dv)"
    and run: "apaJournalFlush A dv s1 = (r, s2)"
  shows "off (dev s2) \<Longrightarrow> crash_image poss (dev s2) dv im \<Longrightarrow> recoverable (cur (dev s0) dv) E im"
    "\<not> off (dev s2) \<Longrightarrow> log_holds (cur (dev s2) dv) (cur (dev s2) dv APA_SECTOR_APAL) E \<and>
       (\<forall>l. poss (dev s2) dv l = {cur (dev s2) dv l}) \<and>
       (\<forall>l. outside l \<longrightarrow> cur (dev s2) dv l = cur (dev s0) dv l)"
proof -
  let ?w = "sect (journalBuf s1) 0"
  note F = journalFlush_device [OF L run]
  have in8: "\<not> in_log APA_SECTOR_APAL" by (simp add: in_log_def)
  have logged: "log_holds im (im APA_SECTOR_APAL) E"
    if "log_holds (cur (dev s1) dv) (journalBuf s1) E" "im = (cur (dev s1) dv)(APA_SECTOR_APAL := ?w)" for im
    by (rule log_holds_cong [OF that(1) E]) (use that(2) in8 in \<open>auto simp: sect_def\<close>)
  show "\<not> off (dev s2) \<Longrightarrow> log_holds (cur (dev s2) dv) (cur (dev s2) dv APA_SECTOR_APAL) E \<and>
       (\<forall>l. poss (dev s2) dv l = {cur (dev s2) dv l}) \<and>
       (\<forall>l. outside l \<longrightarrow> cur (dev s2) dv l = cur (dev s0) dv l)"
  proof -
    assume on: "\<not> off (dev s2)"
    with F(4) J have "log_holds (cur (dev s1) dv) (journalBuf s1) E"
      "\<forall>l. \<not> in_log l \<longrightarrow> cur (dev s1) dv l = cur (dev s0) dv l" by (auto simp: logging_def)
    moreover have "cur (dev s2) dv = (cur (dev s1) dv)(APA_SECTOR_APAL := ?w)" using F(5) [OF on] by simp
    ultimately show ?thesis using logged F(5) [OF on] by (simp add: outside_def)
  qed
  assume off: "off (dev s2)" and im: "crash_image poss (dev s2) dv im"
  from F(6) [OF off] show "recoverable (cur (dev s0) dv) E im"
  proof
    assume "\<forall>l. poss (dev s2) dv l \<subseteq> poss (dev s1) dv l"
    then have "im l = cur (dev s0) dv l" if "\<not> in_log l" for l
      using im J quiet that unfolding crash_image_def logging_def by blast
    then show ?thesis using clean in8 by (simp add: recoverable_def clean_journal_def outside_def)
  next
    assume a: "\<not> off (dev s1) \<and> (\<forall>l. poss (dev s2) dv l \<subseteq>
          insert (cur (dev s1) dv l) (if l = 8 then {?w} else {}))"
    with J have log: "log_holds (cur (dev s1) dv) (journalBuf s1) E"
      and same: "\<And>l. \<not> in_log l \<Longrightarrow> cur (dev s1) dv l = cur (dev s0) dv l" by (auto simp: logging_def)
    have el: "im l = cur (dev s1) dv l \<or> l = APA_SECTOR_APAL \<and> im l = ?w" for l
    proof -
      from im a have "im l \<in> insert (cur (dev s1) dv l) (if l = 8 then {?w} else {})"
        unfolding crash_image_def by blast
      then show ?thesis by (simp split: if_splits)
    qed
    have out: "im l = cur (dev s0) dv l" if "outside l" for l
      using el [of l] same [of l] that by (auto simp: outside_def)
    show ?thesis
    proof (cases "im APA_SECTOR_APAL = ?w")
      case True
      have "im = (cur (dev s1) dv)(APA_SECTOR_APAL := ?w)"
        by (rule upd_ext) (use True el in blast)+
      from logged [OF log this] out show ?thesis by (simp add: recoverable_def)
    next
      case False
      with el [of APA_SECTOR_APAL] same [OF in8] clean have "clean_journal im"
        by (simp add: clean_journal_def)
      with out show ?thesis by (simp add: recoverable_def)
    qed
  qed
qed

text \<open>Once power is lost the rest of the run changes nothing.\<close>

lemma wbody_off:
  assumes L: "disk_laws A cur poss off"
  shows "off (dev s) \<Longrightarrow> off (dev (fold (wbody A dv) is s)) \<and>
     poss (dev (fold (wbody A dv) is s)) = poss (dev s)"
proof (induction "is" arbitrary: s)
  case (Cons i "is")
  obtain ok d where w: "io_write A (c_device (cacheBuf s i)) (c_header (cacheBuf s i))
      (c_sector (cacheBuf s i)) 2 (dev s) = (ok, d)" by fastforce
  note t = transfer_write [OF w]
  from write_law(1-3) [OF L w] Cons.prems have "off d" "poss d = poss (dev s)" by auto
  with Cons show ?case by (simp add: t del: One_nat_def)
qed simp

definition dirty_log :: "u32 \<Rightarrow> 'd apa_state \<Rightarrow> entry list" where
  "dirty_log dv s = map (entry_of s) (dirty_list dv s (slots (cacheSize s)))"

lemma flush_all_dirty_crash:
  assumes L: "disk_laws A cur poss off"
    and quiet: "\<forall>l. poss (dev s) dv l = {cur (dev s) dv l}"
    and clean: "clean_journal (cur (dev s) dv)"
      "journalBuf s J_MAGIC = APAL_MAGIC" "journalBuf s J_NUM = 0"
    and E: "good_log (dirty_log dv s)"
  shows "\<exists>r s'. apaCacheFlushAllDirty A dv s = Some (r, s') \<and>
     (\<forall>im. crash_image poss (dev s') dv im \<longrightarrow> recoverable (cur (dev s) dv) (dirty_log dv s) im) \<and>
     (\<not> off (dev s') \<longrightarrow> r = 0 \<and> clean_journal (cur (dev s') dv) \<and>
        (\<forall>l. poss (dev s') dv l = {cur (dev s') dv l}) \<and>
        (\<forall>l. outside l \<longrightarrow> cur (dev s') dv l = apply_log (dirty_log dv s) (cur (dev s) dv) l)) \<and>
     cacheSize s' = cacheSize s \<and> 
     (\<forall>i. cacheBuf s' i = (if i \<in> set (dirty_list dv s (slots (cacheSize s)))
        then (cacheBuf s i)\<lparr>c_header := sealed (c_header (cacheBuf s i)),
               c_flags := c_flags (cacheBuf s i) AND NOT APA_CACHE_FLAG_DIRTY\<rparr>
        else cacheBuf s i))"
proof -
  let ?I = "slots (cacheSize s)" and ?E = "dirty_log dv s"
  let ?D = "dirty_list dv s ?I"
  from E have len: "length ?E \<le> 126" by (simp add: good_log_def)
  from logging_loop [OF L, of dv s "[]" s ?I] logging_start [of poss s dv cur off] quiet clean(2,3) len obtain s1 where
    s1: "foldO (jbody A dv) ?I s = Some s1" "cacheSize s1 = cacheSize s"
      "logging cur poss off dv s ?E s1"
      "\<And>i. cacheBuf s1 i = (if i \<in> set ?D
          then (cacheBuf s i)\<lparr>c_header := sealed (c_header (cacheBuf s i))\<rparr> else cacheBuf s i)"
    by (auto simp: dirty_log_def distinct_slots)
  obtain r2 s2 where s2: "apaJournalFlush A dv s1 = (r2, s2)" by fastforce
  note F = journalFlush_device [OF L s2]
  note C = commit [OF L s1(3) len quiet clean(1) s2]
  let ?s3 = "fold (wbody A dv) ?I s2"
  obtain r s' where s': "apaJournalReset A dv ?s3 = (r, s')" by fastforce
  have run: "apaCacheFlushAllDirty A dv s = Some (r, s')"
    using s1(1,2) s2 s' F(2) by (simp add: apaCacheFlushAllDirty_def Let_def del: One_nat_def)
  have D2: "dirty_list dv s2 ?I = ?D"
    unfolding dirty_list_def F(1) by (auto simp: s1(4) is_dirty_def dirty_list_def intro!: filter_cong)
  have E2: "?E = [] @ map (\<lambda>i. (c_sector (cacheBuf s2 i), c_header (cacheBuf s2 i))) (dirty_list dv s2 ?I)"
    unfolding D2 F(1) dirty_log_def by (auto simp: s1(4) entry_of_def)
  have buf: "cacheSize s' = cacheSize s" "cacheBuf s' i = (if i \<in> set ?D
        then (cacheBuf s i)\<lparr>c_header := sealed (c_header (cacheBuf s i)),
               c_flags := c_flags (cacheBuf s i) AND NOT APA_CACHE_FLAG_DIRTY\<rparr>
        else cacheBuf s i)" for i
    using write_back_cache [OF distinct_slots [of "cacheSize s"], of dv A s2 i] D2 F(1,2) s1(2,4)
      journalReset_device(1,2) [OF L s'] by auto
  show ?thesis
  proof (cases "off (dev s2)")
    case True
    from wbody_off [OF L this] journalReset_device(3) [OF L s']
    have "off (dev s')" "poss (dev s') = poss (dev s2)" by auto
    with C(1) [OF True] run buf show ?thesis by (auto simp: crash_image_def)
  next
    case False
    note on = C(2) [OF False]
    have "writing_back cur poss off dv (cur (dev s2) dv) ?E [] (dev s2)"
      using on by (simp add: writing_back_def)
    from writing_back_loop [OF L this distinct_slots E2] E
    have W: "writing_back cur poss off dv (cur (dev s2) dv) ?E ?E (dev ?s3)"
      by (simp add: good_log_def)
    note R = reset_recoverable [OF L W E _ _ s', of "cur (dev s) dv"]
    from on R(1,2) run buf show ?thesis by blast
  qed
qed

section \<open>Recovery\<close>

abbreviation rbody :: "'d ata_ops \<Rightarrow> u32 \<Rightarrow> nat \<Rightarrow> nat \<Rightarrow> bool \<times> 'd apa_state \<Rightarrow> (bool \<times> 'd apa_state) option" where
  "rbody A device clink \<equiv> (\<lambda>i (go, s).
      if \<not> go then Some (False, s)
      else case io_read A device (APA_SECTOR_APAL_HEADERS + 2 * of_nat i) 2 (dev s) of
        (ok, h, d) \<Rightarrow>
          let s = upd_c clink (c_header_update (\<lambda>_. h)) (s\<lparr>dev := d\<rparr>) in
          if \<not> ok then Some (False, s)
          else if \<not> i < 126 then None
          else case io_write A device (c_header (cacheBuf s clink))
                      (journalBuf s (J_SECTORS + i)) 2 (dev s) of
            (ok, d) \<Rightarrow> Some (ok, s\<lparr>dev := d\<rparr>))"

definition replaying where
  "replaying cur poss off dv c E k gs \<longleftrightarrow>
     writing_back cur poss off dv c E (take k E) (dev (snd gs)) \<and> (fst gs \<or> off (dev (snd gs))) \<and>
     (\<forall>j<length E. journalBuf (snd gs) (J_SECTORS + j) = fst (E ! j))"

lemma sect_read:
  assumes "\<And>i. i < 256 \<Longrightarrow> h i = c (l + of_nat (i div 128)) (i mod 128)"
    and "c l = sect w 0" "c (l + 1) = sect w 1"
  shows "sect h 0 = sect w 0" "sect h 1 = sect w 1"
proof -
  have "h i = w i" if "i < 256" for i
  proof (cases "i < 128")
    case True
    then show ?thesis using assms(1) [OF that] assms(2) by (simp add: sect_def)
  next
    case False
    with that have "i div 128 = 1" "i mod 128 = i - 128" by (auto simp: div_nat_eqI mod_nat_eqI)
    moreover have "i - 128 < 128" using that False by linarith
    ultimately show ?thesis using assms(1) [OF that] assms(3) that False by (simp add: sect_def)
  qed
  then show "sect h 0 = sect w 0" "sect h 1 = sect w 1" by (auto simp: sect_def)
qed

lemma apply_log_cong:
  "sect h 0 = sect (snd e) 0 \<Longrightarrow> sect h 1 = sect (snd e) 1 \<Longrightarrow>
     apply_log (E1 @ [e]) c = (apply_log E1 c)(fst e := sect h 0, fst e + 1 := sect h 1)"
  by (simp add: apply_log_append)

lemma replaying_step:
  assumes L: "disk_laws A cur poss off" and R: "reads_ok A off"
    and E: "good_log E" and log: "log_holds c (c APA_SECTOR_APAL) E" and k: "k < length E"
    and I: "replaying cur poss off dv c E k gs"
  shows "\<exists>gs'. rbody A dv clink k gs = Some gs' \<and> replaying cur poss off dv c E (Suc k) gs'"
proof (cases "fst gs")
  case False
  with I k show ?thesis by (cases gs) (auto simp: replaying_def writing_back_def)
next
  case True
  then obtain s where gs: "gs = (True, s)" by (cases gs) auto
  let ?e = "E ! k"
  obtain ok h d where r: "io_read A dv (logsec k) 2 (dev s) = (ok, h, d)" by (metis prod_cases3)
  have jb: "journalBuf s (J_SECTORS + k) = fst ?e" using I k gs by (simp add: replaying_def)
  obtain ok2 d2 where w: "io_write A dv h (fst ?e) 2 d = (ok2, d2)" by fastforce
  note rl = read_law [OF L r] and wl = write_law [OF L w]
  from E k have k126: "k < 126" by (simp add: good_log_def)
  have body: "rbody A dv clink k gs = Some (if ok
      then (ok2, upd_c clink (c_header_update (\<lambda>_. h)) s\<lparr>dev := d2\<rparr>)
      else (False, upd_c clink (c_header_update (\<lambda>_. h)) s\<lparr>dev := d\<rparr>))"
    using r w jb k126 by (auto simp: gs upd_c_def Let_def logsec_def)
  have W: "writing_back cur poss off dv c E (take k E) d"
    using I rl(1-3) by (simp add: replaying_def gs writing_back_def)
  have eE: "?e \<in> set E" and tk: "take (Suc k) E = take k E @ [?e]"
    using k by (auto simp: take_Suc_conv_app_nth)
  show ?thesis
  proof (cases ok)
    case False
    then have "off (dev s)" using R r unfolding reads_ok_def by (metis fst_conv)
    then have "writing_back cur poss off dv c E (take (Suc k) E) d \<and> off d"
      using W rl(3) by (simp add: writing_back_def)
    with body False I gs show ?thesis by (auto simp: replaying_def upd_c_def)
  next
    case True
    have on: "\<not> off (dev s)" using rl(4) True by simp
    have "cur (dev s) dv = apply_log (take k E) c" using I on by (simp add: replaying_def gs writing_back_def)
    moreover have "l \<notin> set (spots (take k E))" if "\<not> outside l" for l
      using that E append_take_drop_id [of k E]
      by (metis UnI1 good_log_def set_append spots_append)
    ultimately have cur: "cur (dev s) dv l = c l" if "\<not> outside l" for l
      using that by (simp add: apply_log_out)
    have "\<not> outside (logsec k)" "\<not> outside (logsec k + 1)"
      using in_log_logsec [OF k126] by (auto simp: outside_def)
    then have "sect h 0 = sect (snd ?e) 0" "sect h 1 = sect (snd ?e) 1"
      using sect_read [of h "cur (dev s) dv" "logsec k" "snd ?e"] rl(5) [OF True] log k cur
      by (auto simp: log_holds_def)
    note hs = this
    have new: "sect h 0 = apply_log E c (fst ?e)" "sect h 1 = apply_log E c (fst ?e + 1)"
      using apply_log_in [OF _ eE, of c] E hs by (auto simp: good_log_def)
    have "poss d2 dv l \<subseteq> {c l, apply_log E c l}" for l
      using W wl(6) [of dv l] new by (auto simp: writing_back_def split: if_splits)
    moreover have "\<not> off d2 \<Longrightarrow> cur d2 dv = apply_log (take (Suc k) E) c"
      using W wl(1,3,4) hs unfolding tk apply_log_cong [OF hs] by (auto simp: writing_back_def)
    ultimately have "writing_back cur poss off dv c E (take (Suc k) E) d2"
      by (auto simp: writing_back_def)
    with body True wl(3) I gs show ?thesis by (auto simp: replaying_def upd_c_def)
  qed
qed

lemma replaying_loop:
  assumes L: "disk_laws A cur poss off" and R: "reads_ok A off"
    and E: "good_log E" and log: "log_holds c (c APA_SECTOR_APAL) E"
    and I: "replaying cur poss off dv c E 0 gs"
  shows "k \<le> length E \<Longrightarrow> \<exists>gs'. foldO (rbody A dv clink) [0..<k] gs = Some gs' \<and>
     replaying cur poss off dv c E k gs'"
proof (induction k)
  case 0
  with I show ?case by simp
next
  case (Suc k)
  then obtain gs1 where 1: "foldO (rbody A dv clink) [0..<k] gs = Some gs1"
    "replaying cur poss off dv c E k gs1" by auto
  from replaying_step [OF L R E log _ this(2)] Suc.prems obtain gs2 where
    "rbody A dv clink k gs1 = Some gs2" "replaying cur poss off dv c E (Suc k) gs2" by fastforce
  with 1 show ?case by (simp add: foldO_append)
qed

lemma sint_num: "n \<le> 126 \<Longrightarrow> sint (of_nat n :: u32) = int n"
  by (simp add: signed_of_nat signed_take_bit_int_eq_self)

lemma log_holds_clean:
  "log_holds im (im APA_SECTOR_APAL) E \<Longrightarrow> clean_journal im \<Longrightarrow> length E \<le> 126 \<Longrightarrow> E = []"
  using sint_num [of "length E"] by (auto simp: log_holds_def clean_journal_def)

lemma cacheFree_dev:
  "dev (apaCacheFree p s) = dev s" "journalBuf (apaCacheFree p s) = journalBuf s"
  by (auto simp: apaCacheFree_def apaCacheLink_def upd_c_def Let_def split: option.splits)

lemma cacheAlloc_some:
  "\<not> free_list_empty s \<Longrightarrow> \<exists>i s1. apaCacheAlloc s = (Some i, s1) \<and> dev s1 = dev s \<and>
     journalBuf s1 = journalBuf s"
  by (auto simp: apaCacheAlloc_def apaCacheUnLink_def upd_c_def Let_def)

text \<open>Reading the journal sector: what the buffer then says of the image.\<close>

lemma restore_logged:
  assumes L: "disk_laws A cur poss off" and R: "reads_ok A off" and E: "good_log E" "E \<noteq> []"
    and log: "log_holds (cur (dev s) dv) (cur (dev s) dv APA_SECTOR_APAL) E"
    and quiet: "\<forall>l. poss (dev s) dv l = {cur (dev s) dv l}"
    and free: "\<not> free_list_empty s"
    and read: "io_read A dv APA_SECTOR_APAL 1 (dev s) = (True, w, d)"
  shows "\<exists>s2. apaJournalRestore A dv s = Some (apaJournalReset A dv s2) \<and>
     writing_back cur poss off dv (cur (dev s) dv) E E (dev s2)"
proof -
  let ?c = "cur (dev s) dv"
  let ?s = "s\<lparr>journalBuf := copy_words (journalBuf s) 0 w 128, dev := d\<rparr>"
  note rl = read_law [OF L read]
  from E have len: "length E \<le> 126" by (simp add: good_log_def)
  have w: "w i = ?c APA_SECTOR_APAL i" if "i < 128" for i using rl(5) [of i] that by simp
  have jb: "journalBuf ?s i = ?c APA_SECTOR_APAL i" if "i < 128" for i
    using w [OF that] copy_words_in [of i 128 "journalBuf s" 0 w] that by simp
  have num: "journalBuf ?s J_MAGIC = APAL_MAGIC" "journalBuf ?s J_NUM = of_nat (length E)"
    using jb [of 0] jb [of 1] log by (auto simp: log_holds_def)
  have nz: "(of_nat (length E) :: u32) \<noteq> 0" and n: "nat (sint (of_nat (length E) :: u32)) = length E"
    using E(2) sint_num [OF len] by (auto dest: arg_cong [where f = sint])
  have "\<not> free_list_empty ?s" using free by (simp add: free_list_empty_def)
  then obtain i s1 where s1: "apaCacheAlloc ?s = (Some i, s1)" "dev s1 = d" "journalBuf s1 = journalBuf ?s"
    using cacheAlloc_some by fastforce
  have "replaying cur poss off dv ?c E 0 (True, s1)"
    using s1(2,3) rl(1-3) quiet log jb len by (simp add: replaying_def writing_back_def log_holds_def)
  from replaying_loop [OF L R E(1) log this, of "length E" i] obtain gs where
    gs: "foldO (rbody A dv i) [0..<length E] (True, s1) = Some gs"
      "replaying cur poss off dv ?c E (length E) gs" by auto
  have "apaJournalRestore A dv s = Some (apaJournalReset A dv (apaCacheFree (Some i) (snd gs)))"
    using read num nz n s1 gs(1) by (cases gs) (simp add: apaJournalRestore_def Let_def)
  with gs(2) show ?thesis by (auto simp: replaying_def cacheFree_dev)
qed

lemma restore_crash:
  assumes L: "disk_laws A cur poss off" and R: "reads_ok A off" and E: "good_log E"
    and rec: "recoverable old E (cur (dev s) dv)"
    and quiet: "\<forall>l. poss (dev s) dv l = {cur (dev s) dv l}"
    and free: "\<not> free_list_empty s"
  shows "\<exists>r s'. apaJournalRestore A dv s = Some (r, s') \<and>
     (\<forall>im. crash_image poss (dev s') dv im \<longrightarrow> recoverable old E im) \<and>
     (\<not> off (dev s') \<longrightarrow> r = 0 \<and> clean_journal (cur (dev s') dv) \<and>
        ((\<forall>l. outside l \<longrightarrow> cur (dev s') dv l = old l) \<or>
         (\<forall>l. outside l \<longrightarrow> cur (dev s') dv l = apply_log E old l)))"
proof -
  let ?c = "cur (dev s) dv"
  obtain ok w d where r: "io_read A dv APA_SECTOR_APAL 1 (dev s) = (ok, w, d)" by (metis prod_cases3)
  note rl = read_law [OF L r]
  have im: "im = ?c" if "crash_image poss (dev s) dv im" for im
    using that quiet by (auto simp: crash_image_def)
  show ?thesis
  proof (cases "ok \<and> \<not> clean_journal ?c")
    case True
    with rec have log: "log_holds ?c (?c APA_SECTOR_APAL) E"
      "\<And>l. outside l \<Longrightarrow> ?c l = old l \<or> ?c l = apply_log E old l" by (auto simp: recoverable_def)
    then have "E \<noteq> []" using True by (auto simp: log_holds_def clean_journal_def)
    from restore_logged [OF L R E this log(1) quiet free] r True obtain s2 where
      s2: "apaJournalRestore A dv s = Some (apaJournalReset A dv s2)"
        "writing_back cur poss off dv ?c E E (dev s2)" by auto
    obtain r s' where "apaJournalReset A dv s2 = (r, s')" by fastforce
    with reset_recoverable [OF L s2(2) E log this] s2(1) show ?thesis by auto
  next
    case False
    show ?thesis
    proof (cases ok)
      case True
      with False have cl: "clean_journal ?c" by simp
      let ?s = "s\<lparr>journalBuf := copy_words (journalBuf s) 0 w 128, dev := d\<rparr>"
      have "journalBuf ?s i = ?c APA_SECTOR_APAL i" if "i < 128" for i
        using rl(5) [OF True, of i] copy_words_in [of i 128 "journalBuf s" 0 w] that by simp
      with cl have "journalBuf ?s J_MAGIC = APAL_MAGIC" "journalBuf ?s J_NUM = 0"
        by (auto simp: clean_journal_def)
      then have "apaJournalRestore A dv s = Some (0, ?s)"
        using r True by (simp add: apaJournalRestore_def Let_def)
      moreover have "recoverable old E im" if "crash_image poss (dev ?s) dv im" for im
        using im rec that rl(2) by (simp add: crash_image_def)
      moreover have "(\<forall>l. outside l \<longrightarrow> ?c l = old l) \<or> (\<forall>l. outside l \<longrightarrow> ?c l = apply_log E old l)"
        using rec cl log_holds_clean [of ?c E] E by (auto simp: recoverable_def good_log_def)
      ultimately show ?thesis using rl(1) cl by simp
    next
      case False
      with R r have off: "off (dev s)" unfolding reads_ok_def by (metis fst_conv)
      let ?s = "s\<lparr>journalBuf := copy_words (journalBuf s) 0 w 128, dev := d\<rparr>"
      obtain q s' where s': "apaJournalReset A dv ?s = (q, s')" by fastforce
      from journalReset_device(3) [OF L s'] off rl(2,3)
      have "off (dev s')" "poss (dev s') = poss (dev s)" by auto
      moreover have "apaJournalRestore A dv s = Some (- EIO, s')"
        using r False s' by (simp add: apaJournalRestore_def Let_def)
      ultimately show ?thesis using im rec by (auto simp: crash_image_def)
    qed
  qed
qed

section \<open>The properties of the journal\<close>

text \<open>What both routines find: a quiet drive whose journal sector is void.\<close>

definition settled where
  "settled cur poss dv s \<longleftrightarrow> (\<forall>l. poss (dev s) dv l = {cur (dev s) dv l}) \<and>
     clean_journal (cur (dev s) dv) \<and> journalBuf s J_MAGIC = APAL_MAGIC \<and> journalBuf s J_NUM = 0"

text \<open>
  (C1) Flushing the dirty headers is crash safe. On a drive with a volatile write cache, whatever
  command the power fails in, what is then on the medium is either the old headers with a void
  journal, or a log in force that holds every new header, or the new headers with a void journal.
  Without a power failure the flush returns 0 with the new headers on the medium, the journal void
  and every entry of the device sealed and clean.
\<close>

theorem flush_crash_safe:
  assumes "disk_laws A cur poss off" "settled cur poss dv s" "good_log (dirty_log dv s)"
  shows "\<exists>r s'. apaCacheFlushAllDirty A dv s = Some (r, s') \<and>
     (\<forall>im. crash_image poss (dev s') dv im \<longrightarrow> recoverable (cur (dev s) dv) (dirty_log dv s) im) \<and>
     (\<not> off (dev s') \<longrightarrow> r = 0 \<and> clean_journal (cur (dev s') dv) \<and>
        (\<forall>l. poss (dev s') dv l = {cur (dev s') dv l}) \<and>
        (\<forall>l. outside l \<longrightarrow> cur (dev s') dv l = apply_log (dirty_log dv s) (cur (dev s) dv) l)) \<and>
     cacheSize s' = cacheSize s \<and>
     (\<forall>i. cacheBuf s' i = (if i \<in> set (dirty_list dv s (slots (cacheSize s)))
        then (cacheBuf s i)\<lparr>c_header := sealed (c_header (cacheBuf s i)),
               c_flags := c_flags (cacheBuf s i) AND NOT APA_CACHE_FLAG_DIRTY\<rparr>
        else cacheBuf s i))"
  using assms flush_all_dirty_crash unfolding settled_def by blast

definition void_image :: "u32 \<Rightarrow> words" where
  "void_image l i = (if l = APA_SECTOR_APAL \<and> i = 0 then APAL_MAGIC else 0)"

text \<open>One dirty header for sector 0x1000, on a drive that loses power in its third command.\<close>

definition dirty1 :: "ram apa_state" where
  "dirty1 = (boot_state (ram_disk void_image 3))\<lparr>cacheSize := 1,
     journalBuf := (\<lambda>_. 0)(J_MAGIC := APAL_MAGIC),
     cacheBuf := (\<lambda>_. \<lparr>c_next = 0, c_tail = 0, c_flags = APA_CACHE_FLAG_DIRTY, c_nused = 1,
       c_device = 0, c_sector = 0x1000, c_header = (\<lambda>_. 7)\<rparr>)\<rparr>"

lemma dirty1_settled: "settled rd_cur rd_poss 0 dirty1"
  by (simp add: settled_def dirty1_def boot_state_def ram_disk_def clean_journal_def void_image_def)

lemma dirty1_log: "dirty_log 0 dirty1 = [(0x1000, sealed (\<lambda>_. 7))]"
  by (simp add: dirty_log_def dirty_list_def slots_def dirty1_def is_dirty_def entry_of_def)

lemma good_log1: "good_log [(0x1000, h)]"
  by (simp add: good_log_def outside_def in_log_def)

theorem flush_crash_safe_witness:
  "\<exists>r s'. apaCacheFlushAllDirty ram_ops 0 dirty1 = Some (r, s') \<and>
     (\<forall>im. crash_image rd_poss (dev s') 0 im \<longrightarrow>
        recoverable void_image [(0x1000, sealed (\<lambda>_. 7))] im)"
proof -
  have "rd_cur (dev dirty1) 0 = void_image" by (simp add: dirty1_def ram_disk_def boot_state_def)
  with flush_crash_safe [OF ram_laws dirty1_settled] show ?thesis
    unfolding dirty1_log using good_log1 by metis
qed

text \<open>
  (C2) Recovery is crash safe and completes the flush. From every medium a power failure during a
  flush can leave, \<open>apaJournalRestore\<close> either completes, with the journal void and all headers old or
  all headers new, or power fails again and the medium is again one it can recover from.
\<close>

theorem restore_crash_safe:
  assumes "disk_laws A cur poss off" "reads_ok A off" "good_log E"
    "recoverable old E (cur (dev s) dv)" "\<forall>l. poss (dev s) dv l = {cur (dev s) dv l}"
    "\<not> free_list_empty s"
  shows "\<exists>r s'. apaJournalRestore A dv s = Some (r, s') \<and>
     (\<forall>im. crash_image poss (dev s') dv im \<longrightarrow> recoverable old E im) \<and>
     (\<not> off (dev s') \<longrightarrow> r = 0 \<and> clean_journal (cur (dev s') dv) \<and>
        ((\<forall>l. outside l \<longrightarrow> cur (dev s') dv l = old l) \<or>
         (\<forall>l. outside l \<longrightarrow> cur (dev s') dv l = apply_log E old l)))"
  using assms by (rule restore_crash)

text \<open>A medium on which the log with that header is in force.\<close>

definition logged_image :: "u32 \<Rightarrow> words" where
  "logged_image l =
     (if l = APA_SECTOR_APAL then (\<lambda>_. 0)(J_MAGIC := APAL_MAGIC, J_NUM := 1, J_SECTORS := 0x1000)
      else if l = APA_SECTOR_APAL_HEADERS then sect (\<lambda>_. 7) 0
      else if l = APA_SECTOR_APAL_HEADERS + 1 then sect (\<lambda>_. 7) 1 else (\<lambda>_. 0))"

definition mounting :: "ram apa_state" where
  "mounting = boot2\<lparr>dev := ram_disk logged_image 99\<rparr>"

lemma mounting_free: "\<not> free_list_empty mounting"
  using boot2_inv free_list_empty_iff [of "[1, 2]" boot2]
  by (simp add: mounting_def free_list_empty_def)

lemma logged_image_recoverable: "recoverable (\<lambda>_ _. 0) [(0x1000, \<lambda>_. 7)] logged_image"
proof -
  have "log_holds logged_image (logged_image APA_SECTOR_APAL) [(0x1000, \<lambda>_. 7)]"
    by (simp add: log_holds_def logged_image_def logsec_def)
  moreover have "logged_image l = (\<lambda>_. 0)" if "outside l" for l
    using that by (auto simp: logged_image_def outside_def in_log_def)
  ultimately show ?thesis by (simp add: recoverable_def)
qed

theorem restore_crash_safe_witness:
  "\<exists>r s'. apaJournalRestore ram_ops 0 mounting = Some (r, s') \<and>
     (\<not> ram_off (dev s') \<longrightarrow> r = 0 \<and> clean_journal (rd_cur (dev s') 0))"
proof -
  have "rd_cur (dev mounting) 0 = logged_image" "\<forall>l. rd_poss (dev mounting) 0 l = {rd_cur (dev mounting) 0 l}"
    by (simp_all add: mounting_def ram_disk_def)
  with restore_crash_safe [OF ram_laws ram_reads_ok good_log1, of "\<lambda>_ _. 0" "\<lambda>_. 7" mounting 0]
    logged_image_recoverable mounting_free
  show ?thesis by metis
qed

text \<open>
  (C3) A flush followed by a power failure at any point, a reboot and the recovery is atomic: the
  headers on the medium are all the old ones or all the new ones.
\<close>

theorem flush_atomic:
  assumes "disk_laws A cur poss off" "reads_ok A off" "settled cur poss dv s" "good_log (dirty_log dv s)"
    and "apaCacheFlushAllDirty A dv s = Some (r, s1)" "crash_image poss (dev s1) dv im"
    and "cur (dev s2) dv = im" "\<forall>l. poss (dev s2) dv l = {im l}" "\<not> free_list_empty s2"
    and "apaJournalRestore A dv s2 = Some (r', s3)" "\<not> off (dev s3)"
  shows "clean_journal (cur (dev s3) dv) \<and>
    ((\<forall>l. outside l \<longrightarrow> cur (dev s3) dv l = cur (dev s) dv l) \<or>
     (\<forall>l. outside l \<longrightarrow> cur (dev s3) dv l = apply_log (dirty_log dv s) (cur (dev s) dv) l))"
proof -
  from flush_all_dirty_crash [OF assms(1)] assms(3-6)
  have "recoverable (cur (dev s) dv) (dirty_log dv s) (cur (dev s2) dv)"
    unfolding assms(7) settled_def by fastforce
  from restore_crash [OF assms(1,2,4) this] assms(7-11) show ?thesis by auto
qed

text \<open>Power fails in the very first write of the flush, which copies the header to the log.\<close>

lemma dirty1_first_write:
  "\<exists>s1. apaCacheFlushAllDirty ram_ops 0 (dirty1\<lparr>dev := ram_disk void_image 1\<rparr>) = Some (- EIO, s1) \<and>
     crash_image rd_poss (dev s1) 0 void_image"
  by (simp add: apaCacheFlushAllDirty_def slots_def dirty1_def boot_state_def is_dirty_def
      apaJournalWrite_def ram_ops_def ram_write_def ram_flush_def ram_disk_def upd_c_def Let_def
      apaJournalFlush_def apaJournalReset_def transfer_write apaCacheTransfer_def apaWriteHeader_def
      crash_image_def put_poss_def)

theorem flush_atomic_witness:
  "\<exists>s3. apaJournalRestore ram_ops 0 (boot2\<lparr>dev := ram_disk void_image 9\<rparr>) = Some (0, s3) \<and>
     clean_journal (rd_cur (dev s3) 0)"
proof -
  let ?s = "dirty1\<lparr>dev := ram_disk void_image 1\<rparr>" and ?t = "boot2\<lparr>dev := ram_disk void_image 9\<rparr>"
  from dirty1_first_write obtain s1 where
    s1: "apaCacheFlushAllDirty ram_ops 0 ?s = Some (- EIO, s1)" "crash_image rd_poss (dev s1) 0 void_image"
    by blast
  have s: "settled rd_cur rd_poss 0 ?s" "dirty_log 0 ?s = dirty_log 0 dirty1"
    using dirty1_settled by (simp_all add: settled_def ram_disk_def dirty1_def boot_state_def
        dirty_log_def dirty_list_def entry_of_def is_dirty_def)
  have t: "rd_cur (dev ?t) 0 = void_image" "\<forall>l. rd_poss (dev ?t) 0 l = {void_image l}"
    "\<not> free_list_empty ?t"
    using mounting_free by (simp_all add: ram_disk_def mounting_def free_list_empty_def)
  obtain s3 where s3: "apaJournalRestore ram_ops 0 ?t = Some (0, s3)" "\<not> ram_off (dev s3)"
    by (simp add: apaJournalRestore_def ram_ops_def ram_disk_def void_image_def Let_def
        copy_words_def ram_off_def)
  from flush_atomic [OF ram_laws ram_reads_ok s(1) _ s1 t(1) _ t(3) s3] s3 t(2) s(2) dirty1_log
  show ?thesis using good_log1 by (metis t(1))
qed

text \<open>
  A journal sector that cannot be read makes the recovery void the log: when the drive works
  again the headers of an interrupted flush are gone, although the log held all of them.
\<close>

theorem restore_read_error:
  assumes "disk_laws A cur poss off" "io_read A dv APA_SECTOR_APAL 1 (dev s) = (False, w, d)"
    and "apaJournalRestore A dv s = Some (r, s')" "\<not> off (dev s')"
  shows "r = - EIO \<and> clean_journal (cur (dev s') dv) \<and>
     (\<forall>l. l \<noteq> APA_SECTOR_APAL \<longrightarrow> cur (dev s') dv l = cur (dev s) dv l)"
proof -
  let ?s = "s\<lparr>journalBuf := copy_words (journalBuf s) 0 w 128, dev := d\<rparr>"
  obtain q t where t: "apaJournalReset A dv ?s = (q, t)" by fastforce
  with assms(2,3) have "r = - EIO" "s' = t" by (auto simp: apaJournalRestore_def Let_def)
  with journalReset_device(4) [OF assms(1) t] assms(4) read_law(1) [OF assms(1,2)]
  show ?thesis using reset_image [of "cur (dev s) dv"] by auto
qed

text \<open>A drive that works but for its reads.\<close>

definition deaf_ops :: "ram ata_ops" where
  "deaf_ops = ram_ops\<lparr>io_read := (\<lambda>dv lba n d. (False, (\<lambda>_. 0), d))\<rparr>"

lemma deaf_laws: "disk_laws deaf_ops rd_cur rd_poss ram_off"
  using ram_laws by (auto simp: disk_laws_def deaf_ops_def read_spec_def)

theorem restore_read_error_witness:
  "\<exists>s'. apaJournalRestore deaf_ops 0 mounting = Some (- EIO, s') \<and> clean_journal (rd_cur (dev s') 0) \<and>
     rd_cur (dev s') 0 0x1000 = logged_image 0x1000"
proof -
  obtain s' where s': "apaJournalRestore deaf_ops 0 mounting = Some (- EIO, s')" "\<not> ram_off (dev s')"
    by (simp add: apaJournalRestore_def deaf_ops_def ram_ops_def mounting_def ram_disk_def Let_def
        apaJournalReset_def apaJournalFlush_def ram_flush_def ram_write_def ram_off_def)
  have "io_read deaf_ops 0 APA_SECTOR_APAL 1 (dev mounting) = (False, (\<lambda>_. 0), dev mounting)"
    "rd_cur (dev mounting) 0 = logged_image" by (simp_all add: deaf_ops_def mounting_def ram_disk_def)
  with restore_read_error [OF deaf_laws _ s'] s'(1) show ?thesis by auto
qed

end
