(* ===== verification/ApaPart.thy ===== *)
theory ApaPart
  imports ApaJournal
begin

text \<open>
  The partition routines of iop/hdd/libapa/src/apa.c, the clock of iop/hdd/libapa/src/misc.c and the
  free space computation of iop/hdd/libapa/src/free.c.

  Partitions form a doubly linked list on the disk that starts at the master boot record in sector
  0. The routines walk it through the header cache. A walk over what is on the disk need not end,
  so the walks are partial functions. A pointer argument \<open>err\<close> is a result of the function.
\<close>

section \<open>Headers\<close>

abbreviation (input) APA_TYPE_FREE :: u16 where "APA_TYPE_FREE \<equiv> 0"
abbreviation (input) APA_FLAG_SUB :: u16 where "APA_FLAG_SUB \<equiv> 1"
abbreviation (input) APA_MODVER :: u32 where "APA_MODVER \<equiv> 0x0201"

text \<open>The two half words of word 18 of a header.\<close>

definition h_type :: "apa_header_t \<Rightarrow> u16" where
  "h_type h = ucast (h H_TYPEFLAGS)"

definition h_flags :: "apa_header_t \<Rightarrow> u16" where
  "h_flags h = ucast (drop_bit 16 (h H_TYPEFLAGS))"

definition type_flags :: "u16 \<Rightarrow> u16 \<Rightarrow> u32" where
  "type_flags t f = ucast t OR push_bit 16 (ucast f)"

record apa_params_t =
  pr_id :: words
  pr_fpwd :: words
  pr_rpwd :: words
  pr_size :: u32
  pr_type :: u16
  pr_flags :: u16
  pr_main :: u32
  pr_number :: u32

record apa_device_t =
  totalLBA :: u32
  partitionMaxSize :: u32
  format :: int
  status :: int

definition hdr :: "'d apa_state \<Rightarrow> nat \<Rightarrow> apa_header_t" where
  "hdr s c = c_header (cacheBuf s c)"

definition upd_hdr :: "nat \<Rightarrow> (apa_header_t \<Rightarrow> apa_header_t) \<Rightarrow> 'd apa_state \<Rightarrow> 'd apa_state" where
  "upd_hdr c f s = upd_c c (c_header_update f) s"

definition mark_dirty :: "nat \<Rightarrow> 'd apa_state \<Rightarrow> 'd apa_state" where
  "mark_dirty c s = upd_c c (c_flags_update (\<lambda>f. f OR APA_CACHE_FLAG_DIRTY)) s"

section \<open>The clock\<close>

text \<open>The attempts to read the clock that are left.\<close>

fun clock_loop :: "'d ata_ops \<Rightarrow> nat \<Rightarrow> 'd apa_state \<Rightarrow> 'd apa_state" where
  "clock_loop A 0 s = s"
| "clock_loop A (Suc n) s =
     (case io_clock A (dev s) of (ret, ck, d) \<Rightarrow>
        let s = s\<lparr>dev := d\<rparr> in
        if ret \<noteq> 0 \<and> ck_stat ck = 0 then s\<lparr>timeBuf := time_words ck (timeBuf s)\<rparr>
        else if ck_stat ck AND 0x80 = 0 then s
        else clock_loop A n s)"

definition apaGetTime :: "'d ata_ops \<Rightarrow> 'd apa_state \<Rightarrow> words \<times> 'd apa_state" where
  "apaGetTime A s = (let s = clock_loop A 20 s in (timeBuf s, s))"

text \<open>\<open>apaGetTime (&clink->header->created)\<close>.\<close>

definition stamp :: "'d ata_ops \<Rightarrow> nat \<Rightarrow> 'd apa_state \<Rightarrow> 'd apa_state" where
  "stamp A c s = (case apaGetTime A s of (w, s) \<Rightarrow>
     upd_hdr c (\<lambda>h. h(H_CREATED := w 0, H_CREATED + 1 := w 1)) s)"

section \<open>The error sectors\<close>

definition apaSetPartErrorSector :: "'d ata_ops \<Rightarrow> u32 \<Rightarrow> u32 \<Rightarrow> 'd apa_state \<Rightarrow> 'd apa_state option" where
  "apaSetPartErrorSector A device lba s =
     (case apaCacheAlloc s of
        (None, s) \<Rightarrow> None
      | (Some c, s) \<Rightarrow>
          case apaSaveError A device (hdr s c) APA_SECTOR_PART_ERROR lba (dev s) of
            (h, d) \<Rightarrow> Some (apaCacheFree (Some c) (upd_hdr c (\<lambda>_. h) (s\<lparr>dev := d\<rparr>))))"

definition apaGetPartErrorSector ::
    "'d ata_ops \<Rightarrow> u32 \<Rightarrow> u32 \<Rightarrow> 'd apa_state \<Rightarrow> int \<times> u32 option \<times> 'd apa_state" where
  "apaGetPartErrorSector A device lba s =
     (case apaCacheAlloc s of
        (None, s) \<Rightarrow> (- ENOMEM, None, s)
      | (Some c, s) \<Rightarrow>
          case io_read A device lba 1 (dev s) of (ok, w, d) \<Rightarrow>
            let s = upd_hdr c (\<lambda>h. copy_words h 0 w 128) (s\<lparr>dev := d\<rparr>) in
            if \<not> ok then (- EIO, None, s)
            else (if hdr s c 0 \<noteq> 0 then 1 else 0, Some (hdr s c 0), apaCacheFree (Some c) s))"

section \<open>Walking the list\<close>

definition apaGetNextHeader ::
    "'d ata_ops \<Rightarrow> nat \<Rightarrow> int \<Rightarrow> 'd apa_state \<Rightarrow> (nat option \<times> int \<times> 'd apa_state) option" where
  "apaGetNextHeader A c err s =
     (let start = hdr s c H_START; s = apaCacheFree (Some c) s in
      if hdr s c H_NEXT = 0 then Some (None, err, s)
      else case apaCacheGetHeader A (c_device (cacheBuf s c)) (hdr s c H_NEXT) APA_IO_MODE_READ s of
          (err, None, s) \<Rightarrow> Some (None, err, s)
        | (err, Some c, s) \<Rightarrow>
            if start \<noteq> hdr s c H_PREV
            then do {
              let s = upd_hdr c (\<lambda>h. h(H_PREV := start)) s;
              let s = mark_dirty c s;
              (_, s) \<leftarrow> apaCacheFlushAllDirty A (c_device (cacheBuf s c)) s;
              Some (Some c, err, s)
            }
            else Some (Some c, err, s))"

partial_function (option) error_name_loop ::
    "'d ata_ops \<Rightarrow> u32 \<Rightarrow> nat option \<Rightarrow> int \<Rightarrow> 'd apa_state \<Rightarrow> (words option \<times> int \<times> 'd apa_state) option" where
  "error_name_loop A lba p rv s =
     (case p of
        None \<Rightarrow> Some (None, rv, s)
      | Some c \<Rightarrow>
          if h_type (hdr s c) \<noteq> APA_TYPE_FREE \<and> h_flags (hdr s c) AND 1 = 0 \<and> hdr s c H_START = lba
          then Some (Some (words_from (hdr s c) H_ID), 1, apaCacheFree (Some c) s)
          else Option.bind (apaGetNextHeader A c rv s) (\<lambda>(p, rv, s). error_name_loop A lba p rv s))"

text \<open>
  The result has the name that was found, as the words of its header; the code copies the first 31
  bytes and ends them with a zero.
\<close>

definition apaGetPartErrorName ::
    "'d ata_ops \<Rightarrow> u32 \<Rightarrow> 'd apa_state \<Rightarrow> (int \<times> words option \<times> 'd apa_state) option" where
  "apaGetPartErrorName A device s =
     (case apaGetPartErrorSector A device APA_SECTOR_PART_ERROR s of
        (rv, lba, s) \<Rightarrow>
          if rv \<le> 0 then Some (rv, None, s)
          else case apaCacheGetHeader A device 0 APA_IO_MODE_READ s of
              (rv, None, s) \<Rightarrow> Some (rv, None, s)
            | (rv, Some c, s) \<Rightarrow>
                do {
                  (name, rv, s) \<leftarrow> error_name_loop A (the lba) (Some c) rv s;
                  if name \<noteq> None then Some (1, name, s)
                  else if rv = 0 then do { s \<leftarrow> apaSetPartErrorSector A device 0 s; Some (rv, None, s) }
                  else Some (rv, None, s)
                })"

partial_function (option) find_loop ::
    "'d ata_ops \<Rightarrow> words \<Rightarrow> nat option \<Rightarrow> int \<Rightarrow> 'd apa_state \<Rightarrow> (nat option \<times> int \<times> 'd apa_state) option" where
  "find_loop A ident p err s =
     (case p of
        None \<Rightarrow> Some (None, err, s)
      | Some c \<Rightarrow>
          if h_flags (hdr s c) AND APA_FLAG_SUB = 0 \<and> memcmp_eq (words_from (hdr s c) H_ID) ident 8
          then Some (Some c, err, s)
          else Option.bind (apaGetNextHeader A c err s) (\<lambda>(p, err, s). find_loop A ident p err s))"

definition apaFindPartition ::
    "'d ata_ops \<Rightarrow> u32 \<Rightarrow> words \<Rightarrow> 'd apa_state \<Rightarrow> (nat option \<times> int \<times> 'd apa_state) option" where
  "apaFindPartition A device ident s =
     (case apaCacheGetHeader A device 0 APA_IO_MODE_READ s of (err, p, s) \<Rightarrow>
        do {
          (p, err, s) \<leftarrow> find_loop A ident p err s;
          if p \<noteq> None then Some (p, err, s)
          else if err = 0 then Some (None, - ENOENT, s)
          else Some (None, 0, s)
        })"

section \<open>Making partitions\<close>

definition apaFillHeader ::
    "'d ata_ops \<Rightarrow> u32 \<Rightarrow> apa_params_t \<Rightarrow> u32 \<Rightarrow> u32 \<Rightarrow> u32 \<Rightarrow> u32 \<Rightarrow> 'd apa_state \<Rightarrow>
     nat option \<times> int \<times> 'd apa_state" where
  "apaFillHeader A device params start nxt prev len s =
     (case apaCacheGetHeader A device start APA_IO_MODE_WRITE s of
        (err, None, s) \<Rightarrow> (None, err, s)
      | (err, Some c, s) \<Rightarrow>
          let s = upd_hdr c (\<lambda>_ _. 0) s;
              s = upd_hdr c (\<lambda>h. h(H_MAGIC := APA_MAGIC, H_START := start, H_NEXT := nxt,
                    H_PREV := prev, H_LENGTH := len,
                    H_TYPEFLAGS := type_flags (pr_type params) (pr_flags params),
                    H_MODVER := APA_MODVER)) s;
              s = upd_hdr c (\<lambda>h. copy_words h H_ID (pr_id params) 8) s;
              s = (if pr_flags params AND APA_FLAG_SUB \<noteq> 0
                   then upd_hdr c (\<lambda>h. h(H_MAIN := pr_main params, H_NUMBER := pr_number params)) s
                   else if \<not> strncmp_eq (\<lambda>k. byte_at (hdr s c) (4 * H_ID + k)) (str_byte ''_tmp'') 32
                   then upd_hdr c (\<lambda>h. copy_words (copy_words h H_RPWD (pr_rpwd params) 2)
                          H_FPWD (pr_fpwd params) 2) s
                   else s);
              s = stamp A c s
          in (Some c, err, mark_dirty c s))"

text \<open>A header of an empty block, without its time.\<close>

definition empty_header :: "u32 \<Rightarrow> u32 \<Rightarrow> u32 \<Rightarrow> u32 \<Rightarrow> apa_header_t" where
  "empty_header start nxt prev len = (\<lambda>_. 0)(H_MAGIC := APA_MAGIC, H_START := start,
     H_NEXT := nxt, H_PREV := prev, H_LENGTH := len,
     H_ID := word_of_bytes (str_byte ''__empty'') 0,
     H_ID + 1 := word_of_bytes (str_byte ''__empty'') 1)"

definition apaRemovePartition ::
    "'d ata_ops \<Rightarrow> u32 \<Rightarrow> u32 \<Rightarrow> u32 \<Rightarrow> u32 \<Rightarrow> u32 \<Rightarrow> 'd apa_state \<Rightarrow> nat option \<times> 'd apa_state" where
  "apaRemovePartition A device start nxt prev len s =
     (case apaCacheGetHeader A device start APA_IO_MODE_WRITE s of
        (err, None, s) \<Rightarrow> (None, s)
      | (err, Some c, s) \<Rightarrow>
          let s = upd_hdr c (\<lambda>_. empty_header start nxt prev len) s;
              s = stamp A c s
          in (Some c, mark_dirty c s))"

definition apaMakeEmpty :: "'d ata_ops \<Rightarrow> nat \<Rightarrow> 'd apa_state \<Rightarrow> 'd apa_state" where
  "apaMakeEmpty A c s =
     (let s = upd_hdr c (\<lambda>h. empty_header (h H_START) (h H_NEXT) (h H_PREV) (h H_LENGTH)) s;
          s = stamp A c s
      in mark_dirty c s)"

text \<open>One round of the loop that halves a block: \<open>cn\<close> is the block behind it.\<close>

definition insert_split :: "'d ata_ops \<Rightarrow> u32 \<Rightarrow> nat \<Rightarrow> nat \<Rightarrow> 'd apa_state \<Rightarrow> 'd apa_state option" where
  "insert_split A device c cn s =
     (let s = upd_hdr c (\<lambda>h. h(H_LENGTH := drop_bit 1 (h H_LENGTH))) s in
      case apaRemovePartition A device (hdr s c H_START + hdr s c H_LENGTH) (hdr s c H_NEXT)
             (hdr s c H_START) (hdr s c H_LENGTH) s of
        (None, s) \<Rightarrow> None
      | (Some ce, s) \<Rightarrow>
          do {
            let s = upd_hdr c (\<lambda>h. h(H_NEXT := hdr s ce H_START)) s;
            let s = mark_dirty c s;
            let s = upd_hdr cn (\<lambda>h. h(H_PREV := hdr s ce H_START)) s;
            let s = mark_dirty cn s;
            (_, s) \<leftarrow> apaCacheFlushAllDirty A device s;
            Some (apaCacheFree (Some cn) (apaCacheFree (Some ce) s))
          })"

partial_function (option) insert_loop ::
    "'d ata_ops \<Rightarrow> u32 \<Rightarrow> u32 \<Rightarrow> nat \<Rightarrow> int \<Rightarrow> 'd apa_state \<Rightarrow> (bool \<times> int \<times> 'd apa_state) option" where
  "insert_loop A device sz c err s =
     (if hdr s c H_LENGTH = sz then Some (True, err, s)
      else case apaCacheGetHeader A device (hdr s c H_NEXT) APA_IO_MODE_READ s of (err, p, s) \<Rightarrow>
        (case p of
           None \<Rightarrow> Some (False, err, apaCacheFree (Some c) s)
         | Some cn \<Rightarrow>
             Option.bind (insert_split A device c cn s) (\<lambda>s. insert_loop A device sz c err s)))"

definition apaInsertPartition ::
    "'d ata_ops \<Rightarrow> u32 \<Rightarrow> apa_params_t \<Rightarrow> u32 \<Rightarrow> 'd apa_state \<Rightarrow> (nat option \<times> int \<times> 'd apa_state) option" where
  "apaInsertPartition A device params sector s =
     (case apaCacheGetHeader A device sector APA_IO_MODE_READ s of
        (err, None, s) \<Rightarrow> Some (None, err, s)
      | (err, Some c, s) \<Rightarrow>
          do {
            (ok, err, s) \<leftarrow> insert_loop A device (pr_size params) c err s;
            if \<not> ok then Some (None, err, s)
            else do {
              let s = apaCacheFree (Some c) s;
              let (p, err, s) = apaFillHeader A device params (hdr s c H_START) (hdr s c H_NEXT)
                    (hdr s c H_PREV) (pr_size params) s;
              (_, s) \<leftarrow> apaCacheFlushAllDirty A device s;
              Some (p, err, s)
            }
          })"

text \<open>The blocks of each power of two that are known to be empty; \<open>emptyBlocks\<close> has 32 elements.\<close>

definition apaAddEmptyBlock :: "apa_header_t \<Rightarrow> (nat \<Rightarrow> u32) \<Rightarrow> nat \<Rightarrow> u32" where
  "apaAddEmptyBlock h emptyBlocks =
     (if h_type h = APA_TYPE_FREE
      then (case find (\<lambda>i. h H_LENGTH = push_bit i 1 \<and> emptyBlocks i = 0) [0..<32] of
              Some i \<Rightarrow> emptyBlocks(i := h H_START)
            | None \<Rightarrow> emptyBlocks)
      else emptyBlocks)"

section \<open>Deleting partitions\<close>

text \<open>
  The test for a merge of a block of \<open>len\<close> sectors with one that makes it start at \<open>start\<close> and be
  \<open>tmp\<close> sectors long; a remainder by zero has no result.
\<close>

definition merge_stops :: "u32 \<Rightarrow> u32 \<Rightarrow> bool option" where
  "merge_stops start tmp = (if tmp = 0 then None
     else Some (start mod tmp \<noteq> 0 \<or> tmp AND (tmp - 1) \<noteq> 0))"

partial_function (option) fix_prev_loop ::
    "'d ata_ops \<Rightarrow> u32 \<Rightarrow> nat \<Rightarrow> u32 \<Rightarrow> int \<Rightarrow> 'd apa_state \<Rightarrow>
     (nat option \<times> u32 \<times> int \<times> 'd apa_state) option" where
  "fix_prev_loop A device c len err s =
     (if hdr s c H_START = 0 then Some (Some c, len, err, s)
      else case apaCacheGetHeader A device (hdr s c H_PREV) APA_IO_MODE_READ s of (err, p, s) \<Rightarrow>
        (case p of
           None \<Rightarrow> Some (None, len, err, apaCacheFree (Some c) s)
         | Some c2 \<Rightarrow>
             if h_type (hdr s c2) \<noteq> 0 then Some (Some c, len, err, apaCacheFree (Some c2) s)
             else Option.bind (merge_stops (hdr s c2 H_START) (hdr s c2 H_LENGTH + len)) (\<lambda>stop.
               if stop then Some (Some c, len, err, apaCacheFree (Some c2) s)
               else fix_prev_loop A device c2 (hdr s c2 H_LENGTH + len) err
                      (apaCacheFree (Some c) s))))"

definition apaDeleteFixPrev ::
    "'d ata_ops \<Rightarrow> nat \<Rightarrow> int \<Rightarrow> 'd apa_state \<Rightarrow> (nat option \<times> int \<times> 'd apa_state) option" where
  "apaDeleteFixPrev A c err s =
     (let device = c_device (cacheBuf s c); saved_next = hdr s c H_NEXT;
          saved_length = hdr s c H_LENGTH
      in do {
        (p, len, err, s) \<leftarrow> fix_prev_loop A device c saved_length err s;
        case p of
          None \<Rightarrow> Some (None, err, s)
        | Some c \<Rightarrow>
            if len = saved_length then Some (Some c, err, s)
            else case apaCacheGetHeader A device saved_next APA_IO_MODE_READ s of
                (err, None, s) \<Rightarrow> Some (None, err, apaCacheFree (Some c) s)
              | (err, Some c2, s) \<Rightarrow>
                  do {
                    let s = upd_hdr c (\<lambda>h. h(H_LENGTH := len)) s;
                    let s = upd_hdr c (\<lambda>h. h(H_NEXT := h H_START + len)) s;
                    let s = upd_hdr c2 (\<lambda>h. h(H_PREV := hdr s c H_START)) s;
                    let s = mark_dirty c (mark_dirty c2 s);
                    (_, s) \<leftarrow> apaCacheFlushAllDirty A device s;
                    Some (Some c, err, apaCacheFree (Some c2) s)
                  }
      })"

partial_function (option) fix_next_loop ::
    "'d ata_ops \<Rightarrow> u32 \<Rightarrow> nat \<Rightarrow> u32 \<Rightarrow> u32 \<Rightarrow> int \<Rightarrow> 'd apa_state \<Rightarrow>
     (bool \<times> u32 \<times> u32 \<times> int \<times> 'd apa_state) option" where
  "fix_next_loop A device c len lnext err s =
     (if lnext = 0 then Some (True, len, lnext, err, s)
      else case apaCacheGetHeader A device lnext APA_IO_MODE_READ s of (err, p, s) \<Rightarrow>
        (case p of
           None \<Rightarrow> Some (False, len, lnext, err, apaCacheFree (Some c) s)
         | Some c1 \<Rightarrow>
             if h_type (hdr s c1) \<noteq> 0 then Some (True, len, lnext, err, apaCacheFree (Some c1) s)
             else Option.bind (merge_stops (hdr s c H_START) (hdr s c1 H_LENGTH + len)) (\<lambda>stop.
               if stop then Some (True, len, lnext, err, apaCacheFree (Some c1) s)
               else fix_next_loop A device c (hdr s c1 H_LENGTH + len) (hdr s c1 H_NEXT) err
                      (apaCacheFree (Some c1) s))))"

definition apaDeleteFixNext ::
    "'d ata_ops \<Rightarrow> nat \<Rightarrow> int \<Rightarrow> 'd apa_state \<Rightarrow> (nat option \<times> int \<times> 'd apa_state) option" where
  "apaDeleteFixNext A c err s =
     (let saved_length = hdr s c H_LENGTH; device = c_device (cacheBuf s c) in
      do {
        (ok, len, lnext, err, s) \<leftarrow> fix_next_loop A device c saved_length (hdr s c H_NEXT) err s;
        if \<not> ok then Some (None, err, s)
        else if len = saved_length then Some (Some c, err, s)
        else case apaCacheGetHeader A device lnext APA_IO_MODE_READ s of
            (err, None, s) \<Rightarrow> Some (None, err, apaCacheFree (Some c) s)
          | (err, Some c2, s) \<Rightarrow>
              do {
                let s = upd_hdr c (\<lambda>h. h(H_LENGTH := len, H_NEXT := lnext)) s;
                let s = apaMakeEmpty A c s;
                let s = upd_hdr c2 (\<lambda>h. h(H_PREV := hdr s c H_START)) s;
                let s = mark_dirty c2 s;
                (_, s) \<leftarrow> apaCacheFlushAllDirty A device s;
                Some (Some c, err, apaCacheFree (Some c2) s)
              }
      })"

text \<open>
  Deleting the last partition: it and the empty ones in front of it leave the list. The result is
  \<open>None\<close> for the early return of 0.
\<close>

partial_function (option) delete_last_loop ::
    "'d ata_ops \<Rightarrow> u32 \<Rightarrow> nat \<Rightarrow> nat \<Rightarrow> 'd apa_state \<Rightarrow> (nat option \<times> int \<times> 'd apa_state) option" where
  "delete_last_loop A device mbr c s =
     (let s = apaCacheFree (Some c) s in
      case apaCacheGetHeader A (c_device (cacheBuf s c)) (hdr s c H_PREV) APA_IO_MODE_READ s of (rv, p, s) \<Rightarrow>
        (case p of
           None \<Rightarrow> Some (None, rv, s)
         | Some c \<Rightarrow>
             let s = mark_dirty c (upd_hdr c (\<lambda>h. h(H_NEXT := 0)) s);
                 s = mark_dirty mbr (upd_hdr mbr (\<lambda>h. h(H_PREV := hdr s c H_START)) s)
             in Option.bind (apaCacheFlushAllDirty A device s) (\<lambda>(_, s).
                  if h_type (hdr s c) = 0 then delete_last_loop A device mbr c s
                  else Some (Some c, rv, s))))"

definition apaDelete :: "'d ata_ops \<Rightarrow> nat \<Rightarrow> 'd apa_state \<Rightarrow> (int \<times> 'd apa_state) option" where
  "apaDelete A c s =
     (let device = c_device (cacheBuf s c); start = hdr s c H_START in
      if start = 0 then Some (- EACCES, apaCacheFree (Some c) s)
      else if hdr s c H_NEXT = 0
      then case apaCacheGetHeader A device 0 APA_IO_MODE_READ s of
          (rv, None, s) \<Rightarrow> Some (rv, apaCacheFree (Some c) s)
        | (rv, Some mbr, s) \<Rightarrow>
            do {
              (p, rv, s) \<leftarrow> delete_last_loop A device mbr c s;
              if p = None then Some (0, s)
              else Some (rv, apaCacheFree p (apaCacheFree (Some mbr) s))
            }
      else do {
        let len = hdr s c H_LENGTH;
        (p, rv, s) \<leftarrow> foldO (\<lambda>_ (p, rv, s). case p of
              None \<Rightarrow> Some (None, rv, s)
            | Some c \<Rightarrow> do {
                (p, rv, s) \<leftarrow> apaDeleteFixPrev A c rv s;
                case p of None \<Rightarrow> Some (None, rv, s) | Some c \<Rightarrow> apaDeleteFixNext A c rv s
              }) [0..<2] (Some c, 0, s);
        case p of
          None \<Rightarrow> Some (0, s)
        | Some c \<Rightarrow>
            if hdr s c H_START = start \<and> hdr s c H_LENGTH = len
            then do {
              let s = apaMakeEmpty A c s;
              (_, s) \<leftarrow> apaCacheFlushAllDirty A (c_device (cacheBuf s c)) s;
              Some (rv, apaCacheFree (Some c) s)
            }
            else Some (rv, apaCacheFree (Some c) s)
      })"

section \<open>The whole disk\<close>

definition apaGetFormat :: "'d ata_ops \<Rightarrow> u32 \<Rightarrow> 'd apa_state \<Rightarrow> (int \<times> u32 \<times> 'd apa_state) option" where
  "apaGetFormat A device s =
     (case apaCacheAlloc s of
        (None, s) \<Rightarrow> None
      | (Some c, s) \<Rightarrow>
          (case apaReadHeader A device 0 (dev s) of (rv, h, d) \<Rightarrow>
             let s = upd_hdr c (\<lambda>_. h) (s\<lparr>dev := d\<rparr>) in
             if rv \<noteq> 0 then Some (0, 0, apaCacheFree (Some c) s)
             else
               let fmt = hdr s c H_MBR_VERSION in
               case io_read A device APA_SECTOR_SECTOR_ERROR 2 (dev s) of (ok, w, d) \<Rightarrow>
                 let s = upd_hdr c (\<lambda>_. w) (s\<lparr>dev := d\<rparr>);
                     rv = (if \<not> ok then - EIO
                           else if list_ex (\<lambda>i. i mod 128 \<noteq> 0 \<and> hdr s c i \<noteq> 0) [0..<256] then 1 else 0)
                 in Some (if rv = 0 then 1 else 0, fmt, apaCacheFree (Some c) s)))"

text \<open>The loop counts \<open>i\<close> down from 31 to the highest bit that is set, and stops at 0.\<close>

fun max_loop :: "u32 \<Rightarrow> nat \<Rightarrow> nat \<times> u32" where
  "max_loop t 0 = (0, push_bit 1 1)"
| "max_loop t (Suc i) =
     (if push_bit (Suc i) 1 AND t \<noteq> 0 then (Suc i, push_bit (Suc i) 1) else max_loop t i)"

definition apaGetPartitionMax :: "u32 \<Rightarrow> u32" where
  "apaGetPartitionMax lba =
     (let t = drop_bit 6 lba; (i, sz) = max_loop t 31
      in push_bit (if sz < t then i + 1 else i) 1)"

fun halves_loop :: "nat \<Rightarrow> u32 \<Rightarrow> u32 \<Rightarrow> u32" where
  "halves_loop 0 sectors free = free"
| "halves_loop (Suc n) sectors free =
     (if 0x3FFFF < sectors then halves_loop n (sectors div 2) (free OR sectors) else free)"

definition apaCalculateFreeSpace :: "u32 \<Rightarrow> u32 \<Rightarrow> u32" where
  "apaCalculateFreeSpace free sectors =
     (if 0x1FFFFF < sectors then free + sectors
      else if free AND sectors = 0 then free OR sectors
      else halves_loop 32 (sectors div 2) free)"

partial_function (option) used_loop ::
    "'d ata_ops \<Rightarrow> nat \<Rightarrow> int \<Rightarrow> u32 \<Rightarrow> u32 \<Rightarrow> 'd apa_state \<Rightarrow> (u32 \<times> u32 \<times> int \<times> 'd apa_state) option" where
  "used_loop A c rv free sectors s =
     (let free = (if h_type (hdr s c) = 0 then apaCalculateFreeSpace free (hdr s c H_LENGTH) else free);
          sectors = sectors + hdr s c H_LENGTH
      in Option.bind (apaGetNextHeader A c rv s) (\<lambda>(p, rv, s).
           case p of None \<Rightarrow> Some (free, sectors, rv, s) | Some c \<Rightarrow> used_loop A c rv free sectors s))"

text \<open>
  The size of the next partition that could still be made behind \<open>sectors\<close> used ones: the inner loop
  halves \<open>partMax\<close>, at most 32 times.
\<close>

fun next_part :: "nat \<Rightarrow> u32 \<Rightarrow> u32 \<Rightarrow> u32 \<Rightarrow> u32 option" where
  "next_part 0 lba sectors partMax = None"
| "next_part (Suc n) lba sectors partMax =
     (if \<not> 0x3FFFF < partMax then None
      else if sectors mod partMax = 0 \<and> (ucast sectors :: u64) + ucast partMax < ucast lba
      then Some partMax
      else next_part n lba sectors (partMax div 2))"

lemma next_part_Some:
  "next_part n lba sectors partMax = Some p \<Longrightarrow>
     unat sectors + unat p < unat lba \<and> 0x3FFFF < p \<and> p \<le> partMax \<and> sectors mod p = 0"
proof (induction n arbitrary: partMax)
  case (Suc n)
  have *: "(ucast sectors :: u64) + ucast q < ucast lba \<longleftrightarrow> unat sectors + unat q < unat lba" for q :: u32
  proof -
    have "unat (ucast sectors + ucast q :: u64) = unat sectors + unat q"
      using unat_u32_less [of sectors] unat_u32_less [of q] by (simp add: unat_word_ariths)
    then show ?thesis by (simp add: word_less_nat_alt)
  qed
  have "q div 2 \<le> q" for q :: u32 by (simp add: word_le_nat_alt unat_div)
  with Suc * show ?case by (fastforce split: if_splits intro: order_trans)
qed simp

function room_loop :: "u32 \<Rightarrow> u32 \<Rightarrow> u32 \<Rightarrow> u32 \<Rightarrow> u32 \<times> u32" where
  "room_loop lba maxSize free sectors =
     (case next_part 32 lba sectors maxSize of
        None \<Rightarrow> (free, sectors)
      | Some p \<Rightarrow> room_loop lba maxSize (apaCalculateFreeSpace free p) (sectors + p))"
  by pat_completeness auto

termination
proof (relation "measure (\<lambda>(lba, _, _, sectors). unat lba - unat sectors)")
  fix lba maxSize free sectors p
  assume "next_part 32 lba sectors maxSize = Some p"
  from next_part_Some [OF this] have lt: "unat sectors + unat p < unat lba" "0 < unat p"
    by (auto simp: word_less_nat_alt)
  then have "unat (sectors + p) = unat sectors + unat p"
    using unat_u32_less [of lba] by (simp add: unat_word_ariths)
  with lt show "((lba, maxSize, apaCalculateFreeSpace free p, sectors + p), lba, maxSize, free, sectors)
      \<in> measure (\<lambda>(lba, _, _, sectors). unat lba - unat sectors)" by simp
qed simp

definition apaGetFreeSectors ::
    "'d ata_ops \<Rightarrow> u32 \<Rightarrow> (u32 \<Rightarrow> apa_device_t) \<Rightarrow> 'd apa_state \<Rightarrow> (int \<times> u32 \<times> 'd apa_state) option" where
  "apaGetFreeSectors A device deviceinfo s =
     do {
       (free, sectors, rv, s) \<leftarrow>
         (case apaCacheGetHeader A device 0 APA_IO_MODE_READ s of
            (rv, None, s) \<Rightarrow> Some (0, 0, rv, s)
          | (rv, Some c, s) \<Rightarrow> used_loop A c rv 0 0 s);
       Some (rv, if rv = 0 then fst (room_loop (totalLBA (deviceinfo device))
                   (partitionMaxSize (deviceinfo device)) free sectors) else free, s)
     }"

section \<open>Sizes and free space\<close>

lemma max_loop_spec:
  assumes "\<And>j. n < j \<Longrightarrow> \<not> bit t j" "max_loop t n = (i, sz)"
  shows "i \<le> n \<and> (\<forall>j>i. \<not> bit t j) \<and> (i = 0 \<and> sz = 2 \<or> bit t i \<and> sz = push_bit i 1)"
  using assms
proof (induction n)
  case (Suc n)
  have b: "push_bit (Suc n) 1 AND t \<noteq> 0 \<longleftrightarrow> bit t (Suc n)"
    by (simp only: bit_iff_and_push_bit_not_eq_0 [of t] and.commute)
  show ?case
  proof (cases "bit t (Suc n)")
    case True
    with Suc.prems b show ?thesis by auto
  next
    case False
    then have "\<And>j. n < j \<Longrightarrow> \<not> bit t j" using Suc.prems(1) by (metis Suc_lessI)
    with Suc False b show ?thesis by fastforce
  qed
qed simp

lemma unat_less_exp: "(\<forall>j>i. \<not> bit (t :: u32) j) \<Longrightarrow> unat t < 2 ^ Suc i"
proof -
  assume h: "\<forall>j>i. \<not> bit t j"
  have "take_bit (Suc i) t = t"
    by (rule bit_eqI) (use h in \<open>auto simp: bit_take_bit_iff not_less_eq\<close>)
  then have "unat t = take_bit (Suc i) (unat t)" by (metis unsigned_take_bit_eq)
  then show ?thesis by (metis take_bit_nat_less_exp)
qed

lemma unat_ge_exp: "bit (t :: u32) i \<Longrightarrow> 2 ^ i \<le> unat t"
proof (rule ccontr)
  assume "bit t i" "\<not> 2 ^ i \<le> unat t"
  then have "unat t div 2 ^ i = 0" by simp
  moreover from \<open>bit t i\<close> have "bit (unat t) i" by (simp add: bit_unsigned_iff)
  ultimately show False by (simp add: bit_iff_odd)
qed

text \<open>
  The largest size of a partition is the smallest power of two that is not below a 64th of
  the disk.
\<close>

theorem apaGetPartitionMax_spec:
  assumes "0 < unat lba div 64"
  shows "\<exists>k. unat (apaGetPartitionMax lba) = 2 ^ k \<and> unat lba div 64 \<le> 2 ^ k \<and>
     2 ^ k < 2 * (unat lba div 64)"
proof -
  let ?t = "drop_bit 6 lba"
  obtain i sz where m: "max_loop ?t 31 = (i, sz)" by fastforce
  have t: "unat ?t = unat lba div 64" by (simp add: drop_bit_eq_div unat_div)
  then have t26: "unat ?t < 2 ^ 26" using unat_u32_less [of lba] by simp
  have "\<not> bit ?t j" if "31 < j" for j using that bit_imp_le_length [of ?t j] by auto
  from max_loop_spec [OF this m] have i: "i \<le> 31" "\<forall>j>i. \<not> bit ?t j"
    "i = 0 \<and> sz = 2 \<or> bit ?t i \<and> sz = push_bit i 1" by auto
  have lt: "unat ?t < 2 ^ Suc i" by (rule unat_less_exp [OF i(2)])
  have e: "unat (push_bit k (1 :: u32)) = 2 ^ k" if "k < 32" for k
  proof -
    have "unat (of_nat (2 ^ k) :: u32) = 2 ^ k"
      using that by (simp only: unsigned_of_nat) (simp add: take_bit_nat_eq_self)
    then show ?thesis by simp
  qed
  show ?thesis
  proof (cases "i = 0")
    case True
    with lt t assms have "unat ?t = 1" by simp
    with m True i(3) t show ?thesis
      by (intro exI [of _ 0]) (auto simp: apaGetPartitionMax_def word_less_nat_alt)
  next
    case False
    with i(3) have b: "bit ?t i" "sz = push_bit i 1" by auto
    have ge: "2 ^ i \<le> unat ?t" by (rule unat_ge_exp [OF b(1)])
    then have "(2::nat) ^ i < 2 ^ 26" using t26 by linarith
    then have i26: "i < 26" by (rule power_less_imp_less_exp [rotated]) simp
    have sz: "sz < ?t \<longleftrightarrow> 2 ^ i < unat ?t" using e [of i] i26 b(2) by (simp add: word_less_nat_alt)
    have r: "apaGetPartitionMax lba = push_bit (if sz < ?t then Suc i else i) 1"
      using m by (simp add: apaGetPartitionMax_def)
    show ?thesis
      unfolding r t [symmetric] using e [of i] e [of "Suc i"] i26 ge lt sz t assms
      by (intro exI [of _ "if sz < ?t then Suc i else i"]) auto
  qed
qed

theorem apaGetPartitionMax_spec_witness:
  "\<exists>k. unat (apaGetPartitionMax 78140160) = 2 ^ k \<and> (1220940 :: nat) \<le> 2 ^ k \<and> 2 ^ k < 2 * (1220940 :: nat)"
  using apaGetPartitionMax_spec [of 78140160] by simp

lemma unat_or_le: "unat (x OR y :: u32) \<le> unat x + unat y"
proof -
  have "uint (x OR y) \<le> uint x + uint y"
    using plus_and_or [of "uint x" "uint y"] AND_lower [of "uint x" "uint y"]
      unsigned_or_eq [of x y] by (smt (verit) uint_range_size)
  then show ?thesis by (metis nat_int_comparison(3) of_nat_add uint_nat)
qed

lemma halves_loop_bounds:
  "unat free \<le> unat (halves_loop n sectors free) \<and>
   unat (halves_loop n sectors free) \<le> unat free + 2 * unat sectors"
proof (induction n arbitrary: sectors free)
  case (Suc n)
  have "unat (halves_loop n (sectors div 2) (free OR sectors)) \<le>
      unat (free OR sectors) + 2 * unat (sectors div 2)" using Suc.IH by blast
  also have "\<dots> \<le> unat free + unat sectors + 2 * (unat sectors div 2)"
    using unat_or_le [of free sectors] by (simp add: unat_div)
  finally have up: "unat (halves_loop n (sectors div 2) (free OR sectors)) \<le> unat free + 2 * unat sectors"
    by linarith
  have "unat free \<le> unat (free OR sectors)" by (metis le_word_or2 word_le_nat_alt)
  also have "\<dots> \<le> unat (halves_loop n (sectors div 2) (free OR sectors))" using Suc.IH by blast
  finally show ?case using up by simp
qed simp

lemma free_space_bounds:
  assumes "unat free + unat sectors < 2 ^ 32"
  shows "unat free \<le> unat (apaCalculateFreeSpace free sectors) \<and>
    unat (apaCalculateFreeSpace free sectors) \<le> unat free + unat sectors"
proof -
  have "unat (free + sectors) = unat free + unat sectors" using assms by (simp add: unat_word_ariths)
  moreover have "unat free \<le> unat (free OR sectors)" by (metis le_word_or2 word_le_nat_alt)
  moreover have "2 * unat (sectors div 2) \<le> unat sectors" by (simp add: unat_div)
  ultimately show ?thesis
    using unat_or_le [of free sectors] halves_loop_bounds [of free 32 "sectors div 2"]
    by (auto simp: apaCalculateFreeSpace_def)
qed

lemma room_loop_bounds:
  "room_loop lba mx free sectors = (free', sectors') \<Longrightarrow> unat free \<le> unat sectors \<Longrightarrow>
     next_part 32 lba sectors' mx = None \<and> unat sectors \<le> unat sectors' \<and>
     (sectors' = sectors \<or> sectors' < lba) \<and>
     unat free \<le> unat free' \<and> unat free' \<le> unat free + (unat sectors' - unat sectors)"
proof (induction lba mx free sectors rule: room_loop.induct)
  case (1 lba mx free sectors)
  show ?case
  proof (cases "next_part 32 lba sectors mx")
    case None
    with 1 show ?thesis by auto
  next
    case (Some p)
    from next_part_Some [OF Some] have p: "unat sectors + unat p < unat lba" by simp
    have u: "unat (sectors + p) = unat sectors + unat p"
      using p unat_u32_less [of lba] by (simp add: unat_word_ariths)
    have f: "unat free \<le> unat (apaCalculateFreeSpace free p)"
      "unat (apaCalculateFreeSpace free p) \<le> unat free + unat p"
      using free_space_bounds [of free p] p 1(3) unat_u32_less [of lba] by auto
    from 1(2) Some have "room_loop lba mx (apaCalculateFreeSpace free p) (sectors + p) = (free', sectors')"
      by simp
    from 1(1) [OF Some this] f u 1(3)
    have "next_part 32 lba sectors' mx = None" "unat (sectors + p) \<le> unat sectors'"
      "sectors' = sectors + p \<or> sectors' < lba"
      "unat (apaCalculateFreeSpace free p) \<le> unat free'"
      "unat free' \<le> unat (apaCalculateFreeSpace free p) + (unat sectors' - unat (sectors + p))" by auto
    moreover have "sectors + p < lba" using u p by (simp add: word_less_nat_alt)
    ultimately show ?thesis using f u by auto
  qed
qed

declare room_loop.simps [simp del]

text \<open>
  The estimate of what can still be installed never overruns the disk: from a count of free
  sectors that is part of the used ones, the partitions it adds end before the last sector, what
  it reports for them is at most their size, and it stops only when no further partition fits.
\<close>

theorem room_loop_safe:
  assumes "unat free \<le> unat sectors"
  shows "\<exists>free' sectors'. room_loop lba mx free sectors = (free', sectors') \<and>
     next_part 32 lba sectors' mx = None \<and> (sectors' = sectors \<or> sectors' < lba) \<and>
     unat free \<le> unat free' \<and> unat free' \<le> unat free + (unat sectors' - unat sectors)"
proof -
  obtain free' sectors' where r: "room_loop lba mx free sectors = (free', sectors')" by fastforce
  from room_loop_bounds [OF r assms] r show ?thesis by blast
qed

theorem room_loop_safe_witness:
  "\<exists>free' sectors'. room_loop 0x1000000 0x80000 0x100000 0x400000 = (free', sectors') \<and>
     next_part 32 0x1000000 sectors' 0x80000 = None \<and> (sectors' = 0x400000 \<or> sectors' < 0x1000000)"
  using room_loop_safe [of "0x100000" "0x400000" "0x1000000" "0x80000"] by auto

end
