(* ===== verification/ApaPassword.thy ===== *)
theory ApaPassword
  imports Prelude
begin

text \<open>
  The passwords of partitions, iop/hdd/libapa/src/password.c. A partition stores not the password but
  the first eight bytes of its name, enciphered by DES with the password as the key. The code works on
  pairs of 32-bit words. Its shift counts may be negative or above 31; the shift instructions of the
  processor use the lowest five bits of a count, and so do \<open>sllv\<close> and \<open>srlv\<close> here.

  The lemmas show that the permutation loops permute bits, that the cipher can be undone, and which
  bits of a password do not matter.
\<close>

record KeyPair =
  kp_lo :: u32
  kp_hi :: u32

lemmas kp_simps = KeyPair.select_convs

section \<open>Tables\<close>

definition PC1 :: "nat list" where
  "PC1 =
    [57, 49, 41, 33, 25, 17, 9, 1, 58, 50, 42, 34, 26, 18, 10, 2,
     59, 51, 43, 35, 27, 19, 11, 3, 60, 52, 44, 36, 63, 55, 47, 39,
     31, 23, 15, 7, 62, 54, 46, 38, 30, 22, 14, 6, 61, 53, 45, 37,
     29, 21, 13, 5, 28, 20, 12, 4]"

definition Rotations :: "nat list" where
  "Rotations =
    [1, 1, 2, 2, 2, 2, 2, 2, 1, 2, 2, 2, 2, 2, 2, 1]"

definition PC2 :: "nat list" where
  "PC2 =
    [14, 17, 11, 24, 1, 5, 3, 28, 15, 6, 21, 10, 23, 19, 12, 4,
     26, 8, 16, 7, 27, 20, 13, 2, 41, 52, 31, 37, 47, 55, 30, 40,
     51, 45, 33, 48, 44, 49, 39, 56, 34, 53, 46, 42, 50, 36, 29, 32]"

definition IP :: "nat list" where
  "IP =
    [58, 50, 42, 34, 26, 18, 10, 2, 60, 52, 44, 36, 28, 20, 12, 4,
     62, 54, 46, 38, 30, 22, 14, 6, 64, 56, 48, 40, 32, 24, 16, 8,
     57, 49, 41, 33, 25, 17, 9, 1, 59, 51, 43, 35, 27, 19, 11, 3,
     61, 53, 45, 37, 29, 21, 13, 5, 63, 55, 47, 39, 31, 23, 15, 7]"

definition Expansion :: "nat list" where
  "Expansion =
    [32, 1, 2, 3, 4, 5, 4, 5, 6, 7, 8, 9, 8, 9, 10, 11,
     12, 13, 12, 13, 14, 15, 16, 17, 16, 17, 18, 19, 20, 21, 20, 21,
     22, 23, 24, 25, 24, 25, 26, 27, 28, 29, 28, 29, 30, 31, 32, 1]"

definition Permutation :: "nat list" where
  "Permutation =
    [16, 7, 20, 21, 29, 12, 28, 17, 1, 15, 23, 26, 5, 18, 31, 10,
     2, 8, 24, 14, 32, 27, 3, 9, 19, 13, 30, 6, 22, 11, 4, 25]"

definition FP :: "nat list" where
  "FP =
    [40, 8, 48, 16, 56, 24, 64, 32, 39, 7, 47, 15, 55, 23, 63, 31,
     38, 6, 46, 14, 54, 22, 62, 30, 37, 5, 45, 13, 53, 21, 61, 29,
     36, 4, 44, 12, 52, 20, 60, 28, 35, 3, 43, 11, 51, 19, 59, 27,
     34, 2, 42, 10, 50, 18, 58, 26, 33, 1, 41, 9, 49, 17, 57, 25]"

definition sbox :: "nat list list" where
  "sbox =
    [[14, 4, 13, 1, 2, 15, 11, 8, 3, 10, 6, 12, 5, 9, 0, 7,
      0, 15, 7, 4, 14, 2, 13, 1, 10, 6, 12, 11, 9, 5, 3, 8,
      4, 1, 14, 8, 13, 6, 2, 11, 15, 12, 9, 7, 3, 10, 5, 0,
      15, 12, 8, 2, 4, 9, 1, 7, 5, 11, 3, 14, 10, 0, 6, 13],
     [15, 1, 8, 14, 6, 11, 3, 4, 9, 7, 2, 13, 12, 0, 5, 10,
      3, 13, 4, 7, 15, 2, 8, 14, 12, 0, 1, 10, 6, 9, 11, 5,
      0, 14, 7, 11, 10, 4, 13, 1, 5, 8, 12, 6, 9, 3, 2, 15,
      13, 8, 10, 1, 3, 15, 4, 2, 11, 6, 7, 12, 0, 5, 14, 9],
     [10, 0, 9, 14, 6, 3, 15, 5, 1, 13, 12, 7, 11, 4, 2, 8,
      13, 7, 0, 9, 3, 4, 6, 10, 2, 8, 5, 14, 12, 11, 15, 1,
      13, 6, 4, 9, 8, 15, 3, 0, 11, 1, 2, 12, 5, 10, 14, 7,
      1, 10, 13, 0, 6, 9, 8, 7, 4, 15, 14, 3, 11, 5, 2, 12],
     [7, 13, 14, 3, 0, 6, 9, 10, 1, 2, 8, 5, 11, 12, 4, 15,
      13, 8, 11, 5, 6, 15, 0, 3, 4, 7, 2, 12, 1, 10, 14, 9,
      10, 6, 9, 0, 12, 11, 7, 13, 15, 1, 3, 14, 5, 2, 8, 4,
      3, 15, 0, 6, 10, 1, 13, 8, 9, 4, 5, 11, 12, 7, 2, 14],
     [2, 12, 4, 1, 7, 10, 11, 6, 8, 5, 3, 15, 13, 0, 14, 9,
      14, 11, 2, 12, 4, 7, 13, 1, 5, 0, 15, 10, 3, 9, 8, 6,
      4, 2, 1, 11, 10, 13, 7, 8, 15, 9, 12, 5, 6, 3, 0, 14,
      11, 8, 12, 7, 1, 14, 2, 13, 6, 15, 0, 9, 10, 4, 5, 3],
     [12, 1, 10, 15, 9, 2, 6, 8, 0, 13, 3, 4, 14, 7, 5, 11,
      10, 15, 4, 2, 7, 12, 9, 5, 6, 1, 13, 14, 0, 11, 3, 8,
      9, 14, 15, 5, 2, 8, 12, 3, 7, 0, 4, 10, 1, 13, 11, 6,
      4, 3, 2, 12, 9, 5, 15, 10, 11, 14, 1, 7, 6, 0, 8, 13],
     [4, 11, 2, 14, 15, 0, 8, 13, 3, 12, 9, 7, 5, 10, 6, 1,
      13, 0, 11, 7, 4, 9, 1, 10, 14, 3, 5, 12, 2, 15, 8, 6,
      1, 4, 11, 13, 12, 3, 7, 14, 10, 15, 6, 8, 0, 5, 9, 2,
      6, 11, 13, 8, 1, 4, 10, 7, 9, 5, 0, 15, 14, 2, 3, 12],
     [13, 2, 8, 4, 6, 15, 11, 1, 10, 9, 3, 14, 5, 0, 12, 7,
      1, 15, 13, 8, 10, 3, 7, 4, 12, 5, 6, 11, 0, 14, 9, 2,
      7, 11, 4, 1, 9, 12, 14, 2, 0, 6, 10, 13, 15, 3, 5, 8,
      2, 1, 14, 7, 4, 10, 8, 13, 15, 12, 9, 0, 3, 5, 6, 11]]"

section \<open>Shifts and permutations\<close>

definition sllv :: "u32 \<Rightarrow> int \<Rightarrow> u32" where
  "sllv x n = push_bit (nat (n mod 32)) x"

definition srlv :: "u32 \<Rightarrow> int \<Rightarrow> u32" where
  "srlv x n = drop_bit (nat (n mod 32)) x"

text \<open>The masks \<open>key1\<close> and \<open>key2\<close> that select a bit of a pair, for a shift of the uppermost bit of \<open>BitMask\<close>.\<close>

definition bit_keys :: "int \<Rightarrow> u32 \<times> u32" where
  "bit_keys shift =
     (let BitMask_lo = 0; BitMask_hi = 0x80000000; s26 = sint (push_bit 26 (word_of_int shift :: u32)) in
      if 0 \<le> s26 then
        (if 0 < s26 then srlv BitMask_lo shift OR sllv BitMask_hi (- shift) else srlv BitMask_lo shift, srlv BitMask_hi shift)
      else (srlv BitMask_hi shift, 0))"

text \<open>
  The loop all permutations are written with: the input, the bit \<open>BitPerm\<close> that is filled next, and the
  output so far.
\<close>

fun permute :: "nat list \<Rightarrow> KeyPair \<Rightarrow> KeyPair \<Rightarrow> KeyPair \<Rightarrow> KeyPair" where
  "permute [] p BitPerm out = out"
| "permute (t # ts) p BitPerm out =
     (case bit_keys (int t - 1) of (key1, key2) \<Rightarrow>
        let out = (if (kp_lo p AND key1) OR (kp_hi p AND key2) \<noteq> 0
                   then \<lparr>kp_lo = kp_lo out OR kp_lo BitPerm, kp_hi = kp_hi out OR kp_hi BitPerm\<rparr> else out);
            BitPerm = \<lparr>kp_lo = drop_bit 1 (kp_lo BitPerm) OR push_bit 31 (kp_hi BitPerm), kp_hi = drop_bit 1 (kp_hi BitPerm)\<rparr>
        in permute ts p BitPerm out)"

definition permuted :: "nat list \<Rightarrow> KeyPair \<Rightarrow> KeyPair" where
  "permuted ts p = permute ts p \<lparr>kp_lo = 0, kp_hi = 0x80000000\<rparr> \<lparr>kp_lo = 0, kp_hi = 0\<rparr>"

section \<open>The keys of the rounds\<close>

definition PermutedKey :: "KeyPair \<Rightarrow> KeyPair" where
  "PermutedKey password = permuted PC1 password"

text \<open>The rotation of 28 bits to the left, once or twice.\<close>

definition rotate_pair :: "nat \<Rightarrow> KeyPair \<Rightarrow> KeyPair" where
  "rotate_pair rot p =
     (if rot \<noteq> 1 then
        let key1 = (push_bit 6 (kp_hi p) OR drop_bit 26 (kp_lo p)) AND 3;
            key4 = push_bit 2 (kp_lo p);
            key2 = drop_bit 26 (kp_hi p) AND 0;
            key3 = push_bit 2 (kp_hi p) OR drop_bit 30 (kp_lo p)
        in \<lparr>kp_lo = (key1 OR key4) AND 0x0FFFFFFF, kp_hi = (key2 OR key3) AND 0\<rparr>
      else
        let key1 = (push_bit 5 (kp_hi p) OR drop_bit 27 (kp_lo p)) AND 1;
            key4 = push_bit 1 (kp_lo p);
            key2 = drop_bit 27 (kp_hi p) AND 0;
            key3 = push_bit 1 (kp_hi p) OR drop_bit 31 (kp_lo p)
        in \<lparr>kp_lo = (key1 OR key4) AND 0x0FFFFFFF, kp_hi = (key2 OR key3) AND 0\<rparr>)"

text \<open>The entries behind the first of \<open>pairC\<close> and \<open>pairD\<close>.\<close>

fun rotated_pairs :: "nat list \<Rightarrow> KeyPair \<Rightarrow> KeyPair list" where
  "rotated_pairs [] p = []"
| "rotated_pairs (r # rs) p = rotate_pair r p # rotated_pairs rs (rotate_pair r p)"

definition round_key :: "KeyPair \<Rightarrow> KeyPair \<Rightarrow> KeyPair" where
  "round_key c d =
     (let input_lo = 0 OR push_bit 8 (kp_lo d);
          input_hi = push_bit 4 (kp_lo c) OR push_bit 8 (kp_hi d) OR drop_bit 24 (kp_lo d)
      in permuted PC2 \<lparr>kp_lo = input_lo, kp_hi = input_hi\<rparr>)"

definition pairK :: "KeyPair \<Rightarrow> KeyPair list" where
  "pairK password =
     (let pk = PermutedKey password;
          pairC = \<lparr>kp_lo = drop_bit 4 (kp_hi pk), kp_hi = 0\<rparr>;
          pairD = \<lparr>kp_lo = (drop_bit 8 (kp_lo pk) OR push_bit 24 (kp_hi pk)) AND 0x0FFFFFFF, kp_hi = drop_bit 8 (kp_hi pk) AND 0\<rparr>
      in map2 round_key (rotated_pairs Rotations pairC) (rotated_pairs Rotations pairD))"

section \<open>A round\<close>

text \<open>The substitution of the groups of six bits, from the last to the first.\<close>

definition sbox_index :: "u32 \<Rightarrow> nat" where
  "sbox_index e = unat ((e AND 0x20) OR (drop_bit 1 (e AND 0x3F) AND 0xF) OR (push_bit 4 (e AND 0x3F) AND 0x10))"

fun sbox_loop :: "nat \<Rightarrow> int \<Rightarrow> KeyPair \<Rightarrow> KeyPair \<Rightarrow> KeyPair" where
  "sbox_loop 0 shift e s = s"
| "sbox_loop (Suc n) shift e s =
     (let input_lo = of_nat (sbox ! n ! sbox_index (kp_lo e));
          e = \<lparr>kp_lo = drop_bit 6 (kp_lo e) OR push_bit 26 (kp_hi e), kp_hi = drop_bit 6 (kp_hi e)\<rparr>;
          input_hi = 0;
          s26 = sint (push_bit 26 (word_of_int shift :: u32));
          (key3, key4) =
            (if 0 \<le> s26 then
               (if 0 < s26 then sllv input_hi shift OR srlv input_lo (- shift) else sllv input_hi shift, sllv input_lo shift)
             else (sllv input_lo shift, 0))
      in sbox_loop n (shift + 4) e \<lparr>kp_lo = kp_lo s OR key4, kp_hi = kp_hi s OR key3\<rparr>)"

text \<open>\<open>f (R, K)\<close>: expansion, key, substitution, permutation.\<close>

definition cipher_f :: "KeyPair \<Rightarrow> KeyPair \<Rightarrow> KeyPair" where
  "cipher_f r k =
     (let e = permuted Expansion r;
          lo = drop_bit 16 (kp_lo e XOR kp_lo k);
          hi = kp_hi e XOR kp_hi k;
          lo = lo OR push_bit 16 hi;
          hi = drop_bit 16 hi
      in permuted Permutation (sbox_loop 8 32 \<lparr>kp_lo = lo, kp_hi = hi\<rparr> \<lparr>kp_lo = 0, kp_hi = 0\<rparr>))"

fun rounds :: "KeyPair list \<Rightarrow> KeyPair \<Rightarrow> KeyPair \<Rightarrow> KeyPair \<times> KeyPair" where
  "rounds [] l r = (l, r)"
| "rounds (k # ks) l r =
     (let p = cipher_f r k in rounds ks r \<lparr>kp_lo = kp_lo l XOR kp_lo p, kp_hi = kp_hi l XOR kp_hi p\<rparr>)"

section \<open>The cipher\<close>

definition encipher :: "KeyPair list \<Rightarrow> KeyPair \<Rightarrow> KeyPair" where
  "encipher ks block =
     (let p = permuted IP block;
          l = \<lparr>kp_lo = kp_lo p AND 0, kp_hi = kp_hi p AND 0xFFFFFFFF\<rparr>;
          r = \<lparr>kp_lo = 0, kp_hi = kp_lo p\<rparr>;
          (l, r) = rounds ks l r
      in permuted FP \<lparr>kp_lo = kp_lo r OR kp_hi l, kp_hi = kp_hi r OR 0\<rparr>)"

definition DESEncryptPassword :: "u32 \<Rightarrow> u32 \<Rightarrow> KeyPair \<Rightarrow> KeyPair" where
  "DESEncryptPassword id_lo id_hi password = encipher (pairK password) \<lparr>kp_lo = id_lo, kp_hi = id_hi\<rparr>"

text \<open>The name and the passwords are arrays of words, of which the first two words take part.\<close>

definition apaEncryptPassword :: "words \<Rightarrow> words \<Rightarrow> words" where
  "apaEncryptPassword ident password_in =
     (let out = DESEncryptPassword (ident 0) (ident 1) \<lparr>kp_lo = password_in 0, kp_hi = password_in 1\<rparr>
      in (\<lambda>_. 0)(0 := kp_lo out, 1 := kp_hi out))"

definition apaPassCmp :: "words \<Rightarrow> words \<Rightarrow> int" where
  "apaPassCmp pw1 pw2 = (if pw1 0 = pw2 0 \<and> pw1 1 = pw2 1 then 0 else - EACCES)"

section \<open>Permutations of bits\<close>

definition pbit :: "KeyPair \<Rightarrow> nat \<Rightarrow> bool" where
  "pbit p n = (if n < 32 then bit (kp_lo p) n else bit (kp_hi p) (n - 32))"

lemma pair_eqI: "(\<And>n. n < 64 \<Longrightarrow> pbit p n = pbit q n) \<Longrightarrow> p = q"
proof -
  assume eq: "\<And>n. n < 64 \<Longrightarrow> pbit p n = pbit q n"
  have "kp_lo p = kp_lo q"
  proof (rule bit_word_eqI)
    fix n assume "n < LENGTH(32)"
    then show "bit (kp_lo p) n = bit (kp_lo q) n" using eq [of n] by (simp add: pbit_def)
  qed
  moreover have "kp_hi p = kp_hi q"
  proof (rule bit_word_eqI)
    fix n assume "n < LENGTH(32)"
    then show "bit (kp_hi p) n = bit (kp_hi q) n" using eq [of "n + 32"] by (simp add: pbit_def)
  qed
  ultimately show ?thesis by simp
qed

lemma pbit_or: "pbit \<lparr>kp_lo = kp_lo p OR kp_lo q, kp_hi = kp_hi p OR kp_hi q\<rparr> n = (pbit p n \<or> pbit q n)"
  by (simp add: pbit_def bit_or_iff)

lemma bit_keys_table:
  "\<forall>t\<in>set [1..<65]. bit_keys (int t - 1) = (if t \<le> 32 then (0, push_bit (32 - t) 1) else (push_bit (64 - t) 1, 0))"
  by code_simp

lemma and_push_bit_1: "(w AND push_bit n 1 \<noteq> 0) = (bit w n \<and> n < LENGTH('a))" for w :: "'a::len word"
  by (subst bit_eq_iff) (auto simp: bit_simps)

lemma bit_keys_select:
  assumes "1 \<le> t" "t \<le> 64" "bit_keys (int t - 1) = (key1, key2)"
  shows "((kp_lo p AND key1) OR (kp_hi p AND key2) \<noteq> 0) = pbit p (64 - t)"
proof (cases "t \<le> 32")
  case True
  then have "key1 = 0" "key2 = push_bit (32 - t) 1" using bspec [OF bit_keys_table, of t] assms by simp_all
  moreover have "\<not> 64 - t < 32" "64 - t - 32 = 32 - t" using True by simp_all
  ultimately show ?thesis using assms(1) and_push_bit_1 [of "kp_hi p" "32 - t"] by (simp add: pbit_def)
next
  case False
  then have "key1 = push_bit (64 - t) 1" "key2 = 0" using bspec [OF bit_keys_table, of t] assms by simp_all
  moreover have "64 - t < 32" using False by simp
  ultimately show ?thesis using and_push_bit_1 [of "kp_lo p" "64 - t"] by (simp add: pbit_def)
qed

text \<open>The bit that is filled next moves down by one.\<close>

definition at_bit :: "nat \<Rightarrow> KeyPair \<Rightarrow> bool" where
  "at_bit i b \<longleftrightarrow> (\<forall>n<64. pbit b n = (n + i = 63))"

lemma at_bit_start: "at_bit 0 \<lparr>kp_lo = 0, kp_hi = 0x80000000\<rparr>"
proof -
  have e: "(0x80000000 :: u32) = push_bit 31 1" by simp
  have b: "bit (0x80000000 :: u32) m = (m = 31)" for m unfolding e bit_push_bit_iff bit_1_iff by auto
  have "(n - 32 = 31) = (n = 63)" for n :: nat by linarith
  then show ?thesis unfolding at_bit_def pbit_def kp_simps b by auto
qed

lemma at_bit_step:
  assumes "at_bit i b" "i < 63"
  shows "at_bit (Suc i) \<lparr>kp_lo = drop_bit 1 (kp_lo b) OR push_bit 31 (kp_hi b), kp_hi = drop_bit 1 (kp_hi b)\<rparr>"
  unfolding at_bit_def
proof (intro allI impI)
  fix n :: nat assume n: "n < 64"
  let ?b = "\<lparr>kp_lo = drop_bit 1 (kp_lo b) OR push_bit 31 (kp_hi b), kp_hi = drop_bit 1 (kp_hi b)\<rparr>"
  have lo: "bit (kp_lo b) m = (m + i = 63)" if "m < 32" for m
    using assms(1) that by (auto simp: at_bit_def pbit_def dest!: spec [of _ m])
  have hi: "bit (kp_hi b) m = (m + 32 + i = 63)" if "m < 32" for m
    using assms(1) that by (auto simp: at_bit_def pbit_def dest!: spec [of _ "m + 32"])
  consider "n < 31" | "n = 31" | "32 \<le> n" "n < 63" | "n = 63" using n by linarith
  then show "pbit ?b n = (n + Suc i = 63)"
  proof cases
    case 1 then show ?thesis using lo [of "Suc n"] by (auto simp: pbit_def bit_simps)
  next
    case 2 then show ?thesis using hi [of 0] by (auto simp: pbit_def bit_simps dest: bit_imp_le_length)
  next
    case 3 then show ?thesis using hi [of "Suc (n - 32)"] by (simp add: pbit_def bit_simps)
  next
    case 4 then show ?thesis by (auto simp: pbit_def bit_simps dest: bit_imp_le_length)
  qed
qed

lemma permute_bits:
  assumes "at_bit i b" "i + length ts \<le> 64" "\<forall>t\<in>set ts. 1 \<le> t \<and> t \<le> 64" "n < 64"
  shows "pbit (permute ts p b out) n =
    (pbit out n \<or> (n + i \<le> 63 \<and> 63 - (n + i) < length ts \<and> pbit p (64 - ts ! (63 - (n + i)))))"
  using assms
proof (induction ts arbitrary: i b out)
  case Nil
  then show ?case by simp
next
  case (Cons t ts)
  obtain key1 key2 where k: "bit_keys (int t - 1) = (key1, key2)" by fastforce
  let ?sel = "(kp_lo p AND key1) OR (kp_hi p AND key2) \<noteq> 0"
  let ?out = "if ?sel then \<lparr>kp_lo = kp_lo out OR kp_lo b, kp_hi = kp_hi out OR kp_hi b\<rparr> else out"
  let ?b = "\<lparr>kp_lo = drop_bit 1 (kp_lo b) OR push_bit 31 (kp_hi b), kp_hi = drop_bit 1 (kp_hi b)\<rparr>"
  have sel: "?sel = pbit p (64 - t)" using bit_keys_select [OF _ _ k] Cons.prems(3) by simp
  have out: "pbit ?out n = (pbit out n \<or> pbit p (64 - t) \<and> n + i = 63)"
    unfolding sel using Cons.prems(1,4) by (simp add: at_bit_def pbit_or)
  have step: "permute (t # ts) p b out = permute ts p ?b ?out" by (simp add: k Let_def)
  show ?case
  proof (cases "ts = []")
    case True
    have "(n + i \<le> 63 \<and> 63 - (n + i) < length (t # ts) \<and> pbit p (64 - (t # ts) ! (63 - (n + i)))) =
        (pbit p (64 - t) \<and> n + i = 63)" using True by (cases "n + i = 63") auto
    then show ?thesis unfolding step out using True out by simp
  next
    case False
    then have i: "i < 63" using Cons.prems(2) by (cases ts) auto
    have "pbit (permute ts p ?b ?out) n =
        (pbit ?out n \<or> (n + Suc i \<le> 63 \<and> 63 - (n + Suc i) < length ts \<and> pbit p (64 - ts ! (63 - (n + Suc i)))))"
      by (rule Cons.IH [OF at_bit_step [OF Cons.prems(1) i]]) (use Cons.prems(2-4) in auto)
    also have "\<dots> = (pbit out n \<or> (n + i \<le> 63 \<and> 63 - (n + i) < length (t # ts) \<and> pbit p (64 - (t # ts) ! (63 - (n + i)))))"
    proof (cases "n + i < 63")
      case True
      then have "63 - (n + i) = Suc (63 - (n + Suc i))" by simp
      with True show ?thesis unfolding out by simp
    next
      case False
      then show ?thesis unfolding out by (cases "n + i = 63") simp_all
    qed
    finally show ?thesis unfolding step .
  qed
qed

text \<open>Bit \<open>i\<close> of the output, counted from the top, is the bit of the input that the table names, counted the same way.\<close>

lemma permuted_bits:
  assumes "length ts \<le> 64" "\<forall>t\<in>set ts. 1 \<le> t \<and> t \<le> 64" "n < 64"
  shows "pbit (permuted ts p) n = (63 - n < length ts \<and> pbit p (64 - ts ! (63 - n)))"
  using permute_bits [OF at_bit_start, of ts n p] assms by (simp add: permuted_def) (simp add: pbit_def)

section \<open>Undoing the cipher\<close>

lemma tables_inverse: "\<forall>i\<in>set [0..<64]. IP ! (FP ! i - 1) = i + 1 \<and> FP ! (IP ! i - 1) = i + 1"
  by code_simp

lemma tables_range:
  "\<forall>t\<in>set IP. 1 \<le> t \<and> t \<le> 64" "\<forall>t\<in>set FP. 1 \<le> t \<and> t \<le> 64" "\<forall>t\<in>set Permutation. 1 \<le> t \<and> t \<le> 64"
  "length IP = 64" "length FP = 64" "length Permutation = 32"
  by code_simp+

lemma permuted_inverse:
  assumes "length s = 64" "length t = 64" "\<forall>x\<in>set s. 1 \<le> x \<and> x \<le> 64" "\<forall>x\<in>set t. 1 \<le> x \<and> x \<le> 64"
    and inv: "\<forall>i\<in>set [0..<64]. s ! (t ! i - 1) = i + 1"
  shows "permuted t (permuted s p) = p"
proof (rule pair_eqI)
  fix n :: nat assume n: "n < 64"
  have "t ! (63 - n) \<in> set t" using assms(2) by simp
  then have m: "64 - t ! (63 - n) < 64" "63 - (64 - t ! (63 - n)) = t ! (63 - n) - 1" "t ! (63 - n) - 1 < 64"
    using assms(4) by auto
  have l: "63 - n < 64" by simp
  have "s ! (t ! (63 - n) - 1) = 64 - n" using bspec [OF inv, of "63 - n"] n by simp
  then show "pbit (permuted t (permuted s p)) n = pbit p n"
    using permuted_bits [of t n "permuted s p"] permuted_bits [of s "64 - t ! (63 - n)" p] assms(1-4) n m l
    by (simp del: less_Suc_eq)
qed

lemma FP_IP: "permuted FP (permuted IP p) = p" "permuted IP (permuted FP p) = p"
  using tables_inverse tables_range by (auto intro!: permuted_inverse)

lemma cipher_f_lo: "kp_lo (cipher_f r k) = 0"
proof -
  have "kp_lo (permuted Permutation p) = 0" for p
  proof (rule bit_word_eqI)
    fix n assume "n < LENGTH(32)"
    then have n: "n < 64" "\<not> 63 - n < length Permutation" "n < 32" using tables_range(6) by simp_all
    then have "\<not> pbit (permuted Permutation p) n" using permuted_bits [of Permutation n p] tables_range by simp
    then show "bit (kp_lo (permuted Permutation p)) n = bit 0 n" using n(3) by (simp add: pbit_def)
  qed
  then show ?thesis by (simp add: cipher_f_def Let_def)
qed

lemma rounds_append: "rounds (xs @ ys) l r = (case rounds xs l r of (l, r) \<Rightarrow> rounds ys l r)"
  by (induction xs arbitrary: l r) (simp_all add: Let_def)

lemma xor_twice: "(x XOR y) XOR y = x" for x :: "'a::len word"
  by (simp add: xor.assoc)

lemma rounds_undo:
  assumes "kp_lo l = 0" "kp_lo r = 0" "rounds ks l r = (l', r')"
  shows "kp_lo l' = 0 \<and> kp_lo r' = 0 \<and> rounds (rev ks) r' l' = (r, l)"
  using assms
proof (induction ks arbitrary: l r)
  case (Cons k ks)
  let ?p = "cipher_f r k"
  let ?x = "\<lparr>kp_lo = kp_lo l XOR kp_lo ?p, kp_hi = kp_hi l XOR kp_hi ?p\<rparr>"
  have "kp_lo ?x = 0" using Cons.prems(1) by (simp add: cipher_f_lo)
  moreover have "rounds ks r ?x = (l', r')" using Cons.prems(3) by (simp add: Let_def)
  ultimately have ih: "kp_lo l' = 0 \<and> kp_lo r' = 0 \<and> rounds (rev ks) r' l' = (?x, r)"
    using Cons.IH [of r ?x] Cons.prems(2) by simp
  have "rounds [k] ?x r = (r, l)" by (simp add: Let_def xor_twice)
  with ih show ?case by (simp add: rounds_append)
qed simp

lemma encipher_undo: "encipher (rev ks) (encipher ks b) = b"
proof -
  define x where "x = permuted IP b"
  obtain l r where lr: "rounds ks \<lparr>kp_lo = 0, kp_hi = kp_hi x\<rparr> \<lparr>kp_lo = 0, kp_hi = kp_lo x\<rparr> = (l, r)" by fastforce
  note u = rounds_undo [OF _ _ lr, simplified]
  have ones: "w AND 0xFFFFFFFF = w" for w :: u32
  proof -
    have "(0xFFFFFFFF :: u32) = - 1" by simp
    then show ?thesis by (simp only: bit.conj_one_right)
  qed
  have e: "encipher ks b = permuted FP \<lparr>kp_lo = kp_hi l, kp_hi = kp_hi r\<rparr>"
    using u by (simp add: encipher_def x_def [symmetric] lr ones Let_def)
  have "l = \<lparr>kp_lo = 0, kp_hi = kp_hi l\<rparr>" "r = \<lparr>kp_lo = 0, kp_hi = kp_hi r\<rparr>" using u by (simp_all add: KeyPair.equality)
  then have "rounds (rev ks) \<lparr>kp_lo = 0, kp_hi = kp_hi r\<rparr> \<lparr>kp_lo = 0, kp_hi = kp_hi l\<rparr> =
      (\<lparr>kp_lo = 0, kp_hi = kp_lo x\<rparr>, \<lparr>kp_lo = 0, kp_hi = kp_hi x\<rparr>)" using u by metis
  then have "encipher (rev ks) (encipher ks b) = permuted FP \<lparr>kp_lo = kp_lo x, kp_hi = kp_hi x\<rparr>"
    unfolding e by (simp add: encipher_def [of "rev ks"] FP_IP ones Let_def)
  also have "\<lparr>kp_lo = kp_lo x, kp_hi = kp_hi x\<rparr> = x" by simp
  finally have "encipher (rev ks) (encipher ks b) = permuted FP x" .
  then show ?thesis by (simp add: x_def FP_IP)
qed


section \<open>Bits that do not matter\<close>

lemma PC1_range: "\<forall>t\<in>set PC1. 1 \<le> t \<and> t \<le> 64 \<and> (64 - t) mod 8 \<noteq> 0" "length PC1 = 56"
  by code_simp+

lemma PermutedKey_same:
  assumes "\<And>n. n < 64 \<Longrightarrow> n mod 8 \<noteq> 0 \<Longrightarrow> pbit p n = pbit q n"
  shows "PermutedKey p = PermutedKey q"
proof (rule pair_eqI)
  fix n :: nat assume n: "n < 64"
  have r: "length PC1 \<le> 64" "\<forall>t\<in>set PC1. 1 \<le> t \<and> t \<le> 64" using PC1_range by auto
  have "pbit p (64 - PC1 ! (63 - n)) = pbit q (64 - PC1 ! (63 - n))" if "63 - n < length PC1"
  proof -
    have "PC1 ! (63 - n) \<in> set PC1" using that by simp
    then have "64 - PC1 ! (63 - n) < 64" "(64 - PC1 ! (63 - n)) mod 8 \<noteq> 0" using PC1_range(1) by auto
    then show ?thesis by (rule assms)
  qed
  then show "pbit (PermutedKey p) n = pbit (PermutedKey q) n"
    unfolding PermutedKey_def permuted_bits [OF r n] by blast
qed

lemma low_bits: "\<forall>n\<in>set [0..<32]. bit (0x01010101 :: u32) n = (n mod 8 = 0)"
  by code_simp

lemma same_but_low: "w OR 0x01010101 = v OR 0x01010101 \<Longrightarrow> n < 32 \<Longrightarrow> n mod 8 \<noteq> 0 \<Longrightarrow> bit w n = bit v n" for w v :: u32
proof -
  assume eq: "w OR 0x01010101 = v OR 0x01010101" and n: "n < 32" "n mod 8 \<noteq> 0"
  have "\<not> bit (0x01010101 :: u32) n" using bspec [OF low_bits, of n] n by simp
  then show ?thesis using arg_cong [OF eq, of "\<lambda>x. bit x n"] unfolding bit_or_iff by blast
qed

text \<open>
  The lowest bit of every character of a password is ignored: two passwords that differ only there
  have the same stored form for every name, and each opens what the other protects.
\<close>

theorem password_low_bits_ignored:
  assumes "pw 0 OR 0x01010101 = pw' 0 OR 0x01010101" "pw 1 OR 0x01010101 = pw' 1 OR 0x01010101"
  shows "apaPassCmp (apaEncryptPassword ident pw) (apaEncryptPassword ident pw') = 0"
proof -
  let ?p = "\<lparr>kp_lo = pw 0, kp_hi = pw 1\<rparr>" and ?q = "\<lparr>kp_lo = pw' 0, kp_hi = pw' 1\<rparr>"
  have "PermutedKey ?p = PermutedKey ?q"
  proof (rule PermutedKey_same)
    fix n :: nat assume n: "n < 64" "n mod 8 \<noteq> 0"
    have "(n - 32) mod 8 = n mod 8" if "\<not> n < 32"
    proof -
      have "n mod 8 = (n - 32 + 4 * 8) mod 8" using that by simp
      then show ?thesis by (simp only: mod_mult_self1)
    qed
    then show "pbit ?p n = pbit ?q n"
      using same_but_low [OF assms(1), of n] same_but_low [OF assms(2), of "n - 32"] n by (auto simp: pbit_def)
  qed
  then show ?thesis by (simp add: apaEncryptPassword_def DESEncryptPassword_def pairK_def apaPassCmp_def Let_def)
qed

theorem password_low_bits_ignored_witness:
  "apaPassCmp (apaEncryptPassword (\<lambda>_. 0x41414141) ((\<lambda>_. 0)(0 := 0x6867))) (apaEncryptPassword (\<lambda>_. 0x41414141) ((\<lambda>_. 0)(0 := 0x6966))) = 0"
  by (rule password_low_bits_ignored) simp_all

end
