(* ===== verification/IomanX.thy ===== *)
theory IomanX
  imports Prelude
begin

text \<open>
  The file manager of the I/O processor, iop/system/iomanx/src/iomanX.c, and the entry points it
  gives to programs written for the old manager, ioman_sbv.c. The device table and the file table are
  lists of 32 entries. A device is the address of its descriptor, 0 the null pointer; the descriptors
  are a parameter, since they belong to the drivers, and so is what a driver does when it is called: it
  may change the whole state, it may change the file it is handed, and it may not return.
  Reading a descriptor that is not there, or an entry in front of a table, has no result.
  C strings are lists of characters without the terminating zero.
\<close>

section \<open>State and drivers\<close>

abbreviation (input) MAX_DEVICES :: nat where "MAX_DEVICES \<equiv> 32"
abbreviation (input) MAX_FILES :: nat where "MAX_FILES \<equiv> 32"
abbreviation (input) O_RDONLY :: u32 where "O_RDONLY \<equiv> 1"
abbreviation (input) O_WRONLY :: u32 where "O_WRONLY \<equiv> 2"
abbreviation (input) IOP_DT_FSEXT :: u32 where "IOP_DT_FSEXT \<equiv> 0x10000000"
abbreviation (input) UNSUPPORTED :: int where "UNSUPPORTED \<equiv> -48"

record iop_file_t =
  fmode :: u32
  funit :: int
  fdevice :: u32
  privdata :: u32

record 'w iox_state =
  dev_list :: "u32 list"
  file_table :: "iop_file_t list"
  world :: 'w

text \<open>
  A driver gets a pointer to an entry of the file table, or to a local variable of which only the unit
  and the device have been set.
\<close>

datatype filep = Entry nat | Local int u32

record io_stat_t =
  st_mode :: u32
  st_attr :: u32
  st_size :: u32
  st_ctime :: "u8 list"
  st_atime :: "u8 list"
  st_mtime :: "u8 list"
  st_hisize :: u32

record iox_stat_t = io_stat_t +
  st_private :: "u32 list"

record io_dirent_t =
  io_stat :: io_stat_t
  io_name :: string

record iox_dirent_t =
  iox_stat :: iox_stat_t
  iox_name :: string
  iox_unknown :: u32

type_synonym 'w drv = "'w iox_state \<Rightarrow> (int \<times> 'w iox_state) option"

text \<open>
  The operations of a driver. The function \<open>dread\<close> of a driver of the old manager fills an
  \<open>io_dirent_t\<close>, that of the others an \<open>iox_dirent_t\<close>; a call that fills a buffer returns what the
  buffer holds afterwards.
\<close>

record 'w iop_device_ops_t =
  op_init :: "u32 \<Rightarrow> 'w drv"
  op_deinit :: "u32 \<Rightarrow> 'w drv"
  op_format :: "filep \<Rightarrow> string \<Rightarrow> string option \<Rightarrow> u32 \<Rightarrow> int \<Rightarrow> 'w drv"
  op_open :: "filep \<Rightarrow> string \<Rightarrow> u32 \<Rightarrow> int \<Rightarrow> 'w drv"
  op_close :: "filep \<Rightarrow> 'w drv"
  op_read :: "filep \<Rightarrow> u32 \<Rightarrow> int \<Rightarrow> 'w drv"
  op_write :: "filep \<Rightarrow> u32 \<Rightarrow> int \<Rightarrow> 'w drv"
  op_lseek :: "filep \<Rightarrow> int \<Rightarrow> int \<Rightarrow> 'w drv"
  op_ioctl :: "filep \<Rightarrow> int \<Rightarrow> u32 \<Rightarrow> 'w drv"
  op_remove :: "filep \<Rightarrow> string \<Rightarrow> 'w drv"
  op_mkdir :: "filep \<Rightarrow> string \<Rightarrow> int \<Rightarrow> 'w drv"
  op_rmdir :: "filep \<Rightarrow> string \<Rightarrow> 'w drv"
  op_dopen :: "filep \<Rightarrow> string \<Rightarrow> 'w drv"
  op_dclose :: "filep \<Rightarrow> 'w drv"
  op_dread :: "filep \<Rightarrow> 'w iox_state \<Rightarrow> (int \<times> iox_dirent_t \<times> 'w iox_state) option"
  op_io_dread :: "filep \<Rightarrow> 'w iox_state \<Rightarrow> (int \<times> io_dirent_t \<times> 'w iox_state) option"
  op_getstat :: "filep \<Rightarrow> string \<Rightarrow> iox_stat_t \<Rightarrow> 'w iox_state \<Rightarrow> (int \<times> iox_stat_t \<times> 'w iox_state) option"
  op_chstat :: "filep \<Rightarrow> string \<Rightarrow> iox_stat_t \<Rightarrow> u32 \<Rightarrow> 'w drv"
  op_rename :: "filep \<Rightarrow> string \<Rightarrow> string \<Rightarrow> 'w drv"
  op_chdir :: "filep \<Rightarrow> string \<Rightarrow> 'w drv"
  op_sync :: "filep \<Rightarrow> string \<Rightarrow> int \<Rightarrow> 'w drv"
  op_mount :: "filep \<Rightarrow> string \<Rightarrow> string \<Rightarrow> int \<Rightarrow> u32 \<Rightarrow> int \<Rightarrow> 'w drv"
  op_umount :: "filep \<Rightarrow> string \<Rightarrow> 'w drv"
  op_lseek64 :: "filep \<Rightarrow> int \<Rightarrow> int \<Rightarrow> 'w drv"
  op_devctl :: "filep \<Rightarrow> string \<Rightarrow> int \<Rightarrow> u32 \<Rightarrow> u32 \<Rightarrow> u32 \<Rightarrow> u32 \<Rightarrow> 'w drv"
  op_symlink :: "filep \<Rightarrow> string \<Rightarrow> string \<Rightarrow> 'w drv"
  op_readlink :: "filep \<Rightarrow> string \<Rightarrow> u32 \<Rightarrow> u32 \<Rightarrow> 'w drv"
  op_ioctl2 :: "filep \<Rightarrow> int \<Rightarrow> u32 \<Rightarrow> u32 \<Rightarrow> u32 \<Rightarrow> u32 \<Rightarrow> 'w drv"

record 'w iop_device_t =
  dname :: string
  dtype :: u32
  dops :: "'w iop_device_ops_t"

text \<open>The descriptors in memory, by address.\<close>

type_synonym 'w devs = "u32 \<Rightarrow> 'w iop_device_t option"

definition extended :: "'w iop_device_t \<Rightarrow> bool" where
  "extended d = (dtype d AND 0xf0000000 = IOP_DT_FSEXT)"

definition upd_file :: "nat \<Rightarrow> (iop_file_t \<Rightarrow> iop_file_t) \<Rightarrow> 'w iox_state \<Rightarrow> 'w iox_state" where
  "upd_file i g s = s\<lparr>file_table := (file_table s)[i := g (file_table s ! i)]\<rparr>"

section \<open>Devices\<close>

definition no_file :: iop_file_t where
  "no_file = \<lparr>fmode = 0, funit = 0, fdevice = 0, privdata = 0\<rparr>"

text \<open>
  The module entry up to the hook, whose effect on the two tables is a parameter: it copies what the
  old manager has in its tables, and can fail.
\<close>

definition iox_start :: "int \<Rightarrow> ('w iox_state \<Rightarrow> int \<times> 'w iox_state) \<Rightarrow> 'w iox_state \<Rightarrow> int \<times> 'w iox_state" where
  "iox_start registered hook s =
     (if registered \<noteq> 0 then (1, s)
      else let (r, s') = hook (s\<lparr>dev_list := replicate MAX_DEVICES 0, file_table := replicate MAX_FILES no_file\<rparr>)
           in if r \<noteq> 0 then (1, s') else (0, s'))"

text \<open>The first index of a list whose element satisfies the test.\<close>

fun first_index :: "('a \<Rightarrow> bool) \<Rightarrow> 'a list \<Rightarrow> nat option" where
  "first_index P [] = None"
| "first_index P (x # xs) = (if P x then Some 0 else map_option Suc (first_index P xs))"

definition AddDrv :: "'w devs \<Rightarrow> u32 \<Rightarrow> 'w drv" where
  "AddDrv D device s = (case first_index (\<lambda>p. p = 0) (dev_list s) of
     None \<Rightarrow> Some (-1, s)
   | Some i \<Rightarrow> do {
       let s1 = s\<lparr>dev_list := (dev_list s)[i := device]\<rparr>;
       d \<leftarrow> D device;
       (res, s2) \<leftarrow> op_init (dops d) device s1;
       if res < 0 then Some (-1, s2\<lparr>dev_list := (dev_list s2)[i := 0]\<rparr>) else Some (0, s2) })"

text \<open>The search of the device table for a name: the index, if there is one.\<close>

fun search_dev :: "'w devs \<Rightarrow> string \<Rightarrow> u32 list \<Rightarrow> nat option option" where
  "search_dev D name [] = Some None"
| "search_dev D name (p # ps) =
     (if p = 0 then map_option (map_option Suc) (search_dev D name ps)
      else case D p of None \<Rightarrow> None
        | Some d \<Rightarrow> if name = dname d then Some (Some 0) else map_option (map_option Suc) (search_dev D name ps))"

definition DelDrv :: "'w devs \<Rightarrow> string \<Rightarrow> 'w drv" where
  "DelDrv D name s = do {
     found \<leftarrow> search_dev D name (dev_list s);
     case found of
       None \<Rightarrow> Some (-1, s)
     | Some i \<Rightarrow> do {
         d \<leftarrow> D (dev_list s ! i);
         (_, s1) \<leftarrow> op_deinit (dops d) (dev_list s ! i) s;
         Some (0, s1\<lparr>dev_list := (dev_list s1)[i := 0]\<rparr>) } }"

definition isnum :: "char \<Rightarrow> bool" where
  "isnum c = (48 \<le> (of_char c :: nat) \<and> (of_char c :: nat) \<le> 57)"

text \<open>The value of a string of digits, at most the largest \<open>long\<close>.\<close>

definition digits_value :: "string \<Rightarrow> nat" where
  "digits_value ds = foldl (\<lambda>v c. 10 * v + (of_char c - 48)) 0 ds"

definition strtol10 :: "string \<Rightarrow> int" where
  "strtol10 ds = min (int (digits_value ds)) 2147483647"

definition skip_spaces :: "string \<Rightarrow> string" where
  "skip_spaces d = (if d \<noteq> [] \<and> hd d = CHR '' '' then CHR '' '' # dropWhile (\<lambda>c. c = CHR '' '') d else d)"

text \<open>
  \<open>find_iop_device\<close> returns what it stored in \<open>*unit\<close>, if it stored anything, and the device and the
  rest of the name, if it found one. The name in front of the colon goes into an array of 16
  characters, and the backward search for the unit reads in front of the array when there is no
  character but digits.
\<close>

definition find_iop_device :: "'w devs \<Rightarrow> string \<Rightarrow> 'w iox_state \<Rightarrow> (int option \<times> (u32 \<times> string) option) option" where
  "find_iop_device D dev s = (
     let d = skip_spaces dev; canon = takeWhile (\<lambda>c. c \<noteq> CHR '':'') d; len = length canon;
         base = rev (dropWhile isnum (rev canon));
         num = strtol10 (drop (length base) canon) in
     if CHR '':'' \<notin> set d then Some (None, None)
     else if 16 \<le> len \<or> base = [] then None
     else do {
       found \<leftarrow> search_dev D base (dev_list s);
       Some (Some num, map_option (\<lambda>i. (dev_list s ! i, drop (len + 1) d)) found) })"

section \<open>Files\<close>

text \<open>The entry of a descriptor: none for a bad one, no result for a negative one.\<close>

definition get_file :: "int \<Rightarrow> 'w iox_state \<Rightarrow> nat option option" where
  "get_file fd s =
     (if int MAX_FILES \<le> fd then Some None
      else if fd < 0 then None
      else if fdevice (file_table s ! nat fd) \<noteq> 0 then Some (Some (nat fd)) else Some None)"

definition get_new_file :: "'w iox_state \<Rightarrow> nat option \<times> 'w iox_state" where
  "get_new_file s = (case first_index (\<lambda>f. fdevice f = 0) (file_table s) of
     None \<Rightarrow> (None, s)
   | Some i \<Rightarrow> (Some i, upd_file i (fdevice_update (\<lambda>_. 0xFFFFFFFF)) s))"

text \<open>The descriptor and the device of an entry, for a call of its driver.\<close>

definition entry_dev :: "'w devs \<Rightarrow> nat \<Rightarrow> 'w iox_state \<Rightarrow> 'w iop_device_t option" where
  "entry_dev D i s = D (fdevice (file_table s ! i))"

definition set_unit :: "int option \<Rightarrow> iop_file_t \<Rightarrow> iop_file_t" where
  "set_unit u f = (case u of None \<Rightarrow> f | Some n \<Rightarrow> f\<lparr>funit := n\<rparr>)"

definition drop_file :: "iop_file_t \<Rightarrow> iop_file_t" where
  "drop_file f = f\<lparr>fmode := 0, fdevice := 0\<rparr>"

definition iox_open :: "'w devs \<Rightarrow> string \<Rightarrow> u32 \<Rightarrow> int \<Rightarrow> 'w drv" where
  "iox_open D name flags mode s = (case get_new_file s of
     (None, s1) \<Rightarrow> Some (- EMFILE, s1)
   | (Some i, s1) \<Rightarrow> do {
       (u, loc) \<leftarrow> find_iop_device D name s1;
       let s2 = upd_file i (set_unit u) s1;
       case loc of
         None \<Rightarrow> Some (- ENODEV, upd_file i (fdevice_update (\<lambda>_. 0)) s2)
       | Some (p, filename) \<Rightarrow> do {
           let s3 = upd_file i (\<lambda>f. f\<lparr>fdevice := p, fmode := flags\<rparr>) s2;
           d \<leftarrow> D p;
           (res, s4) \<leftarrow> op_open (dops d) (Entry i) filename flags mode s3;
           if 0 \<le> res then Some (int i, s4) else Some (res, upd_file i drop_file s4) } })"

definition close :: "'w devs \<Rightarrow> int \<Rightarrow> 'w drv" where
  "close D fd s = do {
     f \<leftarrow> get_file fd s;
     case f of
       None \<Rightarrow> Some (- EBADF, s)
     | Some i \<Rightarrow> do {
         d \<leftarrow> entry_dev D i s;
         (res, s1) \<leftarrow> (if fmode (file_table s ! i) AND 8 \<noteq> 0 then op_dclose (dops d) (Entry i) s
                      else op_close (dops d) (Entry i) s);
         Some (res, upd_file i drop_file s1) } }"

text \<open>The calls on an open file, after the test each of them makes of its mode.\<close>

definition on_file :: "int \<Rightarrow> (iop_file_t \<Rightarrow> bool) \<Rightarrow> (nat \<Rightarrow> 'w drv) \<Rightarrow> 'w drv" where
  "on_file fd good act s = do {
     f \<leftarrow> get_file fd s;
     case f of
       None \<Rightarrow> Some (- EBADF, s)
     | Some i \<Rightarrow> if good (file_table s ! i) then act i s else Some (- EBADF, s) }"

definition driver :: "'w devs \<Rightarrow> nat \<Rightarrow> ('w iop_device_t \<Rightarrow> 'w drv) \<Rightarrow> 'w drv" where
  "driver D i act s = do { d \<leftarrow> entry_dev D i s; act d s }"

definition iox_read :: "'w devs \<Rightarrow> int \<Rightarrow> u32 \<Rightarrow> int \<Rightarrow> 'w drv" where
  "iox_read D fd ptr n = on_file fd (\<lambda>f. fmode f AND O_RDONLY \<noteq> 0)
     (\<lambda>i. driver D i (\<lambda>d. op_read (dops d) (Entry i) ptr n))"

definition iox_write :: "'w devs \<Rightarrow> int \<Rightarrow> u32 \<Rightarrow> int \<Rightarrow> 'w drv" where
  "iox_write D fd ptr n = on_file fd (\<lambda>f. fmode f AND O_WRONLY \<noteq> 0)
     (\<lambda>i. driver D i (\<lambda>d. op_write (dops d) (Entry i) ptr n))"

definition lseek :: "'w devs \<Rightarrow> int \<Rightarrow> int \<Rightarrow> int \<Rightarrow> 'w drv" where
  "lseek D fd offset whence = on_file fd (\<lambda>_. True) (\<lambda>i s.
     if whence < 0 \<or> 2 < whence then Some (- EINVAL, s)
     else driver D i (\<lambda>d. op_lseek (dops d) (Entry i) offset whence) s)"

definition ioctl :: "'w devs \<Rightarrow> int \<Rightarrow> int \<Rightarrow> u32 \<Rightarrow> 'w drv" where
  "ioctl D fd cmd arg = on_file fd (\<lambda>_. True)
     (\<lambda>i. driver D i (\<lambda>d. op_ioctl (dops d) (Entry i) cmd arg))"

definition lseek64 :: "'w devs \<Rightarrow> int \<Rightarrow> int \<Rightarrow> int \<Rightarrow> 'w drv" where
  "lseek64 D fd offset whence = on_file fd (\<lambda>_. True) (\<lambda>i s.
     if whence < 0 \<or> 2 < whence then Some (- EINVAL, s)
     else driver D i (\<lambda>d s. if \<not> extended d then Some (UNSUPPORTED, s)
       else op_lseek64 (dops d) (Entry i) offset whence s) s)"

definition ioctl2 :: "'w devs \<Rightarrow> int \<Rightarrow> int \<Rightarrow> u32 \<Rightarrow> u32 \<Rightarrow> u32 \<Rightarrow> u32 \<Rightarrow> 'w drv" where
  "ioctl2 D fd command arg arglen buf buflen = on_file fd (\<lambda>_. True)
     (\<lambda>i. driver D i (\<lambda>d. op_ioctl2 (dops d) (Entry i) command arg arglen buf buflen))"

definition dopen :: "'w devs \<Rightarrow> string \<Rightarrow> 'w drv" where
  "dopen D name s = (case get_new_file s of
     (None, s1) \<Rightarrow> Some (- EMFILE, s1)
   | (Some i, s1) \<Rightarrow> do {
       (u, loc) \<leftarrow> find_iop_device D name s1;
       let s2 = upd_file i (set_unit u) s1;
       case loc of
         None \<Rightarrow> Some (- ENODEV, upd_file i (fdevice_update (\<lambda>_. 0)) s2)
       | Some (p, filename) \<Rightarrow> do {
           let s3 = upd_file i (\<lambda>f. f\<lparr>fdevice := p, fmode := 8\<rparr>) s2;
           d \<leftarrow> D p;
           (res, s4) \<leftarrow> op_dopen (dops d) (Entry i) filename s3;
           if 0 \<le> res then Some (int i, s4) else Some (res, upd_file i drop_file s4) } })"

section \<open>Calls by name\<close>

text \<open>
  The beginning of every call by name: the device, and the local file variable with its unit and
  device.
\<close>

definition on_name :: "'w devs \<Rightarrow> string \<Rightarrow> ('w iop_device_t \<Rightarrow> filep \<Rightarrow> string \<Rightarrow> 'w drv) \<Rightarrow> 'w drv" where
  "on_name D name act s = do {
     (u, loc) \<leftarrow> find_iop_device D name s;
     case (u, loc) of
       (Some n, Some (p, filename)) \<Rightarrow> do { d \<leftarrow> D p; act d (Local n p) filename s }
     | _ \<Rightarrow> Some (- ENODEV, s) }"

definition remove :: "'w devs \<Rightarrow> string \<Rightarrow> 'w drv" where
  "remove D name = on_name D name (\<lambda>d file filename. op_remove (dops d) file filename)"

definition path_common :: "'w devs \<Rightarrow> string \<Rightarrow> int \<Rightarrow> u32 \<Rightarrow> 'w drv" where
  "path_common D name arg code = on_name D name (\<lambda>d file filename s.
     if code AND 0x100 \<noteq> 0 \<and> \<not> extended d then Some (UNSUPPORTED, s)
     else if code = 4 then op_mkdir (dops d) file filename arg s
     else if code = 5 then op_rmdir (dops d) file filename s
     else if code = 0x103 then op_chdir (dops d) file filename s
     else if code = 0x106 then op_sync (dops d) file filename arg s
     else Some (- EINVAL, s))"

definition mkdir :: "'w devs \<Rightarrow> string \<Rightarrow> int \<Rightarrow> 'w drv" where "mkdir D name mode = path_common D name mode 4"
definition rmdir :: "'w devs \<Rightarrow> string \<Rightarrow> 'w drv" where "rmdir D name = path_common D name 0 5"
definition chdir :: "'w devs \<Rightarrow> string \<Rightarrow> 'w drv" where "chdir D name = path_common D name 0 0x103"
definition sync :: "'w devs \<Rightarrow> string \<Rightarrow> int \<Rightarrow> 'w drv" where "sync D dev flag = path_common D dev flag 0x106"

text \<open>\<open>FIO_SO_ISLNK\<close> and the like compare the format bits; the constants are those of sys/stat.h.\<close>

definition mode2modex :: "u32 \<Rightarrow> u32" where
  "mode2modex mode =
     (if mode AND 0x38 = 0x08 then 0x4000 else 0) OR
     (if mode AND 0x38 = 0x10 then 0x2000 else 0) OR
     (if mode AND 0x38 = 0x20 then 0x1000 else 0) OR
     (if mode AND 4 \<noteq> 0 then 0x100 OR 0x20 OR 4 else 0) OR
     (if mode AND 2 \<noteq> 0 then 0x80 OR 0x10 OR 2 else 0) OR
     (if mode AND 1 \<noteq> 0 then 0x40 OR 8 OR 1 else 0)"

definition modex2mode :: "u32 \<Rightarrow> u32" where
  "modex2mode modex =
     (if modex AND 0xF000 = 0x4000 then 0x08 else 0) OR
     (if modex AND 0xF000 = 0x2000 then 0x10 else 0) OR
     (if modex AND 0xF000 = 0x1000 then 0x20 else 0) OR
     (if modex AND (0x100 OR 0x20 OR 4) \<noteq> 0 then 4 else 0) OR
     (if modex AND (0x80 OR 0x10 OR 2) \<noteq> 0 then 2 else 0) OR
     (if modex AND (0x40 OR 8 OR 1) \<noteq> 0 then 1 else 0)"

text \<open>Both conversions of a whole status; the fields the old one does not have stay as they are.\<close>

definition statx2stat :: "iox_stat_t \<Rightarrow> io_stat_t" where
  "statx2stat x = \<lparr>st_mode = modex2mode (st_mode x), st_attr = st_attr x, st_size = st_size x,
     st_ctime = st_ctime x, st_atime = st_atime x, st_mtime = st_mtime x, st_hisize = st_hisize x\<rparr>"

definition stat2statx :: "io_stat_t \<Rightarrow> iox_stat_t \<Rightarrow> iox_stat_t" where
  "stat2statx x y = y\<lparr>st_mode := mode2modex (st_mode x), st_attr := st_attr x, st_size := st_size x,
     st_ctime := st_ctime x, st_atime := st_atime x, st_mtime := st_mtime x, st_hisize := st_hisize x\<rparr>"

definition dread :: "'w devs \<Rightarrow> int \<Rightarrow> iox_dirent_t \<Rightarrow> 'w iox_state \<Rightarrow> (int \<times> iox_dirent_t \<times> 'w iox_state) option" where
  "dread D fd buf s = do {
     f \<leftarrow> get_file fd s;
     case f of
       None \<Rightarrow> Some (- EBADF, buf, s)
     | Some i \<Rightarrow>
         if fmode (file_table s ! i) AND 8 = 0 then Some (- EBADF, buf, s)
         else do {
           d \<leftarrow> entry_dev D i s;
           if \<not> extended d then do {
             (res, ent, s1) \<leftarrow> op_io_dread (dops d) (Entry i) s;
             Some (res, buf\<lparr>iox_stat := stat2statx (io_stat ent) (iox_stat buf), iox_name := take 256 (io_name ent)\<rparr>, s1) }
           else op_dread (dops d) (Entry i) s } }"

definition getstat :: "'w devs \<Rightarrow> string \<Rightarrow> iox_stat_t \<Rightarrow> 'w iox_state \<Rightarrow> (int \<times> iox_stat_t \<times> 'w iox_state) option" where
  "getstat D name stat s = do {
     (u, loc) \<leftarrow> find_iop_device D name s;
     case (u, loc) of
       (Some n, Some (p, filename)) \<Rightarrow> do {
         d \<leftarrow> D p;
         (res, stat', s1) \<leftarrow> op_getstat (dops d) (Local n p) filename stat s;
         Some (res, if res = 0 \<and> \<not> extended d then stat'\<lparr>st_mode := mode2modex (st_mode stat')\<rparr> else stat', s1) }
     | _ \<Rightarrow> Some (- ENODEV, stat, s) }"

definition chstat :: "'w devs \<Rightarrow> string \<Rightarrow> iox_stat_t \<Rightarrow> u32 \<Rightarrow> 'w drv" where
  "chstat D name stat statmask = on_name D name (\<lambda>d file filename.
     op_chstat (dops d) file filename (if \<not> extended d then stat\<lparr>st_mode := modex2mode (st_mode stat)\<rparr> else stat) statmask)"

definition format :: "'w devs \<Rightarrow> string \<Rightarrow> string option \<Rightarrow> u32 \<Rightarrow> int \<Rightarrow> 'w drv" where
  "format D dev blockdev arg arglen = on_name D dev (\<lambda>d file filename. op_format (dops d) file filename blockdev arg arglen)"

text \<open>Renaming and linking, inside one unit of one device.\<close>

definition link_common :: "'w devs \<Rightarrow> string \<Rightarrow> string \<Rightarrow> int \<Rightarrow> 'w drv" where
  "link_common D old new code s = do {
     (u, loc) \<leftarrow> find_iop_device D old s;
     case (u, loc) of
       (Some n, Some (p, filename)) \<Rightarrow> do {
         target \<leftarrow> (if CHR '':'' \<in> set new then do {
                      (u', loc') \<leftarrow> find_iop_device D new s;
                      Some (case (u', loc') of
                        (Some n', Some (p', new_filename)) \<Rightarrow> if n' \<noteq> n \<or> p' \<noteq> p then None else Some new_filename
                      | _ \<Rightarrow> None) }
                    else Some (Some new));
         case target of
           None \<Rightarrow> Some (- ENXIO, s)
         | Some new_filename \<Rightarrow> do {
             d \<leftarrow> D p;
             if \<not> extended d then Some (UNSUPPORTED, s)
             else if code = 7 then op_rename (dops d) (Local n p) filename new_filename s
             else op_symlink (dops d) (Local n p) filename new_filename s } }
     | _ \<Rightarrow> Some (- ENODEV, s) }"

definition rename :: "'w devs \<Rightarrow> string \<Rightarrow> string \<Rightarrow> 'w drv" where "rename D old new = link_common D old new 7"
definition symlink :: "'w devs \<Rightarrow> string \<Rightarrow> string \<Rightarrow> 'w drv" where "symlink D old new = link_common D old new 8"

text \<open>The remaining calls by name all require an extended driver.\<close>

definition on_ext :: "'w devs \<Rightarrow> string \<Rightarrow> ('w iop_device_ops_t \<Rightarrow> filep \<Rightarrow> string \<Rightarrow> 'w drv) \<Rightarrow> 'w drv" where
  "on_ext D name act = on_name D name (\<lambda>d file filename s.
     if \<not> extended d then Some (UNSUPPORTED, s) else act (dops d) file filename s)"

definition mount :: "'w devs \<Rightarrow> string \<Rightarrow> string \<Rightarrow> int \<Rightarrow> u32 \<Rightarrow> int \<Rightarrow> 'w drv" where
  "mount D fsname devname flag arg arglen =
     on_ext D fsname (\<lambda>ops file filename. op_mount ops file filename devname flag arg arglen)"

definition umount :: "'w devs \<Rightarrow> string \<Rightarrow> 'w drv" where
  "umount D fsname = on_ext D fsname (\<lambda>ops file filename. op_umount ops file filename)"

definition devctl :: "'w devs \<Rightarrow> string \<Rightarrow> int \<Rightarrow> u32 \<Rightarrow> u32 \<Rightarrow> u32 \<Rightarrow> u32 \<Rightarrow> 'w drv" where
  "devctl D name cmd arg arglen buf buflen =
     on_ext D name (\<lambda>ops file filename. op_devctl ops file filename cmd arg arglen buf buflen)"

definition readlink :: "'w devs \<Rightarrow> string \<Rightarrow> u32 \<Rightarrow> u32 \<Rightarrow> 'w drv" where
  "readlink D name buf buflen = on_ext D name (\<lambda>ops file filename. op_readlink ops file filename buf buflen)"

section \<open>The entry points of the old manager\<close>

definition ioman_open :: "'w devs \<Rightarrow> string \<Rightarrow> u32 \<Rightarrow> 'w drv" where
  "ioman_open D name flags = iox_open D name flags 420"

definition ioman_mkdir :: "'w devs \<Rightarrow> string \<Rightarrow> 'w drv" where
  "ioman_mkdir D name = mkdir D name 420"

definition ioman_format :: "'w devs \<Rightarrow> string \<Rightarrow> 'w drv" where
  "ioman_format D dev = format D dev None 0 0"

definition ioman_dread :: "'w devs \<Rightarrow> int \<Rightarrow> io_dirent_t \<Rightarrow> 'w iox_state \<Rightarrow> (int \<times> io_dirent_t \<times> 'w iox_state) option" where
  "ioman_dread D fd buf s = do {
     f \<leftarrow> get_file fd s;
     case f of
       None \<Rightarrow> Some (- EBADF, buf, s)
     | Some i \<Rightarrow>
         if fmode (file_table s ! i) AND 8 = 0 then Some (- EBADF, buf, s)
         else do {
           d \<leftarrow> entry_dev D i s;
           if extended d then do {
             (res, ent, s1) \<leftarrow> op_dread (dops d) (Entry i) s;
             Some (res, buf\<lparr>io_stat := statx2stat (iox_stat ent), io_name := take 256 (iox_name ent)\<rparr>, s1) }
           else op_io_dread (dops d) (Entry i) s } }"

text \<open>The status of the local variable before it is filled, \<open>junk\<close>, is whatever the stack held.\<close>

definition ioman_getstat :: "iox_stat_t \<Rightarrow> 'w devs \<Rightarrow> string \<Rightarrow> io_stat_t \<Rightarrow> 'w iox_state \<Rightarrow> (int \<times> io_stat_t \<times> 'w iox_state) option" where
  "ioman_getstat junk D name stat s = do {
     (res, x, s1) \<leftarrow> getstat D name junk s;
     Some (res, if res = 0 then statx2stat x else stat, s1) }"

definition ioman_chstat :: "iox_stat_t \<Rightarrow> 'w devs \<Rightarrow> string \<Rightarrow> io_stat_t \<Rightarrow> u32 \<Rightarrow> 'w drv" where
  "ioman_chstat junk D name stat statmask = chstat D name (stat2statx stat junk) statmask"

text \<open>The first loop of \<open>unhook_ioman\<close>: every driver is taken out.\<close>

definition unhook_devices :: "'w devs \<Rightarrow> 'w iox_state \<Rightarrow> 'w iox_state option" where
  "unhook_devices D = foldO (\<lambda>i s. if dev_list s ! i = 0 then Some s else do {
     d \<leftarrow> D (dev_list s ! i);
     (_, s1) \<leftarrow> op_deinit (dops d) (dev_list s ! i) s;
     Some (s1\<lparr>dev_list := (dev_list s1)[i := 0]\<rparr>) }) [0..<MAX_DEVICES]"

end
