(* ===== verification/HddDriver.thy ===== *)
theory HddDriver
  imports ApaPart ApaPassword IomanX
begin

text \<open>
  The start of the hard disk driver and the placing of new partitions, iop/hdd/apa/src/hdd.c, with the
  state that hdd.c and hdd_fio.c share. The state of the partition library is a part of it. What the
  driver calls besides the transfers of \<open>ata_ops\<close> is the parameter \<open>hdd_env\<close>. The semaphore is whether it
  can be taken; waiting for one that is taken never ends, since its owner is the thread that waits.
\<close>

abbreviation (input) EBUSY :: int where "EBUSY \<equiv> 16"
abbreviation (input) EEXIST :: int where "EEXIST \<equiv> 17"
abbreviation (input) EFBIG :: int where "EFBIG \<equiv> 27"
abbreviation (input) APA_MAXSUB :: nat where "APA_MAXSUB \<equiv> 64"
abbreviation (input) H_SUBS :: nat where "H_SUBS \<equiv> 128"
abbreviation (input) H_MBR_NSECTOR :: nat where "H_MBR_NSECTOR \<equiv> 73"
abbreviation (input) H_MBR_CREATED :: nat where "H_MBR_CREATED \<equiv> 74"
abbreviation (input) H_MBR_OSDSTART :: nat where "H_MBR_OSDSTART \<equiv> 76"
abbreviation (input) H_MBR_OSDSIZE :: nat where "H_MBR_OSDSIZE \<equiv> 77"
abbreviation (input) MODULE_RESIDENT_END :: int where "MODULE_RESIDENT_END \<equiv> 0"
abbreviation (input) MODULE_NO_RESIDENT_END :: int where "MODULE_NO_RESIDENT_END \<equiv> 1"

section \<open>Parameters and state\<close>

record ata_devinfo_t =
  di_exists :: int
  di_has_packet :: int
  di_total_sectors :: u32

record 'd hdd_env =
  ata :: "'d ata_ops"
  io_smart_save_attr :: "u32 \<Rightarrow> 'd \<Rightarrow> int \<times> 'd"
  io_smart_get_status :: "u32 \<Rightarrow> 'd \<Rightarrow> int \<times> 'd"
  io_idle :: "u32 \<Rightarrow> u8 \<Rightarrow> 'd \<Rightarrow> int \<times> 'd"
  io_idle_immediate :: "u32 \<Rightarrow> 'd \<Rightarrow> int \<times> 'd"
  io_sce_identify_drive :: "u32 \<Rightarrow> 'd \<Rightarrow> int \<times> words \<times> 'd"
  io_sce_sec_unlock :: "u32 \<Rightarrow> words \<Rightarrow> 'd \<Rightarrow> int \<times> 'd"
  io_devinfo :: "u32 \<Rightarrow> 'd \<Rightarrow> ata_devinfo_t option"
  io_cdRI :: "'d \<Rightarrow> int \<times> u32 \<times> words \<times> 'd"
  io_dev9Shutdown :: "'d \<Rightarrow> 'd"

text \<open>A file as the file manager passes it: the unit, the mode, and the slot in \<open>privdata\<close>.\<close>

record hdd_file =
  hf_unit :: int
  hf_mode :: u32
  hf_privdata :: "nat option"

record hdd_file_slot_t =
  sl_f :: "hdd_file option"
  sl_post :: u32
  sl_nsub :: u16
  sl_type :: u16
  sl_id :: words
  sl_start :: "nat \<Rightarrow> u32"
  sl_length :: "nat \<Rightarrow> u32"

record 'd hdd_state =
  apa :: "'d apa_state"
  hddFileSlots :: "(nat \<Rightarrow> hdd_file_slot_t) option"
  apaMaxOpen :: int
  hddDevices :: "u32 \<Rightarrow> apa_device_t"
  fioSema :: bool

definition empty_slot :: hdd_file_slot_t where
  "empty_slot = \<lparr>sl_f = None, sl_post = 0, sl_nsub = 0, sl_type = 0, sl_id = (\<lambda>_. 0), sl_start = (\<lambda>_. 0), sl_length = (\<lambda>_. 0)\<rparr>"

text \<open>An element of \<open>hddDevices\<close>, an array of two.\<close>

definition hdd_dev :: "u32 \<Rightarrow> 'd hdd_state \<Rightarrow> apa_device_t option" where
  "hdd_dev device s = (if device < 2 then Some (hddDevices s device) else None)"

definition upd_dev :: "u32 \<Rightarrow> (apa_device_t \<Rightarrow> apa_device_t) \<Rightarrow> 'd hdd_state \<Rightarrow> 'd hdd_state" where
  "upd_dev device f s = s\<lparr>hddDevices := (hddDevices s)(device := f (hddDevices s device))\<rparr>"

section \<open>Placing a partition\<close>

definition hddCheckPartitionMax :: "u32 \<Rightarrow> u32 \<Rightarrow> 'd hdd_state \<Rightarrow> int option" where
  "hddCheckPartitionMax device sz s = do {
     dv \<leftarrow> hdd_dev device s;
     Some (if sz \<le> partitionMaxSize dv then 0 else - EINVAL) }"

text \<open>The inner loop: the largest half, quarter and so on of a size that divides the end of the last partition.\<close>

function pad_size :: "u32 \<Rightarrow> u32 \<Rightarrow> u32 option" where
  "pad_size part_end tempSize =
     (if \<not> 0x3FFFF < tempSize then None
      else if part_end mod tempSize = 0 then Some tempSize
      else pad_size part_end (drop_bit 1 tempSize))"
  by auto
termination
proof (relation "measure (\<lambda>(e, t). unat t)", goal_cases)
  case (2 part_end tempSize)
  then have "0 < unat tempSize" by (auto simp: word_less_nat_alt)
  then show ?case by (simp add: drop_bit_Suc unat_div)
qed simp

declare pad_size.simps [simp del]

text \<open>
  Empty partitions fill the gap up to a multiple of the size. The result is the end of the last one and
  its entry; a round that finds no size changes nothing and is repeated for ever.
\<close>

partial_function (option) pad_loop :: "'d ata_ops \<Rightarrow> u32 \<Rightarrow> u32 \<Rightarrow> u32 \<Rightarrow> nat \<Rightarrow> nat \<Rightarrow> 'd apa_state \<Rightarrow>
    (u32 \<times> nat \<times> 'd apa_state) option" where
  "pad_loop A device sz part_end this nxt s =
     (if part_end mod sz = 0 then Some (part_end, this, s)
      else case pad_size part_end (drop_bit 1 sz) of
          None \<Rightarrow> pad_loop A device sz part_end this nxt s
        | Some tempSize \<Rightarrow>
            (case apaRemovePartition A device part_end 0 (hdr s this H_START) tempSize s of
               (None, s) \<Rightarrow> None
             | (Some new, s) \<Rightarrow> do {
                 let s = mark_dirty this (upd_hdr this (\<lambda>h. h(H_NEXT := part_end)) s);
                 let s = mark_dirty nxt (upd_hdr nxt (\<lambda>h. h(H_PREV := hdr s new H_START)) s);
                 (_, s) \<leftarrow> apaCacheFlushAllDirty A device s;
                 pad_loop A device sz (part_end + tempSize) new nxt (apaCacheFree (Some this) s) }))"

definition hddAddPartitionHere :: "'d ata_ops \<Rightarrow> u32 \<Rightarrow> apa_params_t \<Rightarrow> (nat \<Rightarrow> u32) \<Rightarrow> u32 \<Rightarrow> 'd hdd_state \<Rightarrow>
    (nat option \<times> int \<times> 'd hdd_state) option" where
  "hddAddPartitionHere A device params emptyBlocks sector hs =
     (case find (\<lambda>i. pr_size params \<le> push_bit i 1 \<and> emptyBlocks i \<noteq> 0) [0..<32] of
        Some i \<Rightarrow> do {
          (p, err, s) \<leftarrow> apaInsertPartition A device params (emptyBlocks i) (apa hs);
          Some (p, err, hs\<lparr>apa := s\<rparr>) }
      | None \<Rightarrow> do {
          let (err, p, s) = apaCacheGetHeader A device sector APA_IO_MODE_READ (apa hs);
          this \<leftarrow> p;
          let part_end = hdr s this H_START + hdr s this H_LENGTH;
          let sz = pr_size params;
          if sz = 0 then None
          else do {
            let some_size = part_end mod sz;
            let tmp = (if some_size \<noteq> 0 then sz - some_size else 0);
            dv \<leftarrow> hdd_dev device hs;
            if totalLBA dv < part_end + sz + tmp \<or> part_end < sector
            then Some (None, - ENOSPC, hs\<lparr>apa := apaCacheFree (Some this) s\<rparr>)
            else case apaCacheGetHeader A device 0 APA_IO_MODE_READ s of
                (err, None, s) \<Rightarrow> Some (None, err, hs\<lparr>apa := apaCacheFree (Some this) s\<rparr>)
              | (err, Some nxt, s) \<Rightarrow> do {
                  (part_end, this, s) \<leftarrow> pad_loop A device sz part_end this nxt s;
                  let (p, err, s) = apaFillHeader A device params part_end 0 (hdr s this H_START) sz s;
                  s \<leftarrow> (case p of
                         None \<Rightarrow> Some s
                       | Some new \<Rightarrow> do {
                           let s = mark_dirty this (upd_hdr this (\<lambda>h. h(H_NEXT := part_end)) s);
                           let s = mark_dirty nxt (upd_hdr nxt (\<lambda>h. h(H_PREV := hdr s new H_START)) s);
                           (_, s) \<leftarrow> apaCacheFlushAllDirty A device s;
                           Some s });
                  Some (p, err, hs\<lparr>apa := apaCacheFree (Some nxt) (apaCacheFree (Some this) s)\<rparr>) } } })"

section \<open>Starting the driver\<close>

definition apaGetIlinkID :: "'d hdd_env \<Rightarrow> 'd \<Rightarrow> int \<times> words \<times> 'd" where
  "apaGetIlinkID E d = (case io_cdRI E d of (r, err, idbuf, d) \<Rightarrow>
     (if r \<noteq> 0 \<and> err = 0 then 0 else - EIO, idbuf, d))"

definition unlockDrive :: "'d hdd_env \<Rightarrow> u32 \<Rightarrow> 'd hdd_state \<Rightarrow> int \<times> 'd hdd_state" where
  "unlockDrive E device s =
     (let (rv, ident, d) = apaGetIlinkID E (dev (apa s)) in
      if rv = 0 then (case io_sce_sec_unlock E device ident d of (r, d) \<Rightarrow> (r, s\<lparr>apa := (apa s)\<lparr>dev := d\<rparr>\<rparr>))
      else (rv, s\<lparr>apa := (apa s)\<lparr>dev := d\<rparr>\<rparr>))"

text \<open>\<open>strtol (str, 0, 10)\<close>: blanks, a sign, digits.\<close>

definition strtol_base10 :: "string \<Rightarrow> int" where
  "strtol_base10 str =
     (let t = dropWhile (\<lambda>c. c = CHR '' '' \<or> 9 \<le> (of_char c :: nat) \<and> (of_char c :: nat) \<le> 13) str in
      case t of
        [] \<Rightarrow> 0
      | c # t' \<Rightarrow>
          if c = CHR ''-'' then max (- int (digits_value (takeWhile isnum t'))) (- 2147483648)
          else strtol10 (takeWhile isnum (if c = CHR ''+'' then t' else t)))"

text \<open>The options \<open>-o\<close> and \<open>-n\<close>: the number of open files and the size of the cache, or a usage error.\<close>

fun hdd_args :: "string list \<Rightarrow> int \<Rightarrow> int \<Rightarrow> (int \<times> int) option" where
  "hdd_args [] maxOpen cs = Some (maxOpen, cs)"
| "hdd_args (a # as) maxOpen cs =
     (if a = [] \<or> hd a \<noteq> CHR ''-'' then Some (maxOpen, cs)
      else if a = ''-o'' then
        (case as of [] \<Rightarrow> None
         | v # as \<Rightarrow> hdd_args as (if strtol_base10 v - 1 < 32 then strtol_base10 v else maxOpen) cs)
      else if a = ''-n'' then
        (case as of [] \<Rightarrow> None
         | v # as \<Rightarrow> hdd_args as maxOpen (if cs < strtol_base10 v then strtol_base10 v else cs))
      else hdd_args as maxOpen cs)"

text \<open>The first loop over the drives: what is there, and whether it can be unlocked. No information ends the start.\<close>

fun probe_drives :: "'d hdd_env \<Rightarrow> u32 list \<Rightarrow> 'd hdd_state \<Rightarrow> bool \<times> 'd hdd_state" where
  "probe_drives E [] s = (True, s)"
| "probe_drives E (i # is) s =
     (case io_devinfo E i (dev (apa s)) of
        None \<Rightarrow> (False, s)
      | Some info \<Rightarrow>
          if di_exists info \<noteq> 0 \<and> di_has_packet info = 0 then
            let s = upd_dev i (\<lambda>d. d\<lparr>status := status d - 1, totalLBA := di_total_sectors info,
                      partitionMaxSize := apaGetPartitionMax (di_total_sectors info)\<rparr>) s;
                (r, s) = unlockDrive E i s
            in probe_drives E is (if r = 0 then upd_dev i (status_update (\<lambda>n. n - 1)) s else s)
          else probe_drives E is s)"

text \<open>The second loop: recovery of the journal, then the format of the drive.\<close>

fun recover_drives :: "'d hdd_env \<Rightarrow> u32 list \<Rightarrow> 'd hdd_state \<Rightarrow> (bool \<times> 'd hdd_state) option" where
  "recover_drives E [] s = Some (True, s)"
| "recover_drives E (i # is) s =
     (if status (hddDevices s i) < 2 then do {
        (r, a) \<leftarrow> apaJournalRestore (ata E) i (apa s);
        let s = s\<lparr>apa := a\<rparr>;
        if r \<noteq> 0 then Some (False, s)
        else do {
          (ok, fmt, a) \<leftarrow> apaGetFormat (ata E) i (apa s);
          let s = upd_dev i (apa_device_t.format_update (\<lambda>_. sint fmt)) (s\<lparr>apa := a\<rparr>);
          recover_drives E is (if ok \<noteq> 0 then upd_dev i (status_update (\<lambda>n. n - 1)) s else s) } }
      else recover_drives E is s)"

text \<open>\<open>added\<close> is the result of \<open>AddDrv\<close>, \<open>args\<close> the arguments behind the name of the program.\<close>

definition hdd_start :: "'d hdd_env \<Rightarrow> int \<Rightarrow> string list \<Rightarrow> 'd hdd_state \<Rightarrow> (int \<times> 'd hdd_state) option" where
  "hdd_start E added args s =
     (case hdd_args args (apaMaxOpen s) 3 of
        None \<Rightarrow> Some (1, s)
      | Some (maxOpen, cs) \<Rightarrow>
          let s = s\<lparr>apaMaxOpen := maxOpen\<rparr>;
              s = s\<lparr>apa := snd (apaGetTime (ata E) (apa s))\<rparr>;
              (ok, s) = probe_drives E [0, 1] s
          in if \<not> ok then Some (0, s)
             else do {
               let s = s\<lparr>hddFileSlots := (if sys_alloc (ata E) (nat (maxOpen * 564)) then Some (\<lambda>_. empty_slot) else None)\<rparr>;
               let s = s\<lparr>apa := snd (apaCacheInit (ata E) (word_of_int cs) (apa s))\<rparr>;
               (ok, s) \<leftarrow> recover_drives E [0, 1] s;
               if \<not> ok then Some (1, s)
               else Some (if added = 0 then MODULE_RESIDENT_END else MODULE_NO_RESIDENT_END, s) })"

end
