(* ===== verification/HddFio.thy ===== *)
theory HddFio
  imports HddDriver
begin

text \<open>
  The operations of the hard disk driver, iop/hdd/apa/src/hdd_fio.c. A file is an open partition, or the
  list of partitions when it is opened as a directory. A buffer of the caller is a word array that is
  passed in or returned. The drive reports success or failure; where the code passes its error number
  on, the model has \<open>- EIO\<close>. The tagged arguments of \<open>ioctl2\<close> and \<open>devctl\<close> are datatypes with a constructor
  for each command.
\<close>

abbreviation (input) O_DIROPEN :: u32 where "O_DIROPEN \<equiv> 8"
abbreviation (input) O_CREAT :: u32 where "O_CREAT \<equiv> 0x200"
abbreviation (input) ENOTDIR :: int where "ENOTDIR \<equiv> 20"
abbreviation (input) APA_TYPE_MBR :: u16 where "APA_TYPE_MBR \<equiv> 1"
abbreviation (input) APA_TYPE_EXT2SWAP :: u16 where "APA_TYPE_EXT2SWAP \<equiv> 0x82"
abbreviation (input) APA_TYPE_EXT2 :: u16 where "APA_TYPE_EXT2 \<equiv> 0x83"
abbreviation (input) APA_TYPE_PFS :: u16 where "APA_TYPE_PFS \<equiv> 0x100"
abbreviation (input) APA_TYPE_CFS :: u16 where "APA_TYPE_CFS \<equiv> 0x101"

section \<open>Arguments\<close>

definition sizeList :: "string list" where
  "sizeList = [''128M'', ''256M'', ''512M'', ''1G'', ''2G'', ''4G'', ''8G'', ''16G'', ''32G'']"

definition fioPartitionSizeLookUp :: "string \<Rightarrow> int" where
  "fioPartitionSizeLookUp str =
     (case find (\<lambda>i. str = sizeList ! i) [0..<9] of
        Some i \<Rightarrow> sint (push_bit i (256 * 1024) :: u32)
      | None \<Rightarrow> - EINVAL)"

text \<open>The next argument and what follows its comma.\<close>

definition fioInputBreaker :: "string \<Rightarrow> nat \<Rightarrow> int + string \<times> string" where
  "fioInputBreaker arg maxout =
     (let out = takeWhile (\<lambda>c. c \<noteq> CHR '','') arg; len = length out in
      if maxout < len then Inl (- EINVAL)
      else if len < length arg then Inr (out, dropWhile (\<lambda>c. c = CHR '' '') (drop (len + 1) arg))
      else Inr (out, []))"

text \<open>The words of a character array that was cleared and got a string.\<close>

definition str_words :: "string \<Rightarrow> words" where
  "str_words cs = word_of_bytes (str_byte cs)"

definition fsTypes :: "(string \<times> u16) list" where
  "fsTypes = [(''PFS'', APA_TYPE_PFS), (''CFS'', APA_TYPE_CFS), (''EXT2'', APA_TYPE_EXT2), (''EXT2SWAP'', APA_TYPE_EXT2SWAP)]"

definition no_params :: apa_params_t where
  "no_params = \<lparr>pr_id = (\<lambda>_. 0), pr_fpwd = (\<lambda>_. 0), pr_rpwd = (\<lambda>_. 0), pr_size = 0, pr_type = 0, pr_flags = 0,
     pr_main = 0, pr_number = 0\<rparr>"

text \<open>A password is stored enciphered; an empty one stays empty.\<close>

definition input_pwd :: "words \<Rightarrow> string \<Rightarrow> words" where
  "input_pwd ident pw = (if pw \<noteq> [] then apaEncryptPassword ident (str_words pw) else str_words pw)"

definition fioGetInput :: "string \<Rightarrow> int + apa_params_t" where
  "fioGetInput arg =
     (let arg = dropWhile (\<lambda>c. c = CHR '' '') arg in
      if arg = [] \<or> hd arg = CHR '','' then Inl (- EINVAL)
      else case fioInputBreaker arg 32 of Inl e \<Rightarrow> Inl e
        | Inr (name, arg) \<Rightarrow>
          let ident = str_words name; params = no_params\<lparr>pr_id := ident\<rparr> in
          if arg = [] then Inr params
          else case fioInputBreaker arg 8 of Inl e \<Rightarrow> Inl e
            | Inr (fpwd, arg) \<Rightarrow>
              let params = params\<lparr>pr_fpwd := input_pwd ident fpwd\<rparr> in
              if arg = [] then Inr params
              else case fioInputBreaker arg 8 of Inl e \<Rightarrow> Inl e
                | Inr (rpwd, arg) \<Rightarrow>
                  let params = params\<lparr>pr_rpwd := input_pwd ident rpwd\<rparr> in
                  if arg = [] then Inr params
                  else case fioInputBreaker arg 32 of Inl e \<Rightarrow> Inl e
                    | Inr (sz, arg) \<Rightarrow>
                      let rv = fioPartitionSizeLookUp sz in
                      if rv < 0 then Inl rv
                      else
                        let params = params\<lparr>pr_size := word_of_int rv\<rparr> in
                        case fioInputBreaker arg 32 of Inl e \<Rightarrow> Inl e
                          | Inr (fs, arg) \<Rightarrow>
                            (case map_of fsTypes fs of
                               Some t \<Rightarrow> Inr (params\<lparr>pr_type := t\<rparr>)
                             | None \<Rightarrow> Inl (- EINVAL)))"

section \<open>Slots\<close>

definition slot_at :: "nat \<Rightarrow> 'd hdd_state \<Rightarrow> hdd_file_slot_t option" where
  "slot_at k s = do { sl \<leftarrow> hddFileSlots s; Some (sl k) }"

definition upd_slot :: "nat \<Rightarrow> (hdd_file_slot_t \<Rightarrow> hdd_file_slot_t) \<Rightarrow> 'd hdd_state \<Rightarrow> 'd hdd_state" where
  "upd_slot k f s = s\<lparr>hddFileSlots := map_option (\<lambda>sl. sl(k := f (sl k))) (hddFileSlots s)\<rparr>"

text \<open>Whether a slot in use has that name: the first loop of \<open>getFileSlot\<close>, and the loops of \<open>apaRemove\<close> and \<open>apaRename\<close>.\<close>

definition id_in_use :: "words \<Rightarrow> (nat \<Rightarrow> hdd_file_slot_t) \<Rightarrow> int \<Rightarrow> bool" where
  "id_in_use ident sl maxOpen = list_ex (\<lambda>i. sl_f (sl i) \<noteq> None \<and> memcmp_eq (sl_id (sl i)) ident 8) [0..<nat maxOpen]"

definition getFileSlot :: "words \<Rightarrow> 'd hdd_state \<Rightarrow> (int + nat) option" where
  "getFileSlot ident s =
     (if apaMaxOpen s \<le> 0 then Some (Inl (- EMFILE))
      else do {
        sl \<leftarrow> hddFileSlots s;
        if id_in_use ident sl (apaMaxOpen s) then Some (Inl (- EBUSY))
        else case find (\<lambda>i. sl_f (sl i) = None) [0..<nat (apaMaxOpen s)] of
            Some i \<Rightarrow> Some (Inr i)
          | None \<Rightarrow> Some (Inl (- EMFILE)) })"

definition WaitSema :: "'d hdd_state \<Rightarrow> 'd hdd_state option" where
  "WaitSema s = (if fioSema s then Some (s\<lparr>fioSema := False\<rparr>) else None)"

text \<open>Its limit is one.\<close>

definition SignalSema :: "'d hdd_state \<Rightarrow> 'd hdd_state" where
  "SignalSema s = s\<lparr>fioSema := True\<rparr>"

definition hdd_unit :: "hdd_file \<Rightarrow> u32" where
  "hdd_unit f = word_of_int (hf_unit f)"

section \<open>Data transfer\<close>

text \<open>
  \<open>ata_device_sector_io\<close> on the state of the driver: a write with the data, or a read, which returns what
  the buffer then holds.
\<close>

definition sector_io :: "'d ata_ops \<Rightarrow> u32 \<Rightarrow> words option \<Rightarrow> u32 \<Rightarrow> u32 \<Rightarrow> 'd hdd_state \<Rightarrow> bool \<times> words \<times> 'd hdd_state" where
  "sector_io A device buf lba n s =
     (case buf of
        Some w \<Rightarrow> (case io_write A device w lba (unat n) (dev (apa s)) of (ok, d) \<Rightarrow> (ok, w, s\<lparr>apa := (apa s)\<lparr>dev := d\<rparr>\<rparr>))
      | None \<Rightarrow> (case io_read A device lba (unat n) (dev (apa s)) of (ok, w, d) \<Rightarrow> (ok, w, s\<lparr>apa := (apa s)\<lparr>dev := d\<rparr>\<rparr>)))"

text \<open>How many sectors a transfer of \<open>size\<close> bytes at the position \<open>post\<close> covers.\<close>

definition transfer_sectors :: "u32 \<Rightarrow> int \<Rightarrow> int" where
  "transfer_sectors post sz =
     (let n = sz div 512 in if 0x1FF9 \<le> post + word_of_int n then sint (0x1FF8 - post) else n)"

definition fioDataTransfer :: "'d ata_ops \<Rightarrow> hdd_file \<Rightarrow> words option \<Rightarrow> int \<Rightarrow> 'd hdd_state \<Rightarrow>
    (int \<times> words option \<times> 'd hdd_state) option" where
  "fioDataTransfer A f buf sz s = do {
     k \<leftarrow> hf_privdata f;
     slot \<leftarrow> slot_at k s;
     if sz mod 512 \<noteq> 0 then Some (- EINVAL, None, s)
     else do {
       let n = transfer_sectors (sl_post slot) sz;
       if n = 0 then Some (0, None, s)
       else do {
         s \<leftarrow> WaitSema s;
         let (ok, w, s) = sector_io A (hdd_unit f) buf (sl_post slot + sl_start slot 0 + 8) (word_of_int n) s;
         let s = SignalSema s;
         if ok then Some (n * 512, Some w, upd_slot k (sl_post_update (\<lambda>p. p + word_of_int n)) s)
         else Some (- EIO, None, s) } } }"

record hddIoctl2Transfer_t =
  tr_sub :: u32
  tr_sector :: u32
  tr_size :: u32
  tr_buffer :: "words option"

definition ioctl2Transfer :: "'d ata_ops \<Rightarrow> u32 \<Rightarrow> hdd_file_slot_t \<Rightarrow> hddIoctl2Transfer_t \<Rightarrow> 'd hdd_state \<Rightarrow>
    int \<times> words option \<times> 'd hdd_state" where
  "ioctl2Transfer A device slot arg s =
     (if ucast (sl_nsub slot) < tr_sub arg then (- ENODEV, None, s)
      else if tr_sub arg = 0 \<and> tr_sector arg < 0x2000 then (- EINVAL, None, s)
      else if tr_sub arg \<noteq> 0 \<and> tr_sector arg < 2 then (- EINVAL, None, s)
      else if sl_length slot (unat (tr_sub arg)) < tr_sector arg + tr_size arg then (- ENXIO, None, s)
      else case sector_io A device (tr_buffer arg) (sl_start slot (unat (tr_sub arg)) + tr_sector arg) (tr_size arg) s of
          (ok, w, s) \<Rightarrow> if ok then (0, Some w, s) else (- EIO, None, s))"

section \<open>The driver\<close>

definition hddInit :: "'d hdd_state \<Rightarrow> int \<times> 'd hdd_state" where
  "hddInit s = (0, s\<lparr>fioSema := True\<rparr>)"

definition hddDeinit :: "'d hdd_state \<Rightarrow> int \<times> 'd hdd_state" where
  "hddDeinit s = (0, s\<lparr>fioSema := False\<rparr>)"

text \<open>Clearing the places of headers; the sector number is a 32-bit word.\<close>

partial_function (option) clear_loop :: "'d ata_ops \<Rightarrow> u32 \<Rightarrow> words \<Rightarrow> u32 \<Rightarrow> u32 \<Rightarrow> 'd hdd_state \<Rightarrow> 'd hdd_state option" where
  "clear_loop A device w lba i s =
     (if \<not> i < lba then Some s
      else clear_loop A device w lba (i + 0x40000) (snd (snd (sector_io A device (Some w) i 2 s))))"

definition formatPartList :: "string list" where
  "formatPartList = [''__net'', ''__system'', ''__sysconf'', ''__common'']"

text \<open>The partitions of a new disk, each behind the last: the sector of the last one and the parameters.\<close>

fun format_parts :: "'d ata_ops \<Rightarrow> u32 \<Rightarrow> string list \<Rightarrow> apa_params_t \<Rightarrow> u32 \<Rightarrow> int \<Rightarrow> 'd hdd_state \<Rightarrow> (int \<times> 'd hdd_state) option" where
  "format_parts A device [] params sector rv s = Some (rv, s)"
| "format_parts A device (n # ns) params sector rv s = do {
     let params = params\<lparr>pr_id := str_words n\<rparr>;
     (p, rv, s) \<leftarrow> hddAddPartitionHere A device params (\<lambda>_. 0) sector s;
     case p of
       None \<Rightarrow> Some (rv, s)
     | Some c \<Rightarrow> do {
         let s = s\<lparr>apa := apaCacheFree (Some c) (apa s)\<rparr>;
         let sz = push_bit 1 (pr_size params);
         dv \<leftarrow> hdd_dev device s;
         let sz = (if partitionMaxSize dv < sz then partitionMaxSize dv else sz);
         format_parts A device ns (params\<lparr>pr_size := sz\<rparr>) (c_sector (cacheBuf (apa s) c)) rv s } }"

text \<open>The header of the first partition, without its times.\<close>

definition new_mbr_header :: apa_header_t where
  "new_mbr_header =
     (let h = (\<lambda>_. 0)(H_MAGIC := APA_MAGIC, H_LENGTH := 0x40000, H_TYPEFLAGS := type_flags APA_TYPE_MBR 0);
          h = copy_words h H_ID (str_words ''__mbr'') 8;
          h = copy_words h H_MBR_MAGIC (str_words apaMBRMagic) 8
      in h(H_MBR_VERSION := 2, H_MBR_NSECTOR := 0))"

definition write_mbr :: "'d ata_ops \<Rightarrow> u32 \<Rightarrow> nat \<Rightarrow> 'd hdd_state \<Rightarrow> 'd hdd_state" where
  "write_mbr A device c hs =
     (let s = upd_hdr c (\<lambda>_. new_mbr_header) (apa hs);
          s = stamp A c s;
          (w, s) = apaGetTime A s;
          s = upd_hdr c (\<lambda>h. h(H_MBR_CREATED := w 0, H_MBR_CREATED + 1 := w 1)) s;
          s = upd_hdr c (\<lambda>h. h(H_CHECKSUM := apaCheckSum h)) s;
          s = apaCacheFlushDirty A c (mark_dirty c s);
          (_, d) = io_flush A device (dev s);
          hs = hs\<lparr>apa := apaCacheFree (Some c) (s\<lparr>dev := d\<rparr>)\<rparr>
      in upd_dev device (\<lambda>d. apa_device_t.format_update (\<lambda>_. 2) (d\<lparr>status := 0\<rparr>)) hs)"

definition hddFormat :: "'d ata_ops \<Rightarrow> hdd_file \<Rightarrow> 'd hdd_state \<Rightarrow> (int \<times> 'd hdd_state) option" where
  "hddFormat A f s =
     (if 2 \<le> hf_unit f then Some (- ENXIO, s)
      else do {
        let device = hdd_unit f;
        let (p, a) = apaCacheAlloc (apa s);
        c \<leftarrow> p;
        let s = s\<lparr>apa := upd_hdr c (\<lambda>_ _. 0) a\<rparr>;
        let (ok, _, s) = sector_io A device (Some (\<lambda>_. 0)) APA_SECTOR_SECTOR_ERROR 1 s;
        if \<not> ok then Some (- EIO, s\<lparr>apa := apaCacheFree (Some c) (apa s)\<rparr>)
        else do {
          let (ok, _, s) = sector_io A device (Some (\<lambda>_. 0)) APA_SECTOR_PART_ERROR 1 s;
          if \<not> ok then Some (- EIO, s\<lparr>apa := apaCacheFree (Some c) (apa s)\<rparr>)
          else do {
            dv \<leftarrow> hdd_dev device s;
            s \<leftarrow> clear_loop A device (\<lambda>_. 0) (totalLBA dv) 0x2000 s;
            let (rv, a) = apaJournalReset A device (apaCacheFree (Some c) (apa s));
            let s = s\<lparr>apa := a\<rparr>;
            if rv \<noteq> 0 then Some (rv, s)
            else do {
              let (rv, p, a) = apaCacheGetHeader A device 0 APA_IO_MODE_WRITE (apa s);
              let s = s\<lparr>apa := a\<rparr>;
              let s = (case p of None \<Rightarrow> s | Some c \<Rightarrow> write_mbr A device c s);
              format_parts A device formatPartList (no_params\<lparr>pr_size := 0x40000, pr_type := APA_TYPE_PFS\<rparr>) 0 rv s } } } })"

section \<open>Opening, removing and renaming\<close>

text \<open>
  The walk of \<open>apaOpen\<close>: to the partition of that name, with the empty blocks on the way and the sector of
  the last header. Without a name it is the walk of \<open>ioctl2AddSub\<close>.
\<close>

partial_function (option) open_loop :: "'d ata_ops \<Rightarrow> words option \<Rightarrow> nat option \<Rightarrow> int \<Rightarrow> u32 \<Rightarrow> (nat \<Rightarrow> u32) \<Rightarrow> 'd apa_state \<Rightarrow>
    (nat option \<times> int \<times> u32 \<times> (nat \<Rightarrow> u32) \<times> 'd apa_state) option" where
  "open_loop A ident p rv sector eb s =
     (case p of
        None \<Rightarrow> Some (None, rv, sector, eb, s)
      | Some c \<Rightarrow>
          if ident \<noteq> None \<and> h_flags (hdr s c) AND APA_FLAG_SUB = 0 \<and> memcmp_eq (words_from (hdr s c) H_ID) (the ident) 8
          then Some (Some c, rv, c_sector (cacheBuf s c), eb, s)
          else Option.bind (apaGetNextHeader A c rv s) (\<lambda>(p, rv, s').
                 open_loop A ident p rv (c_sector (cacheBuf s c)) (apaAddEmptyBlock (hdr s c) eb) s'))"

text \<open>A new partition, with the two places cleared where a file system would look for its super block.\<close>

definition create_part :: "'d ata_ops \<Rightarrow> u32 \<Rightarrow> apa_params_t \<Rightarrow> (nat \<Rightarrow> u32) \<Rightarrow> u32 \<Rightarrow> 'd hdd_state \<Rightarrow>
    (nat option \<times> int \<times> 'd hdd_state) option" where
  "create_part A device params eb sector s = do {
     rv \<leftarrow> hddCheckPartitionMax device (pr_size params) s;
     if rv < 0 then Some (None, rv, s)
     else do {
       (p, rv, s) \<leftarrow> hddAddPartitionHere A device params eb sector s;
       case p of
         None \<Rightarrow> Some (None, rv, s)
       | Some c \<Rightarrow> do {
           let start = hdr (apa s) c H_START;
           let (p2, a) = apaCacheAlloc (apa s);
           c2 \<leftarrow> p2;
           let s = s\<lparr>apa := upd_hdr c2 (\<lambda>_ _. 0) a\<rparr>;
           let s = snd (snd (sector_io A device (Some (\<lambda>_. 0)) (start + 8) 2 s));
           let s = snd (snd (sector_io A device (Some (\<lambda>_. 0)) (start + 0x2000) 2 s));
           Some (Some c, rv, s\<lparr>apa := apaCacheFree (Some c2) (apa s)\<rparr>) } } }"

text \<open>What a slot takes from the header of its partition.\<close>

definition fill_slot :: "apa_header_t \<Rightarrow> hdd_file_slot_t \<Rightarrow> hdd_file_slot_t" where
  "fill_slot h sl = sl\<lparr>
     sl_start := (\<lambda>i. if i = 0 then h H_START else if i \<le> APA_MAXSUB then h (H_SUBS + 2 * (i - 1)) else sl_start sl i),
     sl_length := (\<lambda>i. if i = 0 then h H_LENGTH else if i \<le> APA_MAXSUB then h (H_SUBS + 2 * (i - 1) + 1) else sl_length sl i),
     sl_type := h_type h, sl_nsub := ucast (h H_NSUB), sl_id := copy_words (sl_id sl) 0 (words_from h H_ID) 8\<rparr>"

definition apaOpen :: "'d ata_ops \<Rightarrow> u32 \<Rightarrow> nat \<Rightarrow> apa_params_t \<Rightarrow> u32 \<Rightarrow> 'd hdd_state \<Rightarrow> (int \<times> 'd hdd_state) option" where
  "apaOpen A device k params mode s = do {
     let (rv, p, a) = apaCacheGetHeader A device 0 APA_IO_MODE_READ (apa s);
     (p, rv, sector, eb, a) \<leftarrow> open_loop A (Some (pr_id params)) p rv 0 (\<lambda>_. 0) a;
     let s = s\<lparr>apa := a\<rparr>;
     if rv \<noteq> 0 then Some (rv, s)
     else do {
       (p, rv, s) \<leftarrow> (if p = None \<and> mode AND O_CREAT \<noteq> 0 then create_part A device params eb sector s
                     else Some (p, - ENOENT, s));
       case p of
         None \<Rightarrow> Some (rv, s)
       | Some c \<Rightarrow>
           let h = hdr (apa s) c;
               s = upd_slot k (fill_slot h) s;
               s = s\<lparr>apa := apaCacheFree (Some c) (apa s)\<rparr>
           in Some (if apaPassCmp (words_from h H_FPWD) (pr_fpwd params) \<noteq> 0
                    then (if mode AND O_WRONLY = 0 then apaPassCmp (words_from h H_RPWD) (pr_rpwd params) else - EACCES)
                    else 0, s) } }"

text \<open>A name that starts with two underscores belongs to the system.\<close>

definition system_id :: "words \<Rightarrow> bool" where
  "system_id ident \<longleftrightarrow> byte_at ident 0 = 95 \<and> byte_at ident 1 = 95"

text \<open>The sub-partitions are deleted from the last to the first; a failed deletion ends the removal.\<close>

fun remove_subs :: "'d ata_ops \<Rightarrow> u32 \<Rightarrow> nat \<Rightarrow> nat \<Rightarrow> int \<Rightarrow> 'd apa_state \<Rightarrow> (bool \<times> int \<times> 'd apa_state) option" where
  "remove_subs A device c 0 rv s = Some (True, rv, s)"
| "remove_subs A device c (Suc i) rv s =
     (if APA_MAXSUB \<le> i then None
      else case apaCacheGetHeader A device (hdr s c (H_SUBS + 2 * i)) APA_IO_MODE_READ s of
          (rv, None, s) \<Rightarrow> remove_subs A device c i rv s
        | (rv, Some c2, s) \<Rightarrow> do {
            (rv, s) \<leftarrow> apaDelete A c2 s;
            if rv \<noteq> 0 then Some (False, rv, s) else remove_subs A device c i rv s })"

definition apaRemove :: "'d ata_ops \<Rightarrow> u32 \<Rightarrow> words \<Rightarrow> words \<Rightarrow> 'd hdd_state \<Rightarrow> (int \<times> 'd hdd_state) option" where
  "apaRemove A device ident fpwd s = do {
     sl \<leftarrow> (if apaMaxOpen s \<le> 0 then Some (\<lambda>_. empty_slot) else hddFileSlots s);
     if id_in_use ident sl (apaMaxOpen s) then Some (- EBUSY, s)
     else if system_id ident then Some (- EACCES, s)
     else do {
       (p, rv, a) \<leftarrow> apaFindPartition A device ident (apa s);
       case p of
         None \<Rightarrow> Some (rv, s\<lparr>apa := a\<rparr>)
       | Some c \<Rightarrow>
           if apaPassCmp (words_from (hdr a c) H_FPWD) fpwd \<noteq> 0
           then Some (- EACCES, s\<lparr>apa := apaCacheFree (Some c) a\<rparr>)
           else do {
             let nsub = hdr a c H_NSUB;
             let a = mark_dirty c (upd_hdr c (\<lambda>h. h(H_NSUB := 0)) a);
             (_, a) \<leftarrow> apaCacheFlushAllDirty A device a;
             (ok, rv, a) \<leftarrow> remove_subs A device c (unat nsub) rv a;
             if \<not> ok then Some (rv, s\<lparr>apa := apaCacheFree (Some c) a\<rparr>)
             else if rv = 0 then do { (rv, a) \<leftarrow> apaDelete A c a; Some (rv, s\<lparr>apa := a\<rparr>) }
             else Some (rv, s\<lparr>apa := apaCacheFree (Some c) a\<rparr>) } } }"

text \<open>Three of the error paths signal the semaphore, which the caller does as well.\<close>

definition apaRename :: "'d ata_ops \<Rightarrow> u32 \<Rightarrow> apa_params_t \<Rightarrow> apa_params_t \<Rightarrow> 'd hdd_state \<Rightarrow> (int \<times> 'd hdd_state) option" where
  "apaRename A device old new s = do {
     (p, rv, a) \<leftarrow> apaFindPartition A device (pr_id new) (apa s);
     let s = s\<lparr>apa := a\<rparr>;
     case p of
       Some c \<Rightarrow> Some (- EEXIST, SignalSema (s\<lparr>apa := apaCacheFree (Some c) a\<rparr>))
     | None \<Rightarrow> do {
         sl \<leftarrow> (if apaMaxOpen s \<le> 0 then Some (\<lambda>_. empty_slot) else hddFileSlots s);
         if id_in_use (pr_id old) sl (apaMaxOpen s) then Some (- EBUSY, SignalSema s)
         else if system_id (pr_id old) then Some (- EACCES, s)
         else do {
           (p, rv, a) \<leftarrow> apaFindPartition A device (pr_id old) (apa s);
           case p of
             None \<Rightarrow> Some (rv, SignalSema (s\<lparr>apa := a\<rparr>))
           | Some c \<Rightarrow>
               if apaPassCmp (words_from (hdr a c) H_FPWD) (pr_fpwd old) \<noteq> 0
               then Some (- EACCES, s\<lparr>apa := apaCacheFree (Some c) a\<rparr>)
               else do {
                 let a = mark_dirty c (upd_hdr c (\<lambda>h. copy_words (copy_words (copy_words h H_ID (pr_id new) 8)
                           H_RPWD (pr_rpwd new) 2) H_FPWD (pr_fpwd new) 2) a);
                 (_, a) \<leftarrow> apaCacheFlushAllDirty A device a;
                 Some (0, s\<lparr>apa := apaCacheFree (Some c) a\<rparr>) } } } }"

definition hddRemove :: "'d ata_ops \<Rightarrow> hdd_file \<Rightarrow> string \<Rightarrow> 'd hdd_state \<Rightarrow> (int \<times> 'd hdd_state) option" where
  "hddRemove A f name s =
     (case fioGetInput name of
        Inl rv \<Rightarrow> Some (rv, s)
      | Inr params \<Rightarrow> do {
          s \<leftarrow> WaitSema s;
          (rv, s) \<leftarrow> apaRemove A (hdd_unit f) (pr_id params) (pr_fpwd params) s;
          Some (rv, SignalSema s) })"

text \<open>
  The slot is noted in the file. A directory is opened without parameters: the name that is compared
  with those of the open partitions, \<open>junk\<close>, is then what the stack holds.
\<close>

definition hddOpen :: "'d ata_ops \<Rightarrow> words \<Rightarrow> hdd_file \<Rightarrow> string \<Rightarrow> u32 \<Rightarrow> 'd hdd_state \<Rightarrow> (int \<times> hdd_file \<times> 'd hdd_state) option" where
  "hddOpen A junk f name flags s =
     (if 2 \<le> hf_unit f then Some (- ENODEV, f, s)
      else do {
        dv \<leftarrow> hdd_dev (hdd_unit f) s;
        if status dv \<noteq> 0 then Some (- ENODEV, f, s)
        else case (if hf_mode f AND O_DIROPEN = 0 then fioGetInput name else Inr (no_params\<lparr>pr_id := junk\<rparr>)) of
            Inl rv \<Rightarrow> Some (rv, f, s)
          | Inr params \<Rightarrow> do {
              s \<leftarrow> WaitSema s;
              r \<leftarrow> getFileSlot (pr_id params) s;
              case r of
                Inl rv \<Rightarrow> Some (rv, f, SignalSema s)
              | Inr k \<Rightarrow> do {
                  (rv, s) \<leftarrow> (if hf_mode f AND O_DIROPEN = 0 then apaOpen A (hdd_unit f) k params flags s else Some (0, s));
                  if rv = 0 then
                    let f = f\<lparr>hf_privdata := Some k\<rparr>
                    in Some (0, f, SignalSema (upd_slot k (sl_f_update (\<lambda>_. Some f)) s))
                  else Some (rv, f, SignalSema s) } } })"

definition hddDopen :: "'d ata_ops \<Rightarrow> words \<Rightarrow> hdd_file \<Rightarrow> string \<Rightarrow> 'd hdd_state \<Rightarrow> (int \<times> hdd_file \<times> 'd hdd_state) option" where
  "hddDopen A junk f name s = hddOpen A junk f name 0 s"

definition hddClose :: "hdd_file \<Rightarrow> 'd hdd_state \<Rightarrow> (int \<times> 'd hdd_state) option" where
  "hddClose f s = do {
     s \<leftarrow> WaitSema s;
     k \<leftarrow> hf_privdata f;
     _ \<leftarrow> slot_at k s;
     Some (0, SignalSema (upd_slot k (\<lambda>_. empty_slot) s)) }"

definition hddRead :: "'d ata_ops \<Rightarrow> hdd_file \<Rightarrow> int \<Rightarrow> 'd hdd_state \<Rightarrow> (int \<times> words option \<times> 'd hdd_state) option" where
  "hddRead A f sz s = fioDataTransfer A f None sz s"

definition hddWrite :: "'d ata_ops \<Rightarrow> hdd_file \<Rightarrow> words \<Rightarrow> int \<Rightarrow> 'd hdd_state \<Rightarrow> (int \<times> words option \<times> 'd hdd_state) option" where
  "hddWrite A f buf sz s =
     (if hf_mode f AND O_WRONLY = 0 then Some (- EACCES, None, s) else fioDataTransfer A f (Some buf) sz s)"

definition hddLseek :: "hdd_file \<Rightarrow> int \<Rightarrow> int \<Rightarrow> 'd hdd_state \<Rightarrow> (int \<times> 'd hdd_state) option" where
  "hddLseek f post whence s =
     (if whence = 2 then Some (- EINVAL, s)
      else if post mod 512 \<noteq> 0 then Some (- EINVAL, s)
      else do {
        let post = post div 512;
        s \<leftarrow> WaitSema s;
        k \<leftarrow> hf_privdata f;
        slot \<leftarrow> slot_at k s;
        Some (if whence = 1 then
                (let p = sl_post slot + word_of_int post in
                 if 0x1FF9 \<le> p then (- EINVAL, SignalSema s)
                 else (sint (push_bit 9 p), SignalSema (upd_slot k (sl_post_update (\<lambda>_. p)) s)))
              else if whence = 0 then
                (if post < 0 \<or> 0x1FF9 \<le> post then (- EINVAL, SignalSema s)
                 else (sint (push_bit 9 (word_of_int post :: u32)), SignalSema (upd_slot k (sl_post_update (\<lambda>_. word_of_int post)) s)))
              else (0, SignalSema s)) })"

section \<open>Status and listing\<close>

definition fioGetStatFiller :: "apa_header_t \<Rightarrow> iox_stat_t" where
  "fioGetStatFiller h =
     (let created = map (\<lambda>k. byte_at h (4 * H_CREATED + k)) [0..<8] in
      \<lparr>st_mode = ucast (h_type h), st_attr = ucast (h_flags h), st_size = h H_LENGTH,
       st_ctime = created, st_atime = created, st_mtime = created, st_hisize = 0,
       st_private = [if h_flags h AND APA_FLAG_SUB \<noteq> 0 then h H_NUMBER else h H_NSUB, 0, 0, 0, 0, 0]\<rparr>)"

definition hddGetStat :: "'d ata_ops \<Rightarrow> hdd_file \<Rightarrow> string \<Rightarrow> 'd hdd_state \<Rightarrow> (int \<times> iox_stat_t option \<times> 'd hdd_state) option" where
  "hddGetStat A f name s =
     (case fioGetInput name of
        Inl rv \<Rightarrow> Some (rv, None, s)
      | Inr params \<Rightarrow> do {
          s \<leftarrow> WaitSema s;
          (p, rv, a) \<leftarrow> apaFindPartition A (hdd_unit f) (pr_id params) (apa s);
          case p of
            None \<Rightarrow> Some (rv, None, SignalSema (s\<lparr>apa := a\<rparr>))
          | Some c \<Rightarrow>
              let h = hdr a c;
                  rv = (if apaPassCmp (words_from h H_FPWD) (pr_fpwd params) = 0 then 0
                        else apaPassCmp (words_from h H_RPWD) (pr_rpwd params))
              in Some (rv, if rv = 0 then Some (fioGetStatFiller h) else None,
                       SignalSema (s\<lparr>apa := apaCacheFree (Some c) a\<rparr>)) })"

text \<open>The name of a header: its bytes up to a zero, at most 32.\<close>

definition header_name :: "apa_header_t \<Rightarrow> string" where
  "header_name h = map (\<lambda>b. char_of (unat b)) (takeWhile (\<lambda>b. b \<noteq> 0) (map (\<lambda>k. byte_at h (4 * H_ID + k)) [0..<32]))"

text \<open>
  The next entry of the list. The slot keeps the sector of the next header, and minus one at the end. A
  sub-partition is listed with the name of its main partition, if that can be read.
\<close>

definition hddDread :: "'d ata_ops \<Rightarrow> hdd_file \<Rightarrow> iox_dirent_t \<Rightarrow> 'd hdd_state \<Rightarrow> (int \<times> iox_dirent_t \<times> 'd hdd_state) option" where
  "hddDread A f dirent s =
     (if hf_mode f AND O_DIROPEN = 0 then Some (- ENOTDIR, dirent, s)
      else do {
        k \<leftarrow> hf_privdata f;
        slot \<leftarrow> slot_at k s;
        if sl_start slot 0 = - 1 then Some (0, dirent, s)
        else do {
          s \<leftarrow> WaitSema s;
          case apaCacheGetHeader A (hdd_unit f) (sl_start slot 0) APA_IO_MODE_READ (apa s) of
            (rv, None, a) \<Rightarrow> Some (rv, dirent, SignalSema (s\<lparr>apa := a\<rparr>))
          | (rv, Some c, a) \<Rightarrow>
              if hdr a c H_LENGTH = 0 then Some (rv, dirent, SignalSema (s\<lparr>apa := a\<rparr>))
              else
                let (rv, dirent, a) =
                      (if h_flags (hdr a c) AND APA_FLAG_SUB \<noteq> 0
                       then (case apaCacheGetHeader A (hdd_unit f) (hdr a c H_MAIN) APA_IO_MODE_READ a of
                               (rv, None, a) \<Rightarrow> (rv, dirent, a)
                             | (rv, Some cmain, a) \<Rightarrow>
                                 let name = header_name (hdr a cmain)
                                 in (int (length name), dirent\<lparr>iox_name := name\<rparr>, apaCacheFree (Some cmain) a))
                       else let name = header_name (hdr a c) in (int (length name), dirent\<lparr>iox_name := name\<rparr>, a));
                    dirent = dirent\<lparr>iox_stat := fioGetStatFiller (hdr a c)\<rparr>;
                    nxt = hdr a c H_NEXT;
                    s = upd_slot k (sl_start_update (\<lambda>st. st(0 := if nxt = 0 then - 1 else nxt))) s
                in Some (rv, dirent, SignalSema (s\<lparr>apa := apaCacheFree (Some c) a\<rparr>)) } })"

definition hddReName :: "'d ata_ops \<Rightarrow> hdd_file \<Rightarrow> string \<Rightarrow> string \<Rightarrow> 'd hdd_state \<Rightarrow> (int \<times> 'd hdd_state) option" where
  "hddReName A f oldname newname s =
     (case fioGetInput oldname of
        Inl rv \<Rightarrow> Some (rv, s)
      | Inr old \<Rightarrow>
          case fioGetInput newname of
            Inl rv \<Rightarrow> Some (rv, s)
          | Inr new \<Rightarrow> do {
              s \<leftarrow> WaitSema s;
              (rv, s) \<leftarrow> apaRename A (hdd_unit f) old new s;
              Some (rv, SignalSema s) })"

section \<open>Sub-partitions\<close>

definition ioctl2AddSub :: "'d ata_ops \<Rightarrow> nat \<Rightarrow> string \<Rightarrow> 'd hdd_state \<Rightarrow> (int \<times> 'd hdd_state) option" where
  "ioctl2AddSub A k argp s = do {
     slot \<leftarrow> slot_at k s;
     f \<leftarrow> sl_f slot;
     let device = hdd_unit f;
     let rv = fioPartitionSizeLookUp argp;
     if hf_mode f AND O_WRONLY = 0 then Some (- EACCES, s)
     else if APA_MAXSUB \<le> unat (sl_nsub slot) then Some (- EFBIG, s)
     else if rv < 0 then Some (rv, s)
     else do {
       let params = no_params\<lparr>pr_size := word_of_int rv, pr_flags := APA_FLAG_SUB, pr_type := sl_type slot,
                      pr_main := sl_start slot 0, pr_number := ucast (sl_nsub slot) + 1\<rparr>;
       rv \<leftarrow> hddCheckPartitionMax device (pr_size params) s;
       if rv < 0 then Some (rv, s)
       else do {
         let (rv, p, a) = apaCacheGetHeader A device 0 APA_IO_MODE_READ (apa s);
         (_, rv, sector, eb, a) \<leftarrow> open_loop A None p rv 0 (\<lambda>_. 0) a;
         let s = s\<lparr>apa := a\<rparr>;
         if rv \<noteq> 0 then Some (rv, s)
         else do {
           (p, rv, s) \<leftarrow> hddAddPartitionHere A device params eb sector s;
           case p of
             None \<Rightarrow> Some (rv, s)
           | Some c \<Rightarrow> do {
               let sector = hdr (apa s) c H_START;
               let len = hdr (apa s) c H_LENGTH;
               case apaCacheGetHeader A device (sl_start slot 0) APA_IO_MODE_READ (apaCacheFree (Some c) (apa s)) of
                 (rv, None, a) \<Rightarrow> Some (rv, s\<lparr>apa := a\<rparr>)
               | (rv, Some c, a) \<Rightarrow> do {
                   let n = unat (hdr a c H_NSUB);
                   if APA_MAXSUB \<le> n then None
                   else do {
                     let a = mark_dirty c (upd_hdr c (\<lambda>h. h(H_SUBS + 2 * n := sector, H_SUBS + 2 * n + 1 := len,
                               H_NSUB := h H_NSUB + 1)) a);
                     let m = unat (sl_nsub slot) + 1;
                     let s = upd_slot k (\<lambda>sl. sl\<lparr>sl_nsub := sl_nsub sl + 1, sl_start := (sl_start sl)(m := sector),
                               sl_length := (sl_length sl)(m := len)\<rparr>) s;
                     (_, a) \<leftarrow> apaCacheFlushAllDirty A device a;
                     Some (rv, s\<lparr>apa := apaCacheFree (Some c) a\<rparr>) } } } } } } }"

definition ioctl2DeleteLastSub :: "'d ata_ops \<Rightarrow> nat \<Rightarrow> 'd hdd_state \<Rightarrow> (int \<times> 'd hdd_state) option" where
  "ioctl2DeleteLastSub A k s = do {
     slot \<leftarrow> slot_at k s;
     f \<leftarrow> sl_f slot;
     let device = hdd_unit f;
     if hf_mode f AND O_WRONLY = 0 then Some (- EACCES, s)
     else if sl_nsub slot = 0 then Some (- ENOENT, s)
     else case apaCacheGetHeader A device (sl_start slot 0) APA_IO_MODE_READ (apa s) of
         (rv, None, a) \<Rightarrow> Some (rv, s\<lparr>apa := a\<rparr>)
       | (rv, Some c, a) \<Rightarrow> do {
           let n = hdr a c H_NSUB;
           if n = 0 \<or> APA_MAXSUB < unat n then None
           else case apaCacheGetHeader A device (hdr a c (H_SUBS + 2 * (unat n - 1))) APA_IO_MODE_READ a of
               (rv, None, a) \<Rightarrow> Some (rv, s\<lparr>apa := apaCacheFree (Some c) a\<rparr>)
             | (rv, Some sub, a) \<Rightarrow> do {
                 let s = upd_slot k (sl_nsub_update (\<lambda>n. n - 1)) s;
                 let a = mark_dirty c (upd_hdr c (\<lambda>h. h(H_NSUB := h H_NSUB - 1)) a);
                 (_, a) \<leftarrow> apaCacheFlushAllDirty A device a;
                 (rv, a) \<leftarrow> apaDelete A sub a;
                 Some (rv, s\<lparr>apa := apaCacheFree (Some c) a\<rparr>) } } }"

section \<open>Requests\<close>

datatype hdd_ioctl2 = HIOCADDSUB string | HIOCDELSUB | HIOCNSUB | HIOCFLUSH | HIOCTRANSFER hddIoctl2Transfer_t |
  HIOCGETSIZE u32 | HIOCSETPARTERROR | HIOCGETPARTERROR | OtherIoctl2 int

text \<open>
  The result is a 32-bit word in the code. The test of the result of \<open>apaGetPartErrorSector\<close> is made on
  it, so that an error counts as a positive answer; \<open>junk\<close> is what \<open>err_lba\<close> then holds.
\<close>

definition hddIoctl2 :: "'d ata_ops \<Rightarrow> u32 \<Rightarrow> hdd_file \<Rightarrow> hdd_ioctl2 \<Rightarrow> 'd hdd_state \<Rightarrow> (int \<times> words option \<times> 'd hdd_state) option" where
  "hddIoctl2 A junk f req s = do {
     s \<leftarrow> WaitSema s;
     k \<leftarrow> hf_privdata f;
     slot \<leftarrow> slot_at k s;
     (rv, out, s) \<leftarrow> (case req of
        HIOCADDSUB argp \<Rightarrow> do { (rv, s) \<leftarrow> ioctl2AddSub A k argp s; Some (rv, None, s) }
      | HIOCDELSUB \<Rightarrow> do { (rv, s) \<leftarrow> ioctl2DeleteLastSub A k s; Some (rv, None, s) }
      | HIOCNSUB \<Rightarrow> Some (uint (sl_nsub slot), None, s)
      | HIOCFLUSH \<Rightarrow> Some (0, None, s\<lparr>apa := (apa s)\<lparr>dev := snd (io_flush A (hdd_unit f) (dev (apa s)))\<rparr>\<rparr>)
      | HIOCTRANSFER arg \<Rightarrow> Some (ioctl2Transfer A (hdd_unit f) slot arg s)
      | HIOCGETSIZE sub \<Rightarrow> if unat sub \<le> APA_MAXSUB then Some (sint (sl_length slot (unat sub)), None, s) else None
      | HIOCSETPARTERROR \<Rightarrow> do { a \<leftarrow> apaSetPartErrorSector A (hdd_unit f) (sl_start slot 0) (apa s); Some (0, None, s\<lparr>apa := a\<rparr>) }
      | HIOCGETPARTERROR \<Rightarrow>
          (case apaGetPartErrorSector A (hdd_unit f) APA_SECTOR_PART_ERROR (apa s) of (rv, lba, a) \<Rightarrow>
             if rv \<noteq> 0 \<and> (case lba of Some l \<Rightarrow> l | None \<Rightarrow> junk) = sl_start slot 0
             then do { a \<leftarrow> apaSetPartErrorSector A (hdd_unit f) 0 a; Some (0, None, s\<lparr>apa := a\<rparr>) }
             else Some (rv, None, s\<lparr>apa := a\<rparr>))
      | OtherIoctl2 n \<Rightarrow> Some (- EINVAL, None, s));
     Some (rv, out, SignalSema s) }"

definition devctlSwapTemp :: "'d ata_ops \<Rightarrow> u32 \<Rightarrow> string \<Rightarrow> 'd hdd_state \<Rightarrow> (int \<times> 'd hdd_state) option" where
  "devctlSwapTemp A device argp s =
     (case fioGetInput argp of
        Inl rv \<Rightarrow> Some (rv, s)
      | Inr params \<Rightarrow>
          if system_id (pr_id params) then Some (- EINVAL, s)
          else do {
            (p, rv, a) \<leftarrow> apaFindPartition A device (str_words ''_tmp'') (apa s);
            case p of
              None \<Rightarrow> Some (rv, s\<lparr>apa := a\<rparr>)
            | Some t \<Rightarrow> do {
                (p, rv, a) \<leftarrow> apaFindPartition A device (pr_id params) a;
                case p of
                  None \<Rightarrow> Some (rv, s\<lparr>apa := apaCacheFree (Some t) a\<rparr>)
                | Some n \<Rightarrow> do {
                    let rv = apaPassCmp (words_from (hdr a n) H_FPWD) (pr_fpwd params);
                    a \<leftarrow> (if rv = 0 then do {
                           let a = upd_hdr t (\<lambda>h. copy_words h H_ID (words_from (hdr a n) H_ID) 12) a;
                           let a = upd_hdr n (\<lambda>h. copy_words (copy_words h H_ID (str_words ''_tmp'') 8) H_RPWD (\<lambda>_. 0) 4) a;
                           (_, a) \<leftarrow> apaCacheFlushAllDirty A device (mark_dirty n (mark_dirty t a));
                           Some a }
                         else Some a);
                    Some (rv, s\<lparr>apa := apaCacheFree (Some t) (apaCacheFree (Some n) a)\<rparr>) } } })"

definition devctlSetOsdMBR :: "'d ata_ops \<Rightarrow> u32 \<Rightarrow> u32 \<Rightarrow> u32 \<Rightarrow> 'd hdd_state \<Rightarrow> (int \<times> 'd hdd_state) option" where
  "devctlSetOsdMBR A device start sz s =
     (case apaCacheGetHeader A device APA_SECTOR_MBR APA_IO_MODE_READ (apa s) of
        (rv, None, a) \<Rightarrow> Some (rv, s\<lparr>apa := a\<rparr>)
      | (rv, Some c, a) \<Rightarrow> do {
          let a = mark_dirty c (upd_hdr c (\<lambda>h. h(H_MBR_OSDSTART := start, H_MBR_OSDSIZE := sz)) a);
          (_, a) \<leftarrow> apaCacheFlushAllDirty A device a;
          Some (rv, s\<lparr>apa := apaCacheFree (Some c) a\<rparr>) })"

datatype hdd_devctl = HDIOC_DEV9OFF | HDIOC_IDLE u8 | HDIOC_MAXSECTOR | HDIOC_TOTALSECTOR | HDIOC_FLUSH | HDIOC_SWAPTMP string |
  HDIOC_SMARTSTAT | HDIOC_STATUS | HDIOC_FORMATVER | HDIOC_FREESECTOR | HDIOC_IDLEIMM | HDIOC_GETTIME |
  HDIOC_SETOSDMBR u32 u32 | HDIOC_GETSECTORERROR | HDIOC_GETERRORPARTNAME | HDIOC_READSECTOR u32 u32 |
  HDIOC_WRITESECTOR u32 u32 words | HDIOC_SCEIDENTIFY | OtherDevctl int

definition on_dev :: "('d \<Rightarrow> int \<times> 'd) \<Rightarrow> 'd hdd_state \<Rightarrow> int \<times> words option \<times> 'd hdd_state" where
  "on_dev g s = (case g (dev (apa s)) of (r, d) \<Rightarrow> (r, None, s\<lparr>apa := (apa s)\<lparr>dev := d\<rparr>\<rparr>))"

definition hddDevctl :: "'d hdd_env \<Rightarrow> hdd_file \<Rightarrow> hdd_devctl \<Rightarrow> 'd hdd_state \<Rightarrow> (int \<times> words option \<times> 'd hdd_state) option" where
  "hddDevctl E f cmd s = do {
     let A = ata E;
     let u = hdd_unit f;
     s \<leftarrow> WaitSema s;
     (rv, out, s) \<leftarrow> (case cmd of
        HDIOC_DEV9OFF \<Rightarrow> Some (0, None, s\<lparr>apa := (apa s)\<lparr>dev := io_dev9Shutdown E (snd (io_smart_save_attr E u (dev (apa s))))\<rparr>\<rparr>)
      | HDIOC_IDLE n \<Rightarrow> Some (on_dev (io_idle E u n) s)
      | HDIOC_MAXSECTOR \<Rightarrow> do { dv \<leftarrow> hdd_dev u s; Some (sint (partitionMaxSize dv), None, s) }
      | HDIOC_TOTALSECTOR \<Rightarrow> do { dv \<leftarrow> hdd_dev u s; Some (sint (totalLBA dv), None, s) }
      | HDIOC_FLUSH \<Rightarrow> Some (on_dev (\<lambda>d. case io_flush A u d of (ok, d) \<Rightarrow> (if ok then 0 else - EIO, d)) s)
      | HDIOC_SWAPTMP argp \<Rightarrow> do { (rv, s) \<leftarrow> devctlSwapTemp A u argp s; Some (rv, None, s) }
      | HDIOC_SMARTSTAT \<Rightarrow> Some (on_dev (io_smart_get_status E u) s)
      | HDIOC_STATUS \<Rightarrow> do { dv \<leftarrow> hdd_dev u s; Some (status dv, None, s) }
      | HDIOC_FORMATVER \<Rightarrow> do { dv \<leftarrow> hdd_dev u s; Some (apa_device_t.format dv, None, s) }
      | HDIOC_FREESECTOR \<Rightarrow> do {
          (rv, free, a) \<leftarrow> apaGetFreeSectors A u (hddDevices s) (apa s);
          Some (rv, Some ((\<lambda>_. 0)(0 := free)), s\<lparr>apa := a\<rparr>) }
      | HDIOC_IDLEIMM \<Rightarrow> Some (on_dev (io_idle_immediate E u) s)
      | HDIOC_GETTIME \<Rightarrow> (case apaGetTime A (apa s) of (w, a) \<Rightarrow> Some (0, Some w, s\<lparr>apa := a\<rparr>))
      | HDIOC_SETOSDMBR start sz \<Rightarrow> do { (rv, s) \<leftarrow> devctlSetOsdMBR A u start sz s; Some (rv, None, s) }
      | HDIOC_GETSECTORERROR \<Rightarrow>
          (case apaGetPartErrorSector A u APA_SECTOR_SECTOR_ERROR (apa s) of (rv, _, a) \<Rightarrow> Some (rv, None, s\<lparr>apa := a\<rparr>))
      | HDIOC_GETERRORPARTNAME \<Rightarrow> do { (rv, name, a) \<leftarrow> apaGetPartErrorName A u (apa s); Some (rv, name, s\<lparr>apa := a\<rparr>) }
      | HDIOC_READSECTOR lba n \<Rightarrow>
          (case sector_io A u None lba n s of (ok, w, s) \<Rightarrow> Some (if ok then 0 else - EIO, Some w, s))
      | HDIOC_WRITESECTOR lba n w \<Rightarrow>
          (case sector_io A u (Some w) lba n s of (ok, _, s) \<Rightarrow> Some (if ok then 0 else - EIO, None, s))
      | HDIOC_SCEIDENTIFY \<Rightarrow>
          (case io_sce_identify_drive E u (dev (apa s)) of (r, w, d) \<Rightarrow> Some (r, Some w, s\<lparr>apa := (apa s)\<lparr>dev := d\<rparr>\<rparr>))
      | OtherDevctl n \<Rightarrow> Some (- EINVAL, None, s));
     Some (rv, out, SignalSema s) }"

end
