(* ===== verification/HddFiles.thy ===== *)
theory HddFiles
  imports HddFio AtaDisk
begin

text \<open>
  What the hard disk driver promises about open partitions: the semaphore is free between calls, the
  position of a file stays in the area in front of the data, and transfers stay inside the partition.
\<close>

section \<open>What the operations keep\<close>

text \<open>Most steps change the partition library and the drive only.\<close>

definition same_files :: "'d hdd_state \<Rightarrow> 'd hdd_state \<Rightarrow> bool" where
  "same_files s t \<longleftrightarrow> hddFileSlots t = hddFileSlots s \<and> fioSema t = fioSema s \<and> apaMaxOpen t = apaMaxOpen s"

lemma same_files_refl [simp]: "same_files s s"
  by (simp add: same_files_def)

lemma same_files_apa [simp]:
  "same_files s (t\<lparr>apa := a\<rparr>) = same_files s t" "same_files (s\<lparr>apa := a\<rparr>) t = same_files s t"
  by (simp_all add: same_files_def)

lemma same_files_dev [simp]:
  "same_files s (upd_dev d f t) = same_files s t" "same_files (upd_dev d f s) t = same_files s t"
  by (simp_all add: same_files_def upd_dev_def)

lemma same_files_trans: "same_files s t \<Longrightarrow> same_files t u \<Longrightarrow> same_files s u"
  by (simp add: same_files_def)

lemma sector_io_same: "sector_io A d buf lba n s = (ok, w, t) \<Longrightarrow> same_files s t"
  by (auto simp: sector_io_def split: option.splits prod.splits)

lemma sector_io_same2 [simp]: "same_files s (snd (snd (sector_io A d buf lba n t))) = same_files s t"
  by (auto simp: sector_io_def same_files_def split: option.splits prod.splits)

lemma add_same: "hddAddPartitionHere A d params eb sector s = Some (p, err, t) \<Longrightarrow> same_files s t"
  by (auto simp: hddAddPartitionHere_def Let_def split: option.splits prod.splits Option.bind_splits if_splits)

lemma create_same: "create_part A d params eb sector s = Some (p, err, t) \<Longrightarrow> same_files s t"
  by (auto simp: create_part_def Let_def same_files_def sector_io_def split: option.splits prod.splits Option.bind_splits if_splits
      dest!: add_same)

lemma format_parts_same: "format_parts A d ns params sector rv s = Some (r, t) \<Longrightarrow> same_files s t"
proof (induction ns arbitrary: params sector rv s)
  case (Cons n ns)
  then show ?case
    by (auto simp: Let_def same_files_def split: option.splits prod.splits Option.bind_splits if_splits dest!: add_same Cons.IH)
qed simp

lemma clear_same:
  fixes A :: "'d ata_ops"
  assumes "clear_loop A d w lba i s = Some t"
  shows "same_files s t"
proof (rule clear_loop.raw_induct [where P = "\<lambda>A d w lba i s t. same_files s t", OF _ assms])
  fix f :: "'d ata_ops \<Rightarrow> u32 \<Rightarrow> words \<Rightarrow> u32 \<Rightarrow> u32 \<Rightarrow> 'd hdd_state \<Rightarrow> 'd hdd_state option" and A d w lba i s t
  assume ih: "\<And>A d w lba i s t. f A d w lba i s = Some t \<Longrightarrow> same_files s t"
    and step: "(if \<not> i < lba then Some s
      else f A d w lba (i + 0x40000) (snd (snd (sector_io A d (Some w) i 2 s)))) = Some t"
  let ?s = "snd (snd (sector_io A d (Some w) i 2 s))"
  have s: "same_files s ?s" by simp
  show "same_files s t"
  proof (cases "i < lba")
    case True
    then have "same_files ?s t" using ih step by simp
    with s show ?thesis by (rule same_files_trans)
  qed (use step in simp)
qed

section \<open>Between calls\<close>

definition posts_ok :: "'d hdd_state \<Rightarrow> bool" where
  "posts_ok s \<longleftrightarrow> (\<forall>sl k. hddFileSlots s = Some sl \<longrightarrow> sl_post (sl k) \<le> 0x1FF8)"

definition hdd_ok :: "'d hdd_state \<Rightarrow> bool" where
  "hdd_ok s \<longleftrightarrow> fioSema s \<and> posts_ok s"

lemma same_posts: "same_files s t \<Longrightarrow> posts_ok s \<Longrightarrow> posts_ok t"
  by (simp add: same_files_def posts_ok_def)

lemma same_ok: "same_files s t \<Longrightarrow> hdd_ok s \<Longrightarrow> hdd_ok t"
  by (simp add: same_files_def posts_ok_def hdd_ok_def)

lemma posts_slot: "posts_ok s \<Longrightarrow> (\<And>sl. sl_post sl \<le> 0x1FF8 \<Longrightarrow> sl_post (f sl) \<le> 0x1FF8) \<Longrightarrow> posts_ok (upd_slot k f s)"
  by (auto simp: posts_ok_def upd_slot_def)

lemma posts_simps [simp]:
  "posts_ok (s\<lparr>apa := a\<rparr>) = posts_ok s" "posts_ok (s\<lparr>fioSema := b\<rparr>) = posts_ok s"
  by (simp_all add: posts_ok_def)

lemma signal_ok [simp]: "hdd_ok (SignalSema s) = posts_ok s"
  by (simp add: hdd_ok_def SignalSema_def)

lemma wait_ok: "WaitSema s = Some t \<Longrightarrow> hdd_ok s \<Longrightarrow> posts_ok t"
  by (auto simp: WaitSema_def hdd_ok_def split: if_splits)

lemma wait_free: "hdd_ok s \<Longrightarrow> WaitSema s = Some (s\<lparr>fioSema := False\<rparr>)"
  by (simp add: WaitSema_def hdd_ok_def)

lemma hdd_okD [simp]: "hdd_ok s \<Longrightarrow> posts_ok s"
  by (simp add: hdd_ok_def)

lemma transfer_end:
  assumes "p \<le> 0x1FF8"
  shows "p + word_of_int (transfer_sectors p sz) \<le> 0x1FF8"
proof (cases "0x1FF9 \<le> p + word_of_int (sz div 512)")
  case True
  then show ?thesis by (simp add: transfer_sectors_def Let_def)
next
  case False
  then show ?thesis by (simp add: transfer_sectors_def Let_def word_le_nat_alt)
qed

lemma slot_posts: "slot_at k s = Some slot \<Longrightarrow> posts_ok s \<Longrightarrow> sl_post slot \<le> 0x1FF8"
  by (auto simp: slot_at_def posts_ok_def split: Option.bind_splits)

lemma transfer_ok:
  assumes "fioDataTransfer A f buf sz s = Some (r, w, t)" "hdd_ok s"
  shows "hdd_ok t"
proof -
  from assms obtain k slot where k: "hf_privdata f = Some k" "slot_at k s = Some slot"
    by (auto simp: fioDataTransfer_def split: Option.bind_splits)
  have p: "posts_ok s" using assms(2) by (rule hdd_okD)
  define n where "n = transfer_sectors (sl_post slot) sz"
  obtain ok v u where io: "sector_io A (hdd_unit f) buf (sl_post slot + sl_start slot 0 + 8) (word_of_int n) (s\<lparr>fioSema := False\<rparr>) = (ok, v, u)"
    by (metis prod_cases3)
  have u: "posts_ok u" using sector_io_same [OF io] p by (auto intro: same_posts)
  have slot: "hddFileSlots u = hddFileSlots s" using sector_io_same [OF io] by (simp add: same_files_def)
  have "posts_ok (upd_slot k (sl_post_update (\<lambda>p. p + word_of_int n)) (SignalSema u))"
    using u k(2) slot transfer_end [OF slot_posts [OF k(2) p], of sz]
    by (auto simp: posts_ok_def upd_slot_def SignalSema_def slot_at_def n_def)
  moreover have "fioSema (upd_slot k f (SignalSema u))" for k f by (simp add: upd_slot_def SignalSema_def)
  ultimately have "hdd_ok (upd_slot k (sl_post_update (\<lambda>p. p + word_of_int n)) (SignalSema u))" by (simp add: hdd_ok_def)
  then show ?thesis
    using assms k u io by (auto simp: fioDataTransfer_def wait_free n_def [symmetric] Let_def split: if_splits)
qed

lemma below_window: "\<not> 0x1FF9 \<le> p \<Longrightarrow> p \<le> 0x1FF8" for p :: u32
  by (simp add: word_le_nat_alt)

lemma small_word: "0 \<le> p \<Longrightarrow> p < 0x1FF9 \<Longrightarrow> (word_of_int p :: u32) \<le> 0x1FF8"
  by (simp add: word_le_def uint_word_of_int_eq take_bit_int_eq_self)

lemma lseek_ok: "hddLseek f post whence s = Some (r, t) \<Longrightarrow> hdd_ok s \<Longrightarrow> hdd_ok t"
  by (auto simp: hddLseek_def Let_def wait_free below_window small_word split: Option.bind_splits if_splits
      intro!: posts_slot)

lemma close_ok: "hddClose f s = Some (r, t) \<Longrightarrow> hdd_ok s \<Longrightarrow> hdd_ok t"
  by (auto simp: hddClose_def wait_free empty_slot_def split: Option.bind_splits intro!: posts_slot)

lemma apaOpen_posts: "apaOpen A d k params mode s = Some (r, t) \<Longrightarrow> posts_ok s \<Longrightarrow> posts_ok t"
  by (auto simp: apaOpen_def Let_def fill_slot_def split: Option.bind_splits if_splits option.splits prod.splits
      dest!: create_same intro!: posts_slot elim!: same_posts)

lemma open_ok: "hddOpen A junk f name flags s = Some (r, f', t) \<Longrightarrow> hdd_ok s \<Longrightarrow> hdd_ok t"
  by (auto simp: hddOpen_def Let_def wait_free split: Option.bind_splits if_splits sum.splits
      dest!: apaOpen_posts intro!: posts_slot)

lemma apaRemove_same: "apaRemove A d ident fpwd s = Some (r, t) \<Longrightarrow> same_files s t"
  by (auto simp: apaRemove_def Let_def split: Option.bind_splits if_splits option.splits)

lemma remove_ok: "hddRemove A f name s = Some (r, t) \<Longrightarrow> hdd_ok s \<Longrightarrow> hdd_ok t"
  by (auto simp: hddRemove_def wait_free split: Option.bind_splits sum.splits dest!: apaRemove_same elim!: same_posts)

lemma posts_signal [simp]: "posts_ok (SignalSema s) = posts_ok s"
  by (simp add: SignalSema_def)

lemma apaRename_posts: "apaRename A d old new s = Some (r, t) \<Longrightarrow> posts_ok s \<Longrightarrow> posts_ok t"
  by (auto simp: apaRename_def Let_def split: Option.bind_splits if_splits option.splits)

lemma rename_ok: "hddReName A f old new s = Some (r, t) \<Longrightarrow> hdd_ok s \<Longrightarrow> hdd_ok t"
  by (auto simp: hddReName_def wait_free split: Option.bind_splits sum.splits dest!: apaRename_posts)

lemma getstat_ok: "hddGetStat A f name s = Some (r, st, t) \<Longrightarrow> hdd_ok s \<Longrightarrow> hdd_ok t"
  by (auto simp: hddGetStat_def wait_free Let_def split: Option.bind_splits sum.splits option.splits)

lemma dread_ok: "hddDread A f de s = Some (r, de', t) \<Longrightarrow> hdd_ok s \<Longrightarrow> hdd_ok t"
  by (auto simp: hddDread_def wait_free Let_def split: Option.bind_splits sum.splits option.splits if_splits prod.splits
      intro!: posts_slot)

lemma addsub_posts: "ioctl2AddSub A k argp s = Some (r, t) \<Longrightarrow> posts_ok s \<Longrightarrow> posts_ok t"
  by (auto simp: ioctl2AddSub_def Let_def split: Option.bind_splits option.splits if_splits prod.splits
      dest!: add_same intro!: posts_slot elim!: same_posts)

lemma delsub_posts: "ioctl2DeleteLastSub A k s = Some (r, t) \<Longrightarrow> posts_ok s \<Longrightarrow> posts_ok t"
  by (auto simp: ioctl2DeleteLastSub_def Let_def split: Option.bind_splits option.splits if_splits prod.splits intro!: posts_slot)

lemma ioctl_transfer_posts: "ioctl2Transfer A d slot arg s = (r, w, t) \<Longrightarrow> posts_ok s \<Longrightarrow> posts_ok t"
  by (auto simp: ioctl2Transfer_def split: if_splits prod.splits dest!: sector_io_same elim!: same_posts)

lemma ioctl2_ok: "hddIoctl2 A junk f req s = Some (r, w, t) \<Longrightarrow> hdd_ok s \<Longrightarrow> hdd_ok t"
  by (cases req) (auto simp: hddIoctl2_def wait_free Let_def split: Option.bind_splits option.splits if_splits prod.splits
      dest!: addsub_posts delsub_posts ioctl_transfer_posts)

lemma devctl_ok: "hddDevctl E f cmd s = Some (r, w, t) \<Longrightarrow> hdd_ok s \<Longrightarrow> hdd_ok t"
proof (cases cmd)
  case (HDIOC_SWAPTMP argp)
  assume "hddDevctl E f cmd s = Some (r, w, t)" "hdd_ok s"
  then show ?thesis unfolding HDIOC_SWAPTMP
    by (auto simp: hddDevctl_def wait_free Let_def devctlSwapTemp_def split: Option.bind_splits option.splits if_splits prod.splits sum.splits)
qed (auto simp: hddDevctl_def wait_free Let_def on_dev_def devctlSetOsdMBR_def split: Option.bind_splits option.splits if_splits prod.splits
      dest!: sector_io_same elim!: same_posts)

lemma write_mbr_same [simp]:
  "same_files s (write_mbr A d c t) = same_files s t" "same_files (write_mbr A d c s) t = same_files s t"
  by (simp_all add: write_mbr_def Let_def split: prod.splits)

lemma format_same: "hddFormat A f s = Some (r, t) \<Longrightarrow> same_files s t"
  by (auto simp: hddFormat_def Let_def split: Option.bind_splits option.splits if_splits prod.splits
      dest!: sector_io_same clear_same format_parts_same) (blast intro: same_files_trans)+

section \<open>Reachable states\<close>

text \<open>The states the driver can be in between calls, whatever is called and whatever the drive answers.\<close>

inductive hdd_reach :: "'d hdd_env \<Rightarrow> 'd hdd_state \<Rightarrow> bool" for E where
  start: "hddFileSlots s0 = None \<Longrightarrow> hdd_start E 0 args s0 = Some (r, s) \<Longrightarrow> hdd_reach E (snd (hddInit s))"
| fmt: "hdd_reach E s \<Longrightarrow> hddFormat (ata E) f s = Some (r, t) \<Longrightarrow> hdd_reach E t"
| openf: "hdd_reach E s \<Longrightarrow> hddOpen (ata E) junk f name flags s = Some (r, f', t) \<Longrightarrow> hdd_reach E t"
| closef: "hdd_reach E s \<Longrightarrow> hddClose f s = Some (r, t) \<Longrightarrow> hdd_reach E t"
| readf: "hdd_reach E s \<Longrightarrow> hddRead (ata E) f sz s = Some (r, w, t) \<Longrightarrow> hdd_reach E t"
| writef: "hdd_reach E s \<Longrightarrow> hddWrite (ata E) f buf sz s = Some (r, w, t) \<Longrightarrow> hdd_reach E t"
| lseek: "hdd_reach E s \<Longrightarrow> hddLseek f post whence s = Some (r, t) \<Longrightarrow> hdd_reach E t"
| remove: "hdd_reach E s \<Longrightarrow> hddRemove (ata E) f name s = Some (r, t) \<Longrightarrow> hdd_reach E t"
| rename: "hdd_reach E s \<Longrightarrow> hddReName (ata E) f old new s = Some (r, t) \<Longrightarrow> hdd_reach E t"
| getstat: "hdd_reach E s \<Longrightarrow> hddGetStat (ata E) f name s = Some (r, st, t) \<Longrightarrow> hdd_reach E t"
| dread: "hdd_reach E s \<Longrightarrow> hddDread (ata E) f de s = Some (r, de', t) \<Longrightarrow> hdd_reach E t"
| ioctl2: "hdd_reach E s \<Longrightarrow> hddIoctl2 (ata E) junk f req s = Some (r, w, t) \<Longrightarrow> hdd_reach E t"
| devctl: "hdd_reach E s \<Longrightarrow> hddDevctl E f cmd s = Some (r, w, t) \<Longrightarrow> hdd_reach E t"

lemma unlock_same: "unlockDrive E d s = (r, t) \<Longrightarrow> same_files s t"
  by (auto simp: unlockDrive_def Let_def split: prod.splits if_splits)

lemma probe_same: "probe_drives E ds s = (ok, t) \<Longrightarrow> same_files s t"
proof (induction ds arbitrary: s)
  case (Cons d ds)
  from Cons.prems show ?case
    by (auto simp: Let_def split: option.splits if_splits prod.splits dest!: Cons.IH unlock_same intro: same_files_trans)
qed simp

lemma recover_same: "recover_drives E ds s = Some (ok, t) \<Longrightarrow> same_files s t"
proof (induction ds arbitrary: s)
  case (Cons d ds)
  from Cons.prems show ?case
    by (auto simp: Let_def split: option.splits if_splits prod.splits Option.bind_splits dest!: Cons.IH intro: same_files_trans)
qed simp

lemma start_posts:
  assumes "hddFileSlots s0 = None" "hdd_start E added args s0 = Some (r, s)"
  shows "posts_ok s"
proof (cases "hdd_args args (apaMaxOpen s0) 3")
  case None
  with assms show ?thesis by (simp add: hdd_start_def posts_ok_def)
next
  case (Some mc)
  obtain maxOpen cs where mc: "mc = (maxOpen, cs)" by fastforce
  define s1 where "s1 = s0\<lparr>apaMaxOpen := maxOpen, apa := snd (apaGetTime (ata E) (apa s0))\<rparr>"
  obtain ok s2 where p: "probe_drives E [0, 1] s1 = (ok, s2)" by fastforce
  have "hddFileSlots s2 = None" using probe_same [OF p] assms(1) by (simp add: same_files_def s1_def)
  then have s2: "posts_ok s2" by (simp add: posts_ok_def)
  define s3 where "s3 = s2\<lparr>hddFileSlots := (if sys_alloc (ata E) (nat (maxOpen * 564)) then Some (\<lambda>_. empty_slot) else None),
      apa := snd (apaCacheInit (ata E) (word_of_int cs) (apa s2))\<rparr>"
  have s3: "posts_ok s3" by (simp add: posts_ok_def s3_def empty_slot_def)
  have "posts_ok u" if "recover_drives E [0, 1] s3 = Some (k, u)" for k u
    using recover_same [OF that] s3 by (rule same_posts)
  then show ?thesis using assms(2) s2
    by (auto simp: hdd_start_def Some mc s1_def [symmetric] p s3_def [symmetric] Let_def
        simp del: probe_drives.simps recover_drives.simps split: if_splits Option.bind_splits)
qed

text \<open>
  (C16) Between calls the semaphore of the driver is free, so that no call waits for ever, and the position
  of every open file is in the area of 4 MB less its header that files may use.
\<close>

theorem hdd_reach_ok:
  assumes "hdd_reach E s"
  shows "fioSema s \<and> (\<forall>k slot. slot_at k s = Some slot \<longrightarrow> sl_post slot \<le> 0x1FF8)"
proof -
  from assms have "hdd_ok s"
  proof induction
    case (start s0 args r s)
    then show ?case using start_posts [OF start] by (simp add: hddInit_def hdd_ok_def)
  next
    case (writef s f buf sz r w t)
    then show ?case by (auto simp: hddWrite_def split: if_splits intro: transfer_ok)
  next
    case (readf s f sz r w t)
    then show ?case by (auto simp: hddRead_def intro: transfer_ok)
  next
    case (fmt s f r t)
    then show ?case using format_same same_ok by blast
  qed (blast intro: open_ok close_ok lseek_ok remove_ok rename_ok getstat_ok dread_ok ioctl2_ok devctl_ok)+
  then show ?thesis using slot_posts by (auto simp: hdd_ok_def)
qed

text \<open>The driver on a console without drives.\<close>

definition no_drives :: "ram hdd_env" where
  "no_drives = \<lparr>ata = ram_ops, io_smart_save_attr = (\<lambda>_. Pair 0), io_smart_get_status = (\<lambda>_. Pair 0), io_idle = (\<lambda>_ _. Pair 0),
     io_idle_immediate = (\<lambda>_. Pair 0), io_sce_identify_drive = (\<lambda>_ d. (0, \<lambda>_. 0, d)), io_sce_sec_unlock = (\<lambda>_ _. Pair 0),
     io_devinfo = (\<lambda>_ _. Some \<lparr>di_exists = 0, di_has_packet = 0, di_total_sectors = 0\<rparr>), io_cdRI = (\<lambda>d. (1, 0, \<lambda>_. 0, d)),
     io_dev9Shutdown = (\<lambda>d. d)\<rparr>"

definition hdd_loaded :: "ram hdd_state" where
  "hdd_loaded = \<lparr>apa = boot_state (ram_disk (\<lambda>_ _. 0) 9), hddFileSlots = None, apaMaxOpen = 1,
     hddDevices = (\<lambda>_. \<lparr>totalLBA = 0, partitionMaxSize = 0, format = 0, status = 3\<rparr>), fioSema = False\<rparr>"

theorem hdd_reach_ok_witness:
  "\<exists>s sl. hdd_start no_drives 0 [''-o'', ''4''] hdd_loaded = Some (MODULE_RESIDENT_END, s) \<and> hddFileSlots (snd (hddInit s)) = Some sl \<and>
     fioSema (snd (hddInit s)) \<and> sl_post (sl 3) \<le> 0x1FF8"
proof -
  have "\<exists>s sl. hdd_start no_drives 0 [''-o'', ''4''] hdd_loaded = Some (0, s) \<and> hddFileSlots s = Some sl"
    by (simp add: hdd_start_def no_drives_def hdd_loaded_def strtol_base10_def Let_def ram_ops_def)
  then obtain s sl where s: "hdd_start no_drives 0 [''-o'', ''4''] hdd_loaded = Some (0, s)" "hddFileSlots s = Some sl" by blast
  have "hddFileSlots hdd_loaded = None" by (simp add: hdd_loaded_def)
  from hdd_reach_ok [OF hdd_reach.start [OF this s(1)]] s show ?thesis by (auto simp: slot_at_def hddInit_def)
qed

section \<open>Transfers\<close>

lemma transfer_sectors_min:
  assumes "p \<le> 0x1FF8" "0 \<le> sz" "sz < 2147483648"
  shows "transfer_sectors p sz = int (min (nat sz div 512) (0x1FF8 - unat p))"
proof -
  have n: "0 \<le> sz div 512" "sz div 512 < 4194304" using assms(2,3) by auto
  have p: "unat p \<le> 8184" using assms(1) by (simp add: word_le_nat_alt)
  define m where "m = nat (sz div 512)"
  have m: "sz div 512 = int m" "m < 4194304" using n by (simp_all add: m_def)
  have "unat (of_nat m :: u32) = m" using m(2) by (simp add: unat_of_nat mod_less)
  then have "unat (p + of_nat m) = unat p + m" using p m(2) by (simp add: unat_word_ariths)
  then have w: "unat (p + word_of_int (sz div 512)) = unat p + m" unfolding m(1) by simp
  have d: "sint (0x1FF8 - p) = int (8184 - unat p)"
  proof -
    have "unat (0x1FF8 - p) = 8184 - unat p" using assms(1) by (simp add: unat_sub)
    moreover from this have "sint (0x1FF8 - p) = int (unat (0x1FF8 - p))" by (intro sint_small) simp
    ultimately show ?thesis by simp
  qed
  have e: "nat sz div 512 = m" using assms(2) by (simp add: m_def nat_div_distrib)
  show ?thesis
  proof (cases "0x1FF9 \<le> p + word_of_int (sz div 512)")
    case True
    then have "8184 - unat p < m" using w p by (simp add: word_le_nat_alt)
    with True d e show ?thesis by (simp add: transfer_sectors_def Let_def min_def)
  next
    case False
    then have "m \<le> 8184 - unat p" using w by (simp add: word_le_nat_alt)
    with False m e show ?thesis by (simp add: transfer_sectors_def Let_def min_def)
  qed
qed

text \<open>
  Reading an open partition as a file: from a position in the area files may use, a read of whole
  sectors transfers as many as were asked for and as are left in the area, in one command that starts
  behind the header, and moves the position by what was read; a read that fails moves nothing.
\<close>

theorem hddRead_in_window:
  assumes "hdd_ok s" "hf_privdata f = Some k" "slot_at k s = Some slot" "0 \<le> sz" "sz < 2147483648" "sz mod 512 = 0"
  shows "let n = min (nat sz div 512) (0x1FF8 - unat (sl_post slot)) in
    unat (sl_post slot) + n \<le> 0x1FF8 \<and>
    hddRead A f sz s =
      (if n = 0 then Some (0, None, s)
       else case sector_io A (hdd_unit f) None (sl_post slot + sl_start slot 0 + 8) (of_nat n) (s\<lparr>fioSema := False\<rparr>) of
           (ok, w, u) \<Rightarrow>
             if ok then Some (512 * int n, Some w, upd_slot k (sl_post_update (\<lambda>p. p + of_nat n)) (SignalSema u))
             else Some (- EIO, None, SignalSema u))"
proof -
  have p: "sl_post slot \<le> 0x1FF8" using assms(1,3) by (auto intro: slot_posts)
  define n where "n = min (nat sz div 512) (0x1FF8 - unat (sl_post slot))"
  have n: "transfer_sectors (sl_post slot) sz = int n" using transfer_sectors_min [OF p assms(4,5)] by (simp add: n_def)
  have "unat (sl_post slot) + n \<le> 0x1FF8" using p by (simp add: n_def word_le_nat_alt)
  moreover have "hddRead A f sz s =
      (if n = 0 then Some (0, None, s)
       else case sector_io A (hdd_unit f) None (sl_post slot + sl_start slot 0 + 8) (of_nat n) (s\<lparr>fioSema := False\<rparr>) of
           (ok, w, u) \<Rightarrow>
             if ok then Some (512 * int n, Some w, upd_slot k (sl_post_update (\<lambda>p. p + of_nat n)) (SignalSema u))
             else Some (- EIO, None, SignalSema u))"
    using assms(2,3,6) n by (simp add: hddRead_def fioDataTransfer_def wait_free [OF assms(1)] mult.commute split: prod.splits)
  ultimately show ?thesis unfolding Let_def n_def by blast
qed

definition slot_demo :: hdd_file_slot_t where
  "slot_demo = empty_slot\<lparr>sl_post := 0x1FF0, sl_start := (\<lambda>_. 0x40000), sl_length := (\<lambda>_. 0x40000)\<rparr>"

definition hdd_open_demo :: "ram hdd_state" where
  "hdd_open_demo = hdd_loaded\<lparr>hddFileSlots := Some (\<lambda>_. slot_demo), fioSema := True\<rparr>"

theorem hddRead_in_window_witness:
  "\<exists>w t. hddRead ram_ops \<lparr>hf_unit = 0, hf_mode = 1, hf_privdata = Some 0\<rparr> 0x10000 hdd_open_demo = Some (4096, Some w, t)"
proof -
  have "hdd_ok hdd_open_demo" by (simp add: hdd_ok_def posts_ok_def hdd_open_demo_def slot_demo_def)
  moreover have "slot_at 0 hdd_open_demo = Some slot_demo" by (simp add: slot_at_def hdd_open_demo_def)
  ultimately show ?thesis
    using hddRead_in_window [where s = hdd_open_demo and f = "\<lparr>hf_unit = 0, hf_mode = 1, hf_privdata = Some 0\<rparr>" and k = 0 and slot = slot_demo and sz = "0x10000" and A = ram_ops]
    by (simp add: slot_demo_def sector_io_def ram_ops_def hdd_open_demo_def hdd_loaded_def boot_state_def ram_disk_def)
qed



text \<open>
  Without that provision they do not: a request for two sectors from the last 32-bit sector number on
  passes every test and reaches the sector in front of the partition.
\<close>

theorem transfer_wraps:
  assumes "tr_sub arg \<le> ucast (sl_nsub slot)" "sl_length slot (unat (tr_sub arg)) \<noteq> 0"
    and "tr_sector arg = 0xFFFFFFFF" "tr_size arg = 2"
  shows "ioctl2Transfer A device slot arg s =
    (case sector_io A device (tr_buffer arg) (sl_start slot (unat (tr_sub arg)) - 1) 2 s of
       (ok, w, t) \<Rightarrow> if ok then (0, Some w, t) else (- EIO, None, t))"
proof -
  have "\<not> ucast (sl_nsub slot) < tr_sub arg" "\<not> sl_length slot (unat (tr_sub arg)) < 1" using assms(1,2) by (simp_all add: not_less)
  moreover have m: "(0xFFFFFFFF :: u32) = - 1" "(- 1 :: u32) + 2 = 1" "\<not> (- 1 :: u32) < 0x2000" "\<not> (- 1 :: u32) < 2" by simp_all
  ultimately show ?thesis unfolding ioctl2Transfer_def assms(3,4) m(1) by (simp add: m(2-4))
qed

theorem transfer_wraps_witness:
  "\<exists>w t. sector_io ram_ops 0 None 0x3FFFF 2 hdd_open_demo = (True, w, t) \<and>
     ioctl2Transfer ram_ops 0 slot_demo \<lparr>tr_sub = 0, tr_sector = 0xFFFFFFFF, tr_size = 2, tr_buffer = None\<rparr> hdd_open_demo = (0, Some w, t)"
  using transfer_wraps [of "\<lparr>tr_sub = 0, tr_sector = 0xFFFFFFFF, tr_size = 2, tr_buffer = None\<rparr>" slot_demo ram_ops 0 hdd_open_demo]
  by (simp add: slot_demo_def sector_io_def ram_ops_def hdd_open_demo_def hdd_loaded_def boot_state_def ram_disk_def)

end
