(* ===== verification/ApaWalk.thy ===== *)
theory ApaWalk
  imports ApaPart
begin

text \<open>
  Walks over the list of partitions through the cache: what the cache shows of a device does not
  depend on which headers it holds, a lookup returns what it shows, and so the walks of
  iop/hdd/libapa/src/apa.c and iop/hdd/libapa/src/free.c over a proper list end with the result the list
  has. Headers written sealed read back.
\<close>

section \<open>What the cache shows\<close>

definition disk_hdr where
  "disk_hdr cur d dv l i = cur d (dv :: u32) ((l :: u32) + of_nat (i div 128)) (i mod 128)"

definition same_hdr :: "apa_header_t \<Rightarrow> apa_header_t \<Rightarrow> bool" where
  "same_hdr h g \<longleftrightarrow> (\<forall>i<256. h i = g i)"

definition cached :: "'d apa_state \<Rightarrow> u32 \<Rightarrow> u32 \<Rightarrow> nat option" where
  "cached s dv l = find (\<lambda>i. c_sector (cacheBuf s i) = l \<and> c_device (cacheBuf s i) = dv) (slots (cacheSize s))"

definition view where
  "view cur s dv l = (case cached s dv l of Some i \<Rightarrow> hdr s i | None \<Rightarrow> disk_hdr cur (dev s) dv l)"

definition header_ok :: "u32 \<Rightarrow> apa_header_t \<Rightarrow> bool" where
  "header_ok l h \<longleftrightarrow> h H_MAGIC = APA_MAGIC \<and> apaCheckSum h = h H_CHECKSUM \<and>
     (l = APA_SECTOR_MBR \<longrightarrow>
        strncmp_eq (\<lambda>k. byte_at h (4 * H_MBR_MAGIC + k)) (str_byte apaMBRMagic) 32)"

definition clean_entry :: "apa_cache_t \<Rightarrow> bool" where
  "clean_entry c \<longleftrightarrow> c_flags c AND APA_CACHE_FLAG_DIRTY = 0"

definition coherent where
  "coherent cur xs s \<longleftrightarrow> cache_inv xs s \<and> keys_unique (cacheSize s) (lru_of xs s) \<and>
     (\<forall>i\<in>set (slots (cacheSize s)). c_device (cacheBuf s i) \<noteq> -1 \<and> clean_entry (cacheBuf s i) \<longrightarrow>
        same_hdr (hdr s i) (disk_hdr cur (dev s) (c_device (cacheBuf s i)) (c_sector (cacheBuf s i)))) \<and>
     (\<forall>i\<in>set xs. clean_entry (cacheBuf s i))"

lemma same_hdr_refl [simp]: "same_hdr h h"
  by (simp add: same_hdr_def)

lemma same_hdr_trans: "same_hdr h g \<Longrightarrow> same_hdr g f \<Longrightarrow> same_hdr h f"
  by (simp add: same_hdr_def)

lemma same_hdr_sym: "same_hdr h g \<Longrightarrow> same_hdr g h"
  by (simp add: same_hdr_def)

lemma same_hdr_nth: "same_hdr h g \<Longrightarrow> i < 256 \<Longrightarrow> h i = g i"
  by (simp add: same_hdr_def)

lemma apaCheckSum_cong: "(\<And>i. 0 < i \<Longrightarrow> i < 256 \<Longrightarrow> h i = g i) \<Longrightarrow> apaCheckSum h = apaCheckSum g"
  unfolding apaCheckSum_def by (rule fold_cong) auto

lemma header_ok_cong: "same_hdr h g \<Longrightarrow> header_ok l h = header_ok l g"
proof -
  assume s: "same_hdr h g"
  have "byte_at h (4 * H_MBR_MAGIC + k) = byte_at g (4 * H_MBR_MAGIC + k)" if "k < 32" for k
    using s that by (simp add: byte_at_def same_hdr_def)
  then have "strncmp_eq (\<lambda>k. byte_at h (4 * H_MBR_MAGIC + k)) b 32 =
      strncmp_eq (\<lambda>k. byte_at g (4 * H_MBR_MAGIC + k)) b 32" for b
    by (rule strncmp_eq_cong)
  then show ?thesis
    using s apaCheckSum_cong [of h g] by (simp add: header_ok_def same_hdr_def)
qed

lemma h_flags_cong: "same_hdr h g \<Longrightarrow> h_flags h = h_flags g"
  by (simp add: h_flags_def same_hdr_def)

lemma id_cong: "same_hdr h g \<Longrightarrow> memcmp_eq (words_from h H_ID) b 8 = memcmp_eq (words_from g H_ID) b 8"
  by (simp add: memcmp_eq_iff words_from_def same_hdr_def)

text \<open>Releasing an entry changes no header and no key.\<close>

lemma free_keeps:
  "c_device (cacheBuf (apaCacheFree p s) i) = c_device (cacheBuf s i)"
  "c_sector (cacheBuf (apaCacheFree p s) i) = c_sector (cacheBuf s i)"
  "c_flags (cacheBuf (apaCacheFree p s) i) = c_flags (cacheBuf s i)"
  "hdr (apaCacheFree p s) i = hdr s i" "dev (apaCacheFree p s) = dev s"
  "cacheSize (apaCacheFree p s) = cacheSize s"
  by (auto simp: apaCacheFree_def hdr_def Let_def split: option.splits)

lemma free_nused:
  "c_nused (cacheBuf s c) \<noteq> 0 \<Longrightarrow> c_nused (cacheBuf (apaCacheFree (Some c) s) i) =
     (if i = c then c_nused (cacheBuf s c) - 1 else c_nused (cacheBuf s i))"
  by (auto simp: apaCacheFree_def Let_def)

lemma view_cong:
  assumes "cacheSize t = cacheSize s" "\<And>i. c_device (cacheBuf t i) = c_device (cacheBuf s i)"
    "\<And>i. c_sector (cacheBuf t i) = c_sector (cacheBuf s i)" "\<And>i. hdr t i = hdr s i" "cur (dev t) = cur (dev s)"
  shows "view cur t = view cur s"
proof -
  have "cached t = cached s" using assms by (simp add: cached_def fun_eq_iff)
  with assms show ?thesis by (simp add: view_def disk_hdr_def fun_eq_iff split: option.split)
qed

lemma free_view: "view cur (apaCacheFree p s) = view cur s"
  by (rule view_cong) (simp_all add: free_keeps)

lemma free_coherent:
  assumes co: "coherent cur xs s" and c: "c \<in> set (slots (cacheSize s))" "c_nused (cacheBuf s c) \<noteq> 0"
    and cl: "c_nused (cacheBuf s c) = 1 \<Longrightarrow> clean_entry (cacheBuf s c)"
  shows "\<exists>ys. coherent cur ys (apaCacheFree (Some c) s)"
proof -
  let ?t = "apaCacheFree (Some c) s"
  from co have inv: "cache_inv xs s" "keys_unique (cacheSize s) (lru_of xs s)" by (auto simp: coherent_def)
  from free_refines [OF inv(1), of c] c obtain ys where ys: "cache_inv ys ?t"
    "lru_put c (lru_of xs s) = lru_of ys ?t" by auto
  have sub: "i \<in> set xs \<or> i = c \<and> c_nused (cacheBuf s c) = 1" if "i \<in> set ys" for i
    using that arg_cong [OF ys(2), of lru_free]
    by (auto simp: lru_put_def lru_of_def split: if_splits)
  have "clean_entry (cacheBuf ?t i)" if "i \<in> set ys" for i
    using sub [OF that] co cl by (auto simp: coherent_def clean_entry_def free_keeps)
  moreover have "keys_unique (cacheSize ?t) (lru_of ys ?t)"
    using inv(2) lru_put_unique [of "cacheSize s" c "lru_of xs s"] ys(2) by (simp add: free_keeps)
  ultimately have "coherent cur ys ?t"
    using co ys(1) by (simp add: coherent_def free_keeps clean_entry_def)
  then show ?thesis by blast
qed

text \<open>What a lookup does to the fields of the entries, for a hit and for a miss.\<close>

lemma get_hit_data:
  assumes "cached s dv l = Some i"
  shows "\<exists>s'. apaCacheGetHeader A dv l m s = (0, Some i, s') \<and> dev s' = dev s \<and> cacheSize s' = cacheSize s \<and>
     (\<forall>j. c_device (cacheBuf s' j) = c_device (cacheBuf s j) \<and> c_sector (cacheBuf s' j) = c_sector (cacheBuf s j) \<and>
          c_flags (cacheBuf s' j) = c_flags (cacheBuf s j) \<and> hdr s' j = hdr s j \<and>
          c_nused (cacheBuf s' j) = (if j = i then c_nused (cacheBuf s i) + 1 else c_nused (cacheBuf s j)))"
  using assms by (auto simp: cached_def apaCacheGetHeader_def hdr_def Let_def)

lemma read_transfer:
  assumes L: "disk_laws A cur poss off" and R: "reads_ok A off" "\<not> off (dev s)"
    and ok: "header_ok (c_sector (cacheBuf s i))
      (disk_hdr cur (dev s) (c_device (cacheBuf s i)) (c_sector (cacheBuf s i)))"
  shows "\<exists>s' h. apaCacheTransfer A i APA_IO_MODE_READ s = (0, s') \<and>
     cur (dev s') = cur (dev s) \<and> off (dev s') = off (dev s) \<and> cacheSize s' = cacheSize s \<and>
     same_hdr h (disk_hdr cur (dev s) (c_device (cacheBuf s i)) (c_sector (cacheBuf s i))) \<and>
     cacheBuf s' = (cacheBuf s)(i := (cacheBuf s i)\<lparr>c_header := h,
       c_flags := c_flags (cacheBuf s i) AND NOT APA_CACHE_FLAG_DIRTY\<rparr>)"
proof -
  let ?c = "cacheBuf s i"
  obtain o' h d where r: "io_read A (c_device ?c) (c_sector ?c) 2 (dev s) = (o', h, d)"
    by (metis prod_cases3)
  have o': "o'" using R r unfolding reads_ok_def by (metis fst_conv)
  note rl = read_law [OF L r]
  have same: "same_hdr h (disk_hdr cur (dev s) (c_device ?c) (c_sector ?c))"
    using rl(5) [OF o'] by (simp add: same_hdr_def disk_hdr_def)
  then have "header_ok (c_sector ?c) h" using ok header_ok_cong by blast
  then have "apaReadHeader A (c_device ?c) (c_sector ?c) (dev s) = (0, h, d)"
    using r o' by (auto simp: apaReadHeader_def header_ok_def)
  then show ?thesis using rl(1,3) same
    by (auto simp: apaCacheTransfer_def Let_def intro!: exI [of _ h])
qed

lemma get_miss_data:
  assumes L: "disk_laws A cur poss off" and R: "reads_ok A off" "\<not> off (dev s)"
    and inv: "cache_inv (i # xs) s" and miss: "cached s dv l = None"
    and ok: "header_ok l (disk_hdr cur (dev s) dv l)"
  shows "\<exists>s'. apaCacheGetHeader A dv l APA_IO_MODE_READ s = (0, Some i, s') \<and> cur (dev s') = cur (dev s) \<and>
     off (dev s') = off (dev s) \<and> cacheSize s' = cacheSize s \<and>
     same_hdr (hdr s' i) (disk_hdr cur (dev s) dv l) \<and> c_device (cacheBuf s' i) = dv \<and>
     c_sector (cacheBuf s' i) = l \<and> clean_entry (cacheBuf s' i) \<and> c_nused (cacheBuf s' i) = 1 \<and>
     (\<forall>j. j \<noteq> i \<longrightarrow> c_device (cacheBuf s' j) = c_device (cacheBuf s j) \<and>
          c_sector (cacheBuf s' j) = c_sector (cacheBuf s j) \<and> c_flags (cacheBuf s' j) = c_flags (cacheBuf s j) \<and>
          hdr s' j = hdr s j \<and> c_nused (cacheBuf s' j) = c_nused (cacheBuf s j))"
proof -
  let ?s1 = "apaCacheUnLink i (upd_c i (\<lambda>c. c\<lparr>c_flags := 0, c_nused := 1, c_device := dv, c_sector := l\<rparr>) s)"
  from inv have ne: "\<not> free_list_empty s" "c_next (cacheBuf s 0) = i"
    by (auto simp: free_list_empty_iff dest: cache_inv_head)
  from read_transfer [OF L R(1), of ?s1 i] R(2) ok obtain s' h where
    t: "apaCacheTransfer A i APA_IO_MODE_READ ?s1 = (0, s')" "cur (dev s') = cur (dev s)"
      "off (dev s') = off (dev s)" "cacheSize s' = cacheSize s" "same_hdr h (disk_hdr cur (dev s) dv l)"
      "cacheBuf s' = (cacheBuf ?s1)(i := (cacheBuf ?s1 i)\<lparr>c_header := h,
         c_flags := c_flags (cacheBuf ?s1 i) AND NOT APA_CACHE_FLAG_DIRTY\<rparr>)"
    by auto
  have "apaCacheGetHeader A dv l APA_IO_MODE_READ s = (0, Some i, s')"
    using t(1) miss ne by (simp add: apaCacheGetHeader_def cached_def Let_def)
  with t show ?thesis by (auto simp: hdr_def clean_entry_def)
qed

lemma cached_iff:
  assumes "keys_unique (cacheSize s) (lru_of xs s)" "dv \<noteq> -1"
  shows "cached s dv l = Some i \<longleftrightarrow>
    i \<in> set (slots (cacheSize s)) \<and> c_device (cacheBuf s i) = dv \<and> c_sector (cacheBuf s i) = l"
proof
  assume "cached s dv l = Some i"
  then show "i \<in> set (slots (cacheSize s)) \<and> c_device (cacheBuf s i) = dv \<and> c_sector (cacheBuf s i) = l"
    unfolding cached_def by (auto dest: find_slots)
next
  assume i: "i \<in> set (slots (cacheSize s)) \<and> c_device (cacheBuf s i) = dv \<and> c_sector (cacheBuf s i) = l"
  have "j = i" if "j \<in> set (slots (cacheSize s))" "c_device (cacheBuf s j) = dv" "c_sector (cacheBuf s j) = l" for j
  proof (rule ccontr)
    assume "j \<noteq> i"
    moreover have "fst (lru_key (lru_of xs s) i) \<noteq> -1" using i assms(2) by (simp add: lru_of_def)
    ultimately have "lru_key (lru_of xs s) i \<noteq> lru_key (lru_of xs s) j"
      using assms(1) i that(1) unfolding keys_unique_def by blast
    with i that show False by (simp add: lru_of_def)
  qed
  with i show "cached s dv l = Some i" unfolding cached_def by (intro find_only) auto
qed

lemma view_cases:
  assumes "keys_unique (cacheSize s) (lru_of xs s)" "dv \<noteq> -1"
  obtains i where "i \<in> set (slots (cacheSize s))" "c_device (cacheBuf s i) = dv" "c_sector (cacheBuf s i) = l"
      "view cur s dv l = hdr s i"
    | "\<And>i. i \<in> set (slots (cacheSize s)) \<Longrightarrow> (c_device (cacheBuf s i), c_sector (cacheBuf s i)) \<noteq> (dv, l)"
      "view cur s dv l = disk_hdr cur (dev s) dv l"
proof (cases "cached s dv l")
  case None
  then have "\<not> (i \<in> set (slots (cacheSize s)) \<and> c_device (cacheBuf s i) = dv \<and> c_sector (cacheBuf s i) = l)" for i
    using cached_iff [OF assms, of l i] by simp
  then show ?thesis using that(2) None by (auto simp: view_def)
next
  case (Some i)
  then have "view cur s dv l = hdr s i" by (simp add: view_def)
  with that(1) Some cached_iff [OF assms, of l i] show ?thesis by blast
qed

lemma view_hit:
  assumes "keys_unique (cacheSize s) (lru_of xs s)" "dv \<noteq> -1"
    "i \<in> set (slots (cacheSize s))" "c_device (cacheBuf s i) = dv" "c_sector (cacheBuf s i) = l"
  shows "view cur s dv l = hdr s i"
proof -
  from cached_iff [OF assms(1,2), of l i] assms(3-5) have "cached s dv l = Some i" by blast
  then show ?thesis by (simp add: view_def)
qed

lemma view_disk:
  assumes "keys_unique (cacheSize s) (lru_of xs s)" "dv \<noteq> -1"
    "\<And>i. i \<in> set (slots (cacheSize s)) \<Longrightarrow> (c_device (cacheBuf s i), c_sector (cacheBuf s i)) \<noteq> (dv, l)"
  shows "view cur s dv l = disk_hdr cur (dev s) dv l"
proof -
  have "cached s dv l \<noteq> Some i" for i using cached_iff [OF assms(1,2), of l i] assms(3) by auto
  then have "cached s dv l = None" by (meson not_Some_eq)
  then show ?thesis by (simp add: view_def)
qed

text \<open>What the walks use of a lookup that holds the entry \<open>c\<close>.\<close>

definition got where
  "got cur off dv l s c s' ys \<longleftrightarrow> coherent cur ys s' \<and>
     \<not> off (dev s') \<and> cacheSize s' = cacheSize s \<and> c \<in> set (slots (cacheSize s)) \<and>
     c_device (cacheBuf s' c) = dv \<and> c_sector (cacheBuf s' c) = l \<and>
     (\<forall>j. c_nused (cacheBuf s' j) = (if j = c then c_nused (cacheBuf s c) + 1 else c_nused (cacheBuf s j))) \<and>
     (c_nused (cacheBuf s' c) = 1 \<longrightarrow> clean_entry (cacheBuf s' c)) \<and>
     (\<forall>dv' l'. dv' \<noteq> -1 \<longrightarrow> same_hdr (view cur s' dv' l') (view cur s dv' l'))"

lemma get_pool:
  assumes "coherent cur xs s" "refs_below_max s" "dv \<noteq> -1"
    "apaCacheGetHeader A dv l APA_IO_MODE_READ s = (0, Some c, s')"
  obtains ys where "cache_inv ys s'" "keys_unique (cacheSize s') (lru_of ys s')"
      "lru_get (cacheSize s) (dv, l) True (lru_of xs s) = (Some c, lru_of ys s')"
proof -
  from assms(1) have inv: "cache_inv xs s" and un: "keys_unique (cacheSize s) (lru_of xs s)"
    by (auto simp: coherent_def)
  from get_refines [OF inv assms(2,4)] obtain ys where ys: "cache_inv ys s'"
    "lru_get (cacheSize s) (dv, l) True (lru_of xs s) = (Some c, lru_of ys s')" by auto
  have "keys_unique (cacheSize s') (lru_of ys s')"
    using lru_get_unique [OF un, of "(dv, l)" True] assms(3) ys(2) get_size [OF assms(4)] by simp
  with ys that show ?thesis by blast
qed

lemma get_coherent_hit:
  assumes co: "coherent cur xs s" and refs: "refs_below_max s" and dv: "dv \<noteq> -1" and on: "\<not> off (dev s)"
    and hit: "cached s dv l = Some i"
  shows "\<exists>s' ys. apaCacheGetHeader A dv l APA_IO_MODE_READ s = (0, Some i, s') \<and> got cur off dv l s i s' ys"
proof -
  from co have inv: "cache_inv xs s" and un: "keys_unique (cacheSize s) (lru_of xs s)"
    by (auto simp: coherent_def)
  from get_hit_data [OF hit, of A APA_IO_MODE_READ] obtain s' where
    s': "apaCacheGetHeader A dv l APA_IO_MODE_READ s = (0, Some i, s')" "dev s' = dev s"
    "cacheSize s' = cacheSize s" and
    f: "\<And>j. c_device (cacheBuf s' j) = c_device (cacheBuf s j)" "\<And>j. c_sector (cacheBuf s' j) = c_sector (cacheBuf s j)"
    "\<And>j. c_flags (cacheBuf s' j) = c_flags (cacheBuf s j)" "\<And>j. hdr s' j = hdr s j"
    "\<And>j. c_nused (cacheBuf s' j) = (if j = i then c_nused (cacheBuf s i) + 1 else c_nused (cacheBuf s j))"
    by auto
  from hit have i: "i \<in> set (slots (cacheSize s))" "c_device (cacheBuf s i) = dv" "c_sector (cacheBuf s i) = l"
    by (auto simp: cached_iff [OF un dv])
  from get_pool [OF co refs dv s'(1)] obtain ys where ys: "cache_inv ys s'" "keys_unique (cacheSize s') (lru_of ys s')"
    "lru_get (cacheSize s) (dv, l) True (lru_of xs s) = (Some i, lru_of ys s')" by blast
  have sub: "set ys \<subseteq> set xs"
    using hit arg_cong [OF ys(3), of "\<lambda>p. lru_free (snd p)"] set_remove1_subset [of i xs]
    by (auto simp: lru_get_def lru_of_def cached_def conj_commute split: if_splits)
  have "coherent cur ys s'" using co ys(1,2) f s' sub by (auto simp: coherent_def clean_entry_def)
  moreover have "view cur s' = view cur s" by (rule view_cong) (use f s' in auto)
  moreover have "clean_entry (cacheBuf s' i)" if "c_nused (cacheBuf s' i) = 1"
  proof -
    from that f(5) [of i] have "c_nused (cacheBuf s i) = 0" by simp
    with i inv have "i \<in> set xs" by (simp add: cache_inv_def)
    with co f(3) show ?thesis by (auto simp: coherent_def clean_entry_def)
  qed
  ultimately have "got cur off dv l s i s' ys" using s' f i on by (simp add: got_def)
  with s'(1) show ?thesis by blast
qed

text \<open>Taking the clean entry \<open>i\<close> for another sector does not change what the cache shows of the disk.\<close>

lemma view_replace:
  assumes un: "keys_unique (cacheSize s) (lru_of xs s)" and un': "keys_unique (cacheSize s') (lru_of ys s')"
    and sz: "cacheSize s' = cacheSize s" and dh: "disk_hdr cur (dev s') = disk_hdr cur (dev s)"
    and i: "i \<in> set (slots (cacheSize s))"
      "c_device (cacheBuf s i) \<noteq> -1 \<Longrightarrow>
         same_hdr (hdr s i) (disk_hdr cur (dev s) (c_device (cacheBuf s i)) (c_sector (cacheBuf s i)))"
      "same_hdr (hdr s' i) (view cur s (c_device (cacheBuf s' i)) (c_sector (cacheBuf s' i)))"
    and f: "\<And>j. j \<noteq> i \<Longrightarrow> c_device (cacheBuf s' j) = c_device (cacheBuf s j) \<and>
        c_sector (cacheBuf s' j) = c_sector (cacheBuf s j) \<and> hdr s' j = hdr s j"
    and dv: "dv \<noteq> -1"
  shows "same_hdr (view cur s' dv l) (view cur s dv l)"
proof (rule view_cases [OF un' dv, of l cur])
  fix j assume j: "j \<in> set (slots (cacheSize s'))" "c_device (cacheBuf s' j) = dv"
    "c_sector (cacheBuf s' j) = l" and v: "view cur s' dv l = hdr s' j"
  show ?thesis
  proof (cases "j = i")
    case True
    with j v i(3) show ?thesis by auto
  next
    case False
    with j f [OF False] have "view cur s dv l = hdr s j" by (intro view_hit [OF un dv]) (auto simp: sz)
    with v f [OF False] show ?thesis by simp
  qed
next
  assume no: "\<And>j. j \<in> set (slots (cacheSize s')) \<Longrightarrow>
      (c_device (cacheBuf s' j), c_sector (cacheBuf s' j)) \<noteq> (dv, l)"
    and v: "view cur s' dv l = disk_hdr cur (dev s') dv l"
  show ?thesis
  proof (cases "(c_device (cacheBuf s i), c_sector (cacheBuf s i)) = (dv, l)")
    case True
    with i(1) dv have "view cur s dv l = hdr s i" by (intro view_hit [OF un dv]) auto
    with v dh i(2) True dv show ?thesis by (auto simp: same_hdr_sym)
  next
    case False
    have "(c_device (cacheBuf s j), c_sector (cacheBuf s j)) \<noteq> (dv, l)" if "j \<in> set (slots (cacheSize s))" for j
      using no [of j] f [of j] False that sz by (cases "j = i") auto
    then have "view cur s dv l = disk_hdr cur (dev s) dv l" by (rule view_disk [OF un dv])
    with v dh show ?thesis by simp
  qed
qed

lemma get_coherent_miss:
  assumes L: "disk_laws A cur poss off" and R: "reads_ok A off" "\<not> off (dev s)"
    and co: "coherent cur (i # zs) s" and refs: "refs_below_max s" and dv: "dv \<noteq> -1"
    and miss: "cached s dv l = None" and ok: "header_ok l (view cur s dv l)"
  shows "\<exists>s' ys. apaCacheGetHeader A dv l APA_IO_MODE_READ s = (0, Some i, s') \<and> got cur off dv l s i s' ys"
proof -
  from co have inv: "cache_inv (i # zs) s" and un: "keys_unique (cacheSize s) (lru_of (i # zs) s)"
    by (auto simp: coherent_def)
  from miss have vd: "view cur s dv l = disk_hdr cur (dev s) dv l" by (simp add: view_def)
  from get_miss_data [OF L R inv miss] ok vd obtain s' where
    s': "apaCacheGetHeader A dv l APA_IO_MODE_READ s = (0, Some i, s')" "cur (dev s') = cur (dev s)"
      "off (dev s') = off (dev s)" "cacheSize s' = cacheSize s"
      "same_hdr (hdr s' i) (disk_hdr cur (dev s) dv l)" "c_device (cacheBuf s' i) = dv"
      "c_sector (cacheBuf s' i) = l" "clean_entry (cacheBuf s' i)" "c_nused (cacheBuf s' i) = 1" and
    f: "\<And>j. j \<noteq> i \<Longrightarrow> c_device (cacheBuf s' j) = c_device (cacheBuf s j) \<and>
        c_sector (cacheBuf s' j) = c_sector (cacheBuf s j) \<and> hdr s' j = hdr s j"
      "\<And>j. j \<noteq> i \<Longrightarrow> c_flags (cacheBuf s' j) = c_flags (cacheBuf s j)"
      "\<And>j. j \<noteq> i \<Longrightarrow> c_nused (cacheBuf s' j) = c_nused (cacheBuf s j)" by auto
  from get_pool [OF co refs dv s'(1)] obtain ys where ys: "cache_inv ys s'" "keys_unique (cacheSize s') (lru_of ys s')"
    "lru_get (cacheSize s) (dv, l) True (lru_of (i # zs) s) = (Some i, lru_of ys s')" by blast
  have "find (\<lambda>j. lru_key (lru_of (i # zs) s) j = (dv, l)) (slots (cacheSize s)) = None"
    using miss by (simp add: cached_def lru_of_def conj_commute)
  with ys(3) have zs: "ys = zs" by (auto simp: lru_get_def lru_of_def)
  have i: "i \<in> set (slots (cacheSize s))" "c_nused (cacheBuf s i) = 0" "clean_entry (cacheBuf s i)" "i \<notin> set zs"
    using inv co is_ring_distinct [OF cache_inv_ring [OF inv]] by (auto simp: cache_inv_def coherent_def)
  have dh: "disk_hdr cur (dev s') = disk_hdr cur (dev s)" using s'(2) by (simp add: disk_hdr_def fun_eq_iff)
  have "same_hdr (hdr s' j) (disk_hdr cur (dev s') (c_device (cacheBuf s' j)) (c_sector (cacheBuf s' j)))"
    if "j \<in> set (slots (cacheSize s'))" "c_device (cacheBuf s' j) \<noteq> -1" "clean_entry (cacheBuf s' j)" for j
    using that co f [of j] s'(4-8) dh by (cases "j = i") (auto simp: coherent_def clean_entry_def)
  moreover have "clean_entry (cacheBuf s' j)" if "j \<in> set ys" for j
  proof -
    from that i(4) have "j \<noteq> i" "j \<in> set zs" unfolding zs by auto
    with f(2) co show ?thesis by (auto simp: coherent_def clean_entry_def)
  qed
  ultimately have "coherent cur ys s'" using ys(1,2) by (simp add: coherent_def)
  moreover have "same_hdr (view cur s' dv' l') (view cur s dv' l')" if "dv' \<noteq> -1" for dv' l'
    by (rule view_replace [OF un ys(2) s'(4) dh i(1) _ _ f(1) that])
      (use co i vd s' in \<open>auto simp: coherent_def\<close>)
  ultimately have "got cur off dv l s i s' ys" using s' f i R(2) by (simp add: got_def)
  with s'(1) show ?thesis by blast
qed

lemma get_coherent:
  assumes L: "disk_laws A cur poss off" and R: "reads_ok A off" "\<not> off (dev s)"
    and co: "coherent cur xs s" and refs: "refs_below_max s" and dv: "dv \<noteq> -1" and ne: "xs \<noteq> []"
    and ok: "header_ok l (view cur s dv l)"
  shows "\<exists>c s' ys. apaCacheGetHeader A dv l APA_IO_MODE_READ s = (0, Some c, s') \<and> got cur off dv l s c s' ys"
proof (cases "cached s dv l")
  case None
  from ne obtain i zs where "xs = i # zs" by (cases xs) auto
  with get_coherent_miss [OF L R _ refs dv None ok] co show ?thesis by blast
next
  case (Some i)
  with get_coherent_hit [of cur xs s dv off l i A] co refs dv R(2) show ?thesis by blast
qed

section \<open>Walking a list of partitions\<close>

text \<open>
  A walk holds one entry at a time. \<open>n0\<close> are the user counts when it holds none, \<open>v\<close> is what the
  cache shows of the headers of the device.
\<close>

definition rest :: "(nat \<Rightarrow> u16) \<Rightarrow> nat \<Rightarrow> bool" where
  "rest n0 n \<longleftrightarrow> (\<forall>i\<in>set (slots n). n0 i \<noteq> -1) \<and> (\<exists>i\<in>set (slots n). n0 i = 0)"

definition idle where
  "idle cur off dv n0 v s \<longleftrightarrow> (\<exists>xs. coherent cur xs s) \<and> \<not> off (dev s) \<and> rest n0 (cacheSize s) \<and>
     (\<forall>i. c_nused (cacheBuf s i) = n0 i) \<and> (\<forall>l. same_hdr (view cur s dv l) (v l))"

definition holding where
  "holding cur off dv n0 v l c s \<longleftrightarrow> (\<exists>xs. coherent cur xs s) \<and> \<not> off (dev s) \<and> rest n0 (cacheSize s) \<and>
     (\<forall>i. c_nused (cacheBuf s i) = (if i = c then n0 i + 1 else n0 i)) \<and>
     (\<forall>l. same_hdr (view cur s dv l) (v l)) \<and> c \<in> set (slots (cacheSize s)) \<and>
     c_device (cacheBuf s c) = dv \<and> c_sector (cacheBuf s c) = l \<and>
     (c_nused (cacheBuf s c) = 1 \<longrightarrow> clean_entry (cacheBuf s c))"

lemma holding_hdr:
  assumes "holding cur off dv n0 v l c s" "dv \<noteq> -1"
  shows "same_hdr (hdr s c) (v l)"
proof -
  from assms obtain xs where "keys_unique (cacheSize s) (lru_of xs s)"
    by (auto simp: holding_def coherent_def)
  from view_hit [OF this assms(2), of c l cur] assms(1) show ?thesis
    by (metis holding_def)
qed

lemma holding_free:
  assumes "holding cur off dv n0 v l c s"
  shows "idle cur off dv n0 v (apaCacheFree (Some c) s)"
proof -
  from assms obtain xs where co: "coherent cur xs s" by (auto simp: holding_def)
  from assms have c: "c \<in> set (slots (cacheSize s))" "c_nused (cacheBuf s c) = n0 c + 1" "n0 c \<noteq> -1"
    by (auto simp: holding_def rest_def)
  then have nz: "c_nused (cacheBuf s c) \<noteq> 0" by (metis eq_neg_iff_add_eq_0)
  have "c_nused (cacheBuf s c) = 1 \<Longrightarrow> clean_entry (cacheBuf s c)" using assms by (simp add: holding_def)
  from free_coherent [OF co c(1) nz this] have "\<exists>ys. coherent cur ys (apaCacheFree (Some c) s)" by blast
  moreover have "c_nused (cacheBuf (apaCacheFree (Some c) s) i) = n0 i" for i
    using assms free_nused [OF nz, of i] by (auto simp: holding_def)
  ultimately show ?thesis using assms by (simp add: idle_def holding_def free_keeps free_view)
qed

lemma idle_get:
  assumes L: "disk_laws A cur poss off" and R: "reads_ok A off"
    and I: "idle cur off dv n0 v s" and dv: "dv \<noteq> -1" and ok: "header_ok l (v l)"
  shows "\<exists>c s'. apaCacheGetHeader A dv l APA_IO_MODE_READ s = (0, Some c, s') \<and>
     holding cur off dv n0 v l c s'"
proof -
  from I obtain xs where co: "coherent cur xs s" by (auto simp: idle_def)
  from I have n0: "\<And>i. c_nused (cacheBuf s i) = n0 i" "rest n0 (cacheSize s)" "\<not> off (dev s)"
    "\<And>l. same_hdr (view cur s dv l) (v l)" by (auto simp: idle_def)
  have refs: "refs_below_max s" using n0(1,2) by (auto simp: refs_below_max_def list_all_iff rest_def)
  have ne: "xs \<noteq> []" using co n0(1,2) by (force simp: coherent_def cache_inv_def rest_def)
  from ok header_ok_cong [OF n0(4) [of l], of l] have "header_ok l (view cur s dv l)" by simp
  from get_coherent [OF L R n0(3) co refs dv ne this] obtain c s' ys where
    g: "apaCacheGetHeader A dv l APA_IO_MODE_READ s = (0, Some c, s')" "got cur off dv l s c s' ys" by blast
  have "same_hdr (view cur s' dv l') (v l')" for l'
    using g(2) dv n0(4) same_hdr_trans unfolding got_def by blast
  then have "holding cur off dv n0 v l c s'"
    using g(2) n0(1,2) by (auto simp: holding_def got_def)
  with g(1) show ?thesis by blast
qed

fun chain :: "(u32 \<Rightarrow> apa_header_t) \<Rightarrow> u32 list \<Rightarrow> bool" where
  "chain v [] = False"
| "chain v [l] = (header_ok l (v l) \<and> v l H_NEXT = 0)"
| "chain v (l # l' # ls) = (header_ok l (v l) \<and> v l H_NEXT = l' \<and> l' \<noteq> 0 \<and>
     v l' H_PREV = v l H_START \<and> chain v (l' # ls))"

lemma next_last:
  assumes "holding cur off dv n0 v l c s" "dv \<noteq> -1" "v l H_NEXT = 0"
  shows "apaGetNextHeader A c err s = Some (None, err, apaCacheFree (Some c) s)"
  using same_hdr_nth [OF holding_hdr [OF assms(1,2)], of H_NEXT] assms(3)
  by (simp add: apaGetNextHeader_def Let_def free_keeps)

lemma next_more:
  assumes L: "disk_laws A cur poss off" and R: "reads_ok A off"
    and H: "holding cur off dv n0 v l c s" and dv: "dv \<noteq> -1"
    and n: "v l H_NEXT = l'" "l' \<noteq> 0" "v l' H_PREV = v l H_START" "header_ok l' (v l')"
  shows "\<exists>c' s'. apaGetNextHeader A c err s = Some (Some c', 0, s') \<and> holding cur off dv n0 v l' c' s'"
proof -
  let ?s = "apaCacheFree (Some c) s"
  note h = same_hdr_nth [OF holding_hdr [OF H dv]]
  from idle_get [OF L R holding_free [OF H] dv n(4)] obtain c' s' where
    g: "apaCacheGetHeader A dv l' APA_IO_MODE_READ ?s = (0, Some c', s')" "holding cur off dv n0 v l' c' s'"
    by blast
  have "hdr s' c' H_PREV = v l' H_PREV" using same_hdr_nth [OF holding_hdr [OF g(2) dv]] by simp
  moreover have "c_device (cacheBuf s c) = dv" using H by (simp add: holding_def)
  ultimately have "apaGetNextHeader A c err s = Some (Some c', 0, s')"
    using h [of H_NEXT] h [of H_START] n g(1) by (simp add: apaGetNextHeader_def Let_def free_keeps)
  with g(2) show ?thesis by blast
qed

definition is_named :: "words \<Rightarrow> apa_header_t \<Rightarrow> bool" where
  "is_named ident h \<longleftrightarrow> h_flags h AND APA_FLAG_SUB = 0 \<and> memcmp_eq (words_from h H_ID) ident 8"

lemma is_named_cong: "same_hdr h g \<Longrightarrow> is_named ident h = is_named ident g"
  by (simp add: is_named_def h_flags_cong id_cong)

lemma find_loop_walk:
  assumes L: "disk_laws A cur poss off" and R: "reads_ok A off" and dv: "dv \<noteq> -1"
  shows "chain v (l # ls) \<Longrightarrow> holding cur off dv n0 v l c s \<Longrightarrow>
     \<exists>p s'. find_loop A ident (Some c) 0 s = Some (p, 0, s') \<and>
       (case find (\<lambda>l. is_named ident (v l)) (l # ls) of
          Some l' \<Rightarrow> \<exists>c'. p = Some c' \<and> holding cur off dv n0 v l' c' s'
        | None \<Rightarrow> p = None \<and> idle cur off dv n0 v s')"
proof (induction ls arbitrary: l c s)
  case Nil
  note H = Nil.prems(2)
  have nm: "is_named ident (hdr s c) = is_named ident (v l)"
    by (rule is_named_cong [OF holding_hdr [OF H dv]])
  show ?case
  proof (cases "is_named ident (v l)")
    case True
    with nm H show ?thesis by (subst find_loop.simps) (auto simp: is_named_def)
  next
    case False
    with nm next_last [OF H dv, of A 0] Nil.prems(1) holding_free [OF H] show ?thesis
      by (subst find_loop.simps) (auto simp: is_named_def find_loop.simps)
  qed
next
  case (Cons l' ls)
  note H = Cons.prems(2)
  have nm: "is_named ident (hdr s c) = is_named ident (v l)"
    by (rule is_named_cong [OF holding_hdr [OF H dv]])
  show ?case
  proof (cases "is_named ident (v l)")
    case True
    with nm H show ?thesis by (subst find_loop.simps) (auto simp: is_named_def)
  next
    case False
    from Cons.prems(1) have ch: "v l H_NEXT = l'" "l' \<noteq> 0" "v l' H_PREV = v l H_START" "header_ok l' (v l')"
      "chain v (l' # ls)" by (auto, cases ls) auto
    from next_more [OF L R H dv ch(1-4), of 0] obtain c' s' where
      g: "apaGetNextHeader A c 0 s = Some (Some c', 0, s')" "holding cur off dv n0 v l' c' s'" by blast
    have "find_loop A ident (Some c) 0 s = find_loop A ident (Some c') 0 s'"
      using False nm g(1) by (subst find_loop.simps) (auto simp: is_named_def)
    with Cons.IH [OF ch(5) g(2)] False show ?thesis by simp
  qed
qed

text \<open>
  (C4) \<open>apaFindPartition\<close> ends and is right. On a working drive, with a cache that agrees with the
  disk and one entry free, and a proper list of partitions from the master boot record on, it
  returns an entry that holds the header of the first main partition with the given name, or
  -ENOENT when no partition of the list has it. The headers the cache shows are the same as before.
\<close>

theorem apaFindPartition_correct:
  assumes "disk_laws A cur poss off" "reads_ok A off" "dv \<noteq> -1"
    and "idle cur off dv n0 v s" and "chain v (0 # ls)"
  shows "\<exists>p err s'. apaFindPartition A dv ident s = Some (p, err, s') \<and>
     (case find (\<lambda>l. is_named ident (v l)) (0 # ls) of
        Some l \<Rightarrow> err = 0 \<and> (\<exists>c. p = Some c \<and> holding cur off dv n0 v l c s' \<and> same_hdr (hdr s' c) (v l))
      | None \<Rightarrow> err = - ENOENT \<and> p = None \<and> idle cur off dv n0 v s')"
proof -
  from assms(5) have "header_ok 0 (v 0)" by (cases ls) auto
  from idle_get [OF assms(1,2,4,3) this] obtain c s1 where
    g: "apaCacheGetHeader A dv 0 APA_IO_MODE_READ s = (0, Some c, s1)" "holding cur off dv n0 v 0 c s1"
    by blast
  from find_loop_walk [OF assms(1-3,5) g(2), of ident] obtain p s' where
    f: "find_loop A ident (Some c) 0 s1 = Some (p, 0, s')"
      "case find (\<lambda>l. is_named ident (v l)) (0 # ls) of
          Some l' \<Rightarrow> \<exists>c'. p = Some c' \<and> holding cur off dv n0 v l' c' s'
        | None \<Rightarrow> p = None \<and> idle cur off dv n0 v s'" by blast
  have "apaFindPartition A dv ident s = Some (p, if p = None then - ENOENT else 0, s')"
    using g(1) f(1) by (simp add: apaFindPartition_def)
  with f(2) show ?thesis
    using holding_hdr [OF _ assms(3)]
    by (cases "find (\<lambda>l. is_named ident (v l)) (0 # ls)") (auto simp del: find.simps)
qed

text \<open>A drive with nothing but the master boot record, and the library just initialised.\<close>

definition mbr_header :: apa_header_t where
  "mbr_header = sealed (\<lambda>i. if i = H_MAGIC then APA_MAGIC
     else if H_MBR_MAGIC \<le> i \<and> i < H_MBR_MAGIC + 8
     then word_of_bytes (str_byte apaMBRMagic) (i - H_MBR_MAGIC) else 0)"

definition hdr_image :: "apa_header_t \<Rightarrow> u32 \<Rightarrow> words" where
  "hdr_image h l i = (if unat l < 2 then h (128 * unat l + i) else 0)"

definition fresh_on :: "(u32 \<Rightarrow> words) \<Rightarrow> ram apa_state" where
  "fresh_on im = boot2\<lparr>dev := ram_disk im 9\<rparr>"

definition fresh :: "ram apa_state" where
  "fresh = fresh_on (hdr_image mbr_header)"

lemma sealed_sum: "apaCheckSum (sealed h) = sealed h H_CHECKSUM"
  using apaCheckSum_cong [of "sealed h" h] by (simp add: sealed_def)

lemma sealed_mbr_ok:
  assumes "h H_MAGIC = APA_MAGIC" and m: "\<And>i. i < 8 \<Longrightarrow> h (H_MBR_MAGIC + i) = word_of_bytes (str_byte apaMBRMagic) i"
  shows "header_ok 0 (sealed h)"
proof -
  have "byte_at (sealed h) (4 * H_MBR_MAGIC + k) = str_byte apaMBRMagic k" if "k < 32" for k
  proof -
    have "(256 + k) div 4 = 64 + k div 4" "(256 + k) mod 4 = k mod 4" "k div 4 < 8" using that by presburger+
    then show ?thesis using byte_at_word_of_bytes [of "str_byte apaMBRMagic" k] m [of "k div 4"]
      by (simp add: byte_at_def sealed_def)
  qed
  then have "strncmp_eq (\<lambda>k. byte_at (sealed h) (4 * H_MBR_MAGIC + k)) (str_byte apaMBRMagic) 32"
    using strncmp_eq_cong [of 32] strncmp_eq_refl by metis
  then show ?thesis using sealed_sum assms(1) unfolding header_ok_def by (simp add: sealed_def)
qed

lemma mbr_header_ok: "header_ok 0 mbr_header"
  unfolding mbr_header_def by (rule sealed_mbr_ok) simp_all

lemma fresh_on_idle: "idle rd_cur ram_off 0 (\<lambda>i. c_nused (cacheBuf boot2 i)) (view rd_cur (fresh_on im) 0) (fresh_on im)"
proof -
  let ?s = "fresh_on im"
  have c: "cache_inv [1, 2] ?s" "cacheSize ?s = 2"
    using boot2_inv same_pool_inv [of boot2 ?s "[1, 2]"] by (auto simp: same_pool_def fresh_on_def)
  have e: "c_device (cacheBuf ?s i) = -1" "c_flags (cacheBuf ?s i) = 0" if "1 \<le> i" "i \<le> 2" for i
    using init_inv [OF boot2_init] that by (auto simp: fresh_on_def)
  have n: "c_nused (cacheBuf boot2 i) = 0" if "1 \<le> i" "i \<le> 2" for i
    using c that by (auto simp: cache_inv_def fresh_on_def)
  then have "rest (\<lambda>i. c_nused (cacheBuf boot2 i)) 2" by (auto simp: rest_def intro!: bexI [of _ 1])
  moreover have "coherent rd_cur [1, 2] ?s"
    using c e by (auto simp: coherent_def keys_unique_def lru_of_def clean_entry_def)
  moreover have "\<not> ram_off (dev ?s)" by (simp add: fresh_on_def ram_disk_def ram_off_def)
  moreover have "\<And>i. c_nused (cacheBuf ?s i) = c_nused (cacheBuf boot2 i)" by (simp add: fresh_on_def)
  ultimately show ?thesis using c(2) by (auto simp: idle_def)
qed

lemma fresh_on_hdr: "same_hdr (view rd_cur (fresh_on (hdr_image h)) 0 0) h"
proof -
  let ?s = "fresh_on (hdr_image h)"
  have "cached ?s 0 0 = None"
    using init_inv [OF boot2_init] boot2_inv by (auto simp: cached_def fresh_on_def find_None_iff)
  then have v: "view rd_cur ?s 0 0 = disk_hdr rd_cur (dev ?s) 0 0" by (simp add: view_def)
  show ?thesis
    unfolding v same_hdr_def disk_hdr_def
    by (auto simp: fresh_on_def ram_disk_def hdr_image_def unat_of_nat take_bit_nat_eq_self less_mult_imp_div_less)
qed

lemma fresh_on_chain: "header_ok 0 h \<Longrightarrow> h H_NEXT = 0 \<Longrightarrow> chain (view rd_cur (fresh_on (hdr_image h)) 0) (0 # [])"
  using header_ok_cong [OF fresh_on_hdr, of 0 h] same_hdr_nth [OF fresh_on_hdr, of H_NEXT h] by simp

lemmas fresh_idle = fresh_on_idle [of "hdr_image mbr_header", folded fresh_def]

lemmas fresh_mbr = fresh_on_hdr [of mbr_header, folded fresh_def]

lemma fresh_chain: "chain (view rd_cur fresh 0) (0 # [])"
  unfolding fresh_def by (rule fresh_on_chain [OF mbr_header_ok]) (simp add: mbr_header_def sealed_def)

theorem apaFindPartition_correct_witness:
  "\<exists>s'. apaFindPartition ram_ops 0 (\<lambda>_. 1) fresh = Some (None, - ENOENT, s')"
proof -
  have "\<not> is_named (\<lambda>_. 1) mbr_header"
    by (auto simp: is_named_def memcmp_eq_iff words_from_def mbr_header_def sealed_def intro!: exI [of _ 0])
  then have "find (\<lambda>l. is_named (\<lambda>_. 1) (view rd_cur fresh 0 l)) (0 # []) = None"
    using is_named_cong [OF fresh_mbr] by simp
  with apaFindPartition_correct [OF ram_laws ram_reads_ok _ fresh_idle fresh_chain, of "\<lambda>_. 1"]
  show ?thesis by auto
qed

text \<open>
  What \<open>apaFindPartition\<close> reports for a drive that fails: when the master boot record cannot be
  read it returns no partition and the error number 0, so its callers see success.
\<close>

theorem apaFindPartition_hides_error:
  assumes "apaCacheGetHeader A dv 0 APA_IO_MODE_READ s = (err, None, s')" "err \<noteq> 0"
  shows "apaFindPartition A dv ident s = Some (None, 0, s')"
  using assms by (simp add: apaFindPartition_def find_loop.simps)

theorem apaFindPartition_hides_error_witness:
  "\<exists>s'. apaCacheGetHeader deaf_ops 0 0 APA_IO_MODE_READ fresh = (- EIO, None, s') \<and>
     apaFindPartition deaf_ops 0 (\<lambda>_. 1) fresh = Some (None, 0, s')"
proof -
  have n: "find (\<lambda>i. c_sector (cacheBuf fresh i) = 0 \<and> c_device (cacheBuf fresh i) = 0) (slots (cacheSize fresh)) = None"
    using init_inv [OF boot2_init] boot2_inv by (auto simp: fresh_def fresh_on_def find_None_iff)
  have "\<not> free_list_empty fresh"
    using mounting_free by (simp add: fresh_def fresh_on_def mounting_def free_list_empty_def)
  then obtain s' where "apaCacheGetHeader deaf_ops 0 0 APA_IO_MODE_READ fresh = (- EIO, None, s')"
    using n by (simp add: apaCacheGetHeader_def Let_def apaCacheTransfer_def apaReadHeader_def deaf_ops_def
        split: prod.split)
  with apaFindPartition_hides_error [of deaf_ops 0 fresh "- EIO"] show ?thesis by simp
qed

text \<open>
  A sealed header survives the disk: written to a sector and read back, with power on, it is
  accepted and has the same words, for every header with the magic of its place.
\<close>

theorem header_roundtrip:
  assumes L: "disk_laws A cur poss off" and R: "reads_ok A off"
    and h: "h H_MAGIC = APA_MAGIC"
      "lba = APA_SECTOR_MBR \<longrightarrow> strncmp_eq (\<lambda>k. byte_at h (4 * H_MBR_MAGIC + k)) (str_byte apaMBRMagic) 32"
    and w: "apaWriteHeader A dv (sealed h) lba d = (0, d')"
  shows "\<exists>g d''. apaReadHeader A dv lba d' = (0, g, d'') \<and> same_hdr g (sealed h)"
proof -
  from w obtain d1 where w1: "io_write A dv (sealed h) lba 2 d = (True, d1)" "d1 = d'"
    by (auto simp: apaWriteHeader_def split: prod.splits if_splits)
  note wl = write_law [OF L w1(1)]
  have on: "\<not> off d'" using wl(3) w1(2) by simp
  obtain ok g d'' where r: "io_read A dv lba 2 d' = (ok, g, d'')" by (metis prod_cases3)
  have ok: ok using R on r unfolding reads_ok_def by (metis fst_conv)
  have "g i = sealed h i" if "i < 256" for i
  proof -
    have "g i = cur d' dv (lba + of_nat (i div 128)) (i mod 128)"
      using read_law(5) [OF L r ok, of i] that by simp
    also have "\<dots> = sect (sealed h) (i div 128) (i mod 128)"
    proof (cases "i < 128")
      case True
      then show ?thesis using wl(4) w1(2) by simp
    next
      case False
      then have "i div 128 = 1" using that by (simp add: div_nat_eqI)
      then show ?thesis using wl(4) w1(2) by simp
    qed
    finally show ?thesis using sect_join [OF that] by simp
  qed
  then have same: "same_hdr g (sealed h)" by (simp add: same_hdr_def)
  have "byte_at (sealed h) (4 * H_MBR_MAGIC + k) = byte_at h (4 * H_MBR_MAGIC + k)" for k
    by (auto simp: byte_at_def sealed_def div_eq_0_iff)
  then have "header_ok lba (sealed h)" using h sealed_sum by (simp add: header_ok_def sealed_def)
  then have "header_ok lba g" using header_ok_cong [OF same] by simp
  then have "apaReadHeader A dv lba d' = (0, g, d'')"
    using r ok by (auto simp: apaReadHeader_def header_ok_def)
  with same show ?thesis by blast
qed

theorem header_roundtrip_witness:
  "\<exists>g d''. apaReadHeader ram_ops 0 0x1000
       (snd (apaWriteHeader ram_ops 0 (sealed (\<lambda>_. APA_MAGIC)) 0x1000 (ram_disk void_image 9))) = (0, g, d'') \<and>
     same_hdr g (sealed (\<lambda>_. APA_MAGIC))"
proof -
  have "apaWriteHeader ram_ops 0 (sealed (\<lambda>_. APA_MAGIC)) 0x1000 (ram_disk void_image 9) =
      (0, snd (apaWriteHeader ram_ops 0 (sealed (\<lambda>_. APA_MAGIC)) 0x1000 (ram_disk void_image 9)))"
    by (simp add: apaWriteHeader_def ram_ops_def ram_write_def ram_disk_def)
  from header_roundtrip [OF ram_laws ram_reads_ok _ _ this] show ?thesis by simp
qed

text \<open>What the walk of \<open>apaGetFreeSectors\<close> adds up for each header.\<close>

definition add_part :: "apa_header_t \<Rightarrow> u32 \<times> u32 \<Rightarrow> u32 \<times> u32" where
  "add_part h fs = (if h_type h = 0 then apaCalculateFreeSpace (fst fs) (h H_LENGTH) else fst fs,
     snd fs + h H_LENGTH)"

lemma used_loop_walk:
  assumes L: "disk_laws A cur poss off" and R: "reads_ok A off" and dv: "dv \<noteq> -1"
  shows "chain v (l # ls) \<Longrightarrow> holding cur off dv n0 v l c s \<Longrightarrow>
     \<exists>s'. used_loop A c 0 free sectors s =
       Some (fst (fold (\<lambda>l. add_part (v l)) (l # ls) (free, sectors)),
             snd (fold (\<lambda>l. add_part (v l)) (l # ls) (free, sectors)), 0, s') \<and> idle cur off dv n0 v s'"
proof (induction ls arbitrary: l c s free sectors)
  case Nil
  note H = Nil.prems(2)
  note h = holding_hdr [OF H dv]
  have e: "h_type (hdr s c) = h_type (v l)" "hdr s c H_LENGTH = v l H_LENGTH"
    using same_hdr_nth [OF h] by (auto simp: h_type_def)
  show ?case using next_last [OF H dv, of A 0] Nil.prems(1) holding_free [OF H] e
    by (subst used_loop.simps) (auto simp: Let_def add_part_def)
next
  case (Cons l' ls)
  note H = Cons.prems(2)
  note h = holding_hdr [OF H dv]
  have e: "h_type (hdr s c) = h_type (v l)" "hdr s c H_LENGTH = v l H_LENGTH"
    using same_hdr_nth [OF h] by (auto simp: h_type_def)
  from Cons.prems(1) have ch: "v l H_NEXT = l'" "l' \<noteq> 0" "v l' H_PREV = v l H_START" "header_ok l' (v l')"
    "chain v (l' # ls)" by (auto, cases ls) auto
  from next_more [OF L R H dv ch(1-4), of 0] obtain c' s' where
    g: "apaGetNextHeader A c 0 s = Some (Some c', 0, s')" "holding cur off dv n0 v l' c' s'" by blast
  have "used_loop A c 0 free sectors s = used_loop A c' 0 (fst (add_part (v l) (free, sectors)))
      (snd (add_part (v l) (free, sectors))) s'"
    using g(1) e by (subst used_loop.simps) (auto simp: Let_def add_part_def)
  with Cons.IH [OF ch(5) g(2), of "fst (add_part (v l) (free, sectors))" "snd (add_part (v l) (free, sectors))"]
  show ?case by simp
qed

text \<open>
  (C12) On a proper list of partitions the free space computation ends: it adds up the headers of
  the list in their order and then estimates what can still be made behind them.
\<close>

theorem apaGetFreeSectors_total:
  assumes "disk_laws A cur poss off" "reads_ok A off" "dv \<noteq> -1"
    and "idle cur off dv n0 v s" and "chain v (0 # ls)"
  shows "\<exists>s'. apaGetFreeSectors A dv info s = Some (0,
     (case fold (\<lambda>l. add_part (v l)) (0 # ls) (0, 0) of (free, sectors) \<Rightarrow>
        fst (room_loop (totalLBA (info dv)) (partitionMaxSize (info dv)) free sectors)), s') \<and>
     idle cur off dv n0 v s'"
proof -
  from assms(5) have "header_ok 0 (v 0)" by (cases ls) auto
  from idle_get [OF assms(1,2,4,3) this] obtain c s1 where
    g: "apaCacheGetHeader A dv 0 APA_IO_MODE_READ s = (0, Some c, s1)" "holding cur off dv n0 v 0 c s1"
    by blast
  from used_loop_walk [OF assms(1-3,5) g(2), of 0 0] g(1) show ?thesis
    by (auto simp: apaGetFreeSectors_def case_prod_unfold)
qed

theorem apaGetFreeSectors_total_witness:
  "\<exists>f s'. apaGetFreeSectors ram_ops 0
     (\<lambda>_. \<lparr>totalLBA = 0x1000000, partitionMaxSize = 0x80000, format = 2, status = 0\<rparr>) fresh = Some (0, f, s')"
  using apaGetFreeSectors_total [OF ram_laws ram_reads_ok _ fresh_idle fresh_chain] by fastforce

end
