(* ===== verification/HddOpen.thy ===== *)
theory HddOpen
  imports HddFiles ApaWalk
begin

text \<open>
  Opening partitions through the hard disk driver: what a successful open finds, and that an open
  partition is neither opened again nor removed.
\<close>

section \<open>Open partitions are not opened again\<close>

text \<open>What the walk of \<open>apaOpen\<close> stops at has the name that was looked for.\<close>

definition walk_found :: "words option \<Rightarrow> (nat option \<times> int \<times> u32 \<times> (nat \<Rightarrow> u32) \<times> 'd apa_state) \<Rightarrow> bool" where
  "walk_found ident y \<longleftrightarrow> (case (ident, y) of (Some i, (Some c, _, _, _, s)) \<Rightarrow> memcmp_eq (words_from (hdr s c) H_ID) i 8 | _ \<Rightarrow> True)"

lemma open_loop_found:
  fixes A :: "'d ata_ops"
  assumes "open_loop A ident p rv sec eb s = Some y"
  shows "walk_found ident y"
proof (rule open_loop.raw_induct [where P = "\<lambda>A ident p rv sec eb s y. walk_found ident y", OF _ assms])
  fix f :: "'d ata_ops \<Rightarrow> words option \<Rightarrow> nat option \<Rightarrow> int \<Rightarrow> u32 \<Rightarrow> (nat \<Rightarrow> u32) \<Rightarrow> 'd apa_state \<Rightarrow>
      (nat option \<times> int \<times> u32 \<times> (nat \<Rightarrow> u32) \<times> 'd apa_state) option"
    and A ident p rv sec eb s y
  assume ih: "\<And>A ident p rv sec eb s y. f A ident p rv sec eb s = Some y \<Longrightarrow> walk_found ident y"
    and step: "(case p of None \<Rightarrow> Some (None, rv, sec, eb, s)
      | Some c \<Rightarrow>
        if ident \<noteq> None \<and> h_flags (hdr s c) AND APA_FLAG_SUB = 0 \<and> memcmp_eq (words_from (hdr s c) H_ID) (the ident) 8
        then Some (Some c, rv, c_sector (cacheBuf s c), eb, s)
        else Option.bind (apaGetNextHeader A c rv s) (\<lambda>(p, rv, s').
               f A ident p rv (c_sector (cacheBuf s c)) (apaAddEmptyBlock (hdr s c) eb) s')) = Some y"
  show "walk_found ident y"
  proof (cases p)
    case None
    with step show ?thesis by (auto simp: walk_found_def split: option.splits)
  next
    case p: (Some c)
    show ?thesis
    proof (cases "ident \<noteq> None \<and> h_flags (hdr s c) AND APA_FLAG_SUB = 0 \<and> memcmp_eq (words_from (hdr s c) H_ID) (the ident) 8")
      case True
      with step p show ?thesis by (auto simp: walk_found_def)
    next
      case False
      with step p obtain p' rv' s' where
        "f A ident p' rv' (c_sector (cacheBuf s c)) (apaAddEmptyBlock (hdr s c) eb) s' = Some y"
        by (cases "apaGetNextHeader A c rv s") auto
      then show ?thesis by (rule ih)
    qed
  qed
qed

lemma open_name:
  assumes "apaOpen A d k params flags s = Some (0, t)" "flags AND O_CREAT = 0" "slot_at k s = Some slot"
  shows "\<exists>a h. t = upd_slot k (fill_slot h) (s\<lparr>apa := a\<rparr>) \<and> memcmp_eq (words_from h H_ID) (pr_id params) 8"
proof -
  obtain rv0 p0 a0 where g: "apaCacheGetHeader A d 0 APA_IO_MODE_READ (apa s) = (rv0, p0, a0)" by (metis prod_cases3)
  from assms(1) g obtain p rv sec eb a where w: "open_loop A (Some (pr_id params)) p0 rv0 0 (\<lambda>_. 0) a0 = Some (p, rv, sec, eb, a)"
    by (cases "open_loop A (Some (pr_id params)) p0 rv0 0 (\<lambda>_. 0) a0") (auto simp: apaOpen_def)
  from assms(1,2) g w obtain c where c: "p = Some c" "rv = 0"
    and t: "t = (upd_slot k (fill_slot (hdr a c)) (s\<lparr>apa := a\<rparr>))\<lparr>apa := apaCacheFree (Some c) a\<rparr>"
    by (auto simp: apaOpen_def Let_def upd_slot_def split: if_splits option.splits)
  have "memcmp_eq (words_from (hdr a c) H_ID) (pr_id params) 8" using open_loop_found [OF w] c by (simp add: walk_found_def)
  moreover have "t = upd_slot k (fill_slot (hdr a c)) (s\<lparr>apa := apaCacheFree (Some c) a\<rparr>)" by (simp add: t upd_slot_def)
  ultimately show ?thesis by blast
qed

lemma fill_slot_id: "memcmp_eq (words_from h H_ID) i 8 \<Longrightarrow> memcmp_eq (sl_id (fill_slot h sl)) i 8"
  by (simp add: fill_slot_def memcmp_eq_iff copy_words_def)

definition holds_name :: "'d hdd_state \<Rightarrow> words \<Rightarrow> bool" where
  "holds_name s i \<longleftrightarrow> fioSema s \<and> 0 < apaMaxOpen s \<and> (\<exists>sl. hddFileSlots s = Some sl \<and> id_in_use i sl (apaMaxOpen s))"

lemma name_busy:
  assumes "holds_name s (pr_id q)" "fioGetInput name = Inr q"
  shows "hddRemove A g name s = Some (- EBUSY, s)"
    and "hf_unit g < 2 \<Longrightarrow> hdd_dev (hdd_unit g) s = Some dv \<Longrightarrow> status dv = 0 \<Longrightarrow> hf_mode g AND O_DIROPEN = 0 \<Longrightarrow>
      hddOpen A junk g name flags s = Some (- EBUSY, g, s)"
  using assms by (auto simp: holds_name_def hddRemove_def hddOpen_def WaitSema_def SignalSema_def apaRemove_def getFileSlot_def)

lemma slot_error: "getFileSlot i s = Some (Inl e) \<Longrightarrow> e < 0"
  by (auto simp: getFileSlot_def split: if_splits Option.bind_splits option.splits)


section \<open>Opening a partition\<close>

lemma open_loop_walk:
  assumes L: "disk_laws A cur poss off" and R: "reads_ok A off" and dv: "dv \<noteq> -1"
  shows "chain v (l # ls) \<Longrightarrow> holding cur off dv n0 v l c s \<Longrightarrow>
     \<exists>p sec eb' s'. open_loop A (Some ident) (Some c) 0 sec0 eb s = Some (p, 0, sec, eb', s') \<and>
       (case find (\<lambda>l. is_named ident (v l)) (l # ls) of
          Some l' \<Rightarrow> \<exists>c'. p = Some c' \<and> holding cur off dv n0 v l' c' s'
        | None \<Rightarrow> p = None \<and> idle cur off dv n0 v s')"
proof (induction ls arbitrary: l c s sec0 eb)
  case Nil
  note H = Nil.prems(2)
  have nm: "is_named ident (hdr s c) = is_named ident (v l)" by (rule is_named_cong [OF holding_hdr [OF H dv]])
  show ?case
  proof (cases "is_named ident (v l)")
    case True
    with nm H show ?thesis by (subst open_loop.simps) (auto simp: is_named_def)
  next
    case False
    with nm next_last [OF H dv, of A 0] Nil.prems(1) holding_free [OF H] show ?thesis
      by (subst open_loop.simps) (auto simp: is_named_def open_loop.simps)
  qed
next
  case (Cons l' ls)
  note H = Cons.prems(2)
  have nm: "is_named ident (hdr s c) = is_named ident (v l)" by (rule is_named_cong [OF holding_hdr [OF H dv]])
  show ?case
  proof (cases "is_named ident (v l)")
    case True
    with nm H show ?thesis by (subst open_loop.simps) (auto simp: is_named_def)
  next
    case False
    from Cons.prems(1) have ch: "v l H_NEXT = l'" "l' \<noteq> 0" "v l' H_PREV = v l H_START" "header_ok l' (v l')"
      "chain v (l' # ls)" by (auto, cases ls) auto
    from next_more [OF L R H dv ch(1-4), of 0] obtain c' s' where
      g: "apaGetNextHeader A c 0 s = Some (Some c', 0, s')" "holding cur off dv n0 v l' c' s'" by blast
    have "open_loop A (Some ident) (Some c) 0 sec0 eb s =
        open_loop A (Some ident) (Some c') 0 (c_sector (cacheBuf s c)) (apaAddEmptyBlock (hdr s c) eb) s'"
      using False nm g(1) by (subst open_loop.simps) (auto simp: is_named_def)
    with Cons.IH [OF ch(5) g(2)] False show ?thesis by simp
  qed
qed

lemma fill_slot_cong:
  assumes "same_hdr h g"
  shows "fill_slot h sl = fill_slot g sl"
proof -
  note n = same_hdr_nth [OF assms]
  have "h (H_SUBS + 2 * (i - 1)) = g (H_SUBS + 2 * (i - 1))" "h (H_SUBS + 2 * (i - 1) + 1) = g (H_SUBS + 2 * (i - 1) + 1)"
    if "i \<noteq> 0" "i \<le> 64" for i using that by (auto intro!: n)
  moreover have "copy_words w 0 (words_from h H_ID) 8 = copy_words w 0 (words_from g H_ID) 8" for w
    using n by (auto simp: fun_eq_iff copy_words_def words_from_def)
  moreover have "h_type h = h_type g" "h H_START = g H_START" "h H_LENGTH = g H_LENGTH" "h H_NSUB = g H_NSUB"
    using n by (simp_all add: h_type_def)
  ultimately show ?thesis by (auto simp: fill_slot_def fun_eq_iff)
qed

text \<open>The password for all accesses opens a partition in every mode, the one for reading only without writing.\<close>

definition pass_opens :: "apa_params_t \<Rightarrow> u32 \<Rightarrow> apa_header_t \<Rightarrow> bool" where
  "pass_opens p flags h \<longleftrightarrow> memcmp_eq (words_from h H_FPWD) (pr_fpwd p) 2 \<or>
     flags AND O_WRONLY = 0 \<and> memcmp_eq (words_from h H_RPWD) (pr_rpwd p) 2"

lemma pass_cmp: "apaPassCmp a b = (if memcmp_eq a b 2 then 0 else - EACCES)"
  by (auto simp: apaPassCmp_def memcmp_eq_iff less_2_cases_iff)

lemma pass_opens_cong: "same_hdr h g \<Longrightarrow> pass_opens p flags h = pass_opens p flags g"
  by (simp add: pass_opens_def memcmp_eq_iff words_from_def same_hdr_nth)

lemma apaOpen_walk:
  assumes "disk_laws A cur poss off" "reads_ok A off" "d \<noteq> -1" "idle cur off d n0 v (apa s)" "chain v (0 # ls)"
    and "flags AND O_CREAT = 0"
  shows "\<exists>r t. apaOpen A d k p flags s = Some (r, t) \<and> idle cur off d n0 v (apa t) \<and>
     (case find (\<lambda>l. is_named (pr_id p) (v l)) (0 # ls) of
        Some l \<Rightarrow> r = (if pass_opens p flags (v l) then 0 else - EACCES) \<and> t = upd_slot k (fill_slot (v l)) (s\<lparr>apa := apa t\<rparr>)
      | None \<Rightarrow> r = - ENOENT \<and> t = s\<lparr>apa := apa t\<rparr>)"
proof -
  from assms(5) have "header_ok 0 (v 0)" by (cases ls) auto
  from idle_get [OF assms(1,2,4,3) this] obtain c s1 where
    g: "apaCacheGetHeader A d 0 APA_IO_MODE_READ (apa s) = (0, Some c, s1)" "holding cur off d n0 v 0 c s1" by blast
  from open_loop_walk [OF assms(1-3,5) g(2), of "pr_id p" 0 "\<lambda>_. 0"] obtain q sec eb a where
    w: "open_loop A (Some (pr_id p)) (Some c) 0 0 (\<lambda>_. 0) s1 = Some (q, 0, sec, eb, a)"
      "case find (\<lambda>l. is_named (pr_id p) (v l)) (0 # ls) of Some l \<Rightarrow> \<exists>c'. q = Some c' \<and> holding cur off d n0 v l c' a
        | None \<Rightarrow> q = None \<and> idle cur off d n0 v a" by blast
  show ?thesis
  proof (cases "find (\<lambda>l. is_named (pr_id p) (v l)) (0 # ls)")
    case None
    with w have "apaOpen A d k p flags s = Some (- ENOENT, s\<lparr>apa := a\<rparr>)" "idle cur off d n0 v a"
      using g(1) assms(6) by (simp_all add: apaOpen_def)
    with None show ?thesis by (auto simp del: find.simps)
  next
    case (Some l)
    with w(2) obtain c' where c': "q = Some c'" "holding cur off d n0 v l c' a" by (auto simp del: find.simps)
    note h = holding_hdr [OF c'(2) assms(3)]
    define t where "t = (upd_slot k (fill_slot (v l)) s)\<lparr>apa := apaCacheFree (Some c') a\<rparr>"
    have "apaOpen A d k p flags s = Some (if pass_opens p flags (hdr a c') then 0 else - EACCES, t)"
      using g(1) w(1) c'(1) assms(6) fill_slot_cong [OF h]
      by (auto simp: apaOpen_def Let_def pass_cmp pass_opens_def t_def upd_slot_def)
    moreover have "idle cur off d n0 v (apa t)" using holding_free [OF c'(2)] by (simp add: t_def)
    moreover have "t = upd_slot k (fill_slot (v l)) (s\<lparr>apa := apa t\<rparr>)" by (simp add: t_def upd_slot_def)
    ultimately show ?thesis using Some pass_opens_cong [OF h] by (auto simp del: find.simps)
  qed
qed

lemma hddOpen_apaOpen:
  assumes "hdd_dev (hdd_unit f) s = Some dv" "status dv = 0" "hf_unit f < 2" "fioSema s" "hf_mode f AND O_DIROPEN = 0"
    and "fioGetInput name = Inr p" "getFileSlot (pr_id p) s = Some (Inr k)"
    and "apaOpen A (hdd_unit f) k p flags (s\<lparr>fioSema := False\<rparr>) = Some (r, t)"
  shows "hddOpen A junk f name flags s = Some (r, if r = 0 then f\<lparr>hf_privdata := Some k\<rparr> else f,
     SignalSema (if r = 0 then upd_slot k (sl_f_update (\<lambda>_. Some (f\<lparr>hf_privdata := Some k\<rparr>))) t else t))"
proof -
  have "getFileSlot (pr_id p) (s\<lparr>fioSema := False\<rparr>) = getFileSlot (pr_id p) s"
    by (simp add: getFileSlot_def cong: if_cong)
  with assms show ?thesis by (simp add: hddOpen_def WaitSema_def Let_def)
qed

text \<open>
  (C15) Opening an existing partition is right. On a working drive with a proper list of partitions, and
  with a name that is not open, the call ends. It reports that there is no such partition, or that the
  passwords do not fit the mode, or the slot that was free holds the place of the first main partition
  of that name and of its sub-partitions. What the cache shows of the drive is as before, and the
  semaphore is free again.
\<close>

theorem hddOpen_correct:
  assumes "disk_laws A cur poss off" "reads_ok A off" "idle cur off (hdd_unit f) n0 v (apa s)" "chain v (0 # ls)"
    and "hdd_dev (hdd_unit f) s = Some dv" "status dv = 0" "hf_unit f < 2" "fioSema s"
    and "hf_mode f AND O_DIROPEN = 0" "flags AND O_CREAT = 0"
    and "fioGetInput name = Inr p" "getFileSlot (pr_id p) s = Some (Inr k)" "slot_at k s = Some slot"
  shows "\<exists>r f' t. hddOpen A junk f name flags s = Some (r, f', t) \<and> idle cur off (hdd_unit f) n0 v (apa t) \<and> fioSema t \<and>
     (case find (\<lambda>l. is_named (pr_id p) (v l)) (0 # ls) of
        None \<Rightarrow> r = - ENOENT \<and> f' = f
      | Some l \<Rightarrow>
          if pass_opens p flags (v l)
          then r = 0 \<and> f' = f\<lparr>hf_privdata := Some k\<rparr> \<and> slot_at k t = Some ((fill_slot (v l) slot)\<lparr>sl_f := Some f'\<rparr>)
          else r = - EACCES \<and> f' = f)"
proof -
  define s1 where "s1 = s\<lparr>fioSema := False\<rparr>"
  have "hdd_unit f < 2" using assms(5) by (auto simp: hdd_dev_def split: if_splits)
  then have d: "hdd_unit f \<noteq> -1" by auto
  have "idle cur off (hdd_unit f) n0 v (apa s1)" using assms(3) by (simp add: s1_def)
  from apaOpen_walk [OF assms(1,2) d this assms(4,10), of k p] obtain r t where
    o: "apaOpen A (hdd_unit f) k p flags s1 = Some (r, t)" "idle cur off (hdd_unit f) n0 v (apa t)"
      "case find (\<lambda>l. is_named (pr_id p) (v l)) (0 # ls) of
        Some l \<Rightarrow> r = (if pass_opens p flags (v l) then 0 else - EACCES) \<and> t = upd_slot k (fill_slot (v l)) (s1\<lparr>apa := apa t\<rparr>)
      | None \<Rightarrow> r = - ENOENT \<and> t = s1\<lparr>apa := apa t\<rparr>" by blast
  let ?f = "f\<lparr>hf_privdata := Some k\<rparr>"
  define u where "u = SignalSema (if r = 0 then upd_slot k (sl_f_update (\<lambda>_. Some ?f)) t else t)"
  have "hddOpen A junk f name flags s = Some (r, if r = 0 then ?f else f, u)"
    using hddOpen_apaOpen [OF assms(5-9,11,12)] o(1) by (simp add: s1_def u_def)
  moreover have "idle cur off (hdd_unit f) n0 v (apa u)" "fioSema u" using o(2) by (simp_all add: u_def SignalSema_def upd_slot_def)
  moreover have "slot_at k u = Some ((fill_slot (v l) slot)\<lparr>sl_f := Some ?f\<rparr>)"
    if "r = 0" "t = upd_slot k (fill_slot (v l)) (s1\<lparr>apa := apa t\<rparr>)" for l
    using assms(13) that(1) by (subst u_def, subst that(2)) (auto simp: slot_at_def SignalSema_def upd_slot_def s1_def split: Option.bind_splits)
  ultimately show ?thesis using o(3)
    by (cases "find (\<lambda>l. is_named (pr_id p) (v l)) (0 # ls)") (auto simp del: find.simps)
qed

section \<open>A drive just formatted\<close>

text \<open>A drive with the master boot record that \<open>hddFormat\<close> writes, and the driver with room for one file.\<close>

definition hdd_demo :: "ram hdd_state" where
  "hdd_demo = \<lparr>apa = fresh_on (hdr_image (sealed new_mbr_header)), hddFileSlots = Some (\<lambda>_. empty_slot), apaMaxOpen = 1,
     hddDevices = (\<lambda>_. \<lparr>totalLBA = 0x1000000, partitionMaxSize = 0x80000, format = 2, status = 0\<rparr>), fioSema = True\<rparr>"

definition file_demo :: hdd_file where
  "file_demo = \<lparr>hf_unit = 0, hf_mode = 1, hf_privdata = None\<rparr>"

definition params_demo :: apa_params_t where
  "params_demo = no_params\<lparr>pr_id := str_words ''__mbr''\<rparr>"

lemma demo_input: "fioGetInput ''__mbr'' = Inr params_demo"
  by (simp add: fioGetInput_def fioInputBreaker_def Let_def params_demo_def)

lemma demo_header:
  "header_ok 0 (sealed new_mbr_header)" "sealed new_mbr_header H_NEXT = 0" "is_named (str_words ''__mbr'') (sealed new_mbr_header)"
  "sealed new_mbr_header H_LENGTH = 0x40000"
proof -
  show "header_ok 0 (sealed new_mbr_header)"
    by (rule sealed_mbr_ok) (simp_all add: new_mbr_header_def Let_def copy_words_def str_words_def)
  show "sealed new_mbr_header H_NEXT = 0" "sealed new_mbr_header H_LENGTH = 0x40000"
    by (simp_all add: new_mbr_header_def Let_def copy_words_def sealed_def)
  show "is_named (str_words ''__mbr'') (sealed new_mbr_header)"
    by (auto simp: is_named_def h_flags_def type_flags_def new_mbr_header_def Let_def copy_words_def sealed_def memcmp_eq_iff words_from_def)
qed

abbreviation (input) view_demo :: "u32 \<Rightarrow> apa_header_t" where "view_demo \<equiv> view rd_cur (apa hdd_demo) 0"
abbreviation (input) uses_demo :: "nat \<Rightarrow> u16" where "uses_demo \<equiv> \<lambda>i. c_nused (cacheBuf boot2 i)"

lemma demo_idle: "idle rd_cur ram_off 0 uses_demo view_demo (apa hdd_demo)"
  by (simp add: hdd_demo_def fresh_on_idle)

lemma demo_chain: "chain view_demo (0 # [])"
  using fresh_on_chain [OF demo_header(1,2)] by (simp add: hdd_demo_def)

lemma demo_view: "same_hdr (view_demo 0) (sealed new_mbr_header)"
  by (simp add: hdd_demo_def fresh_on_hdr)

lemma demo_found: "find (\<lambda>l. is_named (pr_id params_demo) (view_demo l)) (0 # []) = Some 0"
  using demo_header(3) is_named_cong [OF demo_view] by (simp add: params_demo_def)

lemma demo_opens: "pass_opens params_demo flags (view_demo 0)"
proof -
  have "pass_opens params_demo flags (sealed new_mbr_header)"
    by (simp add: pass_opens_def params_demo_def no_params_def new_mbr_header_def Let_def copy_words_def sealed_def
        memcmp_eq_iff words_from_def)
  then show ?thesis using pass_opens_cong [OF demo_view] by blast
qed

lemma demo_slot: "getFileSlot i hdd_demo = Some (Inr 0)" "slot_at 0 hdd_demo = Some empty_slot"
  by (simp_all add: getFileSlot_def hdd_demo_def id_in_use_def empty_slot_def slot_at_def)

lemma demo_dev: "hdd_dev (hdd_unit file_demo) hdd_demo = Some \<lparr>totalLBA = 0x1000000, partitionMaxSize = 0x80000, format = 2, status = 0\<rparr>"
  "hdd_unit file_demo = 0" "hf_unit file_demo < 2" "hf_mode file_demo AND O_DIROPEN = 0" "fioSema hdd_demo"
  by (simp_all add: hdd_dev_def hdd_unit_def file_demo_def hdd_demo_def)

theorem hddOpen_correct_witness:
  "\<exists>t slot. hddOpen ram_ops (\<lambda>_. 0) file_demo ''__mbr'' 1 hdd_demo = Some (0, file_demo\<lparr>hf_privdata := Some 0\<rparr>, t) \<and>
     slot_at 0 t = Some slot \<and> sl_start slot 0 = 0 \<and> sl_length slot 0 = 0x40000"
proof -
  have f: "(1 :: u32) AND O_CREAT = 0" by simp
  have "fill_slot (view_demo 0) empty_slot = fill_slot (sealed new_mbr_header) empty_slot" by (rule fill_slot_cong [OF demo_view])
  moreover have "sealed new_mbr_header H_START = 0" by (simp add: new_mbr_header_def Let_def copy_words_def sealed_def)
  ultimately show ?thesis
    using hddOpen_correct [OF ram_laws ram_reads_ok _ demo_chain demo_dev(1) _ demo_dev(3,5,4) f demo_input demo_slot, of uses_demo "\<lambda>_. 0"]
      demo_idle demo_dev(2) demo_found demo_opens demo_header(4)
    by (auto simp: fill_slot_def simp del: find.simps)
qed

lemma demo_open: "\<exists>t. hddOpen ram_ops (\<lambda>_. 0) file_demo ''__mbr'' 1 hdd_demo = Some (0, file_demo\<lparr>hf_privdata := Some 0\<rparr>, t)"
proof -
  have "idle rd_cur ram_off 0 uses_demo view_demo (apa (hdd_demo\<lparr>fioSema := False\<rparr>))" using demo_idle by simp
  from apaOpen_walk [OF ram_laws ram_reads_ok _ this demo_chain, of 1 0 params_demo] demo_found demo_opens
  obtain t where "apaOpen ram_ops (hdd_unit file_demo) 0 params_demo 1 (hdd_demo\<lparr>fioSema := False\<rparr>) = Some (0, t)"
    by (auto simp: demo_dev(2) simp del: find.simps)
  from hddOpen_apaOpen [OF demo_dev(1) _ demo_dev(3,5,4) demo_input demo_slot(1) this] show ?thesis by simp
qed


end
