(* ===== verification/IopAlloc.thy ===== *)
theory IopAlloc
  imports Prelude
begin

text \<open>
  The heap of the I/O processor, iop/system/alloc/src/alloc.c. Memory is a byte array over 32-bit
  addresses; the headers of the blocks live in it, in front of the memory they describe, and are
  read and written as little-endian words. The null pointer is 0. The semaphore that guards the heap
  is \<open>None\<close> before it is created and otherwise says whether it is taken; waiting for a taken semaphore
  never returns, which is \<open>None\<close> as the result of the call.
\<close>

section \<open>Memory\<close>

type_synonym mem = "u32 \<Rightarrow> u8"

definition load32 :: "mem \<Rightarrow> u32 \<Rightarrow> u32" where
  "load32 m a = word_of_bytes (\<lambda>k. m (a + of_nat k)) 0"

definition store32 :: "mem \<Rightarrow> u32 \<Rightarrow> u32 \<Rightarrow> mem" where
  "store32 m a v = m(a := ucast v, a + 1 := ucast (drop_bit 8 v), a + 2 := ucast (drop_bit 16 v),
     a + 3 := ucast (drop_bit 24 v))"

section \<open>State\<close>

text \<open>\<open>heap_mem_header_t\<close>: the words at offsets 0, 4, 8 and 12.\<close>

definition m_ptr :: "mem \<Rightarrow> u32 \<Rightarrow> u32" where "m_ptr m a = load32 m a"
definition m_size :: "mem \<Rightarrow> u32 \<Rightarrow> u32" where "m_size m a = load32 m (a + 4)"
definition m_prev :: "mem \<Rightarrow> u32 \<Rightarrow> u32" where "m_prev m a = load32 m (a + 8)"
definition m_next :: "mem \<Rightarrow> u32 \<Rightarrow> u32" where "m_next m a = load32 m (a + 12)"

definition set_ptr :: "u32 \<Rightarrow> u32 \<Rightarrow> mem \<Rightarrow> mem" where "set_ptr a v m = store32 m a v"
definition set_size :: "u32 \<Rightarrow> u32 \<Rightarrow> mem \<Rightarrow> mem" where "set_size a v m = store32 m (a + 4) v"
definition set_prev :: "u32 \<Rightarrow> u32 \<Rightarrow> mem \<Rightarrow> mem" where "set_prev a v m = store32 m (a + 8) v"
definition set_next :: "u32 \<Rightarrow> u32 \<Rightarrow> mem \<Rightarrow> mem" where "set_next a v m = store32 m (a + 12) v"

record alloc_state =
  alloc_sema :: "bool option"
  heap_size :: u32
  heap_start :: u32
  heap_end :: u32
  heap_ptr :: u32
  heap_base :: u32
  heap_head :: u32
  heap_tail :: u32
  amem :: mem

definition upd_mem :: "(mem \<Rightarrow> mem) \<Rightarrow> alloc_state \<Rightarrow> alloc_state" where
  "upd_mem f s = s\<lparr>amem := f (amem s)\<rparr>"

definition alloc_lock :: "alloc_state \<Rightarrow> alloc_state option" where
  "alloc_lock s = (case alloc_sema s of
     None \<Rightarrow> Some s | Some True \<Rightarrow> None | Some False \<Rightarrow> Some (s\<lparr>alloc_sema := Some True\<rparr>))"

definition alloc_unlock :: "alloc_state \<Rightarrow> alloc_state" where
  "alloc_unlock s = (case alloc_sema s of None \<Rightarrow> s | Some _ \<Rightarrow> s\<lparr>alloc_sema := Some False\<rparr>)"

text \<open>
  The module entry: the result of registering the library, the size in the arguments if there is
  one, the block the system gives for a size (0 when it has none), the result of \<open>CreateSema\<close>.
\<close>

definition alloc_start ::
    "int \<Rightarrow> u32 option \<Rightarrow> (u32 \<Rightarrow> u32) \<Rightarrow> int \<Rightarrow> alloc_state \<Rightarrow> int \<times> alloc_state" where
  "alloc_start reg arg sysmem sema s =
     (if reg \<noteq> 0 then (1, s)
      else
        let s = (case arg of None \<Rightarrow> s | Some n \<Rightarrow> s\<lparr>heap_size := n\<rparr>);
            s = s\<lparr>heap_start := sysmem (heap_size s)\<rparr>
        in if heap_start s = 0 then (-1, s)
           else (0, s\<lparr>heap_end := heap_start s + heap_size s, heap_ptr := heap_start s,
                      alloc_sema := (if sema < 0 then None else Some False)\<rparr>))"

definition ALIGN :: "u32 \<Rightarrow> u32 \<Rightarrow> u32" where
  "ALIGN x align = (x + (align - 1)) AND NOT (align - 1)"

abbreviation (input) DEFAULT_ALIGNMENT :: u32 where "DEFAULT_ALIGNMENT \<equiv> 16"
abbreviation (input) HEADER :: u32 where "HEADER \<equiv> 16"

text \<open>\<open>(void *)-1\<close>, the failure of \<open>alloc_sbrk\<close>, is -1.\<close>

definition alloc_sbrk :: "u32 \<Rightarrow> alloc_state \<Rightarrow> u32 \<times> alloc_state" where
  "alloc_sbrk increment s =
     (if increment = 0 then (heap_ptr s, s)
      else
        let mp = heap_ptr s + increment in
        if mp \<le> heap_end s then (heap_ptr s, s\<lparr>heap_ptr := mp\<rparr>) else (-1, s))"

section \<open>Allocation\<close>

partial_function (option) heap_mem_fit :: "mem \<Rightarrow> u32 \<Rightarrow> u32 \<Rightarrow> u32 option" where
  "heap_mem_fit m prev_mem sz =
     (if prev_mem = 0 then Some 0
      else if m_next m prev_mem \<noteq> 0 \<and>
              sz \<le> m_next m prev_mem - (m_ptr m prev_mem + m_size m prev_mem)
      then Some prev_mem
      else heap_mem_fit m (m_next m prev_mem) sz)"

definition put_header :: "u32 \<Rightarrow> u32 \<Rightarrow> u32 \<Rightarrow> u32 \<Rightarrow> alloc_state \<Rightarrow> alloc_state" where
  "put_header a sz prev nxt s =
     upd_mem (set_next a nxt) (upd_mem (set_prev a prev) (upd_mem (set_size a sz)
       (upd_mem (set_ptr a (a + HEADER)) s)))"

definition mem_sz_of :: "u32 \<Rightarrow> u32" where
  "mem_sz_of sz = (let m = sz + HEADER in
     if m AND (DEFAULT_ALIGNMENT - 1) \<noteq> 0 then ALIGN m DEFAULT_ALIGNMENT else m)"

text \<open>The four places a block can come from, in the order the code tries them.\<close>

definition malloc_first :: "u32 \<Rightarrow> alloc_state \<Rightarrow> u32 \<times> alloc_state" where
  "malloc_first mem_sz s =
     (let s = (if heap_base s = 0
               then let s = snd (alloc_sbrk (fst (alloc_sbrk 0 s) AND (DEFAULT_ALIGNMENT - 1)) s)
                    in s\<lparr>heap_base := fst (alloc_sbrk 0 s)\<rparr>
               else s)
      in case alloc_sbrk mem_sz s of (mem_ptr, s) \<Rightarrow>
           if mem_ptr = -1 then (0, s)
           else (mem_ptr + HEADER, alloc_unlock ((put_header mem_ptr (mem_sz - HEADER) 0 0 s)
                  \<lparr>heap_head := mem_ptr, heap_tail := mem_ptr\<rparr>)))"

definition malloc_bottom :: "u32 \<Rightarrow> alloc_state \<Rightarrow> u32 \<times> alloc_state" where
  "malloc_bottom mem_sz s =
     (let new_mem = heap_base s;
          s = put_header new_mem (mem_sz - HEADER) 0 (heap_head s) s;
          s = upd_mem (set_prev (m_next (amem s) new_mem) new_mem) s
      in (new_mem + HEADER, alloc_unlock (s\<lparr>heap_head := new_mem\<rparr>)))"

definition malloc_after :: "u32 \<Rightarrow> u32 \<Rightarrow> alloc_state \<Rightarrow> u32 \<times> alloc_state" where
  "malloc_after prev_mem mem_sz s =
     (let new_mem = m_ptr (amem s) prev_mem + m_size (amem s) prev_mem;
          s = put_header new_mem (mem_sz - HEADER) prev_mem (m_next (amem s) prev_mem) s;
          s = upd_mem (set_prev (m_next (amem s) new_mem) new_mem) s
      in (new_mem + HEADER, alloc_unlock (upd_mem (set_next prev_mem new_mem) s)))"

definition malloc_end :: "u32 \<Rightarrow> alloc_state \<Rightarrow> u32 \<times> alloc_state" where
  "malloc_end mem_sz s =
     (case alloc_sbrk mem_sz s of (mem_ptr, s) \<Rightarrow>
        if mem_ptr = -1 then (0, alloc_unlock s)
        else
          let s = put_header mem_ptr (mem_sz - HEADER) (heap_tail s) 0 s;
              s = upd_mem (set_next (heap_tail s) mem_ptr) s
          in (mem_ptr + HEADER, alloc_unlock (s\<lparr>heap_tail := mem_ptr\<rparr>)))"

definition malloc :: "u32 \<Rightarrow> alloc_state \<Rightarrow> (u32 \<times> alloc_state) option" where
  "malloc sz s =
     (let mem_sz = mem_sz_of sz in
      do {
        s \<leftarrow> alloc_lock s;
        if heap_head s = 0 then Some (malloc_first mem_sz s)
        else if heap_base s + mem_sz < heap_head s then Some (malloc_bottom mem_sz s)
        else do {
          prev_mem \<leftarrow> heap_mem_fit (amem s) (heap_head s) mem_sz;
          Some (if prev_mem \<noteq> 0 then malloc_after prev_mem mem_sz s else malloc_end mem_sz s)
        }
      })"

section \<open>Release\<close>

text \<open>The header whose block is at \<open>p\<close>, or 0 at the end of the list.\<close>

partial_function (option) free_search :: "mem \<Rightarrow> u32 \<Rightarrow> u32 \<Rightarrow> u32 option" where
  "free_search m p cur =
     (if p = m_ptr m cur then Some cur
      else if m_next m cur = 0 then Some 0
      else free_search m p (m_next m cur))"

definition free_head :: "alloc_state \<Rightarrow> alloc_state" where
  "free_head s =
     (let h = heap_head s;
          sz = m_size (amem s) h + (m_ptr (amem s) h - h);
          s = s\<lparr>heap_head := m_next (amem s) h\<rparr>
      in alloc_unlock
           (if heap_head s \<noteq> 0 then upd_mem (set_prev (heap_head s) 0) s
            else snd (alloc_sbrk (- sz) (s\<lparr>heap_tail := 0\<rparr>))))"

definition free_inner :: "u32 \<Rightarrow> alloc_state \<Rightarrow> alloc_state" where
  "free_inner cur s =
     (let s = (if m_next (amem s) cur \<noteq> 0
               then upd_mem (set_prev (m_next (amem s) cur) (m_prev (amem s) cur)) s
               else
                 let prev = m_prev (amem s) cur;
                     sz = fst (alloc_sbrk 0 s) - (m_ptr (amem s) prev + m_size (amem s) prev)
                 in snd (alloc_sbrk (- sz) (s\<lparr>heap_tail := prev\<rparr>)))
      in alloc_unlock (upd_mem (set_next (m_prev (amem s) cur) (m_next (amem s) cur)) s))"

definition free :: "u32 \<Rightarrow> alloc_state \<Rightarrow> alloc_state option" where
  "free p s =
     (if p = 0 then Some s
      else do {
        s \<leftarrow> alloc_lock s;
        if heap_head s = 0 then Some (alloc_unlock s)
        else if p = m_ptr (amem s) (heap_head s) then Some (free_head s)
        else do {
          cur \<leftarrow> free_search (amem s) p (heap_head s);
          Some (if cur = 0 then alloc_unlock s else free_inner cur s)
        }
      })"

section \<open>The other entry points\<close>

text \<open>\<open>memcpy\<close> and \<open>memset\<close> of \<open>n\<close> bytes.\<close>

definition mem_copy :: "u32 \<Rightarrow> u32 \<Rightarrow> u32 \<Rightarrow> mem \<Rightarrow> mem" where
  "mem_copy dst src n m a = (if a - dst < n then m (src + (a - dst)) else m a)"

definition mem_set :: "u32 \<Rightarrow> u8 \<Rightarrow> u32 \<Rightarrow> mem \<Rightarrow> mem" where
  "mem_set dst v n m a = (if a - dst < n then v else m a)"

text \<open>The tail block is made larger or smaller with the heap; the failure keeps the semaphore.\<close>

definition realloc :: "u32 \<Rightarrow> u32 \<Rightarrow> alloc_state \<Rightarrow> (u32 \<times> alloc_state) option" where
  "realloc p sz s =
     (if sz = 0 \<and> p \<noteq> 0 then do { s \<leftarrow> free p s; Some (0, s) }
      else if p = 0 then malloc sz s
      else
        let sz = (if sz AND (DEFAULT_ALIGNMENT - 1) \<noteq> 0 then ALIGN sz DEFAULT_ALIGNMENT else sz);
            h = p - HEADER
        in do {
          s \<leftarrow> alloc_lock s;
          if sz \<le> m_size (amem s) h
          then
            let s = (if m_next (amem s) h = 0
                     then snd (alloc_sbrk (p + sz - fst (alloc_sbrk 0 s)) s) else s)
            in Some (p, alloc_unlock (upd_mem (set_size h sz) s))
          else if m_next (amem s) h = 0
          then (case alloc_sbrk (sz - m_size (amem s) h) s of (r, s) \<Rightarrow>
                  if r = -1 then Some (0, s)
                  else Some (p, alloc_unlock (upd_mem (set_size h sz) s)))
          else if sz < m_ptr (amem s) (m_next (amem s) h) - p
          then Some (p, alloc_unlock (upd_mem (set_size h sz) s))
          else do {
            (q, s) \<leftarrow> malloc sz (alloc_unlock s);
            if q = 0 then Some (0, s)
            else do {
              let s = upd_mem (mem_copy q p (m_size (amem s) h)) s;
              s \<leftarrow> free p s;
              Some (q, s)
            }
          }
        })"

definition calloc :: "u32 \<Rightarrow> u32 \<Rightarrow> alloc_state \<Rightarrow> (u32 \<times> alloc_state) option" where
  "calloc n elem s =
     (let sz = n * elem in
      do {
        (p, s) \<leftarrow> malloc sz s;
        if p = 0 then Some (0, s) else Some (p, upd_mem (mem_set p 0 sz) s)
      })"

definition memalign :: "u32 \<Rightarrow> u32 \<Rightarrow> alloc_state \<Rightarrow> (u32 \<times> alloc_state) option" where
  "memalign align sz s =
     (if align \<le> DEFAULT_ALIGNMENT then malloc sz s
      else do {
        (p, s) \<leftarrow> malloc (sz + align) s;
        if p = 0 then Some (0, s)
        else if p AND (align - 1) = 0 then Some (p, s)
        else do {
          s \<leftarrow> alloc_lock s;
          let old_mem = p - HEADER;
          let s = upd_mem (set_size old_mem (m_size (amem s) old_mem - align)) s;
          let p = ALIGN p align;
          let cur_mem = p - HEADER;
          let s = upd_mem (mem_copy cur_mem old_mem HEADER) s;
          let s = (if m_prev (amem s) cur_mem \<noteq> 0
                   then upd_mem (set_next (m_prev (amem s) cur_mem) cur_mem) s else s);
          let s = (if m_next (amem s) cur_mem \<noteq> 0
                   then upd_mem (set_prev (m_next (amem s) cur_mem) cur_mem) s else s);
          let s = (if heap_head s = old_mem then s\<lparr>heap_head := cur_mem\<rparr> else s);
          let s = (if heap_tail s = old_mem then s\<lparr>heap_tail := cur_mem\<rparr> else s);
          let s = upd_mem (set_ptr cur_mem p) s;
          Some (p, alloc_unlock s)
        }
      })"

text \<open>Walking over the blocks from outside.\<close>

definition mem_walk_begin :: "alloc_state \<Rightarrow> u32" where
  "mem_walk_begin s = heap_head s"

definition mem_walk_read :: "u32 \<Rightarrow> alloc_state \<Rightarrow> u32 \<times> u32 \<times> int" where
  "mem_walk_read token s = (m_size (amem s) token, m_ptr (amem s) token, 1)"

definition mem_walk_inc :: "u32 \<Rightarrow> alloc_state \<Rightarrow> u32" where
  "mem_walk_inc token s = m_next (amem s) token"

definition mem_walk_end :: "u32 \<Rightarrow> bool" where
  "mem_walk_end token \<longleftrightarrow> token = 0"

end
