(* ===== verification/IopHeap.thy ===== *)
theory IopHeap
  imports IopAlloc
begin

text \<open>
  The heap of iop/system/alloc/src/alloc.c is a list of blocks that do not overlap: allocation puts
  a block in a gap of the list or behind it, release takes one out, and no operation touches the
  contents of another block. Addresses are compared as natural numbers; the theorems ask that the
  end of the heap plus the request stays below the end of the address space.
\<close>

section \<open>Reading and writing words\<close>

lemma word_of_four_bytes:
  "word_of_bytes (\<lambda>k. if k = 0 then ucast v else if k = 1 then ucast (drop_bit 8 v)
     else if k = 2 then ucast (drop_bit 16 v) else ucast (drop_bit 24 v)) 0 = v"
proof (rule bit_word_eqI)
  fix n assume "n < LENGTH(32)"
  then consider "n < 8" | "8 \<le> n" "n < 16" | "16 \<le> n" "n < 24" | "24 \<le> n" "n < 32" by fastforce
  then show "bit (word_of_bytes (\<lambda>k. if k = 0 then ucast v else if k = 1 then ucast (drop_bit 8 v)
     else if k = 2 then ucast (drop_bit 16 v) else ucast (drop_bit 24 v)) 0) n = bit v n"
    by cases (auto simp: word_of_bytes_def bit_simps)
qed

lemma word_of_bytes_cong: "(\<And>k. k < 4 \<Longrightarrow> b k = b' k) \<Longrightarrow> word_of_bytes b 0 = word_of_bytes b' 0"
  by (simp add: word_of_bytes_def)

lemma store32_byte:
  "k < 4 \<Longrightarrow> store32 m a v (a + of_nat k) = (if k = 0 then ucast v else if k = 1 then ucast (drop_bit 8 v)
     else if k = 2 then ucast (drop_bit 16 v) else ucast (drop_bit 24 v))"
proof -
  assume "k < 4"
  then have "k = 0 \<or> k = 1 \<or> k = 2 \<or> k = 3" by auto
  then show ?thesis by (elim disjE) (simp_all add: store32_def)
qed

lemma load_store_same [simp]: "load32 (store32 m a v) a = v"
proof -
  have "load32 (store32 m a v) a = word_of_bytes (\<lambda>k. if k = 0 then ucast v else if k = 1 then ucast (drop_bit 8 v)
     else if k = 2 then ucast (drop_bit 16 v) else ucast (drop_bit 24 v)) 0"
    unfolding load32_def by (rule word_of_bytes_cong) (rule store32_byte)
  then show ?thesis by (simp only: word_of_four_bytes)
qed

lemma unat_add_small: "unat (a :: u32) + n < 4294967296 \<Longrightarrow> unat (a + of_nat n) = unat a + n"
  by (simp add: unat_word_ariths unat_of_nat)

lemma load32_cong:
  assumes "unat a + 4 \<le> 4294967296" "\<And>x. unat a \<le> unat x \<Longrightarrow> unat x < unat a + 4 \<Longrightarrow> m x = m' x"
  shows "load32 m a = load32 m' a"
  unfolding load32_def
proof (rule word_of_bytes_cong)
  fix k :: nat assume "k < 4"
  with assms(1) have "unat (a + of_nat k) = unat a + k" by (intro unat_add_small) simp
  with \<open>k < 4\<close> assms(2) show "m (a + of_nat k) = m' (a + of_nat k)" by simp
qed

lemma not_in_range:
  assumes "unat x < unat p \<or> unat p + unat n \<le> unat x" "unat p + unat n \<le> 4294967296"
  shows "\<not> x - p < (n :: u32)"
  using assms unat_u32_less [of x] by (auto simp: word_less_nat_alt unat_sub_if')

lemma store32_other: "4 \<le> unat (x - a) \<Longrightarrow> store32 m a v x = m x"
  by (auto simp: store32_def)

lemma unat_diff_ge:
  assumes "unat (a :: u32) + 4 \<le> unat x \<or> unat x < unat a" "unat a \<le> 4294967292"
  shows "4 \<le> unat (x - a)"
  using assms unat_u32_less [of x]
  by (auto simp: unat_word_ariths unat_sub_if')

text \<open>Two headers that do not overlap, both below the end of the address space.\<close>

definition sep :: "u32 \<Rightarrow> u32 \<Rightarrow> bool" where
  "sep a b \<longleftrightarrow> unat a \<le> 4294967280 \<and> unat b \<le> 4294967280 \<and> (unat a + 16 \<le> unat b \<or> unat b + 16 \<le> unat a)"

lemma sep_sym: "sep a b \<Longrightarrow> sep b a"
  by (auto simp: sep_def)

lemma load_store_sep:
  assumes "sep a b" "i \<le> 12" "j \<le> 12"
  shows "load32 (store32 m (a + of_nat i) v) (b + of_nat j) = load32 m (b + of_nat j)"
  unfolding load32_def
proof (rule word_of_bytes_cong, rule store32_other, rule unat_diff_ge)
  fix k :: nat assume "k < 4"
  with assms have "unat (a + of_nat i) = unat a + i" "unat (b + of_nat j + of_nat k) = unat b + j + k"
    using unat_add_small [of a i] unat_add_small [of b "j + k"] by (auto simp: sep_def add.assoc)
  with assms \<open>k < 4\<close> show "unat (a + of_nat i) + 4 \<le> unat (b + of_nat j + of_nat k) \<or>
      unat (b + of_nat j + of_nat k) < unat (a + of_nat i)" "unat (a + of_nat i) \<le> 4294967292"
    by (auto simp: sep_def)
qed

lemma load_store_own:
  assumes "unat a \<le> 4294967280" "i \<le> 12" "j \<le> 12" "i + 4 \<le> j \<or> j + 4 \<le> i"
  shows "load32 (store32 m (a + of_nat i) v) (a + of_nat j) = load32 m (a + of_nat j)"
  unfolding load32_def
proof (rule word_of_bytes_cong, rule store32_other, rule unat_diff_ge)
  fix k :: nat assume "k < 4"
  with assms have "unat (a + of_nat i) = unat a + i" "unat (a + of_nat j + of_nat k) = unat a + j + k"
    using unat_add_small [of a i] unat_add_small [of a "j + k"] by (auto simp: add.assoc)
  with assms \<open>k < 4\<close> show "unat (a + of_nat i) + 4 \<le> unat (a + of_nat j + of_nat k) \<or>
      unat (a + of_nat j + of_nat k) < unat (a + of_nat i)" "unat (a + of_nat i) \<le> 4294967292"
    by auto
qed

lemmas hdr_defs = m_ptr_def m_size_def m_prev_def m_next_def
  set_ptr_def set_size_def set_prev_def set_next_def

lemma hdr_sep [simp]:
  assumes "sep a b"
  shows "m_ptr (set_ptr a v m) b = m_ptr m b" "m_size (set_ptr a v m) b = m_size m b"
    "m_prev (set_ptr a v m) b = m_prev m b" "m_next (set_ptr a v m) b = m_next m b"
    "m_ptr (set_size a v m) b = m_ptr m b" "m_size (set_size a v m) b = m_size m b"
    "m_prev (set_size a v m) b = m_prev m b" "m_next (set_size a v m) b = m_next m b"
    "m_ptr (set_prev a v m) b = m_ptr m b" "m_size (set_prev a v m) b = m_size m b"
    "m_prev (set_prev a v m) b = m_prev m b" "m_next (set_prev a v m) b = m_next m b"
    "m_ptr (set_next a v m) b = m_ptr m b" "m_size (set_next a v m) b = m_size m b"
    "m_prev (set_next a v m) b = m_prev m b" "m_next (set_next a v m) b = m_next m b"
  using load_store_sep [OF assms, of 0 0] load_store_sep [OF assms, of 0 4] load_store_sep [OF assms, of 0 8]
    load_store_sep [OF assms, of 0 12] load_store_sep [OF assms, of 4 0] load_store_sep [OF assms, of 4 4]
    load_store_sep [OF assms, of 4 8] load_store_sep [OF assms, of 4 12] load_store_sep [OF assms, of 8 0]
    load_store_sep [OF assms, of 8 4] load_store_sep [OF assms, of 8 8] load_store_sep [OF assms, of 8 12]
    load_store_sep [OF assms, of 12 0] load_store_sep [OF assms, of 12 4] load_store_sep [OF assms, of 12 8]
    load_store_sep [OF assms, of 12 12]
  by (simp_all add: hdr_defs)

lemma hdr_own [simp]:
  assumes "unat a \<le> 4294967280"
  shows "m_ptr (set_size a v m) a = m_ptr m a" "m_ptr (set_prev a v m) a = m_ptr m a"
    "m_ptr (set_next a v m) a = m_ptr m a" "m_size (set_ptr a v m) a = m_size m a"
    "m_size (set_prev a v m) a = m_size m a" "m_size (set_next a v m) a = m_size m a"
    "m_prev (set_ptr a v m) a = m_prev m a" "m_prev (set_size a v m) a = m_prev m a"
    "m_prev (set_next a v m) a = m_prev m a" "m_next (set_ptr a v m) a = m_next m a"
    "m_next (set_size a v m) a = m_next m a" "m_next (set_prev a v m) a = m_next m a"
  using load_store_own [OF assms, of 0 4] load_store_own [OF assms, of 0 8] load_store_own [OF assms, of 0 12]
    load_store_own [OF assms, of 4 0] load_store_own [OF assms, of 4 8] load_store_own [OF assms, of 4 12]
    load_store_own [OF assms, of 8 0] load_store_own [OF assms, of 8 4] load_store_own [OF assms, of 8 12]
    load_store_own [OF assms, of 12 0] load_store_own [OF assms, of 12 4] load_store_own [OF assms, of 12 8]
  by (simp_all add: hdr_defs)

lemma hdr_same [simp]:
  "m_ptr (set_ptr a v m) a = v" "m_size (set_size a v m) a = v"
  "m_prev (set_prev a v m) a = v" "m_next (set_next a v m) a = v"
  by (simp_all add: hdr_defs)

text \<open>A store to a header leaves every byte outside the header alone.\<close>

lemma hdr_byte:
  assumes "unat a \<le> 4294967280" "unat x < unat a \<or> unat a + 16 \<le> unat x"
  shows "set_ptr a v m x = m x" "set_size a v m x = m x" "set_prev a v m x = m x" "set_next a v m x = m x"
proof -
  have "store32 m (a + of_nat i) v x = m x" if "i \<le> 12" for i
  proof (rule store32_other, rule unat_diff_ge)
    from that assms have "unat (a + of_nat i) = unat a + i" using unat_add_small [of a i] by auto
    with that assms show "unat (a + of_nat i) + 4 \<le> unat x \<or> unat x < unat (a + of_nat i)"
      "unat (a + of_nat i) \<le> 4294967292" by auto
  qed
  from this [of 0] this [of 4] this [of 8] this [of 12]
  show "set_ptr a v m x = m x" "set_size a v m x = m x" "set_prev a v m x = m x" "set_next a v m x = m x"
    by (simp_all add: hdr_defs)
qed

section \<open>The list of blocks\<close>

text \<open>The headers at the addresses of the list, linked both ways, between \<open>pv\<close> and \<open>nx\<close>.\<close>

fun blocks :: "mem \<Rightarrow> u32 \<Rightarrow> u32 list \<Rightarrow> u32 \<Rightarrow> bool" where
  "blocks m pv [] nx = True"
| "blocks m pv (a # as) nx = (m_ptr m a = a + HEADER \<and> m_prev m a = pv \<and>
     m_next m a = (if as = [] then nx else hd as) \<and> blocks m a as nx)"

text \<open>Where the blocks of the list end that begin at \<open>lo\<close> or behind, and that they do not overlap.\<close>

fun top_of :: "mem \<Rightarrow> nat \<Rightarrow> u32 list \<Rightarrow> nat" where
  "top_of m lo [] = lo"
| "top_of m lo (a # as) = top_of m (unat a + 16 + unat (m_size m a)) as"

fun laid :: "mem \<Rightarrow> nat \<Rightarrow> u32 list \<Rightarrow> nat \<Rightarrow> bool" where
  "laid m lo [] hi = (lo \<le> hi)"
| "laid m lo (a # as) hi = (lo \<le> unat a \<and> unat a mod 16 = 0 \<and> unat (m_size m a) mod 16 = 0 \<and>
     laid m (unat a + 16 + unat (m_size m a)) as hi)"

definition hd0 :: "u32 list \<Rightarrow> u32" where "hd0 xs = (if xs = [] then 0 else hd xs)"
definition last0 :: "u32 list \<Rightarrow> u32" where "last0 xs = (if xs = [] then 0 else last xs)"

text \<open>The bottom of the heap, which the code sets when the first block is asked for.\<close>

definition base_of :: "alloc_state \<Rightarrow> u32" where
  "base_of s = (if heap_base s = 0 then heap_ptr s else heap_base s)"

definition heap_inv :: "u32 list \<Rightarrow> alloc_state \<Rightarrow> bool" where
  "heap_inv bs s \<longleftrightarrow> blocks (amem s) 0 bs 0 \<and>
     laid (amem s) (unat (base_of s)) bs (unat (heap_ptr s)) \<and> heap_ptr s \<le> heap_end s \<and>
     heap_head s = hd0 bs \<and> heap_tail s = last0 bs \<and> base_of s \<noteq> 0 \<and> (heap_base s = 0 \<longrightarrow> bs = []) \<and>
     unat (base_of s) mod 16 = 0 \<and> unat (heap_ptr s) mod 16 = 0"

text \<open>Nothing of the blocks \<open>bs\<close> changes, neither size nor contents.\<close>

definition keeps :: "u32 list \<Rightarrow> mem \<Rightarrow> mem \<Rightarrow> bool" where
  "keeps bs m m' \<longleftrightarrow> (\<forall>b\<in>set bs. m_size m' b = m_size m b \<and>
     (\<forall>x. unat b + 16 \<le> unat x \<and> unat x < unat b + 16 + unat (m_size m b) \<longrightarrow> m' x = m x))"

lemma blocks_append:
  "blocks m pv (us @ vs) nx \<longleftrightarrow> blocks m pv us (if vs = [] then nx else hd vs) \<and>
     blocks m (if us = [] then pv else last us) vs nx"
  by (induction us arbitrary: pv) auto

lemma blocks_ptr: "blocks m pv bs nx \<Longrightarrow> a \<in> set bs \<Longrightarrow> m_ptr m a = a + HEADER"
  by (induction bs arbitrary: pv) auto

lemma blocks_retarget_next:
  "blocks m pv us nx \<Longrightarrow> (\<And>a. a \<in> set us \<Longrightarrow> m_ptr m' a = m_ptr m a \<and> m_prev m' a = m_prev m a) \<Longrightarrow>
     (\<And>a. a \<in> set (butlast us) \<Longrightarrow> m_next m' a = m_next m a) \<Longrightarrow>
     (us \<noteq> [] \<Longrightarrow> m_next m' (last us) = nx') \<Longrightarrow> blocks m' pv us nx'"
  by (induction us arbitrary: pv) (auto split: if_splits)

lemma blocks_retarget_prev:
  assumes "blocks m pv vs nx" "\<And>a. a \<in> set vs \<Longrightarrow> m_ptr m' a = m_ptr m a \<and> m_next m' a = m_next m a"
    "\<And>a. a \<in> set (tl vs) \<Longrightarrow> m_prev m' a = m_prev m a" "vs \<noteq> [] \<Longrightarrow> m_prev m' (hd vs) = pv'"
  shows "blocks m' pv' vs nx"
proof (cases vs)
  case (Cons a as)
  have "blocks m a as nx \<Longrightarrow> (\<And>b. b \<in> set as \<Longrightarrow> m_ptr m' b = m_ptr m b \<and> m_next m' b = m_next m b \<and>
      m_prev m' b = m_prev m b) \<Longrightarrow> blocks m' a as nx" for a as
    by (induction as arbitrary: a) auto
  with assms Cons show ?thesis by auto
qed simp

lemma laid_le_top: "laid m lo bs hi \<Longrightarrow> lo \<le> top_of m lo bs \<and> top_of m lo bs \<le> hi"
  by (induction bs arbitrary: lo) fastforce+

lemma laid_append: "laid m lo (us @ vs) hi \<longleftrightarrow> laid m lo us (top_of m lo us) \<and> laid m (top_of m lo us) vs hi"
  by (induction us arbitrary: lo) auto

lemma laid_mono: "laid m lo bs hi \<Longrightarrow> lo' \<le> lo \<Longrightarrow> hi \<le> hi' \<Longrightarrow> laid m lo' bs hi'"
  by (induction bs arbitrary: lo lo') auto

lemma laid_range:
  "laid m lo bs hi \<Longrightarrow> a \<in> set bs \<Longrightarrow> lo \<le> unat a \<and> unat a + 16 + unat (m_size m a) \<le> hi \<and> unat a mod 16 = 0"
proof (induction bs arbitrary: lo)
  case (Cons b bs)
  from laid_le_top [of m "unat b + 16 + unat (m_size m b)" bs hi] Cons show ?case by fastforce
qed simp

lemma laid_before: "laid m lo us hi \<Longrightarrow> a \<in> set us \<Longrightarrow> unat a + 16 + unat (m_size m a) \<le> top_of m lo us"
proof (induction us arbitrary: lo)
  case (Cons b bs)
  from laid_le_top [of m "unat b + 16 + unat (m_size m b)" bs hi] Cons show ?case by fastforce
qed simp

lemma top_of_snoc: "top_of m lo (us @ [r]) = unat r + 16 + unat (m_size m r)"
  by (induction us arbitrary: lo) auto

lemma laid_cong:
  "(\<And>a. a \<in> set bs \<Longrightarrow> m_size m' a = m_size m a) \<Longrightarrow> laid m' lo bs hi = laid m lo bs hi"
  by (induction bs arbitrary: lo) auto

lemma top_cong: "(\<And>a. a \<in> set bs \<Longrightarrow> m_size m' a = m_size m a) \<Longrightarrow> top_of m' lo bs = top_of m lo bs"
  by (induction bs arbitrary: lo) auto

lemma laid_distinct: "laid m lo bs hi \<Longrightarrow> distinct bs"
proof (induction bs arbitrary: lo)
  case (Cons b bs)
  with laid_range [of m "unat b + 16 + unat (m_size m b)" bs hi b] show ?case by fastforce
qed simp

text \<open>The blocks before, at and behind a position do not overlap.\<close>

lemma laid_sep:
  assumes "laid m lo (us @ vs) hi" "hi < 4294967296" "u \<in> set us" "v \<in> set vs"
  shows "sep u v" "sep v u"
proof -
  from assms(1) have l: "laid m lo us (top_of m lo us)" "laid m (top_of m lo us) vs hi"
    by (auto simp: laid_append)
  from laid_before [OF l(1) assms(3)] laid_range [OF l(2) assms(4)] assms(2)
  show "sep u v" by (auto simp: sep_def)
  then show "sep v u" by (rule sep_sym)
qed

lemma laid_pair:
  assumes "laid m lo bs hi" "hi < 4294967296" "a \<in> set bs" "b \<in> set bs" "a \<noteq> b"
  shows "sep a b"
proof -
  from assms(3) obtain us vs where bs: "bs = us @ a # vs" by (auto simp: in_set_conv_decomp)
  with assms(4,5) consider "b \<in> set us" | "b \<in> set vs" by auto
  then show ?thesis
  proof cases
    case 1
    with assms(1,2) bs show ?thesis using laid_sep(2) [of m lo us "a # vs" hi b a] by simp
  next
    case 2
    with assms(1,2) bs show ?thesis using laid_sep(1) [of m lo "us @ [a]" vs hi a b] by simp
  qed
qed

lemma laid_own: "laid m lo bs hi \<Longrightarrow> hi < 4294967296 \<Longrightarrow> a \<in> set bs \<Longrightarrow> unat a \<le> 4294967280"
  using laid_range [of m lo bs hi a] by auto

definition spaced :: "u32 list \<Rightarrow> bool" where
  "spaced bs \<longleftrightarrow> distinct bs \<and> (\<forall>a\<in>set bs. unat a \<le> 4294967280 \<and> (\<forall>b\<in>set bs. a \<noteq> b \<longrightarrow> sep a b))"

lemma spacedD:
  assumes "spaced bs"
  shows "distinct bs" "a \<in> set bs \<Longrightarrow> unat a \<le> 4294967280"
    "a \<in> set bs \<Longrightarrow> b \<in> set bs \<Longrightarrow> a \<noteq> b \<Longrightarrow> sep a b"
  using assms by (auto simp: spaced_def)

lemma laid_spaced: "laid m lo bs hi \<Longrightarrow> hi < 4294967296 \<Longrightarrow> spaced bs"
  unfolding spaced_def using laid_pair laid_own laid_distinct by metis

text \<open>A header put between the blocks \<open>us\<close> and \<open>vs\<close>, and the block between them taken out.\<close>

definition link_mem :: "u32 list \<Rightarrow> u32 \<Rightarrow> u32 \<Rightarrow> u32 list \<Rightarrow> mem \<Rightarrow> mem" where
  "link_mem us n n' vs m =
     (let m = (if vs = [] then m else set_prev (hd vs) n m)
      in if us = [] then m else set_next (last us) n' m)"

definition put_mem :: "u32 list \<Rightarrow> u32 \<Rightarrow> u32 \<Rightarrow> u32 list \<Rightarrow> mem \<Rightarrow> mem" where
  "put_mem us n sz vs m =
     set_next n (hd0 vs) (set_prev n (last0 us) (set_size n sz (set_ptr n (n + HEADER) m)))"

lemma hd_not_in_us: "distinct (us @ vs) \<Longrightarrow> vs \<noteq> [] \<Longrightarrow> b \<in> set us \<Longrightarrow> b \<noteq> hd vs"
  by (cases vs) auto

lemma link_mem_us:
  assumes S: "spaced (us @ vs)" and b: "b \<in> set us"
  shows "m_ptr (link_mem us n n' vs m) b = m_ptr m b" "m_size (link_mem us n n' vs m) b = m_size m b"
    "m_prev (link_mem us n n' vs m) b = m_prev m b"
    "m_next (link_mem us n n' vs m) b = (if b = last us then n' else m_next m b)"
proof -
  note p = spacedD(3) [OF S] and o = spacedD(2) [OF S] and d = spacedD(1) [OF S]
  have h: "vs \<noteq> [] \<Longrightarrow> sep (hd vs) b" using p [of "hd vs" b] hd_not_in_us [OF d _ b] b by (cases vs) auto
  have l: "b \<noteq> last us \<Longrightarrow> sep (last us) b" using p [of "last us" b] b last_in_set [of us] by (cases us) auto
  have u: "us \<noteq> []" "unat b \<le> 4294967280" using b o [of b] by auto
  show "m_ptr (link_mem us n n' vs m) b = m_ptr m b" "m_size (link_mem us n n' vs m) b = m_size m b"
    "m_prev (link_mem us n n' vs m) b = m_prev m b"
    "m_next (link_mem us n n' vs m) b = (if b = last us then n' else m_next m b)"
    using h l u by (cases "b = last us"; auto simp: link_mem_def Let_def)+
qed

lemma link_mem_vs:
  assumes S: "spaced (us @ vs)" and b: "b \<in> set vs"
  shows "m_ptr (link_mem us n n' vs m) b = m_ptr m b" "m_size (link_mem us n n' vs m) b = m_size m b"
    "m_next (link_mem us n n' vs m) b = m_next m b"
    "m_prev (link_mem us n n' vs m) b = (if b = hd vs then n else m_prev m b)"
proof -
  note p = spacedD(3) [OF S] and o = spacedD(2) [OF S] and d = spacedD(1) [OF S]
  have "us \<noteq> [] \<Longrightarrow> last us \<noteq> b" using d b last_in_set [of us] by (auto dest: disjoint_iff [THEN iffD1])
  then have l: "us \<noteq> [] \<Longrightarrow> sep (last us) b" using p [of "last us" b] b last_in_set [of us] by auto
  have h: "b \<noteq> hd vs \<Longrightarrow> sep (hd vs) b" using p [of "hd vs" b] b by (cases vs) auto
  have u: "vs \<noteq> []" "unat b \<le> 4294967280" using b o [of b] by auto
  show "m_ptr (link_mem us n n' vs m) b = m_ptr m b" "m_size (link_mem us n n' vs m) b = m_size m b"
    "m_next (link_mem us n n' vs m) b = m_next m b"
    "m_prev (link_mem us n n' vs m) b = (if b = hd vs then n else m_prev m b)"
    using h l u by (cases "b = hd vs"; auto simp: link_mem_def Let_def)+
qed

lemma link_blocks:
  assumes S: "spaced (us @ vs)" and b: "blocks m 0 us x" "blocks m y vs 0"
  shows "blocks (link_mem us n n' vs m) 0 us n'" "blocks (link_mem us n n' vs m) n vs 0"
proof -
  note d = spacedD(1) [OF S] and lu = link_mem_us [OF S] and lv = link_mem_vs [OF S]
  show "blocks (link_mem us n n' vs m) 0 us n'"
  proof (rule blocks_retarget_next [OF b(1)])
    fix a assume a: "a \<in> set us"
    show "m_ptr (link_mem us n n' vs m) a = m_ptr m a \<and> m_prev (link_mem us n n' vs m) a = m_prev m a"
      using lu [OF a] by simp
  next
    fix a assume a: "a \<in> set (butlast us)"
    moreover from a d have "a \<noteq> last us"
      by (metis append_butlast_last_id distinct_append disjoint_insert(1) butlast.simps(1) empty_iff empty_set
          inf.commute list.simps(15) mk_disjoint_insert)
    ultimately show "m_next (link_mem us n n' vs m) a = m_next m a"
      using lu(4) [of a] in_set_butlastD by fastforce
  next
    assume "us \<noteq> []"
    then show "m_next (link_mem us n n' vs m) (last us) = n'" using lu(4) [of "last us"] by simp
  qed
  show "blocks (link_mem us n n' vs m) n vs 0"
  proof (rule blocks_retarget_prev [OF b(2)])
    fix a assume a: "a \<in> set vs"
    show "m_ptr (link_mem us n n' vs m) a = m_ptr m a \<and> m_next (link_mem us n n' vs m) a = m_next m a"
      using lv [OF a] by simp
  next
    fix a assume a: "a \<in> set (tl vs)"
    then have "a \<noteq> hd vs" using d by (cases vs) auto
    then show "m_prev (link_mem us n n' vs m) a = m_prev m a" using lv(4) [of a] list.set_sel(2) a
      by (cases vs) auto
  next
    assume "vs \<noteq> []"
    then show "m_prev (link_mem us n n' vs m) (hd vs) = n" using lv(4) [of "hd vs"] by simp
  qed
qed

lemma laid_order:
  assumes "laid m lo bs hi" "a \<in> set bs" "b \<in> set bs" "a \<noteq> b"
  shows "unat a + 16 + unat (m_size m a) \<le> unat b \<or> unat b + 16 + unat (m_size m b) \<le> unat a"
proof -
  from assms(2) obtain us vs where bs: "bs = us @ a # vs" by (auto simp: in_set_conv_decomp)
  with assms(1) have l: "laid m lo us (top_of m lo us)" "top_of m lo us \<le> unat a"
    "laid m (unat a + 16 + unat (m_size m a)) vs hi" by (auto simp: laid_append)
  from bs assms(3,4) consider "b \<in> set us" | "b \<in> set vs" by auto
  then show ?thesis
    using laid_before [OF l(1)] l(2) laid_range [OF l(3)] by cases fastforce+
qed

definition payload :: "mem \<Rightarrow> u32 \<Rightarrow> u32 \<Rightarrow> bool" where
  "payload m b x \<longleftrightarrow> unat b + 16 \<le> unat x \<and> unat x < unat b + 16 + unat (m_size m b)"

lemma payload_hdr:
  assumes "laid m lo bs hi" "b \<in> set bs" "c \<in> set bs" "payload m b x"
  shows "unat x < unat c \<or> unat c + 16 \<le> unat x"
  using laid_order [OF assms(1-3)] assms(4) by (cases "b = c") (auto simp: payload_def)

lemma link_mem_byte:
  assumes "laid m0 lo (us @ vs) hi" "hi < 4294967296" "b \<in> set (us @ vs)" "payload m0 b x"
  shows "link_mem us n n' vs m x = m x"
proof -
  note P = payload_hdr [OF assms(1,3) _ assms(4)] and O = laid_own [OF assms(1,2)]
  have "vs \<noteq> [] \<Longrightarrow> set_prev (hd vs) n m' x = m' x" for m'
    using P [of "hd vs"] O [of "hd vs"] by (intro hdr_byte) auto
  moreover have "us \<noteq> [] \<Longrightarrow> set_next (last us) n' m' x = m' x" for m'
    using P [of "last us"] O [of "last us"] by (intro hdr_byte) auto
  ultimately show ?thesis by (auto simp: link_mem_def Let_def)
qed

lemma put_mem_own:
  assumes "unat n \<le> 4294967280"
  shows "m_ptr (put_mem us n sz vs m) n = n + HEADER" "m_size (put_mem us n sz vs m) n = sz"
    "m_prev (put_mem us n sz vs m) n = last0 us" "m_next (put_mem us n sz vs m) n = hd0 vs"
  using assms by (simp_all add: put_mem_def)

lemma put_mem_sep:
  assumes "sep n b"
  shows "m_ptr (put_mem us n sz vs m) b = m_ptr m b" "m_size (put_mem us n sz vs m) b = m_size m b"
    "m_prev (put_mem us n sz vs m) b = m_prev m b" "m_next (put_mem us n sz vs m) b = m_next m b"
  using assms by (simp_all add: put_mem_def)

lemma put_mem_byte:
  "unat n \<le> 4294967280 \<Longrightarrow> unat x < unat n \<or> unat n + 16 \<le> unat x \<Longrightarrow> put_mem us n sz vs m x = m x"
  by (simp add: put_mem_def hdr_byte)

lemma link_mem_sep:
  assumes "\<And>b. b \<in> set (us @ vs) \<Longrightarrow> sep b n"
  shows "m_ptr (link_mem us k k' vs m) n = m_ptr m n" "m_size (link_mem us k k' vs m) n = m_size m n"
    "m_prev (link_mem us k k' vs m) n = m_prev m n" "m_next (link_mem us k k' vs m) n = m_next m n"
proof -
  have "vs \<noteq> [] \<Longrightarrow> sep (hd vs) n" "us \<noteq> [] \<Longrightarrow> sep (last us) n" using assms by auto
  then show "m_ptr (link_mem us k k' vs m) n = m_ptr m n" "m_size (link_mem us k k' vs m) n = m_size m n"
    "m_prev (link_mem us k k' vs m) n = m_prev m n" "m_next (link_mem us k k' vs m) n = m_next m n"
    by (auto simp: link_mem_def Let_def)
qed

lemma insert_block:
  assumes B: "blocks m 0 (us @ vs) 0" and L: "laid m lo (us @ vs) hi" "hi \<le> hi'" "hi' < 4294967296"
    and n: "top_of m lo us \<le> unat n" "unat n mod 16 = 0" "unat sz mod 16 = 0"
      "unat n + 16 + unat sz \<le> (if vs = [] then hi' else unat (hd vs))"
  defines "m' \<equiv> link_mem us n n vs (put_mem us n sz vs m)"
  shows "blocks m' 0 (us @ n # vs) 0" "laid m' lo (us @ n # vs) hi'" "keeps (us @ vs) m m'"
    "m_size m' n = sz"
proof -
  from L have hi: "hi < 4294967296" by simp
  from L(1) have l: "laid m lo us (top_of m lo us)" "laid m (top_of m lo us) vs hi" by (auto simp: laid_append)
  have nv: "vs \<noteq> [] \<Longrightarrow> unat (hd vs) + 16 \<le> hi" using laid_range [OF l(2), of "hd vs"] by simp
  have n80: "unat n \<le> 4294967280" using n(4) nv L(2,3) by (auto split: if_splits)
  have vn: "unat n + 16 + unat sz \<le> unat v" if "v \<in> set vs" for v
  proof -
    from that have ne: "vs \<noteq> []" by auto
    have "unat (hd vs) \<le> unat v" using that l(2) laid_range [of m _ "tl vs" hi v] by (cases vs) force+
    with n(4) ne show ?thesis by simp
  qed
  have un: "unat u + 16 + unat (m_size m u) \<le> unat n" if "u \<in> set us" for u
    using laid_before [OF l(1) that] n(1) by simp
  have sn: "sep n b \<and> sep b n" if "b \<in> set (us @ vs)" for b
  proof -
    from that have "unat b + 16 \<le> unat n \<or> unat n + 16 \<le> unat b" using un [of b] vn [of b] by auto
    then show ?thesis using n80 laid_own [OF L(1) hi that] by (auto simp: sep_def)
  qed
  let ?p = "put_mem us n sz vs m"
  note S = laid_spaced [OF L(1) hi]
  have pf: "m_ptr ?p b = m_ptr m b" "m_size ?p b = m_size m b" "m_prev ?p b = m_prev m b" "m_next ?p b = m_next m b"
    if "b \<in> set (us @ vs)" for b using put_mem_sep [of n b] sn [OF that] by auto
  from B have "blocks m 0 us (if vs = [] then 0 else hd vs)" "blocks m (if us = [] then 0 else last us) vs 0"
    by (auto simp: blocks_append)
  then have bp: "blocks ?p 0 us (if vs = [] then 0 else hd vs)" "blocks ?p (if us = [] then 0 else last us) vs 0"
  proof -
    have "blocks m pv bs nx \<Longrightarrow> set bs \<subseteq> set (us @ vs) \<Longrightarrow> blocks ?p pv bs nx" for pv bs nx
      by (induction bs arbitrary: pv) (auto simp: pf)
    then show "blocks ?p 0 us (if vs = [] then 0 else hd vs)" "blocks ?p (if us = [] then 0 else last us) vs 0"
      using \<open>blocks m 0 us _\<close> \<open>blocks m _ vs 0\<close> by auto
  qed
  note lb = link_blocks [OF S bp, of n n, folded m'_def]
  have own: "m_ptr m' n = n + HEADER" "m_size m' n = sz" "m_prev m' n = last0 us" "m_next m' n = hd0 vs"
    unfolding m'_def using link_mem_sep [of us vs n] sn put_mem_own [OF n80] by auto
  show "blocks m' 0 (us @ n # vs) 0"
    using lb own by (auto simp: blocks_append hd0_def last0_def)
  show "m_size m' n = sz" by (rule own)
  have sz: "m_size m' b = m_size m b" if "b \<in> set (us @ vs)" for b
    using that link_mem_us(2) [OF S] link_mem_vs(2) [OF S] pf(2) [OF that] unfolding m'_def by auto
  have "laid m' (unat n + 16 + unat sz) vs hi'"
  proof (cases vs)
    case Nil
    with n(4) show ?thesis by simp
  next
    case (Cons v ws)
    have "laid m (unat n + 16 + unat sz) vs hi'"
      using Cons l(2) vn [of v] laid_mono [OF _ le_refl L(2), of m _ ws] by simp
    then show ?thesis using laid_cong [of vs m' m] sz by simp
  qed
  moreover have "laid m' lo us (top_of m' lo us)" "top_of m' lo us = top_of m lo us"
    using l(1) laid_cong [of us m' m] top_cong [of us m' m] sz by auto
  ultimately show "laid m' lo (us @ n # vs) hi'" using n own by (simp add: laid_append)
  have "m' x = m x" if "b \<in> set (us @ vs)" "payload m b x" for b x
  proof -
    have "unat x < unat n \<or> unat n + 16 \<le> unat x"
      using that un [of b] vn [of b] by (auto simp: payload_def)
    then have "?p x = m x" by (rule put_mem_byte [OF n80])
    then show ?thesis unfolding m'_def using link_mem_byte [OF L(1) hi that] by simp
  qed
  with sz show "keeps (us @ vs) m m'" by (auto simp: keeps_def payload_def)
qed

lemma remove_block:
  assumes B: "blocks m 0 (us @ c # vs) 0" and L: "laid m lo (us @ c # vs) hi" "hi < 4294967296"
  defines "m' \<equiv> link_mem us (last0 us) (hd0 vs) vs m"
  shows "blocks m' 0 (us @ vs) 0" "vs \<noteq> [] \<Longrightarrow> laid m' lo (us @ vs) hi"
    "vs = [] \<Longrightarrow> top_of m lo us \<le> hi' \<Longrightarrow> laid m' lo (us @ vs) hi'" "keeps (us @ vs) m m'"
proof -
  from L(1) have l: "laid m lo us (top_of m lo us)" "top_of m lo us \<le> unat c"
    "laid m (unat c + 16 + unat (m_size m c)) vs hi" by (auto simp: laid_append)
  from laid_le_top [OF l(3)] have "unat c + 16 + unat (m_size m c) \<le> hi" by simp
  with l have L': "laid m lo (us @ vs) hi" by (auto simp: laid_append intro: laid_mono)
  note S = laid_spaced [OF L' L(2)]
  from B have b: "blocks m 0 us c" "blocks m c vs 0" by (auto simp: blocks_append)
  from link_blocks [OF S b, of "last0 us" "hd0 vs", folded m'_def]
  show "blocks m' 0 (us @ vs) 0" by (auto simp: blocks_append hd0_def last0_def)
  have sz: "m_size m' a = m_size m a" if "a \<in> set (us @ vs)" for a
    using that link_mem_us(2) [OF S] link_mem_vs(2) [OF S] unfolding m'_def by auto
  then show "laid m' lo (us @ vs) hi" using L' laid_cong [of "us @ vs" m' m] by auto
  show "vs = [] \<Longrightarrow> top_of m lo us \<le> hi' \<Longrightarrow> laid m' lo (us @ vs) hi'"
    using l(1) laid_cong [of us m' m] sz by (auto intro: laid_mono)
  show "keeps (us @ vs) m m'"
    using sz link_mem_byte [OF L' L(2)] unfolding m'_def by (auto simp: keeps_def payload_def)
qed

section \<open>Sizes\<close>

lemma and_15: "unat (x AND 15 :: u32) = unat x mod 16"
proof -
  have "x AND 15 = take_bit 4 x" by (simp add: take_bit_eq_mask mask_eq_exp_minus_1)
  then show ?thesis by (simp add: take_bit_eq_mod unat_mod_distrib)
qed

lemma and_not_15: "unat (x AND NOT 15 :: u32) = 16 * (unat x div 16)"
proof -
  have "(x AND 15) + (x AND NOT 15) = (x AND 15) OR (x AND NOT 15)"
    by (rule disjunctive_add) (auto simp: bit_simps)
  also have "\<dots> = x" by (rule bit_word_eqI) (auto simp: bit_simps)
  finally have e: "x AND NOT 15 = x - (x AND 15)" by (simp add: algebra_simps)
  have "x AND 15 \<le> x" using and_15 [of x] by (simp add: word_le_nat_alt)
  then show ?thesis
    unfolding e using and_15 [of x] by (simp add: unat_sub minus_mod_eq_mult_div)
qed

lemma mem_sz_of_unat:
  assumes "unat sz + 31 < 4294967296"
  shows "unat (mem_sz_of sz) mod 16 = 0" "unat sz + 16 \<le> unat (mem_sz_of sz)" "unat (mem_sz_of sz) \<le> unat sz + 31"
proof -
  have 1: "unat (sz + 16) = unat sz + 16" using assms by (simp add: unat_word_ariths)
  have 2: "unat (sz + 16 + 15) = unat sz + 31" using assms by (simp add: unat_word_ariths)
  have z: "(sz + 16) AND 15 = 0 \<longleftrightarrow> (unat sz + 16) mod 16 = 0"
    using and_15 [of "sz + 16"] 1 by (metis unat_eq_0)
  have "unat (mem_sz_of sz) = (if (unat sz + 16) mod 16 = 0 then unat sz + 16 else 16 * ((unat sz + 31) div 16))"
    using 1 2 z and_not_15 [of "sz + 16 + 15"] by (simp add: mem_sz_of_def ALIGN_def Let_def)
  then show "unat (mem_sz_of sz) mod 16 = 0" "unat sz + 16 \<le> unat (mem_sz_of sz)"
    "unat (mem_sz_of sz) \<le> unat sz + 31" by (auto split: if_splits)
qed

section \<open>Allocation\<close>

lemma fit_spec:
  "blocks m pv bs 0 \<Longrightarrow> laid m lo bs hi \<Longrightarrow> hi < 4294967296 \<Longrightarrow> 0 < lo \<Longrightarrow> bs \<noteq> [] \<Longrightarrow>
   \<exists>r. heap_mem_fit m (hd bs) sz = Some r \<and>
     (r = 0 \<or> (\<exists>us v vs. bs = us @ r # v # vs \<and> unat r + 16 + unat (m_size m r) + unat sz \<le> unat v))"
proof (induction bs arbitrary: pv lo)
  case (Cons a as)
  have a0: "a \<noteq> 0" using Cons.prems by auto
  show ?case
  proof (cases as)
    case Nil
    with Cons.prems a0 show ?thesis
      by (subst heap_mem_fit.simps, simp, subst heap_mem_fit.simps, simp)
  next
    case (Cons b bs)
    have l: "unat a + 16 + unat (m_size m a) \<le> unat b" "laid m (unat a + 16 + unat (m_size m a)) as hi"
      using Cons.prems Cons by auto
    then have b0: "b \<noteq> 0" by auto
    have "unat (a + 16 + m_size m a) = unat a + 16 + unat (m_size m a)"
      using l(1) unat_u32_less [of b] by (simp add: unat_word_ariths)
    then have d: "unat (b - (a + 16 + m_size m a)) = unat b - (unat a + 16 + unat (m_size m a))"
      using l(1) by (simp add: unat_sub word_le_nat_alt)
    show ?thesis
    proof (cases "sz \<le> b - (a + 16 + m_size m a)")
      case True
      then have "unat sz \<le> unat b - (unat a + 16 + unat (m_size m a))" using d by (simp add: word_le_nat_alt)
      then have "unat a + 16 + unat (m_size m a) + unat sz \<le> unat b" using l(1) by simp
      moreover have "heap_mem_fit m a sz = Some a"
        using True Cons.prems Cons a0 b0 by (subst heap_mem_fit.simps) auto
      ultimately show ?thesis using Cons
        by (intro exI [of _ a]) (auto intro!: exI [of _ "[]"])
    next
      case False
      have f: "heap_mem_fit m a sz = heap_mem_fit m b sz"
        using False Cons.prems Cons a0 b0 by (subst heap_mem_fit.simps) auto
      from Cons.IH [of a "unat a + 16 + unat (m_size m a)"] Cons.prems Cons l(2) obtain r where
        r: "heap_mem_fit m b sz = Some r"
          "r = 0 \<or> (\<exists>us v vs. as = us @ r # v # vs \<and> unat r + 16 + unat (m_size m r) + unat sz \<le> unat v)" by auto
      from r(2) have "r = 0 \<or> (\<exists>us v vs. a # as = us @ r # v # vs \<and> unat r + 16 + unat (m_size m r) + unat sz \<le> unat v)"
        by (metis append_Cons)
      with r(1) f show ?thesis by auto
    qed
  qed
qed simp

definition alloc_ok :: "u32 list \<Rightarrow> alloc_state \<Rightarrow> u32 \<Rightarrow> u32 \<Rightarrow> alloc_state \<Rightarrow> bool" where
  "alloc_ok bs s sz p s' \<longleftrightarrow> p \<noteq> 0 \<and> alloc_sema s' \<noteq> Some True \<and> keeps bs (amem s) (amem s') \<and>
     (\<exists>us vs. bs = us @ vs \<and> heap_inv (us @ (p - HEADER) # vs) s') \<and>
     unat sz \<le> unat (m_size (amem s') (p - HEADER)) \<and> heap_end s' = heap_end s"

lemma unlock_simps [simp]:
  "amem (alloc_unlock s) = amem s" "heap_ptr (alloc_unlock s) = heap_ptr s"
  "heap_base (alloc_unlock s) = heap_base s" "heap_head (alloc_unlock s) = heap_head s"
  "heap_tail (alloc_unlock s) = heap_tail s" "heap_end (alloc_unlock s) = heap_end s"
  "alloc_sema (alloc_unlock s) \<noteq> Some True" "heap_inv bs (alloc_unlock s) = heap_inv bs s"
  "base_of (alloc_unlock s) = base_of s"
  by (auto simp: alloc_unlock_def heap_inv_def base_of_def split: option.splits)

lemma heap_bounds:
  assumes "heap_inv bs s"
  shows "unat (heap_ptr s) < 4294967296" "0 < unat (base_of s)" "unat (heap_ptr s) \<le> unat (heap_end s)"
  using assms unat_u32_less [of "heap_ptr s"]
  by (auto simp: heap_inv_def word_le_nat_alt unat_gt_0)

text \<open>A state whose memory has a new header between \<open>us\<close> and \<open>vs\<close> and whose other fields fit it.\<close>

lemma insert_state:
  assumes inv: "heap_inv (us @ vs) s" and s': "amem s' = link_mem us n n vs (put_mem us n (msz - HEADER) vs (amem s))"
      "heap_base s' = base_of s" "heap_end s' = heap_end s" "heap_head s' = hd0 (us @ n # vs)"
      "heap_tail s' = last0 (us @ n # vs)" "alloc_sema s' \<noteq> Some True"
    and hp: "heap_ptr s \<le> heap_ptr s'" "heap_ptr s' \<le> heap_end s" "unat (heap_ptr s') mod 16 = 0"
    and n: "top_of (amem s) (unat (base_of s)) us \<le> unat n" "unat n mod 16 = 0"
      "unat n + unat msz \<le> (if vs = [] then unat (heap_ptr s') else unat (hd vs))"
    and msz: "unat msz mod 16 = 0" "unat sz + 16 \<le> unat msz"
  shows "alloc_ok (us @ vs) s sz (n + HEADER) s'"
proof -
  have u: "unat (msz - 16) = unat msz - 16" using msz(2) by (simp add: unat_sub word_le_nat_alt)
  from inv have B: "blocks (amem s) 0 (us @ vs) 0" and L: "laid (amem s) (unat (base_of s)) (us @ vs) (unat (heap_ptr s))"
    by (auto simp: heap_inv_def)
  have I: "unat (heap_ptr s) \<le> unat (heap_ptr s')" using hp(1) by (simp add: word_le_nat_alt)
  have sz16: "unat (msz - 16) mod 16 = 0" using u msz by presburger
  have fit: "unat n + 16 + unat (msz - 16) \<le> (if vs = [] then unat (heap_ptr s') else unat (hd vs))"
    using n(3) u msz(2) by simp
  note ib = insert_block [OF B L I unat_u32_less n(1,2) sz16 fit]
  have n0: "n \<noteq> 0"
    using n(1) laid_le_top [of "amem s" "unat (base_of s)" us] L heap_bounds(2) [OF inv]
    by (force simp: laid_append)
  have "heap_base s' \<noteq> 0" "base_of s' = base_of s" using s'(2) heap_bounds(2) [OF inv] by (auto simp: base_of_def)
  moreover have "unat n + 16 < 4294967296"
    using fit unat_u32_less [of "heap_ptr s'"] unat_u32_less [of "hd vs"] by (auto split: if_splits)
  then have "n + 16 \<noteq> 0" using unat_add_small [of n 16] by (metis add_is_0 of_nat_numeral unat_0 zero_neq_numeral)
  ultimately show ?thesis
    using ib s' hp inv u msz(2) by (auto simp: alloc_ok_def heap_inv_def)
qed

lemma sbrk_grow:
  assumes "heap_inv bs s" "unat (heap_end s) + unat n < 4294967296" "0 < unat n"
  shows "alloc_sbrk n s = (if unat (heap_ptr s) + unat n \<le> unat (heap_end s)
      then (heap_ptr s, s\<lparr>heap_ptr := heap_ptr s + n\<rparr>) else (-1, s))"
    "unat (heap_ptr s + n) = unat (heap_ptr s) + unat n" "heap_ptr s \<noteq> -1"
proof -
  show u: "unat (heap_ptr s + n) = unat (heap_ptr s) + unat n"
    using assms(2) heap_bounds(3) [OF assms(1)] by (simp add: unat_word_ariths)
  show "alloc_sbrk n s = (if unat (heap_ptr s) + unat n \<le> unat (heap_end s)
      then (heap_ptr s, s\<lparr>heap_ptr := heap_ptr s + n\<rparr>) else (-1, s))"
    using assms(3) u by (auto simp: alloc_sbrk_def word_le_nat_alt)
  have "unat (- 1 :: u32) mod 16 = 15" by (simp add: unsigned_minus_1_eq_mask mask_eq_exp_minus_1)
  moreover have "unat (heap_ptr s) mod 16 = 0" using assms(1) by (simp add: heap_inv_def)
  ultimately show "heap_ptr s \<noteq> -1" by auto
qed

lemma put_header_mem:
  "amem (put_header a sz pv nx s) = set_next a nx (set_prev a pv (set_size a sz (set_ptr a (a + HEADER) (amem s))))"
  "heap_ptr (put_header a sz pv nx s) = heap_ptr s" "heap_end (put_header a sz pv nx s) = heap_end s"
  "heap_base (put_header a sz pv nx s) = heap_base s" "heap_head (put_header a sz pv nx s) = heap_head s"
  "heap_tail (put_header a sz pv nx s) = heap_tail s" "alloc_sema (put_header a sz pv nx s) = alloc_sema s"
  by (simp_all add: put_header_def upd_mem_def)

lemma upd_mem_simps [simp]:
  "amem (upd_mem f s) = f (amem s)" "heap_ptr (upd_mem f s) = heap_ptr s" "heap_end (upd_mem f s) = heap_end s"
  "heap_base (upd_mem f s) = heap_base s" "heap_head (upd_mem f s) = heap_head s"
  "heap_tail (upd_mem f s) = heap_tail s" "alloc_sema (upd_mem f s) = alloc_sema s"
  by (simp_all add: upd_mem_def)

lemma malloc_first_ok:
  assumes inv: "heap_inv [] s" and msz: "unat msz mod 16 = 0" "unat sz + 16 \<le> unat msz"
    and big: "unat (heap_end s) + unat msz < 4294967296" and run: "malloc_first msz s = (p, s')"
  shows "p = 0 \<and> heap_inv [] s' \<and> amem s' = amem s \<and> heap_end s' = heap_end s \<or> alloc_ok [] s sz p s'"
proof -
  let ?s = "s\<lparr>heap_base := base_of s\<rparr>"
  have "heap_ptr s AND 15 = 0"
    using inv and_15 [of "heap_ptr s"] by (metis heap_inv_def unat_eq_0)
  then have b: "(if heap_base s = 0
      then let s = snd (alloc_sbrk (fst (alloc_sbrk 0 s) AND (DEFAULT_ALIGNMENT - 1)) s)
           in s\<lparr>heap_base := fst (alloc_sbrk 0 s)\<rparr> else s) = ?s"
    by (simp add: alloc_sbrk_def base_of_def)
  have inv': "heap_inv [] ?s" using inv by (auto simp: heap_inv_def base_of_def)
  from sbrk_grow [OF inv', of msz] big msz have g: "alloc_sbrk msz ?s =
      (if unat (heap_ptr s) + unat msz \<le> unat (heap_end s)
       then (heap_ptr s, ?s\<lparr>heap_ptr := heap_ptr s + msz\<rparr>) else (-1, ?s))"
    "unat (heap_ptr s + msz) = unat (heap_ptr s) + unat msz" "heap_ptr s \<noteq> -1" by auto
  show ?thesis
  proof (cases "unat (heap_ptr s) + unat msz \<le> unat (heap_end s)")
    case False
    with run g inv' have "p = 0" "s' = ?s" unfolding malloc_first_def b by auto
    with inv' show ?thesis by simp
  next
    case True
    with run g have "p = heap_ptr s + HEADER"
      and s': "s' = alloc_unlock ((put_header (heap_ptr s) (msz - HEADER) 0 0 (?s\<lparr>heap_ptr := heap_ptr s + msz\<rparr>))
        \<lparr>heap_head := heap_ptr s, heap_tail := heap_ptr s\<rparr>)" unfolding malloc_first_def b by auto
    moreover have "alloc_ok ([] @ []) s sz (heap_ptr s + HEADER) s'"
      by (rule insert_state [where n = "heap_ptr s" and msz = msz])
        (use inv True g msz in \<open>auto simp: s' put_header_mem link_mem_def put_mem_def hd0_def last0_def
          word_le_nat_alt heap_inv_def mod_add_eq [symmetric, of _ "unat msz"]\<close>)
    ultimately show ?thesis by simp
  qed
qed

lemma laid_nonzero: "laid m lo bs hi \<Longrightarrow> 0 < lo \<Longrightarrow> a \<in> set bs \<Longrightarrow> a \<noteq> 0"
  using laid_range [of m lo bs hi a] by auto

lemma malloc_bottom_ok:
  assumes inv: "heap_inv (v # vs) s" and msz: "unat msz mod 16 = 0" "unat sz + 16 \<le> unat msz"
    and fit: "unat (heap_base s) + unat msz \<le> unat v" and run: "malloc_bottom msz s = (p, s')"
  shows "alloc_ok (v # vs) s sz p s'"
proof -
  let ?n = "heap_base s"
  have b: "base_of s = ?n" "?n \<noteq> 0" "unat ?n mod 16 = 0" "heap_head s = v"
    using inv by (auto simp: heap_inv_def base_of_def hd0_def)
  have L: "laid (amem s) (unat ?n) (v # vs) (unat (heap_ptr s))" using inv b(1) by (simp add: heap_inv_def)
  have sp: "sep ?n v" "unat ?n \<le> 4294967280"
    using fit msz laid_own [OF L unat_u32_less, of v] by (auto simp: sep_def)
  have p: "p = ?n + HEADER" "s' = alloc_unlock ((upd_mem (set_prev v ?n)
      (put_header ?n (msz - HEADER) 0 v s))\<lparr>heap_head := ?n\<rparr>)"
    using run b(4) sp by (auto simp: malloc_bottom_def Let_def put_header_mem)
  have "alloc_ok ([] @ (v # vs)) s sz (?n + HEADER) s'"
    by (rule insert_state [where n = ?n and msz = msz])
      (use inv b fit msz in \<open>auto simp: p(2) put_header_mem link_mem_def put_mem_def hd0_def last0_def heap_inv_def\<close>)
  then show ?thesis using p(1) by simp
qed

lemma malloc_after_ok:
  assumes inv: "heap_inv (us @ r # v # vs) s" and msz: "unat msz mod 16 = 0" "unat sz + 16 \<le> unat msz"
    and fit: "unat r + 16 + unat (m_size (amem s) r) + unat msz \<le> unat v"
    and run: "malloc_after r msz s = (p, s')"
  shows "alloc_ok (us @ r # v # vs) s sz p s'"
proof -
  let ?n = "r + 16 + m_size (amem s) r"
  from inv have L: "laid (amem s) (unat (base_of s)) (us @ r # v # vs) (unat (heap_ptr s))"
    and B: "blocks (amem s) 0 (us @ r # v # vs) 0" by (auto simp: heap_inv_def)
  have hb: "heap_base s = base_of s" using inv by (auto simp: heap_inv_def base_of_def)
  have n: "unat ?n = unat r + 16 + unat (m_size (amem s) r)"
    using fit unat_u32_less [of v] by (simp add: unat_word_ariths)
  have r: "m_ptr (amem s) r = r + 16" "m_next (amem s) r = v" "unat r mod 16 = 0" "unat (m_size (amem s) r) mod 16 = 0"
    using B L by (auto simp: blocks_append laid_append)
  have sp: "sep ?n v" "sep ?n r" "unat ?n \<le> 4294967280" "sep r v"
    using n fit msz laid_own [OF L unat_u32_less, of v] laid_own [OF L unat_u32_less, of r]
      laid_pair [OF L unat_u32_less, of r v] laid_distinct [OF L] by (auto simp: sep_def)
  have p: "p = ?n + HEADER" "s' = alloc_unlock (upd_mem (set_next r ?n) (upd_mem (set_prev v ?n)
      (put_header ?n (msz - HEADER) r v s)))"
    using run r sp by (auto simp: malloc_after_def Let_def put_header_mem)
  have "alloc_ok ((us @ [r]) @ (v # vs)) s sz (?n + HEADER) s'"
  proof (rule insert_state [where n = ?n and msz = msz])
    show "top_of (amem s) (unat (base_of s)) (us @ [r]) \<le> unat ?n"
      using n top_of_snoc [of "amem s" _ us r] by simp
    show "unat ?n mod 16 = 0" using n r(3,4) by presburger
  qed (use inv hb n fit msz in \<open>auto simp: p(2) put_header_mem link_mem_def put_mem_def hd0_def last0_def
      heap_inv_def hd_append\<close>)
  then show ?thesis using p(1) by simp
qed

lemma malloc_end_ok:
  assumes inv: "heap_inv bs s" "bs \<noteq> []" and msz: "unat msz mod 16 = 0" "unat sz + 16 \<le> unat msz"
    and big: "unat (heap_end s) + unat msz < 4294967296" and run: "malloc_end msz s = (p, s')"
  shows "p = 0 \<and> heap_inv bs s' \<and> amem s' = amem s \<and> heap_end s' = heap_end s \<and> alloc_sema s' \<noteq> Some True \<or>
    alloc_ok bs s sz p s'"
proof -
  have hb: "heap_base s = base_of s" using inv by (auto simp: heap_inv_def base_of_def)
  have t: "heap_tail s = last bs" using inv by (auto simp: heap_inv_def last0_def)
  from sbrk_grow [OF inv(1), of msz] big msz have g: "alloc_sbrk msz s =
      (if unat (heap_ptr s) + unat msz \<le> unat (heap_end s)
       then (heap_ptr s, s\<lparr>heap_ptr := heap_ptr s + msz\<rparr>) else (-1, s))"
    "unat (heap_ptr s + msz) = unat (heap_ptr s) + unat msz" "heap_ptr s \<noteq> -1" by auto
  from inv have L: "laid (amem s) (unat (base_of s)) bs (unat (heap_ptr s))" by (simp add: heap_inv_def)
  show ?thesis
  proof (cases "unat (heap_ptr s) + unat msz \<le> unat (heap_end s)")
    case False
    with run g inv(1) show ?thesis by (auto simp: malloc_end_def)
  next
    case True
    with run g t have p: "p = heap_ptr s + HEADER" "s' = alloc_unlock ((upd_mem (set_next (last bs) (heap_ptr s))
        (put_header (heap_ptr s) (msz - HEADER) (last bs) 0 (s\<lparr>heap_ptr := heap_ptr s + msz\<rparr>)))
        \<lparr>heap_tail := heap_ptr s\<rparr>)" by (auto simp: malloc_end_def Let_def put_header_mem)
    have "alloc_ok (bs @ []) s sz (heap_ptr s + HEADER) s'"
    proof (rule insert_state [where n = "heap_ptr s" and msz = msz])
      show "top_of (amem s) (unat (base_of s)) bs \<le> unat (heap_ptr s)" using laid_le_top [OF L] by simp
      have "unat (heap_ptr s) mod 16 = 0" using inv(1) by (simp add: heap_inv_def)
      then have "(unat (heap_ptr s) + unat msz) mod 16 = 0" using msz(1) by presburger
      then show "unat (heap_ptr s') mod 16 = 0" using g(2) by (simp add: p(2) put_header_mem)
    qed (use inv hb True g msz in \<open>auto simp: p(2) put_header_mem link_mem_def put_mem_def hd0_def last0_def
        heap_inv_def word_le_nat_alt\<close>)
    then show ?thesis using p(1) by simp
  qed
qed

lemma heap_invD:
  assumes "heap_inv bs s"
  shows "blocks (amem s) 0 bs 0" "laid (amem s) (unat (base_of s)) bs (unat (heap_ptr s))"
    "heap_head s = hd0 bs" "heap_tail s = last0 bs" "bs \<noteq> [] \<Longrightarrow> base_of s = heap_base s"
    "unat (base_of s) \<le> unat (heap_end s)" "a \<in> set bs \<Longrightarrow> a \<noteq> 0"
proof -
  show b: "blocks (amem s) 0 bs 0" and l: "laid (amem s) (unat (base_of s)) bs (unat (heap_ptr s))"
    and "heap_head s = hd0 bs" "heap_tail s = last0 bs" using assms by (simp_all add: heap_inv_def)
  show "bs \<noteq> [] \<Longrightarrow> base_of s = heap_base s" using assms by (auto simp: heap_inv_def base_of_def)
  show "unat (base_of s) \<le> unat (heap_end s)"
    using laid_le_top [OF l] heap_bounds(3) [OF assms] by linarith
  show "a \<in> set bs \<Longrightarrow> a \<noteq> 0" using laid_nonzero [OF l heap_bounds(2) [OF assms]] by blast
qed

lemma lock_ok:
  assumes "alloc_sema s \<noteq> Some True"
  obtains t where "alloc_lock s = Some t" "t = s\<lparr>alloc_sema := alloc_sema t\<rparr>"
    "alloc_sema s = None \<Longrightarrow> alloc_sema t = None"
proof (cases "alloc_sema s")
  case None
  then show ?thesis using that [of s] by (simp add: alloc_lock_def)
next
  case (Some b)
  with assms show ?thesis using that [of "s\<lparr>alloc_sema := Some True\<rparr>"] by (simp add: alloc_lock_def)
qed

lemma sema_inv [simp]: "heap_inv bs (s\<lparr>alloc_sema := x\<rparr>) = heap_inv bs s"
  by (simp add: heap_inv_def base_of_def)

lemma malloc_cases:
  assumes inv: "heap_inv bs s" and free: "alloc_sema s \<noteq> Some True"
    and big: "unat (heap_end s) + unat sz + 32 \<le> 4294967296"
  shows "\<exists>p s'. malloc sz s = Some (p, s') \<and>
    (p = 0 \<and> heap_inv bs s' \<and> amem s' = amem s \<and> heap_end s' = heap_end s \<and>
       (bs \<noteq> [] \<longrightarrow> alloc_sema s' \<noteq> Some True) \<or> alloc_ok bs s sz p s')"
proof -
  let ?m = "mem_sz_of sz"
  from big have "unat sz + 31 < 4294967296" by simp
  note m = mem_sz_of_unat [OF this]
  have big': "unat (heap_end s) + unat ?m < 4294967296" using big m(3) by linarith
  obtain t where l: "alloc_lock s = Some t" and t: "t = s\<lparr>alloc_sema := alloc_sema t\<rparr>"
    using lock_ok [OF free] by blast
  from t have f: "amem t = amem s" "heap_end t = heap_end s" "heap_head t = heap_head s" "heap_base t = heap_base s"
    "heap_inv bs t" using inv by (metis alloc_state.simps sema_inv alloc_state.surjective alloc_state.update_convs(1))+
  have ok: "alloc_ok bs t sz p s' = alloc_ok bs s sz p s'" for p s' using f(1,2) by (simp add: alloc_ok_def)
  show ?thesis
  proof (cases bs)
    case Nil
    obtain p s' where r: "malloc_first ?m t = (p, s')" by fastforce
    have "heap_head s = 0" using heap_invD(3) [OF inv] Nil by (simp add: hd0_def)
    then have "malloc sz s = Some (p, s')" using l f(3) r by (simp add: malloc_def Let_def)
    moreover from malloc_first_ok [of t ?m sz p s'] m big' r f Nil
    have "p = 0 \<and> heap_inv [] s' \<and> amem s' = amem s \<and> heap_end s' = heap_end s \<or> alloc_ok [] t sz p s'" by simp
    ultimately show ?thesis using ok Nil by blast
  next
    case (Cons v vs)
    then have h: "heap_head s = v" "v \<noteq> 0" "base_of s = heap_base s"
      using heap_invD(3,5,7) [OF inv] by (simp_all add: hd0_def)
    have "unat (heap_base s) + unat ?m < 4294967296" using heap_invD(6) [OF inv] h(3) big' by simp
    then have nw: "unat (heap_base s + ?m) = unat (heap_base s) + unat ?m" by (simp add: unat_word_ariths)
    show ?thesis
    proof (cases "heap_base s + ?m < v")
      case True
      obtain p s' where r: "malloc_bottom ?m t = (p, s')" by fastforce
      have "malloc sz s = Some (p, s')" using True l f h r by (simp add: malloc_def Let_def)
      moreover have "unat (heap_base t) + unat ?m \<le> unat v" using True nw f(4) by (simp add: word_less_nat_alt)
      then have "alloc_ok bs t sz p s'" using malloc_bottom_ok [OF _ m(1,2) _ r] f(5) Cons by blast
      ultimately show ?thesis using ok by blast
    next
      case False
      have "0 < unat (base_of t)" by (rule heap_bounds(2) [OF f(5)])
      from fit_spec [OF heap_invD(1,2) [OF f(5)] unat_u32_less this, of ?m] Cons obtain r where
        r: "heap_mem_fit (amem t) v ?m = Some r" "r = 0 \<or> (\<exists>us w ws. bs = us @ r # w # ws \<and>
           unat r + 16 + unat (m_size (amem t) r) + unat ?m \<le> unat w)" by auto
      have run: "malloc sz s = Some (if r \<noteq> 0 then malloc_after r ?m t else malloc_end ?m t)"
        using False l f h r(1) by (simp add: malloc_def Let_def)
      show ?thesis
      proof (cases "r = 0")
        case True
        obtain p s' where e: "malloc_end ?m t = (p, s')" by fastforce
        from malloc_end_ok [OF f(5) _ m(1,2) _ e] big' f(1,2) Cons
        have "p = 0 \<and> heap_inv bs s' \<and> amem s' = amem s \<and> heap_end s' = heap_end s \<and> alloc_sema s' \<noteq> Some True \<or>
          alloc_ok bs t sz p s'" by simp
        with run True e ok show ?thesis by auto
      next
        case r0: False
        with r(2) obtain us w ws where bs: "bs = us @ r # w # ws"
          "unat r + 16 + unat (m_size (amem t) r) + unat ?m \<le> unat w" by blast
        obtain p s' where e: "malloc_after r ?m t = (p, s')" by fastforce
        have "alloc_ok bs t sz p s'" using malloc_after_ok [OF _ m(1,2) bs(2) e] f(5) bs(1) by blast
        with run r0 e ok show ?thesis by auto
      qed
    qed
  qed
qed

section \<open>Release\<close>

lemma free_search_spec:
  "blocks m pv bs 0 \<Longrightarrow> (\<And>a. a \<in> set bs \<Longrightarrow> a \<noteq> 0) \<Longrightarrow> bs \<noteq> [] \<Longrightarrow>
     free_search m p (hd bs) = Some (if p - HEADER \<in> set bs then p - HEADER else 0)"
proof (induction bs arbitrary: pv)
  case (Cons a as)
  have e: "p = a + 16 \<longleftrightarrow> p - 16 = a" by (auto simp: algebra_simps)
  show ?case
  proof (cases "p = a + 16")
    case True
    with Cons.prems show ?thesis by (subst free_search.simps) simp
  next
    case False
    show ?thesis
    proof (cases as)
      case Nil
      with False Cons.prems e show ?thesis by (subst free_search.simps) simp
    next
      case (Cons b bs)
      with False Cons.prems e have "free_search m p a = free_search m p b"
        by (subst free_search.simps) simp
      with Cons.IH [of a] Cons.prems Cons False e show ?thesis by auto
    qed
  qed
qed simp

definition free_ok :: "u32 list \<Rightarrow> alloc_state \<Rightarrow> alloc_state \<Rightarrow> bool" where
  "free_ok bs s s' \<longleftrightarrow> heap_inv bs s' \<and> keeps bs (amem s) (amem s') \<and> alloc_sema s' \<noteq> Some True \<and>
     heap_end s' = heap_end s"

lemma sbrk_0: "fst (alloc_sbrk 0 s) = heap_ptr s"
  by (simp add: alloc_sbrk_def)

lemma sbrk_shrink:
  assumes "unat k \<le> unat (heap_ptr s)" "heap_ptr s \<le> heap_end s"
  shows "snd (alloc_sbrk (- k) s) = s\<lparr>heap_ptr := heap_ptr s - k\<rparr>" "unat (heap_ptr s - k) = unat (heap_ptr s) - unat k"
proof -
  show u: "unat (heap_ptr s - k) = unat (heap_ptr s) - unat k" using assms(1) by (simp add: unat_sub word_le_nat_alt)
  have "heap_ptr s - k \<le> heap_end s" using u assms by (simp add: word_le_nat_alt)
  then show "snd (alloc_sbrk (- k) s) = s\<lparr>heap_ptr := heap_ptr s - k\<rparr>" by (auto simp: alloc_sbrk_def Let_def)
qed

lemma remove_state:
  assumes inv: "heap_inv (us @ c # vs) s" and s': "amem s' = link_mem us (last0 us) (hd0 vs) vs (amem s)"
      "heap_base s' = heap_base s" "heap_end s' = heap_end s" "heap_head s' = hd0 (us @ vs)"
      "heap_tail s' = last0 (us @ vs)" "alloc_sema s' \<noteq> Some True"
    and hp: "vs \<noteq> [] \<Longrightarrow> heap_ptr s' = heap_ptr s" "heap_ptr s' \<le> heap_end s" "unat (heap_ptr s') mod 16 = 0"
      "vs = [] \<Longrightarrow> top_of (amem s) (unat (base_of s)) us \<le> unat (heap_ptr s')"
  shows "free_ok (us @ vs) s s'"
proof -
  note D = heap_invD [OF inv]
  note R = remove_block [OF D(1,2) unat_u32_less]
  have b: "base_of s' = base_of s" "heap_base s' \<noteq> 0" "base_of s \<noteq> 0" "unat (base_of s) mod 16 = 0"
    using inv s'(2) by (auto simp: heap_inv_def base_of_def)
  have "laid (amem s') (unat (base_of s')) (us @ vs) (unat (heap_ptr s'))"
    using R(2,3) s'(1) b(1) hp by (cases "vs = []") auto
  then show ?thesis
    using R(1,4) s' b hp(2,3) by (simp add: free_ok_def heap_inv_def)
qed

lemma free_head_ok:
  assumes inv: "heap_inv (c # vs) s"
  shows "free_ok vs s (free_head s)"
proof -
  note D = heap_invD [OF inv]
  have c: "heap_head s = c" "m_ptr (amem s) c = c + 16" "m_next (amem s) c = hd0 vs"
    using D(1,3) by (auto simp: hd0_def)
  have "free_ok ([] @ vs) s (free_head s)"
  proof (cases "vs = []")
    case False
    then have n: "hd vs \<noteq> 0" using D(7) [of "hd vs"] by simp
    show ?thesis
      by (rule remove_state [of "[]" c])
        (use inv False n c in \<open>auto simp: free_head_def Let_def link_mem_def last0_def hd0_def heap_inv_def\<close>)
  next
    case True
    let ?k = "m_size (amem s) c + 16"
    have l: "unat (base_of s) \<le> unat c" "unat c + 16 + unat (m_size (amem s) c) \<le> unat (heap_ptr s)"
      "unat (m_size (amem s) c) mod 16 = 0" using D(2) True by auto
    then have k: "unat ?k = unat (m_size (amem s) c) + 16"
      using unat_u32_less [of "heap_ptr s"] by (simp add: unat_word_ariths)
    have hp: "heap_ptr s \<le> heap_end s" "unat (heap_ptr s) mod 16 = 0" using inv by (auto simp: heap_inv_def)
    let ?t = "s\<lparr>heap_head := 0, heap_tail := 0\<rparr>"
    from sbrk_shrink [of ?k ?t] l k hp(1) have sh:
      "snd (alloc_sbrk (- ?k) ?t) = ?t\<lparr>heap_ptr := heap_ptr s - ?k\<rparr>"
      "unat (heap_ptr s - ?k) = unat (heap_ptr s) - unat ?k" by auto
    have fh: "free_head s = alloc_unlock (?t\<lparr>heap_ptr := heap_ptr s - ?k\<rparr>)"
      using c True sh(1) by (simp add: free_head_def Let_def hd0_def)
    have "unat (heap_ptr s - ?k) mod 16 = 0" using sh(2) k l(2,3) hp(2) by presburger
    then show ?thesis unfolding fh
      by (intro remove_state [of "[]" c])
        (use inv True sh(2) k l hp in \<open>auto simp: link_mem_def hd0_def last0_def word_le_nat_alt\<close>)
  qed
  then show ?thesis by simp
qed

lemma free_inner_ok:
  assumes inv: "heap_inv (us @ c # vs) s" and us: "us \<noteq> []"
  shows "free_ok (us @ vs) s (free_inner c s)"
proof -
  note D = heap_invD [OF inv]
  have c: "m_prev (amem s) c = last us" "m_next (amem s) c = hd0 vs"
    using D(1) us by (auto simp: blocks_append hd0_def)
  have S: "spaced (us @ c # vs)" by (rule laid_spaced [OF D(2) unat_u32_less])
  show ?thesis
  proof (cases "vs = []")
    case False
    then have n: "hd vs \<noteq> 0" "hd vs \<in> set vs" using D(7) [of "hd vs"] by auto
    have "sep (hd vs) c" using spacedD(3) [OF S, of "hd vs" c] spacedD(1) [OF S] n by auto
    then have f: "free_inner c s = alloc_unlock (upd_mem (set_next (last us) (hd vs)) (upd_mem (set_prev (hd vs) (last us)) s))"
      using False n c by (simp add: free_inner_def Let_def hd0_def)
    show ?thesis unfolding f
      by (rule remove_state [of us c])
        (use inv False us in \<open>auto simp: link_mem_def last0_def hd0_def heap_inv_def hd_append\<close>)
  next
    case True
    let ?l = "last us"
    let ?e = "m_ptr (amem s) ?l + m_size (amem s) ?l"
    obtain ws where ws: "us = ws @ [?l]" using us by (metis append_butlast_last_id)
    have l: "m_ptr (amem s) ?l = ?l + 16" using blocks_ptr [OF D(1), of ?l] us by simp
    have t: "top_of (amem s) (unat (base_of s)) us = unat ?l + 16 + unat (m_size (amem s) ?l)"
      using ws top_of_snoc by metis
    have le: "unat ?l + 16 + unat (m_size (amem s) ?l) \<le> unat (heap_ptr s)" "unat ?l mod 16 = 0"
      "unat (m_size (amem s) ?l) mod 16 = 0"
    proof -
      from D(2) True have "laid (amem s) (unat (base_of s)) us (top_of (amem s) (unat (base_of s)) us)"
        "laid (amem s) (top_of (amem s) (unat (base_of s)) us) [c] (unat (heap_ptr s))" by (auto simp: laid_append)
      with t show "unat ?l + 16 + unat (m_size (amem s) ?l) \<le> unat (heap_ptr s)" by simp
      from D(2) show "unat ?l mod 16 = 0" "unat (m_size (amem s) ?l) mod 16 = 0"
        by (subst (asm) ws, auto simp: laid_append)+
    qed
    have e: "unat ?e = unat ?l + 16 + unat (m_size (amem s) ?l)"
      using l le(1) unat_u32_less [of "heap_ptr s"] by (simp add: unat_word_ariths)
    have hp: "heap_ptr s \<le> heap_end s" using inv by (simp add: heap_inv_def)
    let ?t = "s\<lparr>heap_tail := ?l\<rparr>"
    have k: "unat (heap_ptr s - ?e) = unat (heap_ptr s) - unat ?e" using e le(1) by (simp add: unat_sub word_le_nat_alt)
    from sbrk_shrink [of "heap_ptr s - ?e" ?t] k hp have sh:
      "snd (alloc_sbrk (- (heap_ptr s - ?e)) ?t) = ?t\<lparr>heap_ptr := ?e\<rparr>" by auto
    have f: "free_inner c s = alloc_unlock (upd_mem (set_next ?l 0) (?t\<lparr>heap_ptr := ?e\<rparr>))"
      using True c sh sbrk_0 [of s] by (simp add: free_inner_def Let_def hd0_def)
    have "unat ?e mod 16 = 0" using e le by presburger
    moreover have "?e \<le> heap_end s" using e le(1) hp by (simp add: word_le_nat_alt)
    ultimately show ?thesis unfolding f
      by (intro remove_state [of us c])
        (use inv True us t e in \<open>auto simp: link_mem_def hd0_def last0_def heap_inv_def\<close>)
  qed
qed

lemma free_cases:
  assumes inv: "heap_inv bs s" and free: "alloc_sema s \<noteq> Some True" and p: "p \<noteq> 0"
  shows "p - HEADER \<in> set bs \<Longrightarrow> \<exists>us vs s'. bs = us @ (p - HEADER) # vs \<and> free p s = Some s' \<and> free_ok (us @ vs) s s'"
    "p - HEADER \<notin> set bs \<Longrightarrow> \<exists>s'. free p s = Some s' \<and> free_ok bs s s' \<and> amem s' = amem s"
proof -
  obtain t where l: "alloc_lock s = Some t" and t: "t = s\<lparr>alloc_sema := alloc_sema t\<rparr>"
    using lock_ok [OF free] by blast
  from t have f: "amem t = amem s" "heap_end t = heap_end s" "heap_head t = heap_head s" "heap_inv bs t"
    using inv by (metis alloc_state.simps sema_inv alloc_state.surjective alloc_state.update_convs(1))+
  note D = heap_invD [OF f(4)]
  have ok: "free_ok cs t s' = free_ok cs s s'" for cs s' using f(1,2) by (simp add: free_ok_def)
  have un: "free_ok bs t (alloc_unlock t)" using f(4) by (simp add: free_ok_def keeps_def)
  have run: "free p s = (if bs = [] then Some (alloc_unlock t) else if p - 16 = hd bs then Some (free_head t)
      else Some (if p - 16 \<in> set bs then free_inner (p - 16) t else alloc_unlock t))"
  proof (cases bs)
    case Nil
    with D(3) p l show ?thesis by (simp add: free_def hd0_def)
  next
    case (Cons a as)
    have "p = a + 16 \<longleftrightarrow> p - 16 = a" by (auto simp: algebra_simps)
    moreover have "heap_head t = a" "a \<noteq> 0" "m_ptr (amem t) a = a + 16" "0 \<notin> set bs"
      using Cons D(1,3) D(7) by (auto simp: hd0_def)
    moreover have "free_search (amem t) p a = Some (if p - 16 \<in> set bs then p - 16 else 0)"
      using free_search_spec [OF D(1,7), of p] Cons by simp
    ultimately show ?thesis using p l Cons by (auto simp: free_def)
  qed
  show "p - HEADER \<notin> set bs \<Longrightarrow> \<exists>s'. free p s = Some s' \<and> free_ok bs s s' \<and> amem s' = amem s"
    using run un ok f(1) by (cases bs) auto
  assume in_bs: "p - HEADER \<in> set bs"
  then obtain us vs where bs: "bs = us @ (p - 16) # vs" by (auto simp: in_set_conv_decomp)
  show "\<exists>us vs s'. bs = us @ (p - HEADER) # vs \<and> free p s = Some s' \<and> free_ok (us @ vs) s s'"
  proof (cases "us = []")
    case True
    with run bs have "free p s = Some (free_head t)" by simp
    moreover have "free_ok vs t (free_head t)" using free_head_ok f(4) bs True by simp
    ultimately show ?thesis using bs True ok by (intro exI [of _ "[]"] exI [of _ vs] exI [of _ "free_head t"]) simp
  next
    case False
    have "distinct bs" by (rule laid_distinct [OF D(2)])
    with False bs have "p - 16 \<noteq> hd bs" by (cases us) auto
    with run bs have "free p s = Some (free_inner (p - 16) t)" by simp
    moreover have "free_ok (us @ vs) t (free_inner (p - 16) t)" using free_inner_ok f(4) bs False by blast
    ultimately show ?thesis using bs ok by blast
  qed
qed

section \<open>The properties of the heap\<close>


text \<open>The heap after the module has started with 128 KiB at address 0x10000.\<close>

definition started :: alloc_state where
  "started = snd (alloc_start 0 None (\<lambda>_. 0x10000) 1
     \<lparr>alloc_sema = None, heap_size = 0x20000, heap_start = 0, heap_end = 0, heap_ptr = 0, heap_base = 0,
      heap_head = 0, heap_tail = 0, amem = (\<lambda>_. 0)\<rparr>)"

lemma started_inv: "heap_inv [] started" "alloc_sema started = Some False" "heap_end started = 0x30000"
  by (simp_all add: started_def alloc_start_def Let_def heap_inv_def base_of_def hd0_def last0_def word_le_nat_alt)


text \<open>
  (C6) \<open>free\<close> is right for every heap: for the memory of a block it takes exactly that block out of the
  list and keeps all others; for any other address it changes no byte of memory and no block.
\<close>

theorem free_correct:
  assumes "heap_inv bs s" "alloc_sema s \<noteq> Some True" "p \<noteq> 0"
  shows "if p - HEADER \<in> set bs
    then \<exists>us vs s'. bs = us @ (p - HEADER) # vs \<and> free p s = Some s' \<and> free_ok (us @ vs) s s'
    else \<exists>s'. free p s = Some s' \<and> free_ok bs s s' \<and> amem s' = amem s"
  using free_cases [OF assms] by simp

theorem free_correct_witness: "\<exists>s'. free 0x12340 started = Some s' \<and> amem s' = amem started"
  using free_correct [OF started_inv(1), of "0x12340"] started_inv(2) by auto


lemma started_first: "\<exists>s1. malloc 100 started = Some (0x10010, s1)"
  by (simp add: malloc_def started_def alloc_start_def Let_def alloc_lock_def malloc_first_def
      alloc_sbrk_def mem_sz_of_def ALIGN_def)


text \<open>
  (C40) A failed first allocation locks the heap for good: when the heap has no block yet and the
  request does not fit, \<open>malloc\<close> returns null without giving the semaphore back, and every later
  allocation and release waits for ever.
\<close>

theorem malloc_failure_deadlock:
  assumes "heap_inv [] s" "alloc_sema s = Some False" "unat (heap_end s) + unat sz + 32 \<le> 4294967296"
    and "unat (heap_end s) < unat (heap_ptr s) + unat sz + 16"
  shows "\<exists>s'. malloc sz s = Some (0, s') \<and> (\<forall>sz'. malloc sz' s' = None) \<and> (\<forall>p. p \<noteq> 0 \<longrightarrow> free p s' = None)"
proof -
  let ?t = "s\<lparr>alloc_sema := Some True\<rparr>" and ?m = "mem_sz_of sz"
  from assms(3) have "unat sz + 31 < 4294967296" by simp
  note m = mem_sz_of_unat [OF this]
  have inv': "heap_inv [] (?t\<lparr>heap_base := base_of s\<rparr>)" using assms(1) by (auto simp: heap_inv_def base_of_def)
  have "heap_ptr s AND 15 = 0"
    using assms(1) and_15 [of "heap_ptr s"] by (metis heap_inv_def unat_eq_0)
  then have b: "(if heap_base ?t = 0
      then let s = snd (alloc_sbrk (fst (alloc_sbrk 0 ?t) AND (DEFAULT_ALIGNMENT - 1)) ?t)
           in s\<lparr>heap_base := fst (alloc_sbrk 0 s)\<rparr> else ?t) = ?t\<lparr>heap_base := base_of s\<rparr>"
    by (simp add: alloc_sbrk_def base_of_def)
  have "unat (heap_end s) + unat ?m < 4294967296" using assms(3) m(3) by linarith
  then have "alloc_sbrk ?m (?t\<lparr>heap_base := base_of s\<rparr>) = (-1, ?t\<lparr>heap_base := base_of s\<rparr>)"
    using sbrk_grow(1) [OF inv', of ?m] m(2) assms(4) by simp
  then have "malloc_first ?m ?t = (0, ?t\<lparr>heap_base := base_of s\<rparr>)" unfolding malloc_first_def b by simp
  moreover have "heap_head s = 0" using heap_invD(3) [OF assms(1)] by (simp add: hd0_def)
  ultimately have "malloc sz s = Some (0, ?t\<lparr>heap_base := base_of s\<rparr>)"
    using assms(2) by (simp add: malloc_def alloc_lock_def Let_def)
  then show ?thesis by (auto simp: malloc_def free_def alloc_lock_def Let_def)
qed

theorem malloc_failure_deadlock_witness:
  "\<exists>s'. malloc 0x20000 started = Some (0, s') \<and> malloc 16 s' = None"
proof -
  have "heap_ptr started = 0x10000" by (simp add: started_def alloc_start_def Let_def)
  with malloc_failure_deadlock [OF started_inv(1,2), of "0x20000"] started_inv(3) show ?thesis by auto
qed

text \<open>
  Memory from \<open>calloc\<close> is zero and its own: when it returns a block for a product that does not
  overflow, the product many bytes of it are zero, and no byte of another block has changed.
\<close>

theorem calloc_zero:
  assumes inv: "heap_inv bs s" "alloc_sema s \<noteq> Some True"
      "unat (heap_end s) + unat n * unat k + 32 \<le> 4294967296"
    and run: "calloc n k s = Some (p, s')" "p \<noteq> 0"
  shows "(\<forall>x. unat p \<le> unat x \<and> unat x < unat p + unat n * unat k \<longrightarrow> amem s' x = 0) \<and> keeps bs (amem s) (amem s')"
proof -
  have u: "unat (n * k) = unat n * unat k" using inv(3) by (simp add: unat_word_ariths)
  with inv(3) have big: "unat (heap_end s) + unat (n * k) + 32 \<le> 4294967296" by simp
  from run obtain s1 where s1: "malloc (n * k) s = Some (p, s1)" "s' = upd_mem (mem_set p 0 (n * k)) s1"
    by (auto simp: calloc_def Let_def elim!: bind_SomeE split: if_splits)
  from malloc_cases [OF inv(1,2) big] s1(1) run(2) have ok: "alloc_ok bs s (n * k) p s1" by auto
  then obtain us vs where bs: "bs = us @ vs" "heap_inv (us @ (p - 16) # vs) s1"
    "unat (n * k) \<le> unat (m_size (amem s1) (p - 16))" "keeps bs (amem s) (amem s1)"
    by (auto simp: alloc_ok_def)
  let ?c = "p - 16"
  note L = heap_invD(2) [OF bs(2)]
  have c: "unat ?c + 16 + unat (m_size (amem s1) ?c) \<le> unat (heap_ptr s1)"
    using laid_range [OF L, of ?c] by simp
  then have p: "unat p = unat ?c + 16"
    using unat_add_small [of ?c 16] unat_u32_less [of "heap_ptr s1"] by simp
  have set_in: "amem s' x = 0" if "unat p \<le> unat x" "unat x < unat p + unat n * unat k" for x
  proof -
    have "unat x - unat p < unat n * unat k" using that by linarith
    then show ?thesis using that(1) u s1(2) by (simp add: mem_set_def word_less_nat_alt unat_sub word_le_nat_alt)
  qed
  have set_out: "amem s' x = amem s1 x" if "unat x < unat p \<or> unat p + unat n * unat k \<le> unat x" for x
    using that u s1(2) not_in_range [of x p "n * k"] c p bs(3) unat_u32_less [of "heap_ptr s1"]
    by (simp add: mem_set_def)
  have "m_size (amem s') b = m_size (amem s1) b \<and> (\<forall>x. payload (amem s1) b x \<longrightarrow> amem s' x = amem s1 x)"
    if "b \<in> set bs" for b
  proof -
    have "b \<noteq> ?c" using that bs(1) laid_distinct [OF L] by auto
    then have o: "unat b + 16 + unat (m_size (amem s1) b) \<le> unat ?c \<or> unat ?c + 16 + unat (m_size (amem s1) ?c) \<le> unat b"
      using laid_order [OF L, of b ?c] that bs(1) by auto
    have "amem s' x = amem s1 x" if "unat b \<le> unat x" "unat x < unat b + 16 + unat (m_size (amem s1) b)" for x
      using o that p bs(3) u by (intro set_out) linarith
    moreover have "unat b + 16 \<le> unat (heap_ptr s1)" using laid_range [OF L, of b] that bs(1) by auto
    moreover from this have "unat (b + 4) = unat b + 4"
      using unat_add_small [of b 4] unat_u32_less [of "heap_ptr s1"] by simp
    ultimately show ?thesis
      using unat_u32_less [of "heap_ptr s1"]
      by (auto simp: payload_def m_size_def intro!: load32_cong)
  qed
  with bs(4) have "keeps bs (amem s) (amem s')" by (auto simp: keeps_def payload_def)
  with set_in show ?thesis by blast
qed

theorem calloc_zero_witness:
  "\<exists>s'. calloc 10 10 started = Some (0x10010, s') \<and> amem s' 0x10020 = 0"
proof -
  obtain s1 where "malloc 100 started = Some (0x10010, s1)" using started_first by blast
  then obtain s' where c: "calloc 10 10 started = Some (0x10010, s')" by (simp add: calloc_def)
  from calloc_zero [OF started_inv(1) _ _ c] started_inv(2,3) have "amem s' 0x10020 = 0" by simp
  with c show ?thesis by blast
qed

end
