(* ===== verification/IomanFiles.thy ===== *)
theory IomanFiles
  imports IomanX
begin

text \<open>
  What the file manager promises: names are resolved to the first driver of that name, with the unit
  the digits say; the file table behaves as a finite map from descriptors to open files, of which
  opening takes the lowest free one; and the conversions of the status are transparent to programs
  and drivers of the old manager.
\<close>

section \<open>Lookup\<close>

lemma first_index_Some:
  "first_index P xs = Some i \<longleftrightarrow> i < length xs \<and> P (xs ! i) \<and> (\<forall>j<i. \<not> P (xs ! j))"
proof (induction xs arbitrary: i)
  case (Cons x xs)
  then show ?case by (cases i) (auto simp: less_Suc_eq_0_disj All_less_Suc2)
qed simp

lemma first_index_None: "first_index P xs = None \<longleftrightarrow> (\<forall>x\<in>set xs. \<not> P x)"
  by (induction xs) auto

text \<open>Every registered device and every open file has a descriptor in memory.\<close>

definition iox_ok :: "'w devs \<Rightarrow> 'w iox_state \<Rightarrow> bool" where
  "iox_ok D s \<longleftrightarrow> length (dev_list s) = MAX_DEVICES \<and> length (file_table s) = MAX_FILES \<and>
     (\<forall>p\<in>set (dev_list s). p \<noteq> 0 \<longrightarrow> D p \<noteq> None) \<and>
     (\<forall>f\<in>set (file_table s). fdevice f \<noteq> 0 \<longrightarrow> D (fdevice f) \<noteq> None)"

definition named :: "'w devs \<Rightarrow> string \<Rightarrow> u32 \<Rightarrow> bool" where
  "named D name p \<longleftrightarrow> p \<noteq> 0 \<and> dname (the (D p)) = name"

text \<open>The first registered driver of a name.\<close>

definition lookup_dev :: "'w devs \<Rightarrow> string \<Rightarrow> 'w iox_state \<Rightarrow> u32 option" where
  "lookup_dev D name s = find (named D name) (dev_list s)"

lemma search_dev_first:
  "(\<forall>p\<in>set ps. p \<noteq> 0 \<longrightarrow> D p \<noteq> None) \<Longrightarrow> search_dev D name ps = Some (first_index (named D name) ps)"
  by (induction ps) (auto simp: named_def)

lemma find_first_index: "find P xs = map_option (\<lambda>i. xs ! i) (first_index P xs)"
  by (induction xs) (auto simp: option.map_comp o_def)

lemma find_iop_device_name:
  assumes "iox_ok D s" "base \<noteq> []" "\<not> isnum (last base)" "hd base \<noteq> CHR '' ''"
    "CHR '':'' \<notin> set base" "\<forall>c\<in>set ds. isnum c" "length base + length ds < 16"
  shows "find_iop_device D (base @ ds @ CHR '':'' # rest) s =
    Some (Some (strtol10 ds), map_option (\<lambda>p. (p, rest)) (lookup_dev D base s))"
proof -
  have nocolon: "CHR '':'' \<notin> set ds" using assms(6) by (auto simp: isnum_def)
  have skip: "skip_spaces (base @ ds @ CHR '':'' # rest) = base @ ds @ CHR '':'' # rest"
    using assms(2,4) by (simp add: skip_spaces_def)
  have canon: "takeWhile (\<lambda>c. c \<noteq> CHR '':'') (base @ ds @ CHR '':'' # rest) = base @ ds"
    using assms(5) nocolon takeWhile_append2 [of "base @ ds" "\<lambda>c. c \<noteq> CHR '':''" "CHR '':'' # rest"]
    by fastforce
  have "dropWhile isnum (rev base) = rev base"
    using assms(2,3) by (cases base rule: rev_cases) auto
  then have "dropWhile isnum (rev ds @ rev base) = rev base"
    using assms(6) dropWhile_append2 [of "rev ds" isnum "rev base"] by simp
  then have b: "rev (dropWhile isnum (rev (base @ ds))) = base" by simp
  have look: "search_dev D base (dev_list s) = Some (first_index (named D base) (dev_list s))"
    using assms(1) by (intro search_dev_first) (simp add: iox_ok_def)
  show ?thesis
    unfolding find_iop_device_def skip canon b Let_def using assms(2,7) look
    by (simp add: lookup_dev_def find_first_index option.map_comp o_def)
qed

text \<open>Decimal numerals.\<close>

fun decimal :: "nat \<Rightarrow> string" where
  "decimal n = (if n < 10 then [char_of (48 + n)] else decimal (n div 10) @ [char_of (48 + n mod 10)])"

declare decimal.simps [simp del]

lemma digit_char: "n < 10 \<Longrightarrow> isnum (char_of (48 + n)) \<and> of_char (char_of (48 + n) :: char) = (48 + n :: nat)"
  by (simp add: isnum_def)

lemma decimal_digits: "\<forall>c\<in>set (decimal n). isnum c"
proof (induction n rule: decimal.induct)
  case (1 n)
  show ?case
  proof (cases "n < 10")
    case True
    then show ?thesis using digit_char [of n] by (simp add: decimal.simps [of n])
  next
    case False
    then show ?thesis using 1 digit_char [of "n mod 10"] by (simp add: decimal.simps [of n])
  qed
qed

lemma decimal_value: "digits_value (decimal n) = n"
proof (induction n rule: decimal.induct)
  case (1 n)
  show ?case
  proof (cases "n < 10")
    case True
    then show ?thesis using digit_char [of n] by (simp add: decimal.simps [of n] digits_value_def)
  next
    case False
    then show ?thesis using 1 digit_char [of "n mod 10"]
      by (simp add: decimal.simps [of n] digits_value_def)
  qed
qed

text \<open>A leading space stays in front of the name that is looked up.\<close>

lemma find_iop_device_space:
  assumes "iox_ok D s" "\<forall>p\<in>set (dev_list s). p \<noteq> 0 \<longrightarrow> take 1 (dname (the (D p))) \<noteq> '' ''"
    "find_iop_device D (CHR '' '' # name) s = Some (u, loc)"
  shows "loc = None"
proof -
  define d where "d = skip_spaces (CHR '' '' # name)"
  define canon where "canon = takeWhile (\<lambda>c. c \<noteq> CHR '':'') d"
  define base where "base = rev (dropWhile isnum (rev canon))"
  obtain d' where d: "d = CHR '' '' # d'" by (simp add: d_def skip_spaces_def)
  then obtain c' where c: "canon = CHR '' '' # c'" by (simp add: canon_def)
  have "dropWhile isnum (rev c' @ [CHR '' '']) = dropWhile isnum (rev c') @ [CHR '' '']"
    by (simp add: dropWhile_append3 isnum_def)
  then have b: "base = CHR '' '' # rev (dropWhile isnum (rev c'))" by (simp add: base_def c)
  have "first_index (named D base) (dev_list s) = None"
    using assms(2) by (fastforce simp: first_index_None named_def b)
  then have "search_dev D base (dev_list s) = Some None"
    using assms(1) search_dev_first [of "dev_list s" D base] by (simp add: iox_ok_def)
  then show ?thesis using assms(3)
    unfolding find_iop_device_def d_def [symmetric] canon_def [symmetric] base_def [symmetric] Let_def
    by (auto split: if_splits)
qed

section \<open>The file table as a map\<close>

type_synonym open_file = "u32 \<times> int \<times> u32"

definition fdtab :: "'w iox_state \<Rightarrow> nat \<rightharpoonup> open_file" where
  "fdtab s fd = (if fd < MAX_FILES \<and> fdevice (file_table s ! fd) \<noteq> 0
     then Some (fdevice (file_table s ! fd), funit (file_table s ! fd), fmode (file_table s ! fd)) else None)"

text \<open>The lowest free descriptor.\<close>

definition lowest_free :: "(nat \<rightharpoonup> open_file) \<Rightarrow> nat option" where
  "lowest_free t = find (\<lambda>i. t i = None) [0..<MAX_FILES]"

text \<open>
  What the manager relies on in a driver: it returns, and of the tables of the manager it changes
  nothing but the private data of files.
\<close>

definition keeps :: "'w iox_state \<Rightarrow> 'w iox_state \<Rightarrow> bool" where
  "keeps s s' \<longleftrightarrow> dev_list s' = dev_list s \<and>
     map (privdata_update (\<lambda>_. 0)) (file_table s') = map (privdata_update (\<lambda>_. 0)) (file_table s)"

definition behaves :: "'w drv \<Rightarrow> bool" where
  "behaves act \<longleftrightarrow> (\<forall>s. \<exists>r s'. act s = Some (r, s') \<and> keeps s s')"

definition driver_ok :: "'w iop_device_t \<Rightarrow> bool" where
  "driver_ok d \<longleftrightarrow>
     (\<forall>f name flags mode. behaves (op_open (dops d) f name flags mode)) \<and>
     (\<forall>f name. behaves (op_dopen (dops d) f name)) \<and>
     (\<forall>f. behaves (op_close (dops d) f)) \<and> (\<forall>f. behaves (op_dclose (dops d) f)) \<and>
     (\<forall>f ptr n. behaves (op_read (dops d) f ptr n)) \<and>
     (\<forall>f ptr n. behaves (op_write (dops d) f ptr n)) \<and>
     (\<forall>f off whence. behaves (op_lseek (dops d) f off whence)) \<and>
     (\<forall>f off whence. behaves (op_lseek64 (dops d) f off whence)) \<and>
     (\<forall>f cmd arg. behaves (op_ioctl (dops d) f cmd arg)) \<and>
     (\<forall>f cmd arg n buf m. behaves (op_ioctl2 (dops d) f cmd arg n buf m))"

definition drivers_ok :: "'w devs \<Rightarrow> bool" where
  "drivers_ok D \<longleftrightarrow> (\<forall>p d. D p = Some d \<longrightarrow> driver_ok d)"

lemma behavesD: "behaves act \<Longrightarrow> act s = Some (r, s') \<Longrightarrow> keeps s s'"
  unfolding behaves_def by (metis option.inject prod.inject)

lemma keeps_refl [simp]: "keeps s s"
  by (simp add: keeps_def)

lemma keeps_length: "keeps s s' \<Longrightarrow> length (file_table s') = length (file_table s)"
  unfolding keeps_def by (metis length_map)

lemma keeps_nth:
  assumes "keeps s s'" "i < length (file_table s)"
  shows "fdevice (file_table s' ! i) = fdevice (file_table s ! i)"
    "funit (file_table s' ! i) = funit (file_table s ! i)"
    "fmode (file_table s' ! i) = fmode (file_table s ! i)"
proof -
  from assms have "map (privdata_update (\<lambda>_. 0)) (file_table s') ! i = map (privdata_update (\<lambda>_. 0)) (file_table s) ! i"
    by (simp add: keeps_def)
  with assms keeps_length [OF assms(1)] have
    e: "privdata_update (\<lambda>_. 0) (file_table s' ! i) = privdata_update (\<lambda>_. 0) (file_table s ! i)" by simp
  from arg_cong [OF e, of fdevice] show "fdevice (file_table s' ! i) = fdevice (file_table s ! i)" by simp
  from arg_cong [OF e, of funit] show "funit (file_table s' ! i) = funit (file_table s ! i)" by simp
  from arg_cong [OF e, of fmode] show "fmode (file_table s' ! i) = fmode (file_table s ! i)" by simp
qed

lemma keeps_fdtab:
  assumes "keeps s s'" "length (file_table s) = MAX_FILES"
  shows "fdtab s' = fdtab s"
  using assms by (auto simp: fdtab_def fun_eq_iff keeps_nth)

lemma keeps_ok: "keeps s s' \<Longrightarrow> iox_ok D s \<Longrightarrow> iox_ok D s'"
  unfolding iox_ok_def using keeps_length [of s s'] keeps_nth(1) [of s s']
  by (simp add: all_set_conv_all_nth keeps_def)

lemma lowest_free_first:
  assumes "length (file_table s) = MAX_FILES"
  shows "lowest_free (fdtab s) = first_index (\<lambda>f. fdevice f = 0) (file_table s)"
proof (cases "first_index (\<lambda>f. fdevice f = 0) (file_table s)")
  case None
  then have "find (\<lambda>i. fdtab s i = None) [0..<32] = None" using assms
    by (simp add: first_index_None find_None_iff fdtab_def all_set_conv_all_nth)
  with None show ?thesis by (simp add: lowest_free_def)
next
  case (Some i)
  then have "i < 32" "fdevice (file_table s ! i) = 0" "\<forall>j<i. fdevice (file_table s ! j) \<noteq> 0"
    using assms by (auto simp: first_index_Some)
  then have "find (\<lambda>i. fdtab s i = None) [0..<32] = Some i"
    by (auto simp: find_Some_iff fdtab_def intro!: exI [of _ i])
  with Some show ?thesis by (simp add: lowest_free_def)
qed

lemma fdtab_upd:
  assumes "length (file_table s) = MAX_FILES" "i < MAX_FILES"
  shows "fdtab (upd_file i g s) =
    (fdtab s)(i := (let f = g (file_table s ! i) in if fdevice f = 0 then None else Some (fdevice f, funit f, fmode f)))"
  using assms by (auto simp: fdtab_def upd_file_def fun_eq_iff nth_list_update Let_def)

lemma upd_ok:
  assumes "iox_ok D s" "i < MAX_FILES"
    "fdevice (g (file_table s ! i)) \<noteq> 0 \<longrightarrow> D (fdevice (g (file_table s ! i))) \<noteq> None"
  shows "iox_ok D (upd_file i g s)"
  using assms by (auto simp: iox_ok_def upd_file_def dest!: subsetD [OF set_update_subset_insert])

lemma lookup_dev_SomeD: "lookup_dev D name s = Some p \<Longrightarrow> p \<in> set (dev_list s) \<and> p \<noteq> 0"
  by (auto simp: lookup_dev_def find_Some_iff named_def)

section \<open>Opening and closing\<close>

lemma find_iop_device_dev:
  assumes "iox_ok D s" "find_iop_device D name s = Some (u, Some (p, filename))"
  shows "u \<noteq> None \<and> p \<noteq> 0 \<and> D p \<noteq> None"
proof -
  from assms(2) obtain base i where
    "search_dev D base (dev_list s) = Some (Some i)" "p = dev_list s ! i" "u \<noteq> None"
    by (auto simp: find_iop_device_def Let_def split: if_splits bind_splits)
  moreover from this(1) search_dev_first [of "dev_list s" D base] assms(1)
  have "first_index (named D base) (dev_list s) = Some i" by (simp add: iox_ok_def)
  ultimately show ?thesis using assms(1) by (auto simp: first_index_Some named_def iox_ok_def)
qed

lemma find_iop_device_cong: "dev_list s' = dev_list s \<Longrightarrow> find_iop_device D name s' = find_iop_device D name s"
  by (simp add: find_iop_device_def Let_def)

lemma dev_list_upd [simp]: "dev_list (upd_file i g s) = dev_list s"
  by (simp add: upd_file_def)

text \<open>
  The effect of opening a file or a directory on the map of open files, from the result of the lookup
  and the result of the call.
\<close>

definition opened :: "(nat \<rightharpoonup> open_file) \<Rightarrow> int option \<times> (u32 \<times> string) option \<Rightarrow> u32 \<Rightarrow> int \<Rightarrow> (nat \<rightharpoonup> open_file) \<Rightarrow> bool" where
  "opened t found flags r t' \<longleftrightarrow> (case lowest_free t of
     None \<Rightarrow> r = - EMFILE \<and> t' = t
   | Some i \<Rightarrow> (case found of
       (_, None) \<Rightarrow> r = - ENODEV \<and> t' = t
     | (u, Some (p, _)) \<Rightarrow> if 0 \<le> r then r = int i \<and> t' = t(i \<mapsto> (p, the u, flags)) else t' = t))"

lemma upd_file_comp: "i < length (file_table s) \<Longrightarrow> upd_file i g (upd_file i h s) = upd_file i (g \<circ> h) s"
  by (simp add: upd_file_def)

lemma open_free:
  assumes ok: "iox_ok D s" and free: "first_index (\<lambda>f. fdevice f = 0) (file_table s) = Some i"
    and dv: "D p \<noteq> None" "p \<noteq> 0" and b: "behaves act"
    and step: "act (upd_file i (\<lambda>f. f\<lparr>fdevice := p, fmode := flags\<rparr>)
      (upd_file i (set_unit (Some n)) (upd_file i (fdevice_update (\<lambda>_. q)) s))) = Some (r, s4)"
  shows "iox_ok D s4 \<and> fdtab s4 = (fdtab s)(i \<mapsto> (p, n, flags)) \<and>
    iox_ok D (upd_file i drop_file s4) \<and> fdtab (upd_file i drop_file s4) = fdtab s"
proof -
  define s3 where "s3 = upd_file i (\<lambda>f. f\<lparr>funit := n, fdevice := p, fmode := flags\<rparr>) s"
  have i: "i < 32" "fdevice (file_table s ! i) = 0" "length (file_table s) = 32"
    using ok free by (auto simp: iox_ok_def first_index_Some)
  then have "upd_file i (\<lambda>f. f\<lparr>fdevice := p, fmode := flags\<rparr>)
      (upd_file i (set_unit (Some n)) (upd_file i (fdevice_update (\<lambda>_. q)) s)) = s3"
    by (simp add: upd_file_comp s3_def set_unit_def o_def)
  with step have "act s3 = Some (r, s4)" by simp
  then have k: "keeps s3 s4" using behavesD [OF b] by blast
  have ok3: "iox_ok D s3" unfolding s3_def using ok i dv by (intro upd_ok) auto
  then have ok4: "iox_ok D s4" using k keeps_ok by blast
  have len: "length (file_table s3) = 32" "length (file_table s4) = 32"
    using ok3 ok4 by (auto simp: iox_ok_def)
  have tab: "fdtab s4 = (fdtab s)(i \<mapsto> (p, n, flags))"
    using keeps_fdtab [OF k len(1)] i dv by (simp add: s3_def fdtab_upd)
  have none: "fdtab s i = None" using i by (simp add: fdtab_def)
  show ?thesis using ok4 tab i len none upd_ok [of D s4 i drop_file]
    by (auto simp: fdtab_upd drop_file_def)
qed

lemma open_missing:
  assumes ok: "iox_ok D s" and free: "first_index (\<lambda>f. fdevice f = 0) (file_table s) = Some i"
    and s': "s' = upd_file i (fdevice_update (\<lambda>_. 0)) (upd_file i (set_unit u) (upd_file i (fdevice_update (\<lambda>_. q)) s))"
  shows "iox_ok D s' \<and> fdtab s' = fdtab s"
proof -
  have i: "i < 32" "fdevice (file_table s ! i) = 0" "length (file_table s) = 32"
    using ok free by (auto simp: iox_ok_def first_index_Some)
  then have s'': "s' = upd_file i (\<lambda>f. (set_unit u (f\<lparr>fdevice := q\<rparr>))\<lparr>fdevice := 0\<rparr>) s"
    by (simp add: s' upd_file_comp o_def)
  have none: "fdtab s i = None" using i by (simp add: fdtab_def)
  show ?thesis unfolding s'' using ok i none by (auto simp: fdtab_upd intro!: upd_ok)
qed

text \<open>Both ways to open: the driver is called in the entry the manager has filled in.\<close>

definition open_with :: "('w iop_device_t \<Rightarrow> filep \<Rightarrow> string \<Rightarrow> 'w drv) \<Rightarrow> 'w devs \<Rightarrow> string \<Rightarrow> u32 \<Rightarrow> 'w drv" where
  "open_with act D name flags s = (case get_new_file s of
     (None, s1) \<Rightarrow> Some (- EMFILE, s1)
   | (Some i, s1) \<Rightarrow> do {
       (u, loc) \<leftarrow> find_iop_device D name s1;
       let s2 = upd_file i (set_unit u) s1;
       case loc of
         None \<Rightarrow> Some (- ENODEV, upd_file i (fdevice_update (\<lambda>_. 0)) s2)
       | Some (p, filename) \<Rightarrow> do {
           let s3 = upd_file i (\<lambda>f. f\<lparr>fdevice := p, fmode := flags\<rparr>) s2;
           d \<leftarrow> D p;
           (res, s4) \<leftarrow> act d (Entry i) filename s3;
           if 0 \<le> res then Some (int i, s4) else Some (res, upd_file i drop_file s4) } })"

lemma iox_open_with: "iox_open D name flags mode =
    open_with (\<lambda>d f filename. op_open (dops d) f filename flags mode) D name flags"
  unfolding iox_open_def open_with_def by (rule ext) simp

lemma dopen_with: "dopen D name = open_with (\<lambda>d f filename. op_dopen (dops d) f filename) D name 8"
  unfolding dopen_def open_with_def by (rule ext) simp

lemma open_with_opened:
  assumes ok: "iox_ok D s" and found: "find_iop_device D name s = Some found"
    and b: "\<forall>p d f filename. D p = Some d \<longrightarrow> behaves (act d f filename)"
  shows "\<exists>r s'. open_with act D name flags s = Some (r, s') \<and> iox_ok D s' \<and> opened (fdtab s) found flags r (fdtab s')"
proof (cases "first_index (\<lambda>f. fdevice f = 0) (file_table s)")
  case None
  then have gf: "get_new_file s = (None, s)" by (simp add: get_new_file_def)
  have low: "lowest_free (fdtab s) = None" using None ok lowest_free_first [of s] by (simp add: iox_ok_def)
  have "open_with act D name flags s = Some (- 24, s)" unfolding open_with_def gf by simp
  then show ?thesis using ok low by (simp add: opened_def)
next
  case (Some i)
  note free = this
  obtain u loc where f: "found = (u, loc)" by (cases found)
  have low: "lowest_free (fdtab s) = Some i" using free ok lowest_free_first [of s] by (simp add: iox_ok_def)
  have gf: "get_new_file s = (Some i, upd_file i (fdevice_update (\<lambda>_. 0xFFFFFFFF)) s)"
    using free by (simp add: get_new_file_def)
  have look: "find_iop_device D name (upd_file i (fdevice_update (\<lambda>_. 0xFFFFFFFF)) s) = Some (u, loc)"
    unfolding find_iop_device_cong [OF dev_list_upd] using found f by simp
  show ?thesis
  proof (cases loc)
    case None
    define s' where "s' = upd_file i (fdevice_update (\<lambda>_. 0)) (upd_file i (set_unit u)
      (upd_file i (fdevice_update (\<lambda>_. 0xFFFFFFFF)) s))"
    have "open_with act D name flags s = Some (- 19, s')"
      unfolding open_with_def gf prod.case option.case look None s'_def by simp
    moreover have "iox_ok D s' \<and> fdtab s' = fdtab s" by (rule open_missing [OF ok free s'_def])
    ultimately show ?thesis using low by (simp add: opened_def f None)
  next
    case (Some pf)
    obtain p filename where pf: "pf = (p, filename)" by (cases pf)
    have dv: "u \<noteq> None" "p \<noteq> 0" "D p \<noteq> None" using find_iop_device_dev [OF ok] found f Some pf by blast+
    then obtain d n where d: "D p = Some d" and n: "u = Some n" by blast
    define s3 where "s3 = upd_file i (\<lambda>f. f\<lparr>fdevice := p, fmode := flags\<rparr>)
      (upd_file i (set_unit (Some n)) (upd_file i (fdevice_update (\<lambda>_. 0xFFFFFFFF)) s))"
    have bd: "behaves (act d (Entry i) filename)" using b d by blast
    then obtain r s4 where r: "act d (Entry i) filename s3 = Some (r, s4)"
      unfolding behaves_def by blast
    have res: "open_with act D name flags s = Some (if 0 \<le> r then (int i, s4) else (r, upd_file i drop_file s4))"
      unfolding open_with_def gf prod.case option.case look Some pf n
      by (simp add: d r [unfolded s3_def])
    note eff = open_free [OF ok free dv(3,2) bd r [unfolded s3_def]]
    show ?thesis
    proof (cases "0 \<le> r")
      case True
      then show ?thesis using res eff low by (simp add: opened_def f Some pf n)
    next
      case False
      then show ?thesis using res eff low by (simp add: opened_def f Some pf n)
    qed
  qed
qed

text \<open>Closing a descriptor: it is free afterwards, whatever the driver says.\<close>

lemma get_file_tab:
  assumes "0 \<le> fd"
  shows "get_file fd s = Some (if fdtab s (nat fd) = None then None else Some (nat fd))"
  using assms by (auto simp: get_file_def fdtab_def)

lemma close_tab:
  assumes ok: "iox_ok D s" and dr: "drivers_ok D" and fd: "0 \<le> fd"
  shows "\<exists>r s'. close D fd s = Some (r, s') \<and> iox_ok D s' \<and>
    (if fdtab s (nat fd) = None then r = - EBADF \<and> s' = s else fdtab s' = (fdtab s)(nat fd := None))"
proof (cases "fdtab s (nat fd)")
  case None
  then show ?thesis using ok by (simp add: close_def get_file_tab [OF fd])
next
  case (Some x)
  let ?i = "nat fd"
  have i: "?i < 32" "fdevice (file_table s ! ?i) \<noteq> 0" using Some by (auto simp: fdtab_def split: if_splits)
  have len: "length (file_table s) = 32" using ok by (simp add: iox_ok_def)
  have "file_table s ! ?i \<in> set (file_table s)" using i len by simp
  then obtain d where d: "D (fdevice (file_table s ! ?i)) = Some d" using ok i by (fastforce simp: iox_ok_def)
  define act where "act = (if fmode (file_table s ! ?i) AND 8 \<noteq> 0 then op_dclose (dops d) (Entry ?i)
    else op_close (dops d) (Entry ?i))"
  have "behaves act" using dr d by (simp add: act_def drivers_ok_def driver_ok_def)
  then obtain r s1 where r: "act s = Some (r, s1)" "keeps s s1" unfolding behaves_def by blast
  have ok1: "iox_ok D s1" using keeps_ok r ok by blast
  then have "iox_ok D (upd_file ?i drop_file s1)" using i by (intro upd_ok) (auto simp: drop_file_def)
  moreover have "fdtab (upd_file ?i drop_file s1) = (fdtab s)(?i := None)"
    using keeps_fdtab [OF r(2) len] ok1 i by (simp add: fdtab_upd iox_ok_def drop_file_def)
  moreover have "close D fd s = Some (r, upd_file ?i drop_file s1)"
    using Some d r(1) by (simp add: close_def get_file_tab [OF fd] entry_dev_def act_def split: if_splits)
  ultimately show ?thesis using Some by simp
qed

section \<open>Sequences of calls\<close>

datatype iox_call =
    COpen string u32 int | CDopen string | CClose int | CRead int u32 int | CWrite int u32 int
  | CLseek int int int | CLseek64 int int int | CIoctl int int u32 | CIoctl2 int int u32 u32 u32 u32

fun iox_exec :: "'w devs \<Rightarrow> iox_call \<Rightarrow> 'w drv" where
  "iox_exec D (COpen name flags mode) s = iox_open D name flags mode s"
| "iox_exec D (CDopen name) s = dopen D name s"
| "iox_exec D (CClose fd) s = close D fd s"
| "iox_exec D (CRead fd ptr n) s = iox_read D fd ptr n s"
| "iox_exec D (CWrite fd ptr n) s = iox_write D fd ptr n s"
| "iox_exec D (CLseek fd off whence) s = lseek D fd off whence s"
| "iox_exec D (CLseek64 fd off whence) s = lseek64 D fd off whence s"
| "iox_exec D (CIoctl fd cmd arg) s = ioctl D fd cmd arg s"
| "iox_exec D (CIoctl2 fd cmd arg n buf m) s = ioctl2 D fd cmd arg n buf m s"

definition iox_run :: "'w devs \<Rightarrow> iox_call list \<Rightarrow> 'w iox_state \<Rightarrow> 'w iox_state option" where
  "iox_run D = foldO (\<lambda>c s. map_option snd (iox_exec D c s))"

lemma on_file_keeps:
  assumes "on_file fd good act s = Some (r, s')" "\<And>i s r s'. act i s = Some (r, s') \<Longrightarrow> keeps s s'"
  shows "keeps s s'"
  using assms(1) by (auto simp: on_file_def split: bind_splits option.splits if_splits dest: assms(2))

lemma driver_keeps:
  assumes "driver D i act s = Some (r, s')" "drivers_ok D" "\<And>d. driver_ok d \<Longrightarrow> behaves (act d)"
  shows "keeps s s'"
  using assms(1,2) by (auto simp: driver_def entry_dev_def drivers_ok_def split: bind_splits intro: behavesD [OF assms(3)])

lemma driver_ok_behaves:
  assumes "driver_ok d"
  shows "behaves (op_open (dops d) f name flags mode)" "behaves (op_dopen (dops d) f name)"
    "behaves (op_close (dops d) f)" "behaves (op_dclose (dops d) f)"
    "behaves (op_read (dops d) f ptr n)" "behaves (op_write (dops d) f ptr n)"
    "behaves (op_lseek (dops d) f off whence)" "behaves (op_lseek64 (dops d) f off whence)"
    "behaves (op_ioctl (dops d) f cmd arg)" "behaves (op_ioctl2 (dops d) f cmd arg k buf m)"
  using assms by (simp_all add: driver_ok_def)

lemma behaves_if: "behaves act \<Longrightarrow> behaves (\<lambda>s. if b then Some (r, s) else act s)"
  by (simp add: behaves_def)

lemma call_keeps:
  assumes dr: "drivers_ok D" and ex: "iox_exec D c s = Some (r, s')"
    and c: "\<not> (\<exists>name flags mode. c = COpen name flags mode)" "\<not> (\<exists>name. c = CDopen name)" "\<not> (\<exists>fd. c = CClose fd)"
  shows "keeps s s'"
proof (cases c)
  case (CRead fd ptr n)
  from ex [unfolded CRead iox_exec.simps iox_read_def] show ?thesis
    by (rule on_file_keeps) (erule driver_keeps [OF _ dr], rule driver_ok_behaves)
next
  case (CWrite fd ptr n)
  from ex [unfolded CWrite iox_exec.simps iox_write_def] show ?thesis
    by (rule on_file_keeps) (erule driver_keeps [OF _ dr], rule driver_ok_behaves)
next
  case (CIoctl fd cmd arg)
  from ex [unfolded CIoctl iox_exec.simps ioctl_def] show ?thesis
    by (rule on_file_keeps) (erule driver_keeps [OF _ dr], rule driver_ok_behaves)
next
  case (CIoctl2 fd cmd arg n buf m)
  from ex [unfolded CIoctl2 iox_exec.simps ioctl2_def] show ?thesis
    by (rule on_file_keeps) (erule driver_keeps [OF _ dr], rule driver_ok_behaves)
next
  case (CLseek fd off whence)
  from ex [unfolded CLseek iox_exec.simps lseek_def] show ?thesis
    by (rule on_file_keeps) (auto split: if_splits elim!: driver_keeps [OF _ dr] intro: driver_ok_behaves)
next
  case (CLseek64 fd off whence)
  from ex [unfolded CLseek64 iox_exec.simps lseek64_def] show ?thesis
    by (rule on_file_keeps)
      (auto split: if_splits elim!: driver_keeps [OF _ dr] intro!: behaves_if driver_ok_behaves)
qed (use c in auto)

lemma opened_keeps: "opened t found flags r t' \<Longrightarrow> t i = Some x \<Longrightarrow> t' i = Some x"
  by (cases found; cases "snd found")
    (auto simp: opened_def lowest_free_def find_Some_iff split: option.splits if_splits)

lemma open_with_Some:
  assumes "open_with act D name flags s = Some (r, s')" "iox_ok D s"
    "\<forall>p d f filename. D p = Some d \<longrightarrow> behaves (act d f filename)"
  shows "iox_ok D s' \<and> (\<exists>found. opened (fdtab s) found flags r (fdtab s'))"
proof (cases "find_iop_device D name s")
  case (Some found)
  from open_with_opened [OF assms(2) this assms(3), of flags] assms(1) show ?thesis
    by (metis option.inject prod.inject)
next
  case None
  show ?thesis
  proof (cases "get_new_file s")
    case (Pair io s1)
    have "dev_list s1 = dev_list s" using Pair by (auto simp: get_new_file_def split: option.splits)
    then have "find_iop_device D name s1 = None" using None find_iop_device_cong [of s1 s D name] by simp
    with assms(1) Pair have io: "io = None" "r = - 24" "s' = s"
      by (auto simp: open_with_def get_new_file_def split: option.splits)
    then have "lowest_free (fdtab s) = None"
      using Pair assms(2) lowest_free_first [of s] by (auto simp: get_new_file_def iox_ok_def split: option.splits)
    with io assms(2) show ?thesis by (auto simp: opened_def)
  qed
qed

lemma exec_stable:
  assumes ok: "iox_ok D s" and dr: "drivers_ok D" and ex: "iox_exec D c s = Some (r, s')"
    and x: "fdtab s i = Some x" "c \<noteq> CClose (int i)"
  shows "iox_ok D s' \<and> fdtab s' i = Some x"
proof -
  have b: "behaves (op_open (dops d) f name flags mode)" "behaves (op_dopen (dops d) f name)"
    if "D p = Some d" for p d f name flags mode
    using dr that by (simp_all add: drivers_ok_def driver_ok_behaves)
  have cl: "iox_ok D s' \<and> fdtab s' i = Some x" if c: "c = CClose fd" for fd
  proof -
    have nn: "0 \<le> fd" using ex by (auto simp: c close_def get_file_def split: if_splits)
    from close_tab [OF ok dr nn] nn ex x c show ?thesis by (auto split: if_splits)
  qed
  have op: "iox_ok D s' \<and> fdtab s' i = Some x" if "open_with act D name flags s = Some (r, s')"
    "\<forall>p d f filename. D p = Some d \<longrightarrow> behaves (act d f filename)" for act name flags
    using open_with_Some [OF that(1) ok that(2)] x(1) opened_keeps by blast
  show ?thesis
  proof (cases "(\<exists>name flags mode. c = COpen name flags mode) \<or> (\<exists>name. c = CDopen name) \<or> (\<exists>fd. c = CClose fd)")
    case False
    then have "keeps s s'" using call_keeps [OF dr ex] by blast
    then show ?thesis using ok x keeps_ok keeps_fdtab by (metis iox_ok_def)
  next
    case True
    then show ?thesis using ex cl op b by (elim disjE exE) (auto simp: iox_open_with dopen_with)
  qed
qed

lemma run_stable:
  assumes "iox_run D cs s = Some s'" "iox_ok D s" "drivers_ok D" "fdtab s i = Some x" "CClose (int i) \<notin> set cs"
  shows "iox_ok D s' \<and> fdtab s' i = Some x"
  using assms
proof (induction cs arbitrary: s)
  case (Cons c cs)
  from Cons.prems(1) obtain r s1 where c: "iox_exec D c s = Some (r, s1)" "iox_run D cs s1 = Some s'"
    by (auto simp: iox_run_def split: bind_splits)
  from exec_stable [OF Cons.prems(2,3) c(1) Cons.prems(4)] Cons.prems(5)
  have "iox_ok D s1 \<and> fdtab s1 i = Some x" by auto
  with Cons.IH [OF c(2) _ Cons.prems(3)] Cons.prems(5) show ?case by auto
qed (simp add: iox_run_def)

section \<open>Modes\<close>

definition one_format :: "u32 \<Rightarrow> bool" where
  "one_format m \<longleftrightarrow> m AND 0x38 \<in> {0, 0x08, 0x10, 0x20}"

lemma mode_table: "\<forall>n\<in>set [0..<64]. one_format (of_nat n) \<longrightarrow> modex2mode (mode2modex (of_nat n)) = of_nat n"
  unfolding one_format_def mode2modex_def modex2mode_def by code_simp

lemma mode2modex_low: "mode2modex (m AND 0x3f) = mode2modex m"
  by (simp add: mode2modex_def and.assoc)

lemma mode_back:
  assumes "one_format m"
  shows "modex2mode (mode2modex m) = m AND 0x3f"
proof -
  let ?k = "m AND 0x3f"
  have "?k \<le> 0x3f" by (rule word_and_le1)
  then have "unat ?k < 64" by (simp add: word_le_nat_alt)
  then have n: "unat ?k \<in> set [0..<64]" by simp
  have "one_format ?k" using assms by (simp add: one_format_def and.assoc)
  with bspec [OF mode_table n] show ?thesis by (simp add: mode2modex_low)
qed

section \<open>A driver that accepts every call\<close>

definition nul_ops :: "unit iop_device_ops_t" where
  "nul_ops = \<lparr>op_init = \<lambda>_ s. Some (0, s), op_deinit = \<lambda>_ s. Some (0, s),
     op_format = \<lambda>_ _ _ _ _ s. Some (0, s), op_open = \<lambda>_ _ _ _ s. Some (0, s), op_close = \<lambda>_ s. Some (0, s),
     op_read = \<lambda>_ _ n s. Some (n, s), op_write = \<lambda>_ _ n s. Some (n, s), op_lseek = \<lambda>_ _ _ s. Some (0, s),
     op_ioctl = \<lambda>_ _ _ s. Some (0, s), op_remove = \<lambda>_ _ s. Some (0, s), op_mkdir = \<lambda>_ _ _ s. Some (0, s),
     op_rmdir = \<lambda>_ _ s. Some (0, s), op_dopen = \<lambda>_ _ s. Some (0, s), op_dclose = \<lambda>_ s. Some (0, s),
     op_dread = \<lambda>_ _. None, op_io_dread = \<lambda>_ _. None,
     op_getstat = \<lambda>_ _ x s. Some (0, x\<lparr>st_mode := 0x26, st_size := 512\<rparr>, s), op_chstat = \<lambda>_ _ _ _ s. Some (0, s),
     op_rename = \<lambda>_ _ _ s. Some (0, s), op_chdir = \<lambda>_ _ s. Some (0, s), op_sync = \<lambda>_ _ _ s. Some (0, s),
     op_mount = \<lambda>_ _ _ _ _ _ s. Some (0, s), op_umount = \<lambda>_ _ s. Some (0, s), op_lseek64 = \<lambda>_ _ _ s. Some (0, s),
     op_devctl = \<lambda>_ _ _ _ _ _ _ s. Some (0, s), op_symlink = \<lambda>_ _ _ s. Some (0, s),
     op_readlink = \<lambda>_ _ _ _ s. Some (0, s), op_ioctl2 = \<lambda>_ _ _ _ _ _ s. Some (0, s)\<rparr>"

definition nul_devs :: "unit devs" where
  "nul_devs p = (if p = 4096 then Some \<lparr>dname = ''mc'', dtype = 0x10, dops = nul_ops\<rparr> else None)"

definition nul_state :: "unit iox_state" where
  "nul_state = \<lparr>dev_list = 4096 # replicate 31 0, file_table = replicate 32 no_file, world = ()\<rparr>"

definition nul_open :: "unit iox_state" where
  "nul_open = nul_state\<lparr>file_table := \<lparr>fmode = 3, funit = 0, fdevice = 4096, privdata = 0\<rparr> # replicate 31 no_file\<rparr>"

definition zero_stat :: iox_stat_t where
  "zero_stat = \<lparr>st_mode = 0, st_attr = 0, st_size = 0, st_ctime = [], st_atime = [], st_mtime = [], st_hisize = 0,
     st_private = []\<rparr>"

lemma nul_ok [simp]: "iox_ok nul_devs nul_state" "drivers_ok nul_devs"
  by (auto simp: iox_ok_def nul_state_def nul_devs_def no_file_def)
    (auto simp: drivers_ok_def driver_ok_def behaves_def nul_devs_def nul_ops_def split: if_splits)

lemma nul_find: "find_iop_device nul_devs ''mc0:a'' nul_state = Some (Some 0, Some (4096, ''a''))"
  by code_simp

section \<open>Correctness of the file manager\<close>

text \<open>
  (C13) Names are resolved as they are meant: for a name of a device, a unit in decimal that fits the
  name buffer and the C type, a colon and a rest, \<^const>\<open>find_iop_device\<close> stores exactly that unit and
  returns the first registered device of that name together with the rest, or finds nothing when no
  device has the name.
\<close>

theorem find_iop_device_correct:
  assumes "iox_ok D s" "base \<noteq> []" "\<not> isnum (last base)" "hd base \<noteq> CHR '' ''" "CHR '':'' \<notin> set base"
    "length base + length (decimal n) < 16" "n < 2147483648"
  shows "find_iop_device D (base @ decimal n @ CHR '':'' # rest) s =
    Some (Some (int n), map_option (\<lambda>p. (p, rest)) (lookup_dev D base s))"
  using find_iop_device_name [OF assms(1-5) decimal_digits assms(6), of rest] assms(7)
  by (simp add: strtol10_def decimal_value)

theorem find_iop_device_correct_witness:
  "find_iop_device nul_devs (''mc'' @ decimal 12 @ CHR '':'' # ''a'') nul_state =
    Some (Some 12, map_option (\<lambda>p. (p, ''a'')) (lookup_dev nul_devs ''mc'' nul_state)) \<and>
    lookup_dev nul_devs ''mc'' nul_state = Some 4096"
  using find_iop_device_correct [OF nul_ok(1), of "''mc''" 12 "''a''"]
  by (simp add: isnum_def decimal.simps lookup_dev_def nul_state_def named_def nul_devs_def)



text \<open>
  Closing. On a descriptor that is not open the call returns \<open>-EBADF\<close> and changes nothing. On an
  open one it frees exactly this descriptor, also when the driver reports an error.
\<close>

theorem close_correct:
  assumes "iox_ok D s" "drivers_ok D" "0 \<le> fd"
  shows "\<exists>r s'. close D fd s = Some (r, s') \<and> iox_ok D s' \<and>
    (if fdtab s (nat fd) = None then r = - EBADF \<and> s' = s else fdtab s' = (fdtab s)(nat fd := None))"
  by (rule close_tab [OF assms])

theorem close_correct_witness:
  "\<exists>r s'. close nul_devs 40 nul_state = Some (r, s') \<and> iox_ok nul_devs s' \<and>
    (if fdtab nul_state (nat 40) = None then r = - EBADF \<and> s' = nul_state
     else fdtab s' = (fdtab nul_state)(nat 40 := None))"
  by (rule close_correct [OF nul_ok]) simp





text \<open>
  A name with a leading space never finds its device, although the lookup is written to skip
  spaces: it steps back onto the last of them, which stays in front of the name it compares. As long as
  no driver's own name starts with a space, opening such a file fails with \<open>-ENODEV\<close> or, when every
  descriptor is taken, \<open>-EMFILE\<close>.
\<close>

theorem leading_space_not_found:
  assumes "iox_ok D s" "\<forall>p\<in>set (dev_list s). p \<noteq> 0 \<longrightarrow> take 1 (dname (the (D p))) \<noteq> '' ''"
    "iox_open D (CHR '' '' # name) flags mode s = Some (r, s')" "drivers_ok D"
  shows "r = - ENODEV \<or> r = - EMFILE"
proof (cases "find_iop_device D (CHR '' '' # name) s")
  case (Some found)
  then have "snd found = None" using find_iop_device_space [OF assms(1,2)] by (cases found) auto
  moreover from open_with_opened [OF assms(1) Some, of "\<lambda>d f filename. op_open (dops d) f filename flags mode" flags]
    assms(3,4) have "opened (fdtab s) found flags r (fdtab s')"
    by (auto simp: iox_open_with drivers_ok_def driver_ok_behaves)
  ultimately show ?thesis by (cases found) (auto simp: opened_def split: option.splits)
next
  case None
  have "get_new_file s = (None, s)"
  proof (rule ccontr)
    assume "get_new_file s \<noteq> (None, s)"
    then obtain i s1 where "get_new_file s = (Some i, s1)" "dev_list s1 = dev_list s"
      by (auto simp: get_new_file_def split: option.splits)
    with None assms(3) find_iop_device_cong [of s1 s D] show False by (simp add: iox_open_def)
  qed
  with assms(3) show ?thesis by (simp add: iox_open_def)
qed

theorem leading_space_not_found_witness:
  "\<exists>r s'. iox_open nul_devs '' mc0:a'' 1 0 nul_state = Some (r, s') \<and> (r = - ENODEV \<or> r = - EMFILE)"
proof -
  have "iox_open nul_devs '' mc0:a'' 1 0 nul_state \<noteq> None" by code_simp
  then obtain r s' where r: "iox_open nul_devs '' mc0:a'' 1 0 nul_state = Some (r, s')" by fastforce
  have "\<forall>p\<in>set (dev_list nul_state). p \<noteq> 0 \<longrightarrow> take 1 (dname (the (nul_devs p))) \<noteq> '' ''"
    by (simp add: nul_state_def nul_devs_def)
  from leading_space_not_found [OF nul_ok(1) this r nul_ok(2)] r show ?thesis by blast
qed

end
