(* ===== verification/PfsCache.thy ===== *)
theory PfsCache
  imports Ring Clock
begin

text \<open>
  The metadata cache and the journal of the PFS file system: iop/hdd/libpfs/src/cache.c, journal.c,
  the checksum of inode.c and the status flag and clock routines of misc.c. The array
  \<open>pfsCacheBuf\<close> is a function from indices to entries, index 0 the sentinel of the free list. A mounted
  file system is its index in the mount table, 0 the null pointer, whose dereference has no result.
  The data of entry \<open>i\<close> is an array of 256 words; the code allocates the data of all entries as one
  area, and writes the journal from it. The block device, for which the only table is that of the
  disk driver, is a parameter, and so are the clock and the system allocator.
\<close>

section \<open>Types and state\<close>

abbreviation (input) PFS_SUPER_SECTOR :: u32 where "PFS_SUPER_SECTOR \<equiv> 8192"
abbreviation (input) PFS_SUPER_BACKUP_SECTOR :: u32 where "PFS_SUPER_BACKUP_SECTOR \<equiv> 8193"
abbreviation (input) PFS_JOURNAL_MAGIC :: u32 where "PFS_JOURNAL_MAGIC \<equiv> 0x5046534C"
abbreviation (input) PFS_SEGD_MAGIC :: u32 where "PFS_SEGD_MAGIC \<equiv> 0x53454744"
abbreviation (input) PFS_SEGI_MAGIC :: u32 where "PFS_SEGI_MAGIC \<equiv> 0x53454749"
abbreviation (input) PFS_CACHE_FLAG_DIRTY :: u16 where "PFS_CACHE_FLAG_DIRTY \<equiv> 0x01"
abbreviation (input) PFS_CACHE_FLAG_NOLOAD :: u16 where "PFS_CACHE_FLAG_NOLOAD \<equiv> 0x02"
abbreviation (input) PFS_CACHE_FLAG_MASKSTATUS :: u16 where "PFS_CACHE_FLAG_MASKSTATUS \<equiv> 0x0F"
abbreviation (input) PFS_CACHE_FLAG_NOTHING :: u16 where "PFS_CACHE_FLAG_NOTHING \<equiv> 0x00"
abbreviation (input) PFS_CACHE_FLAG_SEGD :: u16 where "PFS_CACHE_FLAG_SEGD \<equiv> 0x10"
abbreviation (input) PFS_CACHE_FLAG_SEGI :: u16 where "PFS_CACHE_FLAG_SEGI \<equiv> 0x20"
abbreviation (input) PFS_CACHE_FLAG_BITMAP :: u16 where "PFS_CACHE_FLAG_BITMAP \<equiv> 0x40"
abbreviation (input) PFS_CACHE_FLAG_MASKTYPE :: u16 where "PFS_CACHE_FLAG_MASKTYPE \<equiv> 0xF0"
abbreviation (input) PFS_FSCK_STAT_WRITE_ERROR :: u32 where "PFS_FSCK_STAT_WRITE_ERROR \<equiv> 0x01"
abbreviation (input) PFS_IO_MODE_READ :: nat where "PFS_IO_MODE_READ \<equiv> 0"
abbreviation (input) PFS_IO_MODE_WRITE :: nat where "PFS_IO_MODE_WRITE \<equiv> 1"

text \<open>The globals \<open>pfsBlockSize\<close> and \<open>pfsMetaSize\<close> are never assigned.\<close>

abbreviation (input) pfsBlockSize :: nat where "pfsBlockSize \<equiv> 1"
abbreviation (input) pfsMetaSize :: nat where "pfsMetaSize \<equiv> 1024"

record pfs_blockinfo_t =
  bi_number :: u32
  bi_subpart :: u16
  bi_count :: u16

definition get_bi :: "words \<Rightarrow> nat \<Rightarrow> pfs_blockinfo_t" where
  "get_bi w k = \<lparr>bi_number = w k, bi_subpart = ucast (w (k + 1)), bi_count = ucast (drop_bit 16 (w (k + 1)))\<rparr>"

definition put_bi :: "nat \<Rightarrow> pfs_blockinfo_t \<Rightarrow> words \<Rightarrow> words" where
  "put_bi k b w = w(k := bi_number b, k + 1 := ucast (bi_subpart b) OR push_bit 16 (ucast (bi_count b)))"

record pfs_mount_t =
  m_fd :: int
  m_flags :: u32
  m_total_sector :: u32
  m_zfree :: u32
  m_sector_scale :: u32
  m_inode_scale :: u32
  m_zsize :: u32
  m_num_subs :: u32
  m_root_dir :: pfs_blockinfo_t
  m_log :: pfs_blockinfo_t
  m_current_dir :: pfs_blockinfo_t
  m_lastError :: int
  m_uid :: u16
  m_gid :: u16
  m_free_zone :: "nat \<Rightarrow> u32"

record pfs_cache_t =
  p_next :: nat
  p_prev :: nat
  p_flags :: u16
  p_nused :: u16
  p_mount :: nat
  p_sub :: u32
  p_sector :: u32
  p_data :: words

text \<open>
  \<open>transfer\<close> in its two directions (a read returns what the buffer then holds), the sizes of the
  partitions, the mark of a damaged partition, \<open>sceCdReadClock\<close> and \<open>AllocSysMemory\<close>.
\<close>

record 'w pfs_block_device_t =
  bd_read :: "int \<Rightarrow> u32 \<Rightarrow> u32 \<Rightarrow> u32 \<Rightarrow> 'w \<Rightarrow> int \<times> words \<times> 'w"
  bd_write :: "int \<Rightarrow> words \<Rightarrow> u32 \<Rightarrow> u32 \<Rightarrow> u32 \<Rightarrow> 'w \<Rightarrow> int \<times> 'w"
  bd_getSubNumber :: "int \<Rightarrow> 'w \<Rightarrow> u32"
  bd_getSize :: "int \<Rightarrow> u32 \<Rightarrow> 'w \<Rightarrow> u32"
  bd_setPartitionError :: "int \<Rightarrow> 'w \<Rightarrow> 'w"
  bd_flushCache :: "int \<Rightarrow> 'w \<Rightarrow> int \<times> 'w"
  bd_clock :: "'w \<Rightarrow> int \<times> cd_clock \<times> 'w"
  bd_alloc :: "nat \<Rightarrow> bool"

record 'w pfs_state =
  pfsCacheBuf :: "nat \<Rightarrow> pfs_cache_t"
  pfsCacheNumBuffers :: nat
  pfsMounts :: "nat \<Rightarrow> pfs_mount_t"
  pfsJournalBuf :: words
  pfsTimeBuf :: words
  bdev :: 'w

definition upd_p :: "nat \<Rightarrow> (pfs_cache_t \<Rightarrow> pfs_cache_t) \<Rightarrow> 'w pfs_state \<Rightarrow> 'w pfs_state" where
  "upd_p i f s = s\<lparr>pfsCacheBuf := (pfsCacheBuf s)(i := f (pfsCacheBuf s i))\<rparr>"

definition upd_data :: "nat \<Rightarrow> (words \<Rightarrow> words) \<Rightarrow> 'w pfs_state \<Rightarrow> 'w pfs_state" where
  "upd_data i f = upd_p i (p_data_update f)"

definition set_flag :: "nat \<Rightarrow> u16 \<Rightarrow> 'w pfs_state \<Rightarrow> 'w pfs_state" where
  "set_flag i b = upd_p i (p_flags_update (\<lambda>f. f OR b))"

definition clear_flag :: "nat \<Rightarrow> u16 \<Rightarrow> 'w pfs_state \<Rightarrow> 'w pfs_state" where
  "clear_flag i b = upd_p i (p_flags_update (\<lambda>f. f AND NOT b))"

definition upd_m :: "nat \<Rightarrow> (pfs_mount_t \<Rightarrow> pfs_mount_t) \<Rightarrow> 'w pfs_state \<Rightarrow> 'w pfs_state" where
  "upd_m m f s = s\<lparr>pfsMounts := (pfsMounts s)(m := f (pfsMounts s m))\<rparr>"

text \<open>The dereference of a mount pointer.\<close>

definition mnt :: "nat \<Rightarrow> 'w pfs_state \<Rightarrow> pfs_mount_t option" where
  "mnt m s = (if m = 0 then None else Some (pfsMounts s m))"

text \<open>Word offsets of \<open>pfs_inode_t\<close>.\<close>

abbreviation (input) I_CHECKSUM :: nat where "I_CHECKSUM \<equiv> 0"
abbreviation (input) I_MAGIC :: nat where "I_MAGIC \<equiv> 1"
abbreviation (input) I_INODE_BLOCK :: nat where "I_INODE_BLOCK \<equiv> 2"
abbreviation (input) I_NEXT_SEGMENT :: nat where "I_NEXT_SEGMENT \<equiv> 4"
abbreviation (input) I_LAST_SEGMENT :: nat where "I_LAST_SEGMENT \<equiv> 6"
abbreviation (input) I_DATA :: nat where "I_DATA \<equiv> 10"
abbreviation (input) I_MODE_ATTR :: nat where "I_MODE_ATTR \<equiv> 238"
abbreviation (input) I_UID_GID :: nat where "I_UID_GID \<equiv> 239"
abbreviation (input) I_ATIME :: nat where "I_ATIME \<equiv> 240"
abbreviation (input) I_CTIME :: nat where "I_CTIME \<equiv> 242"
abbreviation (input) I_MTIME :: nat where "I_MTIME \<equiv> 244"
abbreviation (input) I_SIZE :: nat where "I_SIZE \<equiv> 246"
abbreviation (input) I_NUMBER_BLOCKS :: nat where "I_NUMBER_BLOCKS \<equiv> 248"
abbreviation (input) I_NUMBER_DATA :: nat where "I_NUMBER_DATA \<equiv> 249"
abbreviation (input) I_NUMBER_SEGDESG :: nat where "I_NUMBER_SEGDESG \<equiv> 250"
abbreviation (input) I_SUBPART :: nat where "I_SUBPART \<equiv> 251"

definition pfsInodeCheckSum :: "words \<Rightarrow> u32" where
  "pfsInodeCheckSum inode = fold (\<lambda>i sum. sum + inode i) [1..<256] 0"

section \<open>Status flag and clock\<close>

abbreviation (input) SB_FSCKSTAT :: nat where "SB_FSCKSTAT \<equiv> 3"

text \<open>The buffer is the first sector of \<open>superblock\<close>; its contents are returned.\<close>

definition pfsFsckStat :: "'w pfs_block_device_t \<Rightarrow> int \<Rightarrow> words \<Rightarrow> u32 \<Rightarrow> nat \<Rightarrow> 'w \<Rightarrow> int \<times> words \<times> 'w" where
  "pfsFsckStat B fd buf stat mode d =
     (case bd_read B fd 0 PFS_SUPER_SECTOR 1 d of (r, w, d) \<Rightarrow>
        let buf = copy_words buf 0 w 128 in
        if r \<noteq> 0 then (0, buf, d)
        else if mode = 0 \<or> mode = 1 then
          let buf = buf(SB_FSCKSTAT := (if mode = 0 then buf SB_FSCKSTAT OR stat else buf SB_FSCKSTAT AND NOT stat));
              d = snd (bd_write B fd buf 0 PFS_SUPER_SECTOR 1 d)
          in (0, buf, snd (bd_flushCache B fd d))
        else (if 0 < buf SB_FSCKSTAT AND stat then 1 else 0, buf, d))"

fun pfs_clock_loop :: "'w pfs_block_device_t \<Rightarrow> nat \<Rightarrow> 'w pfs_state \<Rightarrow> 'w pfs_state" where
  "pfs_clock_loop B 0 s = s"
| "pfs_clock_loop B (Suc n) s =
     (case bd_clock B (bdev s) of (ret, ck, d) \<Rightarrow>
        let s = s\<lparr>bdev := d\<rparr> in
        if ret \<noteq> 0 \<and> ck_stat ck = 0 then s\<lparr>pfsTimeBuf := time_words ck (pfsTimeBuf s)\<rparr>
        else if ck_stat ck AND 0x80 = 0 then s
        else pfs_clock_loop B n s)"

definition pfsGetTime :: "'w pfs_block_device_t \<Rightarrow> 'w pfs_state \<Rightarrow> words \<times> 'w pfs_state" where
  "pfsGetTime B s = (let s = pfs_clock_loop B 20 s in (pfsTimeBuf s, s))"

section \<open>The free list\<close>

definition pfsCacheLink :: "nat \<Rightarrow> nat \<Rightarrow> 'w pfs_state \<Rightarrow> 'w pfs_state" where
  "pfsCacheLink clink cnew s =
     (let s = upd_p cnew (p_prev_update (\<lambda>_. clink)) s;
          s = upd_p cnew (p_next_update (\<lambda>_. p_next (pfsCacheBuf s clink))) s;
          s = upd_p (p_next (pfsCacheBuf s clink)) (p_prev_update (\<lambda>_. cnew)) s
      in upd_p clink (p_next_update (\<lambda>_. cnew)) s)"

definition pfsCacheUnLink :: "nat \<Rightarrow> 'w pfs_state \<Rightarrow> 'w pfs_state" where
  "pfsCacheUnLink clink s =
     (let s = upd_p (p_prev (pfsCacheBuf s clink)) (p_next_update (\<lambda>_. p_next (pfsCacheBuf s clink))) s
      in upd_p (p_next (pfsCacheBuf s clink)) (p_prev_update (\<lambda>_. p_prev (pfsCacheBuf s clink))) s)"

text \<open>An entry whose file system is gone goes to the front of the list, the others to its end.\<close>

definition pfsCacheFree :: "nat option \<Rightarrow> 'w pfs_state \<Rightarrow> 'w pfs_state" where
  "pfsCacheFree p s =
     (case p of
        None \<Rightarrow> s
      | Some clink \<Rightarrow>
          if p_nused (pfsCacheBuf s clink) = 0 then s
          else
            let s = upd_p clink (p_nused_update (\<lambda>n. n - 1)) s in
            if p_mount (pfsCacheBuf s clink) \<noteq> 0 then
              (if p_nused (pfsCacheBuf s clink) \<noteq> 0 then s
               else pfsCacheLink (p_prev (pfsCacheBuf s 0)) clink s)
            else if p_nused (pfsCacheBuf s clink) \<noteq> 0 then s
            else pfsCacheLink 0 clink s)"

definition pfsCacheUsedAdd :: "nat \<Rightarrow> 'w pfs_state \<Rightarrow> 'w pfs_state" where
  "pfsCacheUsedAdd clink = upd_p clink (p_nused_update (\<lambda>n. n + 1))"

definition pfsCacheIsFull :: "'w pfs_state \<Rightarrow> bool" where
  "pfsCacheIsFull s =
     (if p_prev (pfsCacheBuf s 0) \<noteq> 0 then False
      else p_next (pfsCacheBuf s (p_prev (pfsCacheBuf s 0))) = p_prev (pfsCacheBuf s 0))"

definition empty_entry :: "words \<Rightarrow> pfs_cache_t" where
  "empty_entry w = \<lparr>p_next = 0, p_prev = 0, p_flags = 0, p_nused = 0, p_mount = 0, p_sub = 0, p_sector = 0, p_data = w\<rparr>"

definition pfsCacheInit :: "'w pfs_block_device_t \<Rightarrow> u32 \<Rightarrow> u32 \<Rightarrow> 'w pfs_state \<Rightarrow> int \<times> 'w pfs_state" where
  "pfsCacheInit B numBuf bufSize s =
     (if numBuf > 127 then (- EINVAL, s)
      else if \<not> bd_alloc B (unat (numBuf * bufSize)) \<or> \<not> bd_alloc B (unat ((numBuf + 1) * 28)) then (- ENOMEM, s)
      else
        let s = s\<lparr>pfsCacheNumBuffers := unat numBuf,
                  pfsCacheBuf := (\<lambda>i. empty_entry (p_data (pfsCacheBuf s i)))\<rparr>
        in (0, fold (\<lambda>i s. pfsCacheLink (p_prev (pfsCacheBuf s 0)) i s) [1..<unat numBuf + 1] s))"

section \<open>Journal\<close>

text \<open>
  \<open>pfs_journal_t\<close> as words: the magic; the number of entries and the checksum as the two halves of a
  word; and 127 entries of the sector, and of the partition and the place in the log as halves.
\<close>

abbreviation (input) PJ_MAGIC :: nat where "PJ_MAGIC \<equiv> 0"
abbreviation (input) PJ_NUM :: nat where "PJ_NUM \<equiv> 1"
abbreviation (input) PJ_LOG :: nat where "PJ_LOG \<equiv> 2"

definition j_num :: "words \<Rightarrow> u16" where "j_num w = ucast (w PJ_NUM)"
definition j_checksum :: "words \<Rightarrow> u16" where "j_checksum w = ucast (drop_bit 16 (w PJ_NUM))"
definition j_sector :: "words \<Rightarrow> nat \<Rightarrow> u32" where "j_sector w i = w (PJ_LOG + 2 * i)"
definition j_sub :: "words \<Rightarrow> nat \<Rightarrow> u16" where "j_sub w i = ucast (w (PJ_LOG + 2 * i + 1))"
definition j_logSector :: "words \<Rightarrow> nat \<Rightarrow> u16" where "j_logSector w i = ucast (drop_bit 16 (w (PJ_LOG + 2 * i + 1)))"

definition pack16 :: "u16 \<Rightarrow> u16 \<Rightarrow> u32" where
  "pack16 lo hi = ucast lo OR push_bit 16 (ucast hi)"

definition pfsJournalChecksum :: "words \<Rightarrow> u32" where
  "pfsJournalChecksum h = fold (\<lambda>i sum. sum + h i) [2..<256] 0 AND 0xFFFF"

definition log_sector :: "pfs_mount_t \<Rightarrow> u32" where
  "log_sector mt = push_bit (unat (m_sector_scale mt)) (bi_number (m_log mt))"

definition empty_journal :: words where
  "empty_journal = (\<lambda>_. 0)(PJ_MAGIC := PFS_JOURNAL_MAGIC)"

definition pfsJournalFlush :: "'w pfs_block_device_t \<Rightarrow> nat \<Rightarrow> 'w pfs_state \<Rightarrow> (int \<times> 'w pfs_state) option" where
  "pfsJournalFlush B m s = do {
     mt \<leftarrow> mnt m s;
     let d = snd (bd_flushCache B (m_fd mt) (bdev s));
     let j = (pfsJournalBuf s)(PJ_NUM := pack16 (j_num (pfsJournalBuf s)) (ucast (pfsJournalChecksum (pfsJournalBuf s))));
     let (rv, d) = bd_write B (m_fd mt) j 0 (log_sector mt) 2 d;
     Some (rv, s\<lparr>pfsJournalBuf := j, bdev := snd (bd_flushCache B (m_fd mt) d)\<rparr>) }"

definition pfsJournalReset :: "'w pfs_block_device_t \<Rightarrow> nat \<Rightarrow> 'w pfs_state \<Rightarrow> (int \<times> 'w pfs_state) option" where
  "pfsJournalReset B m s = do {
     mt \<leftarrow> mnt m s;
     let d = snd (bd_flushCache B (m_fd mt) (bdev s));
     let (rv, d) = bd_write B (m_fd mt) empty_journal 0 (log_sector mt) 2 d;
     Some (rv, s\<lparr>pfsJournalBuf := empty_journal, bdev := snd (bd_flushCache B (m_fd mt) d)\<rparr>) }"

definition pfsJournalResetThis :: "'w pfs_block_device_t \<Rightarrow> int \<Rightarrow> u32 \<Rightarrow> 'w pfs_state \<Rightarrow> int \<times> 'w pfs_state" where
  "pfsJournalResetThis B fd sector s =
     (case bd_write B fd empty_journal 0 sector 2 (bdev s) of
        (rv, d) \<Rightarrow> (rv, s\<lparr>pfsJournalBuf := empty_journal, bdev := d\<rparr>))"

text \<open>The data of all entries in the order of the area they are allocated in.\<close>

definition cache_area :: "'w pfs_state \<Rightarrow> words" where
  "cache_area s k = p_data (pfsCacheBuf s (k div 256 + 1)) (k mod 256)"

definition dirty_of :: "nat \<Rightarrow> pfs_cache_t \<Rightarrow> bool" where
  "dirty_of m c \<longleftrightarrow> p_mount c = m \<and> p_flags c AND PFS_CACHE_FLAG_DIRTY \<noteq> 0"

text \<open>One round of the loop of \<open>pfsJournalWrite\<close>: entry \<open>i\<close> is logged at sector \<open>2 * i\<close> of the log.\<close>

definition log_entry :: "nat \<Rightarrow> nat \<Rightarrow> 'w pfs_state \<Rightarrow> 'w pfs_state option" where
  "log_entry m i s =
     (if \<not> dirty_of m (pfsCacheBuf s i) then Some s
      else
        let s = (if p_flags (pfsCacheBuf s i) AND (PFS_CACHE_FLAG_SEGD OR PFS_CACHE_FLAG_SEGI) \<noteq> 0
                 then upd_data i (\<lambda>w. w(I_CHECKSUM := pfsInodeCheckSum w)) s else s);
            c = pfsCacheBuf s i; j = pfsJournalBuf s; num = unat (j_num j)
        in if 127 \<le> num then None
           else Some (s\<lparr>pfsJournalBuf := j(
             PJ_LOG + 2 * num := push_bit pfsBlockSize (p_sector c),
             PJ_LOG + 2 * num + 1 := pack16 (ucast (p_sub c)) (of_nat (2 * i)),
             PJ_NUM := pack16 (j_num j + 1) (j_checksum j))\<rparr>))"

definition pfsJournalWrite :: "'w pfs_block_device_t \<Rightarrow> nat \<Rightarrow> 'w pfs_state \<Rightarrow> 'w pfs_state option" where
  "pfsJournalWrite B m s = do {
     s \<leftarrow> foldO (log_entry m) (slots (pfsCacheNumBuffers s)) s;
     mt \<leftarrow> mnt m s;
     let (rv, d) = bd_write B (m_fd mt) (cache_area s) 0 (log_sector mt + 2) (of_nat (2 * pfsCacheNumBuffers s)) (bdev s);
     let s = s\<lparr>bdev := d\<rparr>;
     if 0 \<le> rv then map_option snd (pfsJournalFlush B m s) else Some s }"

section \<open>Transfers\<close>

text \<open>The checks of what was read: the magic of a segment descriptor and its checksum.\<close>

definition seg_bad :: "pfs_cache_t \<Rightarrow> bool" where
  "seg_bad c \<longleftrightarrow>
     p_flags c AND PFS_CACHE_FLAG_SEGD \<noteq> 0 \<and> p_data c I_MAGIC \<noteq> PFS_SEGD_MAGIC \<or>
     p_flags c AND PFS_CACHE_FLAG_SEGI \<noteq> 0 \<and> p_data c I_MAGIC \<noteq> PFS_SEGI_MAGIC \<or>
     p_flags c AND (PFS_CACHE_FLAG_SEGD OR PFS_CACHE_FLAG_SEGI) \<noteq> 0 \<and> p_data c I_CHECKSUM \<noteq> pfsInodeCheckSum (p_data c)"

definition pfsCacheTransfer :: "'w pfs_block_device_t \<Rightarrow> nat \<Rightarrow> nat \<Rightarrow> 'w pfs_state \<Rightarrow> (int \<times> 'w pfs_state) option" where
  "pfsCacheTransfer B clink mode s = do {
     let c = pfsCacheBuf s clink;
     mt \<leftarrow> mnt (p_mount c) s;
     let s = (if m_lastError mt \<noteq> 0 then s
        else
          let (err, s) =
                (if mode = PFS_IO_MODE_READ
                 then (case bd_read B (m_fd mt) (p_sub c) (push_bit pfsBlockSize (p_sector c)) (push_bit pfsBlockSize 1) (bdev s) of
                         (r, w, d) \<Rightarrow>
                           let s = upd_data clink (\<lambda>b. copy_words b 0 w 256) (s\<lparr>bdev := d\<rparr>)
                           in (if r = 0 \<and> seg_bad (pfsCacheBuf s clink) then - EIO else r, s))
                 else (case bd_write B (m_fd mt) (p_data c) (p_sub c) (push_bit pfsBlockSize (p_sector c)) (push_bit pfsBlockSize 1) (bdev s) of
                         (r, d) \<Rightarrow> (r, s\<lparr>bdev := d\<rparr>)))
          in if err = 0 then s
             else
               let d = bd_setPartitionError B (m_fd mt) (bdev s);
                   (_, w, d) = pfsFsckStat B (m_fd mt) (p_data (pfsCacheBuf s clink)) PFS_FSCK_STAT_WRITE_ERROR 0 d
               in upd_m (p_mount c) (m_lastError_update (\<lambda>_. err)) (upd_data clink (\<lambda>_. w) (s\<lparr>bdev := d\<rparr>)));
     let s = clear_flag clink PFS_CACHE_FLAG_DIRTY s;
     Some (m_lastError (pfsMounts s (p_mount c)), s) }"

definition pfsCacheFlushAllDirty :: "'w pfs_block_device_t \<Rightarrow> nat \<Rightarrow> 'w pfs_state \<Rightarrow> 'w pfs_state option" where
  "pfsCacheFlushAllDirty B m s = do {
     s \<leftarrow> (if list_ex (\<lambda>i. dirty_of m (pfsCacheBuf s i)) (slots (pfsCacheNumBuffers s))
          then do {
            s \<leftarrow> pfsJournalWrite B m s;
            foldO (\<lambda>i s. if dirty_of m (pfsCacheBuf s i)
                         then map_option snd (pfsCacheTransfer B i PFS_IO_MODE_WRITE s) else Some s)
              (slots (pfsCacheNumBuffers s)) s }
          else Some s);
     map_option snd (pfsJournalReset B m s) }"

section \<open>Getting entries\<close>

definition pfs_list_empty :: "'w pfs_state \<Rightarrow> bool" where
  "pfs_list_empty s \<longleftrightarrow> p_prev (pfsCacheBuf s 0) = 0 \<and>
     p_next (pfsCacheBuf s (p_prev (pfsCacheBuf s 0))) = p_prev (pfsCacheBuf s 0)"

text \<open>
  No entry is the one failure of \<open>pfsCacheAlloc\<close>, with \<open>-ENOMEM\<close> in \<open>*result\<close>. The callers below return
  the final value of \<open>*result\<close>, the entry and the state.
\<close>

definition pfsCacheAlloc ::
    "'w pfs_block_device_t \<Rightarrow> nat \<Rightarrow> u16 \<Rightarrow> u32 \<Rightarrow> u16 \<Rightarrow> 'w pfs_state \<Rightarrow> (nat option \<times> 'w pfs_state) option" where
  "pfsCacheAlloc B m sub scale flags s =
     (if pfs_list_empty s then Some (None, s)
      else do {
        let i = p_next (pfsCacheBuf s 0);
        s \<leftarrow> (if p_mount (pfsCacheBuf s i) \<noteq> 0 \<and> p_flags (pfsCacheBuf s i) AND PFS_CACHE_FLAG_DIRTY \<noteq> 0
             then pfsCacheFlushAllDirty B (p_mount (pfsCacheBuf s i)) s else Some s);
        let s = upd_p i (\<lambda>c. c\<lparr>p_flags := flags AND PFS_CACHE_FLAG_MASKTYPE, p_mount := m,
                  p_sub := ucast sub, p_sector := scale, p_nused := 1\<rparr>) s;
        Some (Some i, pfsCacheUnLink i s) })"

definition pfsCacheGetData ::
    "'w pfs_block_device_t \<Rightarrow> nat \<Rightarrow> u16 \<Rightarrow> u32 \<Rightarrow> u16 \<Rightarrow> 'w pfs_state \<Rightarrow> (int \<times> nat option \<times> 'w pfs_state) option" where
  "pfsCacheGetData B m sub sector flags s =
     (case find (\<lambda>i. p_mount (pfsCacheBuf s i) \<noteq> 0 \<and> p_mount (pfsCacheBuf s i) = m \<and>
                    p_sector (pfsCacheBuf s i) = sector \<and> p_sub (pfsCacheBuf s i) = ucast sub)
            (slots (pfsCacheNumBuffers s)) of
        Some i \<Rightarrow>
          let s = upd_p i (p_flags_update (\<lambda>f. (f AND PFS_CACHE_FLAG_MASKSTATUS) OR (flags AND PFS_CACHE_FLAG_MASKTYPE))) s;
              s = (if p_nused (pfsCacheBuf s i) = 0 then pfsCacheUnLink i s else s)
          in Some (0, Some i, upd_p i (p_nused_update (\<lambda>n. n + 1)) s)
      | None \<Rightarrow> do {
          (p, s) \<leftarrow> pfsCacheAlloc B m sub sector flags s;
          case p of
            None \<Rightarrow> Some (- ENOMEM, None, s)
          | Some i \<Rightarrow>
              if flags AND PFS_CACHE_FLAG_NOLOAD \<noteq> 0 then Some (0, Some i, s)
              else do {
                (result, s) \<leftarrow> pfsCacheTransfer B i PFS_IO_MODE_READ s;
                if 0 \<le> result then Some (result, Some i, s)
                else Some (result, None, pfsCacheFree (Some i) (upd_p i (p_mount_update (\<lambda>_. 0)) s)) } })"

definition pfsCacheAllocClean :: "'w pfs_block_device_t \<Rightarrow> 'w pfs_state \<Rightarrow> (int \<times> nat option \<times> 'w pfs_state) option" where
  "pfsCacheAllocClean B s = do {
     (p, s) \<leftarrow> pfsCacheAlloc B 0 0 0 0 s;
     Some (if p = None then - ENOMEM else 0, p, s) }"

definition pfsCacheClose :: "'w pfs_block_device_t \<Rightarrow> nat \<Rightarrow> 'w pfs_state \<Rightarrow> 'w pfs_state option" where
  "pfsCacheClose B m s = do {
     s \<leftarrow> pfsCacheFlushAllDirty B m s;
     Some (fold (\<lambda>i s. if p_mount (pfsCacheBuf s i) = m then upd_p i (p_mount_update (\<lambda>_. 0)) s else s)
             (slots (pfsCacheNumBuffers s)) s) }"

definition pfsCacheMarkClean :: "nat \<Rightarrow> u32 \<Rightarrow> u32 \<Rightarrow> u32 \<Rightarrow> 'w pfs_state \<Rightarrow> 'w pfs_state" where
  "pfsCacheMarkClean m subpart sectorStart sectorEnd s =
     fold (\<lambda>i s. let c = pfsCacheBuf s i in
        if p_mount c = m \<and> p_sub c = subpart \<and> p_sector c \<ge> sectorStart \<and> p_sector c < sectorEnd
        then clear_flag i PFS_CACHE_FLAG_DIRTY s else s) (slots (pfsCacheNumBuffers s)) s"

text \<open>One round of the loop of \<open>pfsJournalRestore\<close>, through the data of entry \<open>clink\<close>; the journal has 127 places.\<close>

definition restore_entry :: "'w pfs_block_device_t \<Rightarrow> pfs_mount_t \<Rightarrow> nat \<Rightarrow> nat \<Rightarrow> 'w pfs_state \<Rightarrow> 'w pfs_state option" where
  "restore_entry B mt clink i s =
     (if 127 \<le> i then None
      else
        let j = pfsJournalBuf s;
            (rv, w, d) = bd_read B (m_fd mt) 0 (log_sector mt + ucast (j_logSector j i)) 2 (bdev s);
            s = upd_data clink (\<lambda>b. copy_words b 0 w 256) (s\<lparr>bdev := d\<rparr>)
        in if rv = 0
           then Some (s\<lparr>bdev := snd (bd_write B (m_fd mt) (p_data (pfsCacheBuf s clink))
                         (ucast (j_sub j i)) (j_sector j i) 2 (bdev s))\<rparr>)
           else Some s)"

definition pfsJournalRestore :: "'w pfs_block_device_t \<Rightarrow> nat \<Rightarrow> 'w pfs_state \<Rightarrow> (int \<times> 'w pfs_state) option" where
  "pfsJournalRestore B m s = do {
     mt \<leftarrow> mnt m s;
     let (rv, w, d) = bd_read B (m_fd mt) 0 (log_sector mt) 2 (bdev s);
     let s = s\<lparr>pfsJournalBuf := copy_words (pfsJournalBuf s) 0 w 256, bdev := d\<rparr>;
     let j = pfsJournalBuf s;
     if rv \<noteq> 0 \<or> j PJ_MAGIC \<noteq> PFS_JOURNAL_MAGIC \<or> j_checksum j \<noteq> ucast (pfsJournalChecksum j)
     then pfsJournalReset B m s
     else if j_num j = 0 then pfsJournalReset B m s
     else do {
       (result, p, s) \<leftarrow> pfsCacheAllocClean B s;
       case p of
         None \<Rightarrow> Some (result, s)
       | Some clink \<Rightarrow> do {
           s \<leftarrow> foldO (restore_entry B mt clink) [0..<unat (j_num (pfsJournalBuf s))] s;
           pfsJournalReset B m (pfsCacheFree (Some clink) s) } } }"

end
