(* ===== verification/PfsBitmap.thy ===== *)
theory PfsBitmap
  imports PfsCache
begin

text \<open>
  The allocation bitmaps of PFS, iop/hdd/libpfs/src/bitmap.c. A partition has one bit per zone, in
  chunks of 8192 bits that are read through the metadata cache. The loops over the bits of a chunk are
  functions on its words; the loops over chunks thread the state of the cache. Loop variables that stay
  below small bounds are natural numbers.
\<close>

abbreviation (input) pfsBitsPerBitmapChunk :: nat where "pfsBitsPerBitmapChunk \<equiv> 8192"
abbreviation (input) PFS_BITMAP_ALLOC :: nat where "PFS_BITMAP_ALLOC \<equiv> 0"
abbreviation (input) PFS_BITMAP_FREE :: nat where "PFS_BITMAP_FREE \<equiv> 1"

record pfs_bitmapInfo_t =
  bm_chunk :: nat
  bm_index :: nat
  bm_bit :: nat
  bm_partitionChunks :: nat
  bm_partitionRemainder :: nat

definition pfsBitmapSetupInfo ::
    "'w pfs_block_device_t \<Rightarrow> nat \<Rightarrow> u32 \<Rightarrow> u32 \<Rightarrow> 'w pfs_state \<Rightarrow> pfs_bitmapInfo_t option" where
  "pfsBitmapSetupInfo B m subpart number s = do {
     mt \<leftarrow> mnt m s;
     let sz = unat (drop_bit (unat (m_sector_scale mt)) (bd_getSize B (m_fd mt) subpart (bdev s)));
     let n = unat number;
     Some \<lparr>bm_chunk = n div pfsBitsPerBitmapChunk, bm_index = n mod pfsBitsPerBitmapChunk div 32,
           bm_bit = n mod 32, bm_partitionChunks = sz div pfsBitsPerBitmapChunk,
           bm_partitionRemainder = sz mod pfsBitsPerBitmapChunk\<rparr> }"

text \<open>The block of a bitmap chunk; on the main partition the bitmaps start behind the super block.\<close>

definition bitmap_sector :: "pfs_mount_t \<Rightarrow> u32 \<Rightarrow> nat \<Rightarrow> u32" where
  "bitmap_sector mt subpart chunk = push_bit (unat (m_inode_scale mt)) 1 + of_nat chunk +
     (if subpart = 0 then drop_bit pfsBlockSize 0x2000 else 0)"

text \<open>The conditions of the loops over chunks, and the number of words of a chunk that are in use.\<close>

definition chunk_in_range :: "pfs_bitmapInfo_t \<Rightarrow> nat \<Rightarrow> bool" where
  "chunk_in_range info chunk \<longleftrightarrow>
     bm_partitionRemainder info = 0 \<and> chunk < bm_partitionChunks info \<or>
     bm_partitionRemainder info \<noteq> 0 \<and> chunk < bm_partitionChunks info + 1"

definition chunk_words :: "pfs_bitmapInfo_t \<Rightarrow> nat \<Rightarrow> nat" where
  "chunk_words info chunk = (if chunk = bm_partitionChunks info then bm_partitionRemainder info div 32 else pfsMetaSize div 4)"

section \<open>Marking a range\<close>

text \<open>The loop over the bits of a word: what is left to mark and the new word.\<close>

function mark_bits :: "nat \<Rightarrow> nat \<Rightarrow> nat \<Rightarrow> u32 \<Rightarrow> nat \<times> u32" where
  "mark_bits operation b count w =
     (if b < 32 \<and> 0 < count
      then mark_bits operation (b + 1) (count - 1)
             (if operation = PFS_BITMAP_ALLOC then w OR push_bit b 1 else w AND NOT (push_bit b 1))
      else (count, w))"
  by auto
termination by (relation "measure (\<lambda>(operation, b, count, w). count)") auto

declare mark_bits.simps [simp del]

text \<open>The loop over the words of a chunk: what is left, the bit the next word would start at, the words.\<close>

function mark_words :: "nat \<Rightarrow> nat \<Rightarrow> nat \<Rightarrow> nat \<Rightarrow> words \<Rightarrow> nat \<times> nat \<times> words" where
  "mark_words operation index b count bm =
     (if index < pfsMetaSize div 4 \<and> 0 < count
      then (case mark_bits operation b count (bm index) of
              (count, w) \<Rightarrow> mark_words operation (index + 1) 0 count (bm(index := w)))
      else (count, b, bm))"
  by auto
termination by (relation "measure (\<lambda>(operation, index, b, count, bm). 256 - index)") auto

declare mark_words.simps [simp del]

lemma mark_bits_step:
  "b < 32 \<Longrightarrow> 0 < count \<Longrightarrow> mark_bits operation b count w = mark_bits operation (b + 1) (count - 1)
     (if operation = PFS_BITMAP_ALLOC then w OR push_bit b 1 else w AND NOT (push_bit b 1))"
  by (subst mark_bits.simps) simp

lemma mark_bits_stop: "32 \<le> b \<or> count = 0 \<Longrightarrow> mark_bits operation b count w = (count, w)"
  by (subst mark_bits.simps) auto

lemma mark_bits_le: "fst (mark_bits operation b count w) \<le> count"
proof (induction count arbitrary: b w)
  case 0
  then show ?case by (simp add: mark_bits_stop)
next
  case (Suc n)
  show ?case
  proof (cases "b < 32")
    case True
    then show ?thesis using le_SucI [OF Suc] by (simp add: mark_bits_step)
  qed (simp add: mark_bits_stop)
qed

lemma mark_bits_less:
  assumes "b < 32" "0 < count"
  shows "fst (mark_bits operation b count w) < count"
proof -
  have "count - 1 < count" using assms by simp
  then show ?thesis unfolding mark_bits_step [OF assms] by (rule le_less_trans [OF mark_bits_le])
qed

lemma mark_words_step:
  "index < 256 \<Longrightarrow> 0 < count \<Longrightarrow> mark_words operation index b count bm =
     mark_words operation (index + 1) 0 (fst (mark_bits operation b count (bm index)))
       (bm(index := snd (mark_bits operation b count (bm index))))"
  by (subst mark_words.simps) (simp split: prod.splits)

lemma mark_words_stop: "256 \<le> index \<or> count = 0 \<Longrightarrow> mark_words operation index b count bm = (count, b, bm)"
  by (subst mark_words.simps) auto

lemma mark_words_le: "fst (mark_words operation index b count bm) \<le> count"
proof (induction "256 - index" arbitrary: index b count bm)
  case 0
  then show ?case by (simp add: mark_words_stop)
next
  case (Suc n)
  show ?case
  proof (cases "0 < count")
    case True
    have "n = 256 - (index + 1)" using Suc.hyps(2) by simp
    from Suc.hyps(1) [OF this] mark_bits_le show ?thesis
      using True Suc.hyps(2) by (simp add: mark_words_step) (meson le_trans)
  qed (simp add: mark_words_stop)
qed

lemma mark_words_less:
  assumes "index < 256" "b < 32" "0 < count"
  shows "fst (mark_words operation index b count bm) < count"
  unfolding mark_words_step [OF assms(1,3)] by (rule le_less_trans [OF mark_words_le mark_bits_less [OF assms(2,3)]])

lemma mark_words_bit: "mark_words operation index b count bm = (c, b', bm') \<Longrightarrow> index < 256 \<Longrightarrow> 0 < count \<Longrightarrow> b' = 0"
proof (induction "256 - index" arbitrary: index b count bm)
  case 0
  then show ?case by simp
next
  case (Suc n)
  show ?case
  proof (cases "index + 1 < 256 \<and> 0 < fst (mark_bits operation b count (bm index))")
    case True
    have "n = 256 - (index + 1)" using Suc.hyps(2) by simp
    from Suc.hyps(1) [OF this Suc.prems(1) [unfolded mark_words_step [OF Suc.prems(2,3)]]] True show ?thesis
      by simp
  next
    case False
    with Suc.prems show ?thesis by (auto simp: mark_words_step mark_words_stop)
  qed
qed

lemma mark_words_measure:
  assumes "mark_words operation index b count w = (count', b', bm)" "0 < count'"
  shows "4 * count' + (if 32 \<le> b' then 1 else 0 :: nat) <
    4 * count + (if 256 \<le> index then 2 else 0) + (if 32 \<le> b then 1 else 0)"
proof -
  have le: "count' \<le> count" using mark_words_le [of operation index b count w] assms(1) by simp
  then have pos: "0 < count" using assms(2) by simp
  have "index < 256 \<Longrightarrow> b' = 0" using mark_words_bit [OF assms(1)] pos by blast
  moreover have "index < 256 \<Longrightarrow> b < 32 \<Longrightarrow> count' < count"
    using mark_words_less [of index b count operation w] assms(1) pos by simp
  moreover have "256 \<le> index \<Longrightarrow> b' = b \<and> count' = count"
    using assms(1) by (simp add: mark_words_stop)
  ultimately show ?thesis
    using le by (cases "index < 256"; cases "b < 32") auto
qed

text \<open>
  A range of zones is marked through as many chunks as it touches. The loop ends without finishing its
  work when the next chunk cannot be read.
\<close>

function pfsBitmapAllocFree :: "'w pfs_block_device_t \<Rightarrow> nat \<Rightarrow> u32 \<Rightarrow> nat option \<Rightarrow> nat \<Rightarrow> nat \<Rightarrow> nat \<Rightarrow> nat \<Rightarrow>
    'w pfs_state \<Rightarrow> 'w pfs_state option" where
  "pfsBitmapAllocFree B operation subpart clink chunk index b count s =
     (case clink of
        None \<Rightarrow> Some s
      | Some c \<Rightarrow>
          (case mark_words operation index b count (p_data (pfsCacheBuf s c)) of (count', b', bm) \<Rightarrow>
             let s1 = pfsCacheFree (Some c) (set_flag c PFS_CACHE_FLAG_DIRTY (upd_data c (\<lambda>_. bm) s)) in
             if count' = 0 then Some s1
             else do {
               mt \<leftarrow> mnt (p_mount (pfsCacheBuf s1 c)) s1;
               (_, p, s2) \<leftarrow> pfsCacheGetData B (p_mount (pfsCacheBuf s1 c)) (ucast subpart)
                 (bitmap_sector mt subpart (chunk + 1)) PFS_CACHE_FLAG_BITMAP s1;
               pfsBitmapAllocFree B operation subpart p (chunk + 1) 0 b' count' s2 }))"
  by pat_completeness auto
termination
  by (relation "measure (\<lambda>(B, operation, subpart, clink, chunk, index, b, count, s).
    4 * count + (if 256 \<le> index then 2 else 0) + (if 32 \<le> b then 1 else 0))")
    (simp, drule sym, drule sym, drule sym, simp add: mark_words_measure)

declare pfsBitmapAllocFree.simps [simp del]

section \<open>Extending a segment\<close>

text \<open>
  Zones behind a segment are taken while they are free. The loops return whether they met a used zone,
  what is left to take, what was taken, and the words.
\<close>

function extend_bits :: "nat \<Rightarrow> nat \<Rightarrow> nat \<Rightarrow> u32 \<Rightarrow> bool \<times> nat \<times> nat \<times> u32" where
  "extend_bits b count res w =
     (if b < 32 \<and> 0 < count
      then if w AND push_bit b 1 \<noteq> 0 then (True, count, res, w)
           else extend_bits (b + 1) (count - 1) (res + 1) (w OR push_bit b 1)
      else (False, count, res, w))"
  by auto
termination by (relation "measure (\<lambda>(b, count, res, w). count)") auto

declare extend_bits.simps [simp del]

function extend_words :: "nat \<Rightarrow> nat \<Rightarrow> nat \<Rightarrow> nat \<Rightarrow> nat \<Rightarrow> words \<Rightarrow> bool \<times> nat \<times> nat \<times> nat \<times> words" where
  "extend_words limit index b count res bm =
     (if index < limit \<and> 0 < count
      then (case extend_bits b count res (bm index) of
              (True, count, res, w) \<Rightarrow> (True, b, count, res, bm(index := w))
            | (False, count, res, w) \<Rightarrow> extend_words limit (index + 1) 0 count res (bm(index := w)))
      else (False, b, count, res, bm))"
  by auto
termination by (relation "measure (\<lambda>(limit, index, b, count, res, bm). limit - index)") auto

declare extend_words.simps [simp del]

text \<open>The loop over the chunks; the entry is dirty when a zone of its chunk was taken.\<close>

function extend_chunks :: "'w pfs_block_device_t \<Rightarrow> nat \<Rightarrow> u32 \<Rightarrow> pfs_bitmapInfo_t \<Rightarrow> nat \<Rightarrow> nat \<Rightarrow> nat \<Rightarrow> nat \<Rightarrow> nat \<Rightarrow>
    'w pfs_state \<Rightarrow> (nat \<times> 'w pfs_state) option" where
  "extend_chunks B m subpart info chunk index b count res s =
     (if \<not> (chunk_in_range info chunk \<and> 0 < count) then Some (res, s)
      else do {
        mt \<leftarrow> mnt m s;
        (_, p, s) \<leftarrow> pfsCacheGetData B m (ucast subpart) (bitmap_sector mt subpart chunk) PFS_CACHE_FLAG_BITMAP s;
        case p of
          None \<Rightarrow> Some (res, s)
        | Some c \<Rightarrow>
            (case extend_words (chunk_words info chunk) index b count res (p_data (pfsCacheBuf s c)) of
               (used, b', count', res', bm) \<Rightarrow>
                 let s = upd_data c (\<lambda>_. bm) s;
                     s = (if res < res' then set_flag c PFS_CACHE_FLAG_DIRTY s else s);
                     s = pfsCacheFree (Some c) s
                 in if used then Some (res', s)
                    else extend_chunks B m subpart info (chunk + 1) 0 b' count' res' s) })"
  by auto
termination
  by (relation "measure (\<lambda>(B, m, subpart, info, chunk, index, b, count, res, s). bm_partitionChunks info + 1 - chunk)")
    (auto simp: chunk_in_range_def)

declare extend_chunks.simps [simp del]

text \<open>The counts of free zones; there are 65 of them.\<close>

definition add_free :: "nat \<Rightarrow> u16 \<Rightarrow> u32 \<Rightarrow> 'w pfs_state \<Rightarrow> 'w pfs_state option" where
  "add_free m subpart n s =
     (if m = 0 \<or> 65 \<le> unat subpart then None
      else Some (upd_m m (\<lambda>mt. mt\<lparr>m_free_zone := (m_free_zone mt)(unat subpart := m_free_zone mt (unat subpart) + n),
                                  m_zfree := m_zfree mt + n\<rparr>) s))"

definition pfsBitmapAllocateAdditionalZones ::
    "'w pfs_block_device_t \<Rightarrow> nat \<Rightarrow> pfs_blockinfo_t \<Rightarrow> u32 \<Rightarrow> 'w pfs_state \<Rightarrow> (nat \<times> 'w pfs_state) option" where
  "pfsBitmapAllocateAdditionalZones B m bi count s = do {
     info \<leftarrow> pfsBitmapSetupInfo B m (ucast (bi_subpart bi)) (bi_number bi + ucast (bi_count bi)) s;
     let count = (if 65535 - ucast (bi_count bi) < count then 65535 - ucast (bi_count bi) else count);
     (res, s) \<leftarrow> extend_chunks B m (ucast (bi_subpart bi)) info (bm_chunk info) (bm_index info) (bm_bit info) (unat count) 0 s;
     s \<leftarrow> add_free m (bi_subpart bi) (- of_nat res) s;
     Some (res, s) }"

section \<open>Searching free zones\<close>

text \<open>
  The scan of the words of a chunk for a run of free zones: the run that was found, as its length so
  far and the position of its first zone (chunk, word, bit), and whether it is long enough.
\<close>

type_synonym run = "nat \<times> nat \<times> nat \<times> nat"

function scan_words :: "nat \<Rightarrow> words \<Rightarrow> nat \<Rightarrow> nat \<Rightarrow> nat \<Rightarrow> nat \<Rightarrow> run \<Rightarrow> bool \<times> nat \<times> run" where
  "scan_words amount bm chunk limit index b run =
     (if index < limit then
        (if b < 32 then
           (if \<not> bit (bm index) b then
              (case run of (count, start) \<Rightarrow>
                 let start = (if count = 0 then (chunk, index, b) else start) in
                 if count + 1 = amount then (True, b, count + 1, start)
                 else scan_words amount bm chunk limit index (b + 1) (count + 1, start))
            else scan_words amount bm chunk limit index (b + 1) (0, snd run))
         else scan_words amount bm chunk limit (index + 1) 0 run)
      else (False, b, run))"
  by auto
termination by (relation "measures [\<lambda>(amount, bm, chunk, limit, index, b, run). limit - index,
    \<lambda>(amount, bm, chunk, limit, index, b, run). 32 - b]") auto

declare scan_words.simps [simp del]

text \<open>
  What is done with a run: the first zones of it are marked, as many as the caller asked for. When the
  run starts in another chunk than the one at hand, that chunk is read; the test leaves out the offset
  of the main partition.
\<close>

definition take_run :: "'w pfs_block_device_t \<Rightarrow> nat \<Rightarrow> pfs_mount_t \<Rightarrow> pfs_blockinfo_t \<Rightarrow> nat \<Rightarrow> run \<Rightarrow>
    'w pfs_state \<Rightarrow> (pfs_blockinfo_t \<times> 'w pfs_state) option" where
  "take_run B m mt bi c run s =
     (case run of (count, startChunk, startPos, startBit) \<Rightarrow> do {
        let bi = bi\<lparr>bi_number := of_nat (startPos * 32 + startChunk * pfsBitsPerBitmapChunk + startBit)\<rparr>;
        let bi = (if count < unat (bi_count bi) then bi\<lparr>bi_count := of_nat count\<rparr> else bi);
        (p, s) \<leftarrow> (if p_sector (pfsCacheBuf s c) \<noteq> of_nat startChunk + push_bit (unat (m_inode_scale mt)) 1
                  then do {
                    let s = pfsCacheFree (Some c) s;
                    (_, p, s) \<leftarrow> pfsCacheGetData B m (bi_subpart bi)
                      (bitmap_sector mt (ucast (bi_subpart bi)) startChunk) PFS_CACHE_FLAG_BITMAP s;
                    Some (p, s) }
                  else Some (Some c, s));
        s \<leftarrow> pfsBitmapAllocFree B PFS_BITMAP_ALLOC (ucast (bi_subpart bi)) p startChunk startPos startBit (unat (bi_count bi)) s;
        Some (bi, s) })"

function zone_chunks :: "'w pfs_block_device_t \<Rightarrow> nat \<Rightarrow> pfs_blockinfo_t \<Rightarrow> nat \<Rightarrow> pfs_bitmapInfo_t \<Rightarrow> nat \<Rightarrow> nat \<Rightarrow> nat \<Rightarrow> run \<Rightarrow>
    'w pfs_state \<Rightarrow> (bool \<times> pfs_blockinfo_t \<times> 'w pfs_state) option" where
  "zone_chunks B m bi amount info chunk index b run s =
     (if \<not> chunk_in_range info chunk then Some (False, bi, s)
      else do {
        mt \<leftarrow> mnt m s;
        (_, p, s) \<leftarrow> pfsCacheGetData B m (bi_subpart bi) (bitmap_sector mt (ucast (bi_subpart bi)) chunk) PFS_CACHE_FLAG_BITMAP s;
        case p of
          None \<Rightarrow> Some (False, bi, s)
        | Some c \<Rightarrow>
            (case scan_words amount (p_data (pfsCacheBuf s c)) chunk (chunk_words info chunk) index b run of
               (found, b', run') \<Rightarrow>
                 if found then do { (bi, s) \<leftarrow> take_run B m mt bi c run' s; Some (True, bi, s) }
                 else zone_chunks B m bi amount info (chunk + 1) 0 b' run' (pfsCacheFree (Some c) s)) })"
  by auto
termination
  by (relation "measure (\<lambda>(B, m, bi, amount, info, chunk, index, b, run, s). bm_partitionChunks info + 1 - chunk)")
    (auto simp: chunk_in_range_def)

declare zone_chunks.simps [simp del]

definition pfsBitmapAllocZones ::
    "'w pfs_block_device_t \<Rightarrow> nat \<Rightarrow> pfs_blockinfo_t \<Rightarrow> nat \<Rightarrow> 'w pfs_state \<Rightarrow> (bool \<times> pfs_blockinfo_t \<times> 'w pfs_state) option" where
  "pfsBitmapAllocZones B m bi amount s = do {
     info \<leftarrow> pfsBitmapSetupInfo B m (ucast (bi_subpart bi)) (bi_number bi) s;
     zone_chunks B m bi amount info (bm_chunk info) (bm_index info) (bm_bit info) (0, 0, 0, 0) s }"

text \<open>The loop over the sizes, each half of the one before.\<close>

function try_sizes :: "'w pfs_block_device_t \<Rightarrow> nat \<Rightarrow> pfs_blockinfo_t \<Rightarrow> nat \<Rightarrow> 'w pfs_state \<Rightarrow>
    (bool \<times> pfs_blockinfo_t \<times> 'w pfs_state) option" where
  "try_sizes B m bi n s =
     (if n = 0 then Some (False, bi, s)
      else do {
        mt \<leftarrow> mnt m s;
        if 65 \<le> unat (bi_subpart bi) then None
        else if n \<le> unat (m_free_zone mt (unat (bi_subpart bi)))
        then do {
          (ok, bi, s) \<leftarrow> pfsBitmapAllocZones B m bi n s;
          if ok then do { s \<leftarrow> add_free m (bi_subpart bi) (- ucast (bi_count bi)) s; Some (True, bi, s) }
          else try_sizes B m bi (n div 2) s }
        else try_sizes B m bi (n div 2) s })"
  by auto
termination by (relation "measure (\<lambda>(B, m, bi, n, s). n)") auto

declare try_sizes.simps [simp del]

text \<open>The partition that is tried next.\<close>

definition next_part_of :: "u32 \<Rightarrow> pfs_blockinfo_t \<Rightarrow> pfs_blockinfo_t" where
  "next_part_of num_subs bi =
     (let bi = bi\<lparr>bi_number := 0, bi_subpart := bi_subpart bi + 1\<rparr> in
      if ucast (bi_subpart bi) = num_subs + 1 then bi\<lparr>bi_subpart := 0\<rparr> else bi)"

text \<open>
  The loop over the partitions counts \<open>num\<close> down and tests that it is not negative. The variable is
  unsigned, so the test never fails; a search that finds nothing does not return.
\<close>

partial_function (option) search_parts :: "'w pfs_block_device_t \<Rightarrow> nat \<Rightarrow> u32 \<Rightarrow> nat \<Rightarrow> pfs_blockinfo_t \<Rightarrow> 'w pfs_state \<Rightarrow>
    (int \<times> pfs_blockinfo_t \<times> 'w pfs_state) option" where
  "search_parts B m num count bi s =
     (if \<not> num \<ge> 0 then Some (- ENOSPC, bi, s)
      else do {
        (ok, bi, s) \<leftarrow> try_sizes B m bi count s;
        if ok then Some (0, bi, s)
        else do {
          mt \<leftarrow> mnt m s;
          search_parts B m (num - 1) count (next_part_of (m_num_subs mt) bi) s } })"

definition pfsBitmapSearchFreeZone ::
    "'w pfs_block_device_t \<Rightarrow> nat \<Rightarrow> pfs_blockinfo_t \<Rightarrow> u32 \<Rightarrow> 'w pfs_state \<Rightarrow> (int \<times> pfs_blockinfo_t \<times> 'w pfs_state) option" where
  "pfsBitmapSearchFreeZone B m bi max_count s = do {
     mt \<leftarrow> mnt m s;
     let num = m_num_subs mt + 1;
     let bi = (if ucast (bi_subpart bi) \<ge> num then bi\<lparr>bi_subpart := 0\<rparr> else bi);
     let num = (if bi_number bi \<noteq> 0 then m_num_subs mt + 2 else num);
     let count = (if max_count < 33 then unat max_count else 32);
     let count = (if count < unat (bi_count bi) then unat (bi_count bi) else count);
     search_parts B m (num - 1) count bi s }"

section \<open>Releasing and counting\<close>

definition pfsBitmapFreeBlockSegment ::
    "'w pfs_block_device_t \<Rightarrow> nat \<Rightarrow> pfs_blockinfo_t \<Rightarrow> 'w pfs_state \<Rightarrow> 'w pfs_state option" where
  "pfsBitmapFreeBlockSegment B m bi s = do {
     info \<leftarrow> pfsBitmapSetupInfo B m (ucast (bi_subpart bi)) (bi_number bi) s;
     mt \<leftarrow> mnt m s;
     (_, p, s) \<leftarrow> pfsCacheGetData B m (bi_subpart bi)
       (bitmap_sector mt (ucast (bi_subpart bi)) (bm_chunk info)) PFS_CACHE_FLAG_BITMAP s;
     if p = None then Some s
     else do {
       s \<leftarrow> pfsBitmapAllocFree B PFS_BITMAP_FREE (ucast (bi_subpart bi)) p (bm_chunk info) (bm_index info) (bm_bit info)
         (unat (bi_count bi)) s;
       add_free m (bi_subpart bi) (ucast (bi_count bi)) s } }"

text \<open>The table of the number of free zones in four bits, and the count over the bytes of a chunk.\<close>

definition pfsFreeZoneBitmap :: "u32 list" where
  "pfsFreeZoneBitmap = [4, 3, 3, 2, 3, 2, 2, 1, 3, 2, 2, 1, 2, 1, 1, 0]"

definition free_in_byte :: "u8 \<Rightarrow> u32" where
  "free_in_byte v = pfsFreeZoneBitmap ! unat (v AND 0xF) + pfsFreeZoneBitmap ! unat (drop_bit 4 v)"

definition free_in_bytes :: "words \<Rightarrow> nat \<Rightarrow> u32 \<Rightarrow> u32" where
  "free_in_bytes bm bitmapSize zoneFree = fold (\<lambda>i z. z + free_in_byte (byte_at bm i)) [0..<bitmapSize] zoneFree"

function count_chunks :: "'w pfs_block_device_t \<Rightarrow> nat \<Rightarrow> u32 \<Rightarrow> pfs_bitmapInfo_t \<Rightarrow> nat \<Rightarrow> u32 \<Rightarrow> 'w pfs_state \<Rightarrow>
    (u32 \<times> 'w pfs_state) option" where
  "count_chunks B m sub info chunk zoneFree s =
     (if \<not> chunk_in_range info chunk then Some (zoneFree, s)
      else do {
        let bitmapSize = (if chunk = bm_partitionChunks info then bm_partitionRemainder info div 8 else pfsMetaSize);
        mt \<leftarrow> mnt m s;
        (_, p, s) \<leftarrow> pfsCacheGetData B m (ucast sub) (bitmap_sector mt sub chunk) PFS_CACHE_FLAG_BITMAP s;
        case p of
          None \<Rightarrow> count_chunks B m sub info (chunk + 1) zoneFree s
        | Some c \<Rightarrow> count_chunks B m sub info (chunk + 1) (free_in_bytes (p_data (pfsCacheBuf s c)) bitmapSize zoneFree)
                      (pfsCacheFree (Some c) s) })"
  by auto
termination
  by (relation "measure (\<lambda>(B, m, sub, info, chunk, zoneFree, s). bm_partitionChunks info + 1 - chunk)")
    (auto simp: chunk_in_range_def)

declare count_chunks.simps [simp del]

definition pfsBitmapCalcFreeZones :: "'w pfs_block_device_t \<Rightarrow> nat \<Rightarrow> u32 \<Rightarrow> 'w pfs_state \<Rightarrow> (u32 \<times> 'w pfs_state) option" where
  "pfsBitmapCalcFreeZones B m sub s = do {
     info \<leftarrow> pfsBitmapSetupInfo B m sub 0 s;
     count_chunks B m sub info (bm_chunk info) 0 s }"

text \<open>
  The listing of the bitmaps, without its output: every chunk is read and released. Printing a chunk
  that could not be read has no result.
\<close>

function show_chunks :: "'w pfs_block_device_t \<Rightarrow> nat \<Rightarrow> u32 \<Rightarrow> pfs_bitmapInfo_t \<Rightarrow> nat \<Rightarrow> 'w pfs_state \<Rightarrow> 'w pfs_state option" where
  "show_chunks B m pn info chunk s =
     (if \<not> chunk_in_range info chunk then Some s
      else do {
        mt \<leftarrow> mnt m s;
        (_, p, s) \<leftarrow> pfsCacheGetData B m (ucast pn) (bitmap_sector mt pn chunk) PFS_CACHE_FLAG_BITMAP s;
        if p = None \<and> 0 < (if chunk = bm_partitionChunks info then bm_partitionRemainder info else pfsBitsPerBitmapChunk) div 8
        then None
        else show_chunks B m pn info (chunk + 1) (pfsCacheFree p s) })"
  by auto
termination
  by (relation "measure (\<lambda>(B, m, pn, info, chunk, s). bm_partitionChunks info + 1 - chunk)")
    (auto simp: chunk_in_range_def)

declare show_chunks.simps [simp del]

definition pfsBitmapShow :: "'w pfs_block_device_t \<Rightarrow> nat \<Rightarrow> 'w pfs_state \<Rightarrow> 'w pfs_state option" where
  "pfsBitmapShow B m s = do {
     mt \<leftarrow> mnt m s;
     foldO (\<lambda>pn s. do {
         info \<leftarrow> pfsBitmapSetupInfo B m (of_nat pn) 0 s;
         show_chunks B m (of_nat pn) info (bm_chunk info) s })
       [0..<unat (m_num_subs mt + 1)] s }"

end
