(* ===== verification/PfsBlock.thy ===== *)
theory PfsBlock
  imports PfsBitmap
begin

text \<open>
  Files as lists of block segments: iop/hdd/libpfs/src/block.c, blockWrite.c and inode.c, with
  \<open>pfsFixIndex\<close> of misc.c and the release of all blocks of an inode of bitmap.c. An inode has room for
  114 segments, of which the first is its own block; each further segment descriptor has room for
  123. A pointer to a cache entry is an index, and a null pointer is \<open>None\<close>.
\<close>

section \<open>Inodes and positions\<close>

definition pfsFixIndex :: "u32 \<Rightarrow> nat" where
  "pfsFixIndex index = (if index < 114 then unat index else unat ((index - 114) mod 123))"

definition inode :: "'w pfs_state \<Rightarrow> nat \<Rightarrow> words" where
  "inode s c = p_data (pfsCacheBuf s c)"

text \<open>The segment at an index of the array \<open>data\<close>.\<close>

definition seg_at :: "words \<Rightarrow> nat \<Rightarrow> pfs_blockinfo_t" where
  "seg_at w k = get_bi w (I_DATA + 2 * k)"

definition put_seg :: "nat \<Rightarrow> pfs_blockinfo_t \<Rightarrow> words \<Rightarrow> words" where
  "put_seg k = put_bi (I_DATA + 2 * k)"

definition i_size :: "words \<Rightarrow> u64" where
  "i_size w = ucast (w I_SIZE) OR push_bit 32 (ucast (w (I_SIZE + 1)))"

definition set_size64 :: "u64 \<Rightarrow> words \<Rightarrow> words" where
  "set_size64 n w = w(I_SIZE := ucast n, I_SIZE + 1 := ucast (drop_bit 32 n))"

definition i_mode :: "words \<Rightarrow> u16" where
  "i_mode w = ucast (w I_MODE_ATTR)"

record pfs_blockpos_t =
  bp_inode :: "nat option"
  bp_segment :: u32
  bp_offset :: u32
  bp_byte :: u32

text \<open>The mounted file system of an entry.\<close>

definition mount_of :: "nat \<Rightarrow> 'w pfs_state \<Rightarrow> pfs_mount_t option" where
  "mount_of c s = mnt (p_mount (pfsCacheBuf s c)) s"

section \<open>Segments\<close>

definition pfsInodeGetData ::
    "'w pfs_block_device_t \<Rightarrow> nat \<Rightarrow> u16 \<Rightarrow> u32 \<Rightarrow> 'w pfs_state \<Rightarrow> (int \<times> nat option \<times> 'w pfs_state) option" where
  "pfsInodeGetData B m sub ino s = do {
     mt \<leftarrow> mnt m s;
     pfsCacheGetData B m sub (push_bit (unat (m_inode_scale mt)) ino) PFS_CACHE_FLAG_SEGD s }"

definition pfsBlockGetNextSegment ::
    "'w pfs_block_device_t \<Rightarrow> nat \<Rightarrow> 'w pfs_state \<Rightarrow> (int \<times> nat option \<times> 'w pfs_state) option" where
  "pfsBlockGetNextSegment B clink s = do {
     let s = pfsCacheFree (Some clink) s;
     let nb = get_bi (inode s clink) I_NEXT_SEGMENT;
     if bi_number nb \<noteq> 0
     then do {
       mt \<leftarrow> mount_of clink s;
       pfsCacheGetData B (p_mount (pfsCacheBuf s clink)) (bi_subpart nb)
         (push_bit (unat (m_inode_scale mt)) (bi_number nb)) PFS_CACHE_FLAG_SEGI s }
     else Some (- EINVAL, None, s) }"

text \<open>A position is returned as the code leaves it, also on its error exits.\<close>

definition pfsBlockSeekNextSegment ::
    "'w pfs_block_device_t \<Rightarrow> nat \<Rightarrow> pfs_blockpos_t \<Rightarrow> 'w pfs_state \<Rightarrow> (int \<times> pfs_blockpos_t \<times> 'w pfs_state) option" where
  "pfsBlockSeekNextSegment B clink bp s =
     (if bp_byte bp \<noteq> 0 then Some (-1, bp, s)
      else if pfsFixIndex (bp_segment bp + 1) = 0 then do {
        ino \<leftarrow> bp_inode bp;
        (result, p, s) \<leftarrow> pfsBlockGetNextSegment B ino (pfsCacheUsedAdd ino s);
        case p of
          None \<Rightarrow> Some (result, bp, s)
        | Some nextSegment \<Rightarrow>
            let s = pfsCacheFree (Some ino) s;
                bp = bp\<lparr>bp_inode := Some nextSegment, bp_segment := bp_segment bp + 1\<rparr>
            in if inode s clink I_NUMBER_DATA - 1 = bp_segment bp then Some (- EINVAL, bp, s)
               else Some (result, bp\<lparr>bp_offset := 0, bp_segment := bp_segment bp + 1\<rparr>, s) }
      else Some (0, bp\<lparr>bp_offset := 0, bp_segment := bp_segment bp + 1\<rparr>, s))"

text \<open>The number of zones to go on, and the position with its offset inside a zone.\<close>

definition sync_pos :: "u32 \<Rightarrow> pfs_blockpos_t \<Rightarrow> u64 \<Rightarrow> u32 \<times> pfs_blockpos_t" where
  "sync_pos zsize bp sz =
     (let i = ucast (sz div ucast zsize);
          byte = bp_byte bp + ucast (sz mod ucast zsize)
      in if byte \<ge> zsize then (i + 1, bp\<lparr>bp_byte := byte - zsize\<rparr>) else (i, bp\<lparr>bp_byte := byte\<rparr>))"

definition pfsBlockSyncPos :: "pfs_blockpos_t \<Rightarrow> u64 \<Rightarrow> 'w pfs_state \<Rightarrow> (u32 \<times> pfs_blockpos_t) option" where
  "pfsBlockSyncPos bp sz s = do {
     ino \<leftarrow> bp_inode bp;
     mt \<leftarrow> mount_of ino s;
     if m_zsize mt = 0 then None else Some (sync_pos (m_zsize mt) bp sz) }"

text \<open>The walk over the segments of \<open>pfsInodeSync\<close>, with \<open>i\<close> zones to go.\<close>

partial_function (option) sync_loop :: "'w pfs_block_device_t \<Rightarrow> u32 \<Rightarrow> u32 \<Rightarrow> pfs_blockpos_t \<Rightarrow> 'w pfs_state \<Rightarrow>
    (int \<times> pfs_blockpos_t \<times> 'w pfs_state) option" where
  "sync_loop B used_segments i bp s =
     (if i = 0 then Some (0, bp, s)
      else do {
        ino \<leftarrow> bp_inode bp;
        let count = ucast (bi_count (seg_at (inode s ino) (pfsFixIndex (bp_segment bp))));
        let i = i + bp_offset bp;
        if i < count then Some (0, bp\<lparr>bp_offset := i\<rparr>, s)
        else do {
          let i = i - count;
          let last = (bp_segment bp + 1 = used_segments);
          let bp = (if last then bp\<lparr>bp_offset := count\<rparr> else bp\<lparr>bp_offset := 0, bp_segment := bp_segment bp + 1\<rparr>);
          if last \<and> (i \<noteq> 0 \<or> bp_byte bp \<noteq> 0) then Some (- EINVAL, bp, s)
          else if pfsFixIndex (bp_segment bp) \<noteq> 0 then sync_loop B used_segments i bp s
          else do {
            (result, p, s) \<leftarrow> pfsBlockGetNextSegment B ino s;
            if p = None then Some (result, bp\<lparr>bp_inode := None\<rparr>, s)
            else sync_loop B used_segments (i + 1) (bp\<lparr>bp_inode := p\<rparr>) s } } })"

definition pfsInodeSync :: "'w pfs_block_device_t \<Rightarrow> pfs_blockpos_t \<Rightarrow> u64 \<Rightarrow> u32 \<Rightarrow> 'w pfs_state \<Rightarrow>
    (int \<times> pfs_blockpos_t \<times> 'w pfs_state) option" where
  "pfsInodeSync B bp sz used_segments s = do {
     (i, bp) \<leftarrow> pfsBlockSyncPos bp sz s;
     sync_loop B used_segments i bp s }"

definition pfsBlockInitPos :: "'w pfs_block_device_t \<Rightarrow> nat \<Rightarrow> u64 \<Rightarrow> 'w pfs_state \<Rightarrow>
    (int \<times> pfs_blockpos_t \<times> 'w pfs_state) option" where
  "pfsBlockInitPos B clink position s =
     (let s = pfsCacheUsedAdd clink s;
          bp = (if i_size (inode s clink) \<noteq> 0
                then \<lparr>bp_inode = Some clink, bp_segment = 1, bp_offset = 0, bp_byte = 0\<rparr>
                else \<lparr>bp_inode = Some clink, bp_segment = 0, bp_offset = 1, bp_byte = 0\<rparr>)
      in pfsInodeSync B bp position (inode s clink I_NUMBER_DATA) s)"

definition pfsInodeSetTime :: "'w pfs_block_device_t \<Rightarrow> nat \<Rightarrow> 'w pfs_state \<Rightarrow> 'w pfs_state" where
  "pfsInodeSetTime B clink s =
     (case pfsGetTime B s of (t, s) \<Rightarrow>
        set_flag clink PFS_CACHE_FLAG_DIRTY (upd_data clink (\<lambda>w. w(
          I_MTIME := t 0, I_MTIME + 1 := t 1, I_CTIME := t 0, I_CTIME + 1 := t 1,
          I_ATIME := t 0, I_ATIME + 1 := t 1)) s))"

definition pfsGetDentriesChunk :: "'w pfs_block_device_t \<Rightarrow> pfs_blockpos_t \<Rightarrow> 'w pfs_state \<Rightarrow>
    (int \<times> nat option \<times> 'w pfs_state) option" where
  "pfsGetDentriesChunk B bp s = do {
     ino \<leftarrow> bp_inode bp;
     mt \<leftarrow> mount_of ino s;
     let bi = seg_at (inode s ino) (pfsFixIndex (bp_segment bp));
     pfsCacheGetData B (p_mount (pfsCacheBuf s ino)) (bi_subpart bi)
       (push_bit (unat (m_inode_scale mt)) (bi_number bi + bp_offset bp) + bp_byte bp div of_nat pfsMetaSize)
       PFS_CACHE_FLAG_NOTHING s }"

text \<open>The result, the offset inside the block that was read, the block, and the state.\<close>

definition pfsGetDentriesAtPos :: "'w pfs_block_device_t \<Rightarrow> nat \<Rightarrow> u64 \<Rightarrow> 'w pfs_state \<Rightarrow>
    (int \<times> nat \<times> nat option \<times> 'w pfs_state) option" where
  "pfsGetDentriesAtPos B clink position s = do {
     (result, bp, s) \<leftarrow> pfsBlockInitPos B clink position s;
     if result \<noteq> 0 then Some (result, 0, None, s)
     else do {
       (result, r, s) \<leftarrow> pfsGetDentriesChunk B bp s;
       Some (result, unat (bp_byte bp) mod pfsMetaSize, r, pfsCacheFree (bp_inode bp) s) } }"

section \<open>Growing files\<close>

definition pfsBlockExpandSegment ::
    "'w pfs_block_device_t \<Rightarrow> nat \<Rightarrow> pfs_blockpos_t \<Rightarrow> u32 \<Rightarrow> 'w pfs_state \<Rightarrow> (nat \<times> 'w pfs_state) option" where
  "pfsBlockExpandSegment B clink bp count s =
     (if pfsFixIndex (bp_segment bp) = 0 then Some (0, s)
      else do {
        ino \<leftarrow> bp_inode bp;
        let k = pfsFixIndex (bp_segment bp);
        (ret, s) \<leftarrow> pfsBitmapAllocateAdditionalZones B (p_mount (pfsCacheBuf s clink)) (seg_at (inode s ino) k) count s;
        if ret = 0 then Some (0, s)
        else
          let s = upd_data ino (\<lambda>w. put_seg k ((seg_at w k)\<lparr>bi_count := bi_count (seg_at w k) + of_nat ret\<rparr>) w) s;
              s = upd_data clink (\<lambda>w. w(I_NUMBER_BLOCKS := w I_NUMBER_BLOCKS + of_nat ret)) s;
              s = set_flag ino PFS_CACHE_FLAG_DIRTY s
          in Some (ret, set_flag clink PFS_CACHE_FLAG_DIRTY s) })"

text \<open>
  The first half of \<open>pfsBlockAllocNewSegment\<close>: a new segment descriptor when the last one is full. The
  null pointer that the cache may return is used without a test.
\<close>

definition new_descriptor ::
    "'w pfs_block_device_t \<Rightarrow> nat \<Rightarrow> pfs_blockpos_t \<Rightarrow> 'w pfs_state \<Rightarrow> (int \<times> pfs_blockpos_t \<times> 'w pfs_state) option" where
  "new_descriptor B clink bp s =
     (if pfsFixIndex (inode s clink I_NUMBER_DATA) \<noteq> 0 then Some (0, bp, s)
      else do {
        ino \<leftarrow> bp_inode bp;
        let m = p_mount (pfsCacheBuf s clink);
        let bi2 = seg_at (inode s ino) (pfsFixIndex (bp_segment bp));
        let bi = \<lparr>bi_number = bi_number bi2 + ucast (bi_count bi2), bi_subpart = bi_subpart bi2, bi_count = 1\<rparr>;
        (result, bi, s) \<leftarrow> pfsBitmapSearchFreeZone B m bi (inode s clink I_NUMBER_BLOCKS) s;
        if result < 0 then Some (result, bp, s)
        else do {
          mt \<leftarrow> mnt m s;
          (_, p, s) \<leftarrow> pfsCacheGetData B m (bi_subpart bi) (push_bit (unat (m_inode_scale mt)) (bi_number bi))
            (PFS_CACHE_FLAG_SEGI OR PFS_CACHE_FLAG_NOLOAD) s;
          clink2 \<leftarrow> p;
          let s = upd_data clink2 (\<lambda>w. (copy_words w 0 (\<lambda>_. 0) 256)(I_MAGIC := PFS_SEGI_MAGIC)) s;
          let s = upd_data clink2 (put_bi I_INODE_BLOCK (get_bi (inode s clink) I_INODE_BLOCK)) s;
          let s = upd_data clink2 (put_bi I_LAST_SEGMENT (seg_at (inode s ino) 0)) s;
          let s = upd_data clink2 (put_seg 0 bi) s;
          let s = set_flag clink2 PFS_CACHE_FLAG_DIRTY s;
          let s = upd_data clink (\<lambda>w. (put_bi I_LAST_SEGMENT bi w)(
                    I_NUMBER_BLOCKS := w I_NUMBER_BLOCKS + ucast (bi_count bi),
                    I_NUMBER_DATA := w I_NUMBER_DATA + 1,
                    I_NUMBER_SEGDESG := w I_NUMBER_SEGDESG + 1)) s;
          let s = set_flag clink PFS_CACHE_FLAG_DIRTY s;
          let s = upd_data ino (put_bi I_NEXT_SEGMENT bi) s;
          let s = pfsCacheFree (Some ino) (set_flag ino PFS_CACHE_FLAG_DIRTY s);
          Some (0, bp\<lparr>bp_inode := Some clink2, bp_segment := bp_segment bp + 1, bp_offset := 0\<rparr>, s) } })"

definition pfsBlockAllocNewSegment ::
    "'w pfs_block_device_t \<Rightarrow> nat \<Rightarrow> pfs_blockpos_t \<Rightarrow> u32 \<Rightarrow> 'w pfs_state \<Rightarrow> (int \<times> pfs_blockpos_t \<times> 'w pfs_state) option" where
  "pfsBlockAllocNewSegment B clink bp blocks s =
     (if pfsCacheIsFull s then Some (- ENOMEM, bp, s)
      else do {
        (result, bp, s) \<leftarrow> new_descriptor B clink bp s;
        if result < 0 then Some (result, bp, s)
        else do {
          ino \<leftarrow> bp_inode bp;
          let bi2 = seg_at (inode s ino) (pfsFixIndex (bp_segment bp));
          let bi = \<lparr>bi_number = bi_number bi2 + ucast (bi_count bi2), bi_subpart = bi_subpart bi2, bi_count = ucast blocks\<rparr>;
          (result, bi, s) \<leftarrow> pfsBitmapSearchFreeZone B (p_mount (pfsCacheBuf s clink)) bi (inode s clink I_NUMBER_BLOCKS) s;
          if result < 0 then Some (result, bp, s)
          else do {
            let s = upd_data clink (\<lambda>w. w(I_NUMBER_BLOCKS := w I_NUMBER_BLOCKS + ucast (bi_count bi),
                      I_NUMBER_DATA := w I_NUMBER_DATA + 1)) s;
            let s = set_flag clink PFS_CACHE_FLAG_DIRTY s;
            let bp = bp\<lparr>bp_offset := 0, bp_segment := bp_segment bp + 1\<rparr>;
            let k = pfsFixIndex (inode s clink I_NUMBER_DATA - 1);
            let s = set_flag ino PFS_CACHE_FLAG_DIRTY (upd_data ino (put_seg k bi) s);
            let left = blocks - ucast (bi_count bi);
            if left = 0 then Some (sint (blocks - left), bp, s)
            else do {
              (ret, s) \<leftarrow> pfsBlockExpandSegment B clink bp left s;
              Some (sint (blocks - (left - of_nat ret)), bp, s) } } } })"

definition pfsBlockGetCurrent :: "pfs_blockpos_t \<Rightarrow> 'w pfs_state \<Rightarrow> pfs_blockinfo_t option" where
  "pfsBlockGetCurrent bp s = do {
     ino \<leftarrow> bp_inode bp;
     Some (seg_at (inode s ino) (pfsFixIndex (bp_segment bp))) }"

definition pfsBlockGetLastSegmentDescriptorInode ::
    "'w pfs_block_device_t \<Rightarrow> nat \<Rightarrow> 'w pfs_state \<Rightarrow> (int \<times> nat option \<times> 'w pfs_state) option" where
  "pfsBlockGetLastSegmentDescriptorInode B clink s = do {
     mt \<leftarrow> mount_of clink s;
     let l = get_bi (inode s clink) I_LAST_SEGMENT;
     let i = get_bi (inode s clink) I_INODE_BLOCK;
     pfsCacheGetData B (p_mount (pfsCacheBuf s clink)) (bi_subpart l) (push_bit (unat (m_inode_scale mt)) (bi_number l))
       (if bi_subpart l = bi_subpart i \<and> bi_number l = bi_number i then 16 else 32) s }"

section \<open>Releasing all blocks of an inode\<close>

text \<open>
  The loop reads its bound from the descriptor at hand, and the segment it releases from the descriptor
  it had before it moved on to the next one; that segment is read once, when it is chosen.
\<close>

function free_segments :: "'w pfs_block_device_t \<Rightarrow> nat \<Rightarrow> nat \<Rightarrow> nat \<Rightarrow> 'w pfs_state \<Rightarrow> 'w pfs_state option" where
  "free_segments B m clink i s =
     (if \<not> i < unat (inode s clink I_NUMBER_DATA) then Some (pfsCacheFree (Some clink) s)
      else do {
        let index = pfsFixIndex (of_nat i);
        (p, bi, s) \<leftarrow> (if i \<noteq> 0 \<and> index = 0
          then do {
            (_, p, s1) \<leftarrow> pfsBlockGetNextSegment B clink s;
            Some (p, seg_at (inode s1 clink) index, s1) }
          else Some (Some clink, seg_at (inode s clink) index, s));
        case p of
          None \<Rightarrow> Some s
        | Some clink' \<Rightarrow> do {
            s \<leftarrow> pfsBitmapFreeBlockSegment B m bi s;
            mt \<leftarrow> mnt m s;
            let s = pfsCacheMarkClean m (ucast (bi_subpart bi)) (push_bit (unat (m_inode_scale mt)) (bi_number bi))
              (push_bit (unat (m_inode_scale mt)) (bi_number bi + ucast (bi_count bi))) s;
            free_segments B m clink' (i + 1) s } })"
  by auto
termination
proof (relation "measure (\<lambda>(B, m, clink, i, s). 4294967296 - i)", goal_cases)
  case (2 B m clink i s)
  then show ?case using unat_u32_less [of "inode s clink I_NUMBER_DATA"] by simp
qed simp

declare free_segments.simps [simp del]

definition pfsBitmapFreeInodeBlocks :: "'w pfs_block_device_t \<Rightarrow> nat \<Rightarrow> 'w pfs_state \<Rightarrow> 'w pfs_state option" where
  "pfsBitmapFreeInodeBlocks B clink s =
     free_segments B (p_mount (pfsCacheBuf s clink)) clink 0 (pfsCacheUsedAdd clink s)"

end
