(* ===== verification/PfsDentry.thy ===== *)
theory PfsDentry
  imports PfsBlock
begin

text \<open>
  Directory entries in the blocks of a directory, the first half of iop/hdd/libpfs/src/dir.c. A
  block of 1024 bytes is two sectors, and the entries of a sector follow each other without gaps. An
  entry is named by its offset in the block: 4 bytes of the number of the inode, the partition, the
  length of the name, the allocated length with the file type in its upper bits, and the name. A byte
  past the block, which only a damaged directory makes the code read, is what the entry's data holds
  there.
\<close>

abbreviation (input) FIO_S_IFMT :: u16 where "FIO_S_IFMT \<equiv> 0xF000"
abbreviation (input) FIO_S_IFLNK :: u16 where "FIO_S_IFLNK \<equiv> 0x4000"
abbreviation (input) FIO_S_IFDIR :: u16 where "FIO_S_IFDIR \<equiv> 0x1000"

section \<open>Bytes of a block\<close>

definition put_byte :: "nat \<Rightarrow> u8 \<Rightarrow> words \<Rightarrow> words" where
  "put_byte k v w = w(k div 4 := (w (k div 4) AND NOT (push_bit (8 * (k mod 4)) 0xFF)) OR
     push_bit (8 * (k mod 4)) (ucast v))"

fun put_bytes :: "nat \<Rightarrow> u8 list \<Rightarrow> words \<Rightarrow> words" where
  "put_bytes k [] w = w"
| "put_bytes k (v # vs) w = put_bytes (k + 1) vs (put_byte k v w)"

definition bytes_at :: "words \<Rightarrow> nat \<Rightarrow> nat \<Rightarrow> u8 list" where
  "bytes_at w k n = map (\<lambda>i. byte_at w (k + i)) [0..<n]"

definition chars :: "string \<Rightarrow> u8 list" where
  "chars cs = map (\<lambda>c. of_nat (of_char c)) cs"

section \<open>Entries\<close>

definition de_inode :: "words \<Rightarrow> nat \<Rightarrow> u32" where
  "de_inode w d = word_of_bytes (\<lambda>k. byte_at w (d + k)) 0"

definition de_sub :: "words \<Rightarrow> nat \<Rightarrow> u8" where "de_sub w d = byte_at w (d + 4)"
definition de_pLen :: "words \<Rightarrow> nat \<Rightarrow> nat" where "de_pLen w d = unat (byte_at w (d + 5))"

definition de_aLen16 :: "words \<Rightarrow> nat \<Rightarrow> u16" where
  "de_aLen16 w d = ucast (byte_at w (d + 6)) OR push_bit 8 (ucast (byte_at w (d + 7)))"

text \<open>The allocated length without the file type.\<close>

definition de_aLen :: "words \<Rightarrow> nat \<Rightarrow> nat" where
  "de_aLen w d = unat (de_aLen16 w d AND 0xFFF)"

definition de_path :: "words \<Rightarrow> nat \<Rightarrow> nat \<Rightarrow> u8" where
  "de_path w d i = byte_at w (d + 8 + i)"

definition set_de_inode :: "nat \<Rightarrow> u32 \<Rightarrow> words \<Rightarrow> words" where
  "set_de_inode d n = put_bytes d [ucast n, ucast (drop_bit 8 n), ucast (drop_bit 16 n), ucast (drop_bit 24 n)]"

definition set_de_sub :: "nat \<Rightarrow> u16 \<Rightarrow> words \<Rightarrow> words" where "set_de_sub d n = put_byte (d + 4) (ucast n)"
definition set_de_pLen :: "nat \<Rightarrow> nat \<Rightarrow> words \<Rightarrow> words" where "set_de_pLen d n = put_byte (d + 5) (of_nat n)"

definition set_de_aLen16 :: "nat \<Rightarrow> u16 \<Rightarrow> words \<Rightarrow> words" where
  "set_de_aLen16 d n = put_bytes (d + 6) [ucast n, ucast (drop_bit 8 n)]"

text \<open>The length an entry needs for its name: \<open>(pLen + 8 + 3) & 0x1FC\<close>.\<close>

definition dentryLen :: "nat \<Rightarrow> nat" where
  "dentryLen pLen = unat ((of_nat (pLen + 8 + 3) :: u32) AND 0x1FC)"

lemma dentryLen_table: "\<forall>p\<in>set [0..<256]. dentryLen p = (p + 11) div 4 * 4"
  unfolding dentryLen_def by code_simp

lemma dentryLen_eq: "p < 256 \<Longrightarrow> dentryLen p = (p + 11) div 4 * 4"
  using bspec [OF dentryLen_table, of p] by simp

lemma dentryLen_ge: "p < 256 \<Longrightarrow> 8 \<le> dentryLen p"
  by (simp add: dentryLen_eq)

lemma de_pLen_less: "de_pLen w d < 256"
  unfolding de_pLen_def by (rule order_less_le_trans [OF unsigned_less]) simp

text \<open>\<open>strcmp\<close> of a name in an entry with a literal.\<close>

definition path_is :: "words \<Rightarrow> nat \<Rightarrow> string \<Rightarrow> bool" where
  "path_is w d lit = strncmp_eq (de_path w d) (str_byte lit) (length lit + 1)"

text \<open>
  The test of \<open>pfsGetDentry\<close> that the option selects: an entry of that name, one with room for that name,
  or one that is neither empty nor one of the two every directory has. Another option ends the search.
\<close>

definition dentry_fits :: "nat \<Rightarrow> string option \<Rightarrow> words \<Rightarrow> nat \<Rightarrow> bool option" where
  "dentry_fits sel path w d =
     (let len = (case path of None \<Rightarrow> 0 | Some p \<Rightarrow> length p);
          newLen = (case path of None \<Rightarrow> 0 | Some p \<Rightarrow> unat ((of_nat (length p + 8 + 3) :: u32) AND NOT 3));
          aLen = de_aLen w d; pLen = de_pLen w d in
      if sel = 0 then Some (len = pLen \<and> (case path of None \<Rightarrow> False | Some p \<Rightarrow> bytes_at w (d + 8) pLen = chars p))
      else if sel = 1 then Some (if de_inode w d \<noteq> 0 \<or> aLen < newLen then aLen - dentryLen pLen \<ge> newLen else True)
      else if sel = 2 then Some (pLen \<noteq> 0 \<and> \<not> path_is w d ''.'' \<and> \<not> path_is w d ''..'')
      else None)"

section \<open>The search\<close>

datatype dscan = DFound nat | DBad | DEnd

text \<open>The loop over the entries of a sector, from \<open>d\<close> to its end \<open>d2\<close>.\<close>

function scan_sector :: "nat \<Rightarrow> string option \<Rightarrow> words \<Rightarrow> nat \<Rightarrow> nat \<Rightarrow> u32 \<Rightarrow> dscan \<times> u32" where
  "scan_sector sel path w d2 d sz =
     (if \<not> d < d2 then (DEnd, sz)
      else
        let aLen = de_aLen w d in
        if aLen mod 4 \<noteq> 0 \<or> aLen < dentryLen (de_pLen w d) \<or> d2 < d + aLen then (DBad, sz)
        else (case dentry_fits sel path w d of
                None \<Rightarrow> (DBad, sz)
              | Some True \<Rightarrow> (DFound d, sz)
              | Some False \<Rightarrow> scan_sector sel path w d2 (d + aLen) (sz + of_nat aLen)))"
  by auto
termination
proof (relation "measure (\<lambda>(sel, path, w, d2, d, sz). d2 - d)", goal_cases)
  case (2 sel path w d2 d sz aLen)
  then have "8 \<le> aLen" using dentryLen_ge [OF de_pLen_less, of w d] by simp
  with 2 show ?case by auto
qed simp

declare scan_sector.simps [simp del]

text \<open>
  The next block of the directory when the sectors of the one at hand are done: whether the search goes
  on, the position, the block, and the offset of the next sector in it.
\<close>

definition dentry_chunk :: "'w pfs_block_device_t \<Rightarrow> nat \<Rightarrow> pfs_blockpos_t \<Rightarrow> nat option \<Rightarrow> nat \<Rightarrow> 'w pfs_state \<Rightarrow>
    (bool \<times> pfs_blockpos_t \<times> nat option \<times> nat \<times> 'w pfs_state) option" where
  "dentry_chunk B clink bp dc d2 s =
     (if pfsMetaSize \<le> d2 then do {
        (r, bp, s) \<leftarrow> pfsInodeSync B bp (of_nat pfsMetaSize) (inode s clink I_NUMBER_DATA) s;
        if r \<noteq> 0 then Some (False, bp, dc, d2, s)
        else do {
          (_, dc, s) \<leftarrow> pfsGetDentriesChunk B bp (pfsCacheFree dc s);
          Some (dc \<noteq> None, bp, dc, 0, s) } }
      else Some (True, bp, dc, d2, s))"

text \<open>
  The loop over the sectors of the directory. It has the block at hand, the end of the last sector it
  has looked at, and the number of bytes of entries it has passed.
\<close>

partial_function (option) dentry_loop :: "'w pfs_block_device_t \<Rightarrow> nat \<Rightarrow> string option \<Rightarrow> nat \<Rightarrow> pfs_blockpos_t \<Rightarrow> nat option \<Rightarrow>
    nat \<Rightarrow> u32 \<Rightarrow> 'w pfs_state \<Rightarrow> ((nat \<times> nat) option \<times> u32 \<times> 'w pfs_state) option" where
  "dentry_loop B sel path clink bp dc d2 sz s =
     (if \<not> ucast sz < i_size (inode s clink)
      then Some (None, sz, pfsCacheFree (bp_inode bp) (pfsCacheFree dc s))
      else do {
        (go, bp, dc, d, s) \<leftarrow> dentry_chunk B clink bp dc d2 s;
        if \<not> go then Some (None, sz, pfsCacheFree (bp_inode bp) (pfsCacheFree dc s))
        else do {
          c \<leftarrow> dc;
          (case scan_sector sel path (inode s c) (d + 512) d sz of
             (DFound d', sz) \<Rightarrow> Some (Some (c, d'), sz, pfsCacheFree (bp_inode bp) s)
           | (DBad, sz) \<Rightarrow> Some (None, sz, pfsCacheFree (bp_inode bp) (pfsCacheFree dc s))
           | (DEnd, sz) \<Rightarrow> dentry_loop B sel path clink bp dc (d + 512) sz s) } })"

definition pfsGetDentry :: "'w pfs_block_device_t \<Rightarrow> nat \<Rightarrow> string option \<Rightarrow> nat \<Rightarrow> 'w pfs_state \<Rightarrow>
    ((nat \<times> nat) option \<times> u32 \<times> 'w pfs_state) option" where
  "pfsGetDentry B clink path sel s = do {
     let s = pfsCacheUsedAdd clink s;
     let bp = \<lparr>bp_inode = Some clink, bp_segment = 1, bp_offset = 0, bp_byte = 0\<rparr>;
     (_, dc, s) \<leftarrow> pfsGetDentriesChunk B bp s;
     if dc = None then Some (None, 0, pfsCacheFree (Some clink) s)
     else dentry_loop B sel path clink bp dc 0 0 s }"

text \<open>The next entry that is not empty: its length, name, inode and partition, and where the scan stands.\<close>

partial_function (option) pfsGetNextDentry :: "'w pfs_block_device_t \<Rightarrow> nat \<Rightarrow> pfs_blockpos_t \<Rightarrow> u32 \<Rightarrow> u8 list \<Rightarrow> pfs_blockinfo_t \<Rightarrow>
    nat \<Rightarrow> 'w pfs_state \<Rightarrow> (nat \<times> u8 list \<times> pfs_blockinfo_t \<times> u32 \<times> pfs_blockpos_t \<times> 'w pfs_state) option" where
  "pfsGetNextDentry B clink bp position name bi len s =
     (if \<not> (len = 0 \<and> ucast position < i_size (inode s clink)) then Some (len, name, bi, position, bp, s)
      else do {
        (_, dc, s) \<leftarrow> pfsGetDentriesChunk B bp s;
        case dc of
          None \<Rightarrow> Some (len, name, bi, position, bp, s)
        | Some c \<Rightarrow> do {
            let d = unat (bp_byte bp) mod pfsMetaSize;
            let w = inode s c;
            let len = de_pLen w d;
            let name = bytes_at w (d + 8) len;
            let bi = bi\<lparr>bi_subpart := ucast (de_sub w d), bi_number := de_inode w d\<rparr>;
            let s = pfsCacheFree (Some c) s;
            let position = position + of_nat (de_aLen w d);
            (r, bp, s) \<leftarrow> pfsInodeSync B bp (of_nat (de_aLen w d)) (inode s clink I_NUMBER_DATA) s;
            if r \<noteq> 0 then Some (len, name, bi, position, bp, s)
            else pfsGetNextDentry B clink bp position name bi len s } })"

section \<open>Writing entries\<close>

definition fill_dentry :: "nat \<Rightarrow> string \<Rightarrow> pfs_blockinfo_t \<Rightarrow> u32 \<Rightarrow> u16 \<Rightarrow> words \<Rightarrow> words" where
  "fill_dentry d path bi len mode w =
     (let w = set_de_inode d (bi_number bi) w;
          w = set_de_sub d (bi_subpart bi) w;
          w = set_de_pLen d (length path) w;
          w = set_de_aLen16 d (ucast len OR (mode AND FIO_S_IFMT)) w
      in put_bytes (d + 8) (take (de_pLen w d) (chars path)) w)"

definition pfsFillDentry :: "nat \<Rightarrow> nat \<Rightarrow> string \<Rightarrow> pfs_blockinfo_t \<Rightarrow> u32 \<Rightarrow> u16 \<Rightarrow> 'w pfs_state \<Rightarrow> 'w pfs_state" where
  "pfsFillDentry clink d path bi len mode = upd_data clink (fill_dentry d path bi len mode)"

text \<open>An entry with room is cut to what its name needs; the rest becomes the new entry.\<close>

definition split_dentry :: "nat \<Rightarrow> words \<Rightarrow> nat \<times> u32 \<times> words" where
  "split_dentry d w =
     (let len = de_aLen w d;
          len = (if de_pLen w d \<noteq> 0 then len - dentryLen (de_pLen w d) else len);
          w' = set_de_aLen16 d ((de_aLen16 w d AND FIO_S_IFMT) OR of_nat (de_aLen w d - len)) w
      in (d + de_aLen w' d, of_nat len, w'))"

text \<open>
  The walk of \<open>pfsDirRemoveEntry\<close> over the sector of the entry at \<open>d\<close>: the entry before it takes over its
  length; without one it is emptied, and the directory gets shorter when it was the last.
\<close>

datatype dremove = Merged nat | Emptied | Missing

partial_function (option) remove_walk :: "words \<Rightarrow> nat \<Rightarrow> nat option \<Rightarrow> nat \<Rightarrow> nat \<Rightarrow> dremove option" where
  "remove_walk w d dlast dnext i =
     (if dnext = d then Some (case dlast of Some l \<Rightarrow> Merged l | None \<Rightarrow> Emptied)
      else if i + de_aLen w dnext < 512
      then remove_walk w d (Some dnext) (dnext + de_aLen w dnext) (i + de_aLen w dnext)
      else Some Missing)"

definition pfsDirRemoveEntry :: "'w pfs_block_device_t \<Rightarrow> nat \<Rightarrow> string \<Rightarrow> 'w pfs_state \<Rightarrow> (nat option \<times> 'w pfs_state) option" where
  "pfsDirRemoveEntry B clink path s = do {
     (found, sz, s) \<leftarrow> pfsGetDentry B clink (Some path) 0 s;
     case found of
       None \<Rightarrow> Some (None, s)
     | Some (c, d) \<Rightarrow> do {
         let aLen = de_aLen (inode s c) d;
         r \<leftarrow> remove_walk (inode s c) d None (d div 512 * 512) 0;
         case r of
           Merged l \<Rightarrow> Some (Some c, upd_data c (\<lambda>w. set_de_aLen16 l
               ((de_aLen16 w l AND FIO_S_IFMT) OR of_nat (de_aLen w l + aLen)) w) s)
         | Emptied \<Rightarrow>
             let s = upd_data c (\<lambda>w. set_de_pLen d 0 (set_de_inode d 0 w)) s;
                 size64 = i_size (inode s clink)
             in Some (Some c, if ucast (sz + of_nat aLen) \<ge> size64
                  then upd_data clink (set_size64 (size64 - of_nat aLen)) s else s)
         | Missing \<Rightarrow> Some (None, s) } }"

definition pfsCheckDirForFiles :: "'w pfs_block_device_t \<Rightarrow> nat \<Rightarrow> 'w pfs_state \<Rightarrow> (int \<times> 'w pfs_state) option" where
  "pfsCheckDirForFiles B clink s = do {
     (found, _, s) \<leftarrow> pfsGetDentry B clink None 2 s;
     Some (case found of Some (c, _) \<Rightarrow> (0, pfsCacheFree (Some c) s) | None \<Rightarrow> (1, s)) }"

definition self_and_parent :: "pfs_blockinfo_t \<Rightarrow> pfs_blockinfo_t \<Rightarrow> words \<Rightarrow> words" where
  "self_and_parent self parent w =
     (let w = copy_words w 0 (\<lambda>_. 0) 256;
          w = set_de_inode 0 (bi_number self) w;
          w = put_bytes 8 [46, 0] w;
          w = set_de_sub 0 (bi_subpart self) w;
          w = set_de_pLen 0 1 w;
          w = set_de_aLen16 0 (12 OR FIO_S_IFDIR) w;
          w = set_de_inode 12 (bi_number parent) w;
          w = put_bytes 20 [46, 46, 0] w;
          w = set_de_sub 12 (bi_subpart parent) w;
          w = set_de_pLen 12 2 w
      in set_de_aLen16 12 (500 OR FIO_S_IFDIR) w)"

definition pfsFillSelfAndParentDentries :: "nat \<Rightarrow> pfs_blockinfo_t \<Rightarrow> pfs_blockinfo_t \<Rightarrow> 'w pfs_state \<Rightarrow> 'w pfs_state" where
  "pfsFillSelfAndParentDentries clink self parent = upd_data clink (self_and_parent self parent)"

definition pfsSetDentryParent ::
    "'w pfs_block_device_t \<Rightarrow> nat \<Rightarrow> pfs_blockinfo_t \<Rightarrow> 'w pfs_state \<Rightarrow> (int \<times> nat option \<times> 'w pfs_state) option" where
  "pfsSetDentryParent B clink bi s = do {
     (result, _, dc, s) \<leftarrow> pfsGetDentriesAtPos B clink 0 s;
     Some (result, dc, case dc of None \<Rightarrow> s
       | Some c \<Rightarrow> upd_data c (\<lambda>w. set_de_sub 12 (bi_subpart bi) (set_de_inode 12 (bi_number bi) w)) s) }"

end
