(* ===== verification/PfsDir.thy ===== *)
theory PfsDir
  imports PfsDentry "HOL-Library.Signed_Division"
begin

text \<open>
  Files and directories by name, the second half of iop/hdd/libpfs/src/dir.c: adding entries, the walk
  along a path, the creation and the removal of inodes, and the zones of a file. A function that may
  leave \<open>*result\<close> as it was gets its value as an argument. The counter \<open>pfsSymbolicLinks\<close> is the nesting
  depth of the walk, which is an argument of it.
\<close>

abbreviation (input) EROFS :: int where "EROFS \<equiv> 30"
abbreviation (input) ENOTDIR :: int where "ENOTDIR \<equiv> 20"
abbreviation (input) ENAMETOOLONG :: int where "ENAMETOOLONG \<equiv> 91"
abbreviation (input) ELOOP :: int where "ELOOP \<equiv> 92"
abbreviation (input) PFS_FIO_ATTR_WRITEABLE :: u32 where "PFS_FIO_ATTR_WRITEABLE \<equiv> 2"

section \<open>Zones of a file\<close>

partial_function (option) alloc_loop :: "'w pfs_block_device_t \<Rightarrow> nat \<Rightarrow> u32 \<Rightarrow> pfs_blockpos_t \<Rightarrow> 'w pfs_state \<Rightarrow>
    (int \<times> pfs_blockpos_t \<times> 'w pfs_state) option" where
  "alloc_loop B clink val bp s =
     (if val = 0 then Some (0, bp, s)
      else do {
        (result, bp, s) \<leftarrow> pfsBlockAllocNewSegment B clink bp val s;
        if result < 0 then Some (result, bp, s)
        else alloc_loop B clink (val - word_of_int result) bp s })"

text \<open>The number of zones that many bytes take: \<open>((msize-1 + zsize) & (-zsize)) / zsize\<close> on \<open>int\<close>.\<close>

definition zones_for :: "u32 \<Rightarrow> u32 \<Rightarrow> u32" where
  "zones_for zsize msize = word_of_int (sint ((msize - 1 + zsize) AND (- zsize)) sdiv sint zsize)"

definition pfsAllocZones :: "'w pfs_block_device_t \<Rightarrow> nat \<Rightarrow> u32 \<Rightarrow> int \<Rightarrow> 'w pfs_state \<Rightarrow> (int \<times> 'w pfs_state) option" where
  "pfsAllocZones B clink msize mode s = do {
     mt \<leftarrow> mount_of clink s;
     if m_zsize mt = 0 then None
     else do {
       let val = zones_for (m_zsize mt) msize;
       let w = inode s clink;
       if mode = 0 \<and> ucast (w I_NUMBER_BLOCKS - w I_NUMBER_SEGDESG) * ucast (m_zsize mt) \<ge> i_size w + scast msize
       then Some (0, s)
       else do {
         (result, p, s) \<leftarrow> pfsBlockGetLastSegmentDescriptorInode B clink s;
         case p of
           None \<Rightarrow> Some (result, s)
         | Some ino \<Rightarrow> do {
             let bp = \<lparr>bp_inode = Some ino, bp_segment = inode s clink I_NUMBER_DATA - 1, bp_offset = 0, bp_byte = 0\<rparr>;
             (ret, s) \<leftarrow> pfsBlockExpandSegment B clink bp val s;
             (result, bp, s) \<leftarrow> alloc_loop B clink (val - of_nat ret) bp s;
             Some (result, pfsCacheFree (bp_inode bp) s) } } } }"

text \<open>
  The loop of \<open>pfsFreeZones\<close> over the segments while zones are left to account for: the descriptor it
  ends with, the index, the number of descriptors it has seen, and the part of a segment to release. A
  descriptor that cannot be read ends the whole function.
\<close>

function shrink_loop :: "'w pfs_block_device_t \<Rightarrow> nat \<Rightarrow> nat \<Rightarrow> nat \<Rightarrow> u32 \<Rightarrow> u32 \<Rightarrow> pfs_blockinfo_t option \<Rightarrow> 'w pfs_state \<Rightarrow>
    ((nat \<times> nat \<times> u32 \<times> pfs_blockinfo_t option) option \<times> 'w pfs_state) option" where
  "shrink_loop B limit clink i j nextsegdesc b s =
     (if \<not> (i < limit \<and> j \<noteq> 0) then Some (Some (clink, i, nextsegdesc, b), s)
      else do {
        let k = pfsFixIndex (of_nat i);
        if k = 0 then do {
          (_, p, s) \<leftarrow> pfsBlockGetNextSegment B clink s;
          case p of None \<Rightarrow> Some (None, s)
          | Some clink \<Rightarrow> shrink_loop B limit clink (i + 1) j (nextsegdesc + 1) b s }
        else
          let sg = seg_at (inode s clink) k in
          if j < ucast (bi_count sg) then
            let left = bi_count sg - ucast j;
                s = upd_data clink (put_seg k (sg\<lparr>bi_count := left\<rparr>)) s;
                b = \<lparr>bi_number = bi_number sg + ucast left, bi_subpart = bi_subpart sg, bi_count = ucast j\<rparr>
            in shrink_loop B limit clink (i + 1) 0 nextsegdesc (Some b) (set_flag clink PFS_CACHE_FLAG_DIRTY s)
          else shrink_loop B limit clink (i + 1) (j - ucast (bi_count sg)) nextsegdesc b s })"
  by auto
termination by (relation "measure (\<lambda>(B, limit, clink, i, j, n, b, s). limit - i)") auto

declare shrink_loop.simps [simp del]

function release_loop :: "'w pfs_block_device_t \<Rightarrow> nat \<Rightarrow> nat \<Rightarrow> nat \<Rightarrow> nat \<Rightarrow> 'w pfs_state \<Rightarrow> 'w pfs_state option" where
  "release_loop B m limit clink i s =
     (if \<not> i < limit then Some (pfsCacheFree (Some clink) s)
      else do {
        let k = pfsFixIndex (of_nat i);
        (p, s) \<leftarrow> (if k = 0 then do { (_, p, s) \<leftarrow> pfsBlockGetNextSegment B clink s; Some (p, s) }
                  else Some (Some clink, s));
        case p of
          None \<Rightarrow> Some s
        | Some clink \<Rightarrow> do {
            let bi = seg_at (inode s clink) k;
            s \<leftarrow> pfsBitmapFreeBlockSegment B m bi s;
            mt \<leftarrow> mnt m s;
            release_loop B m limit clink (i + 1)
              (pfsCacheMarkClean m (ucast (bi_subpart bi)) (push_bit (unat (m_inode_scale mt)) (bi_number bi))
                 (push_bit (unat (m_inode_scale mt)) (bi_number bi + ucast (bi_count bi))) s) } })"
  by auto
termination by (relation "measure (\<lambda>(B, m, limit, clink, i, s). limit - i)") auto

declare release_loop.simps [simp del]

definition pfsFreeZones :: "'w pfs_block_device_t \<Rightarrow> nat \<Rightarrow> 'w pfs_state \<Rightarrow> 'w pfs_state option" where
  "pfsFreeZones B pfree s = do {
     let m = p_mount (pfsCacheBuf s pfree);
     mt \<leftarrow> mnt m s;
     if m_zsize mt = 0 then None
     else do {
       let w = inode s pfree;
       let limit = unat (w I_NUMBER_DATA);
       let zones = ucast (i_size w div ucast (m_zsize mt)) + (if i_size w mod ucast (m_zsize mt) \<noteq> 0 then 1 else 0);
       if w I_NUMBER_SEGDESG + zones = w I_NUMBER_BLOCKS then Some s
       else do {
         (r, s) \<leftarrow> shrink_loop B limit pfree 1 zones 1 None (pfsCacheUsedAdd pfree s);
         case r of
           None \<Rightarrow> Some s
         | Some (clink, i, nextsegdesc, b) \<Rightarrow> do {
             let last = seg_at (inode s clink) 0;
             let s = upd_data pfree (\<lambda>w. put_bi I_LAST_SEGMENT last (w(I_NUMBER_DATA := of_nat i,
                       I_NUMBER_BLOCKS := zones + nextsegdesc, I_NUMBER_SEGDESG := nextsegdesc))) s;
             let s = set_flag pfree PFS_CACHE_FLAG_DIRTY s;
             s \<leftarrow> (case b of Some b \<Rightarrow> if bi_number b \<noteq> 0 then pfsBitmapFreeBlockSegment B m b s else Some s | None \<Rightarrow> Some s);
             release_loop B m limit clink i s } } } }"

section \<open>Access and paths\<close>

definition pfsCheckAccess :: "nat \<Rightarrow> u32 \<Rightarrow> 'w pfs_state \<Rightarrow> int option" where
  "pfsCheckAccess clink flags s = do {
     mt \<leftarrow> mount_of clink s;
     let imode = i_mode (inode s clink);
     if m_flags mt AND 1 \<noteq> 0 \<and> flags AND 2 \<noteq> 0 then Some (- EROFS)
     else
       let mode = (if imode AND FIO_S_IFMT \<noteq> FIO_S_IFDIR \<and> imode AND 0x49 = 0 then 6 else 7)
       in Some (if (mode AND flags) AND 7 = flags then 0 else - EACCES) }"

text \<open>The first component of a path, cut to 255 characters, and what follows it and its slashes.\<close>

definition pfsSplitPath :: "string \<Rightarrow> (string \<times> string) option" where
  "pfsSplitPath filename =
     (let i0 = length (takeWhile (\<lambda>c. c = CHR ''/'') filename);
          comp = takeWhile (\<lambda>c. c \<noteq> CHR ''/'') (take (1024 - i0) (drop i0 filename));
          i1 = i0 + length comp;
          i2 = i1 + length (takeWhile (\<lambda>c. c = CHR ''/'') (take (1024 - i1) (drop i1 filename)))
      in if i2 < 1024 then Some (take 255 comp, drop i2 filename) else None)"

definition pfsGetMaxIndex :: "'w pfs_block_device_t \<Rightarrow> nat \<Rightarrow> 'w pfs_state \<Rightarrow> u16 option" where
  "pfsGetMaxIndex B m s = do {
     mt \<leftarrow> mnt m s;
     (_, maxI) \<leftarrow> foldO (\<lambda>i (mx, maxI).
         let zones = drop_bit (unat (m_sector_scale mt)) (bd_getSize B (m_fd mt) (of_nat i) (bdev s)) in
         if 65 \<le> i \<or> zones = 0 then None
         else let v = ucast (ucast (m_free_zone mt i) * 100 div ucast zones :: u64)
              in Some (if mx < v then (v, i) else (mx, maxI)))
       [0..<unat (m_num_subs mt + 1)] (0 :: u32, 0);
     Some (of_nat maxI) }"

section \<open>Directories\<close>

definition pfsDirAddEntry :: "'w pfs_block_device_t \<Rightarrow> nat \<Rightarrow> string \<Rightarrow> pfs_blockinfo_t \<Rightarrow> u16 \<Rightarrow> int \<Rightarrow> 'w pfs_state \<Rightarrow>
    (int \<times> nat option \<times> 'w pfs_state) option" where
  "pfsDirAddEntry B dir filename bi mode r s = do {
     (found, _, s) \<leftarrow> pfsGetDentry B dir (Some filename) 1 s;
     case found of
       Some (c, d) \<Rightarrow>
         (case split_dentry d (inode s c) of
            (d', len, w) \<Rightarrow> Some (r, Some c, pfsFillDentry c d' filename bi len mode (upd_data c (\<lambda>_. w) s)))
     | None \<Rightarrow> do {
         (result, s) \<leftarrow> pfsAllocZones B dir 512 0 s;
         if result < 0 then Some (result, None, s)
         else do {
           (result, offset, dc, s) \<leftarrow> pfsGetDentriesAtPos B dir (i_size (inode s dir)) s;
           case dc of
             None \<Rightarrow> Some (result, None, s)
           | Some c \<Rightarrow>
               let s = upd_data dir (\<lambda>w. set_size64 (i_size w + 512) w) s
               in Some (result, Some c, pfsFillDentry c offset filename bi 512 mode s) } } }"

definition pfsInodeGetFileInDir :: "'w pfs_block_device_t \<Rightarrow> nat \<Rightarrow> string \<Rightarrow> int \<Rightarrow> 'w pfs_state \<Rightarrow>
    (int \<times> nat option \<times> 'w pfs_state) option" where
  "pfsInodeGetFileInDir B dir path r s =
     (if path = [] then Some (r, Some dir, pfsCacheUsedAdd dir s)
      else do {
        mt \<leftarrow> mount_of dir s;
        if p_sector (pfsCacheBuf s dir) = push_bit (unat (m_inode_scale mt)) (bi_number (m_root_dir mt)) \<and>
           p_sub (pfsCacheBuf s dir) = ucast (bi_subpart (m_root_dir mt)) \<and> path = ''..''
        then Some (r, Some dir, pfsCacheUsedAdd dir s)
        else do {
          a \<leftarrow> pfsCheckAccess dir 1 s;
          if a < 0 then Some (a, None, s)
          else do {
            (found, _, s) \<leftarrow> pfsGetDentry B dir (Some path) 0 s;
            case found of
              Some (c, d) \<Rightarrow>
                let s = pfsCacheFree (Some c) s
                in pfsInodeGetData B (p_mount (pfsCacheBuf s dir)) (ucast (de_sub (inode s c) d)) (de_inode (inode s c) d) s
            | None \<Rightarrow> Some (- ENOENT, None, s) } } })"

text \<open>The directory a path starts in.\<close>

definition start_dir :: "'w pfs_block_device_t \<Rightarrow> nat \<Rightarrow> nat option \<Rightarrow> string \<Rightarrow> int \<Rightarrow> 'w pfs_state \<Rightarrow>
    (int \<times> nat option \<times> 'w pfs_state) option" where
  "start_dir B m clink filename r s =
     (if filename = [] then Some (- ENOENT, None, pfsCacheFree clink s)
      else if hd filename = CHR ''/'' then do {
        mt \<leftarrow> mnt m s;
        pfsInodeGetData B m (bi_subpart (m_root_dir mt)) (bi_number (m_root_dir mt))
          (pfsCacheFree clink s) }
      else if clink = None then do {
        mt \<leftarrow> mnt m s;
        pfsInodeGetData B m (bi_subpart (m_current_dir mt)) (bi_number (m_current_dir mt)) s }
      else Some (r, clink, s))"

text \<open>The text of a symbolic link, behind the first segment of its inode.\<close>

definition link_text :: "words \<Rightarrow> string" where
  "link_text w = map (\<lambda>v. char_of (unat v)) (takeWhile (\<lambda>v. v \<noteq> 0) (bytes_at w (4 * (I_DATA + 2)) (pfsMetaSize - 4 * (I_DATA + 2))))"

lemma drop_shorter: "0 < k \<Longrightarrow> xs \<noteq> [] \<Longrightarrow> length (drop k xs) < length xs"
  by (cases xs) auto

lemma component_nonempty:
  assumes "filename \<noteq> []"
  shows "0 < length (takeWhile (\<lambda>c. c = x) filename) +
    length (takeWhile (\<lambda>c. c \<noteq> x) (take (1024 - length (takeWhile (\<lambda>c. c = x) filename))
      (drop (length (takeWhile (\<lambda>c. c = x) filename)) filename)))"
  using assms by (cases filename) auto

lemma split_path_shorter:
  assumes "pfsSplitPath filename = Some (path, rest)" "rest \<noteq> []"
  shows "length rest < length filename"
proof -
  from assms(1) obtain k where r: "rest = drop (length (takeWhile (\<lambda>c. c = CHR ''/'') filename) +
    length (takeWhile (\<lambda>c. c \<noteq> CHR ''/'') (take (1024 - length (takeWhile (\<lambda>c. c = CHR ''/'') filename))
      (drop (length (takeWhile (\<lambda>c. c = CHR ''/'') filename)) filename))) + k) filename"
    unfolding pfsSplitPath_def Let_def by (metis (no_types, lifting) option.distinct(1) option.inject prod.inject)
  have ne: "filename \<noteq> []" using r assms(2) by auto
  show ?thesis unfolding r by (rule drop_shorter [OF trans_less_add1 [OF component_nonempty [OF ne]] ne])
qed

text \<open>
  The walk along a path, with the directory \<open>c\<close> and the names that are left. A symbolic link is followed by
  a walk of its own, of which at most four are nested; what the link denotes is looked up in the
  directory that walk ends in.
\<close>

function path_walk :: "'w pfs_block_device_t \<Rightarrow> nat \<Rightarrow> nat \<Rightarrow> nat \<Rightarrow> string \<Rightarrow> int \<Rightarrow> 'w pfs_state \<Rightarrow>
    (int \<times> (nat \<times> string) option \<times> 'w pfs_state) option" where
  "path_walk B m depth c filename r s =
     (case pfsSplitPath filename of
        None \<Rightarrow> Some (- ENAMETOOLONG, None, s)
      | Some (path, rest) \<Rightarrow>
          if rest = [] then
            (if i_mode (inode s c) AND FIO_S_IFMT = FIO_S_IFDIR then Some (r, Some (c, path), s)
             else Some (- ENOTDIR, None, pfsCacheFree (Some c) s))
          else do {
            (r, p, s) \<leftarrow> pfsInodeGetFileInDir B c path r s;
            case p of
              None \<Rightarrow> Some (r, None, pfsCacheFree (Some c) s)
            | Some ino \<Rightarrow>
                if i_mode (inode s ino) AND FIO_S_IFMT = FIO_S_IFLNK then
                  (if 4 \<le> depth then Some (- ELOOP, None, pfsCacheFree (Some ino) (pfsCacheFree (Some c) s))
                   else do {
                     let text = link_text (inode s ino);
                     (r, p, s) \<leftarrow> start_dir B m (Some c) text r s;
                     case p of
                       None \<Rightarrow> Some (r, None, pfsCacheFree (Some ino) s)
                     | Some c0 \<Rightarrow> do {
                         (r, q, s) \<leftarrow> path_walk B m (depth + 1) c0 text r s;
                         case q of
                           None \<Rightarrow> Some (r, None, pfsCacheFree (Some ino) s)
                         | Some (c1, path1) \<Rightarrow> do {
                             (r, l, s) \<leftarrow> pfsInodeGetFileInDir B c1 path1 r s;
                             let s = pfsCacheFree (Some ino) (pfsCacheFree (Some c1) s);
                             case l of
                               None \<Rightarrow> Some (r, None, s)
                             | Some c2 \<Rightarrow> path_walk B m depth c2 rest r s } } })
                else path_walk B m depth ino rest r (pfsCacheFree (Some c) s) })"
  by auto
termination
  by (relation "measures [\<lambda>(B, m, depth, c, filename, r, s). 4 - depth, \<lambda>(B, m, depth, c, filename, r, s). length filename]")
    (auto dest!: split_path_shorter)

declare path_walk.simps [simp del]

definition pfsInodeGetParent :: "'w pfs_block_device_t \<Rightarrow> nat \<Rightarrow> nat option \<Rightarrow> string \<Rightarrow> int \<Rightarrow> 'w pfs_state \<Rightarrow>
    (int \<times> (nat \<times> string) option \<times> 'w pfs_state) option" where
  "pfsInodeGetParent B m clink filename r s = do {
     (r, p, s) \<leftarrow> start_dir B m clink filename r s;
     case p of None \<Rightarrow> Some (r, None, s) | Some c \<Rightarrow> path_walk B m 0 c filename r s }"

definition pfsInodeGetFile :: "'w pfs_block_device_t \<Rightarrow> nat \<Rightarrow> nat option \<Rightarrow> string \<Rightarrow> int \<Rightarrow> 'w pfs_state \<Rightarrow>
    (int \<times> nat option \<times> 'w pfs_state) option" where
  "pfsInodeGetFile B m clink name r s = do {
     (r, q, s) \<leftarrow> pfsInodeGetParent B m clink name r s;
     case q of
       None \<Rightarrow> Some (r, None, s)
     | Some (c, path) \<Rightarrow> do {
         (r, p, s) \<leftarrow> pfsInodeGetFileInDir B c path r s;
         Some (r, p, pfsCacheFree (Some c) s) } }"

section \<open>Creating and removing inodes\<close>

definition fill_inode :: "pfs_blockinfo_t \<Rightarrow> u16 \<Rightarrow> u16 \<Rightarrow> u16 \<Rightarrow> words \<Rightarrow> words \<Rightarrow> words" where
  "fill_inode bi mode uid gid t w =
     (let isdir = (mode AND FIO_S_IFMT = FIO_S_IFDIR);
          val = (if isdir then 2 else 1);
          w = (copy_words w 0 (\<lambda>_. 0) 256)(I_MAGIC := PFS_SEGD_MAGIC);
          w = put_bi I_LAST_SEGMENT bi (put_bi I_INODE_BLOCK bi w);
          w = w(I_MODE_ATTR := pack16 mode (if isdir then 0xA0 else 0), I_UID_GID := pack16 uid gid);
          w = set_size64 (if isdir then 512 else 0) w;
          w = w(I_NUMBER_DATA := val, I_NUMBER_BLOCKS := val,
                I_CTIME := t 0, I_CTIME + 1 := t 1, I_ATIME := t 0, I_ATIME + 1 := t 1, I_MTIME := t 0, I_MTIME + 1 := t 1,
                I_NUMBER_SEGDESG := 1)
      in (put_seg 0 bi w)(I_SUBPART := ucast (bi_subpart bi)))"

definition pfsInodeFill :: "'w pfs_block_device_t \<Rightarrow> nat \<Rightarrow> pfs_blockinfo_t \<Rightarrow> u16 \<Rightarrow> u16 \<Rightarrow> u16 \<Rightarrow> 'w pfs_state \<Rightarrow> 'w pfs_state" where
  "pfsInodeFill B ci bi mode uid gid s =
     (case pfsGetTime B s of (t, s) \<Rightarrow>
        set_flag ci PFS_CACHE_FLAG_DIRTY (upd_data ci (fill_inode bi mode uid gid t) s))"

definition pfsInodeRemove :: "'w pfs_block_device_t \<Rightarrow> nat \<Rightarrow> nat \<Rightarrow> string \<Rightarrow> 'w pfs_state \<Rightarrow> (int \<times> 'w pfs_state) option" where
  "pfsInodeRemove B parent ino path s = do {
     (e, s) \<leftarrow> pfsDirRemoveEntry B parent path s;
     let s = (case e of None \<Rightarrow> s
       | Some entry \<Rightarrow> pfsCacheFree (Some entry) (set_flag entry PFS_CACHE_FLAG_DIRTY (pfsInodeSetTime B parent s)));
     let s = pfsCacheFree (Some parent) s;
     if e = None then Some (- ENOENT, pfsCacheFree (Some ino) s)
     else do {
       s \<leftarrow> pfsBitmapFreeInodeBlocks B ino (clear_flag ino PFS_CACHE_FLAG_DIRTY s);
       mt \<leftarrow> mount_of parent s;
       s \<leftarrow> (if m_flags mt AND PFS_FIO_ATTR_WRITEABLE \<noteq> 0 then pfsCacheFlushAllDirty B (p_mount (pfsCacheBuf s parent)) s else Some s);
       Some (0, pfsCacheFree (Some ino) s) } }"

text \<open>Where a new inode goes: near its directory, or for a directory into the next partition.\<close>

definition place_inode :: "'w pfs_block_device_t \<Rightarrow> nat \<Rightarrow> u16 \<Rightarrow> 'w pfs_state \<Rightarrow> (pfs_blockinfo_t \<times> 'w pfs_state) option" where
  "place_inode B clink mode s =
     (if mode AND FIO_S_IFMT = FIO_S_IFDIR then do {
        let m = p_mount (pfsCacheBuf s clink);
        mt \<leftarrow> mnt m s;
        let s = upd_data clink (\<lambda>w. w(I_SUBPART := (if m_num_subs mt > w I_SUBPART then w I_SUBPART + 1 else 0))) s;
        let sub = (ucast (inode s clink I_SUBPART) :: u16);
        let zones = drop_bit (unat (m_sector_scale mt)) (bd_getSize B (m_fd mt) (ucast sub) (bdev s));
        if m_total_sector mt = 0 \<or> zones = 0 \<or> 65 \<le> unat sub then None
        else do {
          let j = (ucast (ucast (m_zfree mt) * 100 div ucast (m_total_sector mt) :: u64) :: u32);
          let i = (ucast (ucast (m_free_zone mt (unat sub)) * 100 div ucast zones :: u64) :: u32);
          sub \<leftarrow> (if i < j \<and> j - i \<ge> 11 then pfsGetMaxIndex B m s else Some sub);
          Some (\<lparr>bi_number = 0, bi_subpart = sub, bi_count = 1\<rparr>, s) } }
      else Some ((get_bi (inode s clink) I_INODE_BLOCK)\<lparr>bi_count := 1\<rparr>, s))"

definition pfsInodeCreate :: "'w pfs_block_device_t \<Rightarrow> nat \<Rightarrow> u16 \<Rightarrow> u16 \<Rightarrow> u16 \<Rightarrow> 'w pfs_state \<Rightarrow> (int \<times> nat option \<times> 'w pfs_state) option" where
  "pfsInodeCreate B clink mode uid gid s = do {
     let m = p_mount (pfsCacheBuf s clink);
     (a, s) \<leftarrow> place_inode B clink mode s;
     (result, a, s) \<leftarrow> pfsBitmapSearchFreeZone B m a 2 s;
     if result < 0 then Some (result, None, s)
     else do {
       mt \<leftarrow> mnt m s;
       (result, p, s) \<leftarrow> pfsCacheGetData B m (bi_subpart a) (push_bit (unat (m_inode_scale mt)) (bi_number a))
         (PFS_CACHE_FLAG_SEGD OR PFS_CACHE_FLAG_NOLOAD) s;
       case p of
         None \<Rightarrow> Some (result, None, s)
       | Some ino \<Rightarrow> do {
           let s = pfsInodeFill B ino a mode uid gid s;
           if mode AND FIO_S_IFMT \<noteq> FIO_S_IFDIR then Some (result, Some ino, s)
           else do {
             (result, a2, s) \<leftarrow> pfsBitmapSearchFreeZone B m a 0 s;
             if result < 0 then do {
               s \<leftarrow> pfsBitmapFreeBlockSegment B m a (pfsCacheFree (Some ino) s);
               Some (result, None, s) }
             else Some (result, Some ino, upd_data ino (put_seg 1 a2) s) } } } }"

end
