(* ===== verification/PfsSuper.thy ===== *)
theory PfsSuper
  imports PfsDir
begin

text \<open>
  Formatting and mounting: iop/hdd/libpfs/src/super.c and superWrite.c, with \<open>pfsGetScale\<close> and the lookup
  of the block device of misc.c. The super block is the data of a cache entry that belongs to no file
  system.
\<close>

abbreviation (input) PFS_SUPER_MAGIC :: u32 where "PFS_SUPER_MAGIC \<equiv> 0x50465300"
abbreviation (input) PFS_FORMAT_VERSION :: u32 where "PFS_FORMAT_VERSION \<equiv> 3"
abbreviation (input) SB_MAGIC :: nat where "SB_MAGIC \<equiv> 0"
abbreviation (input) SB_VERSION :: nat where "SB_VERSION \<equiv> 1"
abbreviation (input) SB_MODVER :: nat where "SB_MODVER \<equiv> 2"
abbreviation (input) SB_ZONE_SIZE :: nat where "SB_ZONE_SIZE \<equiv> 4"
abbreviation (input) SB_NUM_SUBS :: nat where "SB_NUM_SUBS \<equiv> 5"
abbreviation (input) SB_LOG :: nat where "SB_LOG \<equiv> 6"
abbreviation (input) SB_ROOT :: nat where "SB_ROOT \<equiv> 8"

section \<open>Sizes\<close>

definition pfsCheckZoneSize :: "u32 \<Rightarrow> bool" where
  "pfsCheckZoneSize zone_size = (\<not> (zone_size AND (zone_size - 1) \<noteq> 0 \<or> zone_size < 2 * 1024 \<or> zone_size > 128 * 1024))"

text \<open>The shift that makes \<open>num\<close> of a size; shifting a word by its width or more has no result.\<close>

function scale_from :: "u32 \<Rightarrow> u32 \<Rightarrow> nat \<Rightarrow> nat option" where
  "scale_from num sz scale =
     (if 32 \<le> scale then None
      else if push_bit scale sz \<noteq> num then scale_from num sz (scale + 1) else Some scale)"
  by auto
termination by (relation "measure (\<lambda>(num, sz, scale). 32 - scale)") auto

declare scale_from.simps [simp del]

definition pfsGetScale :: "u32 \<Rightarrow> u32 \<Rightarrow> nat option" where
  "pfsGetScale num sz = scale_from num sz 0"

definition pfsGetBitmapSizeSectors :: "nat \<Rightarrow> u32 \<Rightarrow> u32" where
  "pfsGetBitmapSizeSectors zoneScale partSize =
     (let zones = sint (partSize div push_bit zoneScale 1);
          zones = zones sdiv 8 + zones mod 8
      in word_of_int (zones sdiv 512 + zones mod 512))"

definition pfsGetBitmapSizeBlocks :: "nat \<Rightarrow> u32 \<Rightarrow> u32" where
  "pfsGetBitmapSizeBlocks scale mainsize =
     (let a = pfsGetBitmapSizeSectors scale mainsize
      in a div push_bit scale 1 + (if a mod push_bit scale 1 > 0 then 1 else 0))"

text \<open>
  The block device of a name. The buffer has 32 characters; the loop that looks for the unit number
  does not stop at the end of the string.
\<close>

definition pfsGetBlockDeviceTable :: "string \<Rightarrow> bool option" where
  "pfsGetBlockDeviceTable name =
     (let name = dropWhile (\<lambda>c. c = CHR '' '') name; devname = takeWhile (\<lambda>c. c \<noteq> CHR '':'') name;
          digit = (\<lambda>c. 48 \<le> (of_char c :: nat) \<and> (of_char c :: nat) \<le> 57) in
      if CHR '':'' \<notin> set name then Some False
      else if 32 \<le> length devname \<or> \<not> list_ex digit devname then None
      else Some (takeWhile (\<lambda>c. \<not> digit c) devname = ''hdd''))"

section \<open>Formatting\<close>

text \<open>The first sectors of a bitmap: the pattern, with the reserved zones marked.\<close>

definition reserved_words :: "u32 \<Rightarrow> nat \<Rightarrow> words \<Rightarrow> words" where
  "reserved_words fragment reserved w =
     fold (\<lambda>j w. w(j div 32 := w (j div 32) OR push_bit (j mod 32) 1)) [0..<reserved] (copy_words w 0 (\<lambda>_. fragment) 128)"

text \<open>The loop that writes the sectors of the bitmap: the last result, the buffer and the device.\<close>

fun format_loop :: "'w pfs_block_device_t \<Rightarrow> int \<Rightarrow> u32 \<Rightarrow> u32 \<Rightarrow> nat \<Rightarrow> u32 \<Rightarrow> int \<Rightarrow> words \<Rightarrow> 'w \<Rightarrow> int \<times> words \<times> 'w" where
  "format_loop B fd sub fragment 0 sector result w d = (result, w, d)"
| "format_loop B fd sub fragment (Suc count) sector result w d =
     (case bd_write B fd w sub sector 1 d of (r, d) \<Rightarrow>
        if 0 \<le> r then format_loop B fd sub fragment count (sector + 1) r (copy_words w 0 (\<lambda>_. fragment) 128) d
        else (r, w, d))"

definition pfsFormatSub :: "'w pfs_block_device_t \<Rightarrow> int \<Rightarrow> u32 \<Rightarrow> u32 \<Rightarrow> nat \<Rightarrow> u32 \<Rightarrow> 'w pfs_state \<Rightarrow> (int \<times> 'w pfs_state) option" where
  "pfsFormatSub B fd sub reserved scale fragment s = do {
     let sz = bd_getSize B fd sub (bdev s);
     let sector = push_bit scale 1 + (if reserved \<ge> 2 then 0x2000 else 0);
     let count = unat (pfsGetBitmapSizeSectors scale sz);
     let reserved = unat (reserved + pfsGetBitmapSizeBlocks scale sz);
     (result, p, s) \<leftarrow> pfsCacheAllocClean B s;
     case p of
       None \<Rightarrow> Some (result, s)
     | Some c \<Rightarrow>
         if 256 * 32 < reserved then None
         else (case format_loop B fd sub fragment count sector result (reserved_words fragment reserved (inode s c)) (bdev s) of
                 (result, w, d) \<Rightarrow> Some (result, pfsCacheFree (Some c) (upd_data c (\<lambda>_. w) (s\<lparr>bdev := d\<rparr>)))) }"

text \<open>The number of zones of the log, 128 KB of them.\<close>

definition log_count :: "u32 \<Rightarrow> u16" where
  "log_count zonesize = (if 0x20000 div zonesize \<noteq> 0 then ucast (0x20000 div zonesize) else 1)"

definition new_super :: "u32 \<Rightarrow> u32 \<Rightarrow> nat \<Rightarrow> u32 \<Rightarrow> words \<Rightarrow> words" where
  "new_super zonesize subnumber scale mainsize w =
     (let number = pfsGetBitmapSizeBlocks scale mainsize + drop_bit scale 0x2000 + 1;
          count = log_count zonesize;
          w = (copy_words w 0 (\<lambda>_. 0) 256)(SB_MAGIC := PFS_SUPER_MAGIC, SB_VERSION := PFS_FORMAT_VERSION,
                SB_MODVER := 0x202, SB_ZONE_SIZE := zonesize, SB_NUM_SUBS := subnumber);
          w = put_bi SB_LOG \<lparr>bi_number = number, bi_subpart = 0, bi_count = count\<rparr> w
      in put_bi SB_ROOT \<lparr>bi_number = number + ucast count, bi_subpart = 0, bi_count = 1\<rparr> w)"

text \<open>The root directory: its block of entries, then its inode.\<close>

definition format_root :: "'w pfs_block_device_t \<Rightarrow> int \<Rightarrow> nat \<Rightarrow> pfs_blockinfo_t \<Rightarrow> 'w pfs_state \<Rightarrow> (int \<times> 'w pfs_state) option" where
  "format_root B fd scale root s = do {
     (result, p, s) \<leftarrow> pfsCacheAllocClean B s;
     case p of
       None \<Rightarrow> Some (result, s)
     | Some c \<Rightarrow> do {
         let s = pfsFillSelfAndParentDentries c root root s;
         let (result, d) = bd_write B fd (inode s c) 0 (push_bit scale (bi_number root + 1)) (push_bit pfsBlockSize 1) (bdev s);
         let s = s\<lparr>bdev := d\<rparr>;
         if result \<noteq> 0 then Some (result, pfsCacheFree (Some c) s)
         else do {
           let s = pfsInodeFill B c root 0x11FF 0 0 s;
           let s = upd_data c (put_seg 1 \<lparr>bi_number = bi_number root + 1, bi_subpart = 0, bi_count = 1\<rparr>) s;
           let s = upd_data c (\<lambda>w. w(I_CHECKSUM := pfsInodeCheckSum w)) s;
           let (result, d) = bd_write B fd (inode s c) 0 (push_bit scale (bi_number root)) (push_bit pfsBlockSize 1) (bdev s);
           Some (result, pfsCacheFree (Some c) (s\<lparr>bdev := d\<rparr>)) } } }"

definition format_subs :: "'w pfs_block_device_t \<Rightarrow> int \<Rightarrow> nat \<Rightarrow> u32 \<Rightarrow> u32 \<Rightarrow> nat list \<Rightarrow> int \<Rightarrow> 'w pfs_state \<Rightarrow> (int \<times> 'w pfs_state) option" where
  "format_subs B fd scale fragment main is r s =
     foldO (\<lambda>i (r, s). if r < 0 then Some (r, s)
              else pfsFormatSub B fd (of_nat i) (if i = 0 then main else 1) scale fragment s) is (r, s)"

definition pfsFormat :: "'w pfs_block_device_t \<Rightarrow> int \<Rightarrow> u32 \<Rightarrow> u32 \<Rightarrow> 'w pfs_state \<Rightarrow> (int \<times> 'w pfs_state) option" where
  "pfsFormat B fd zonesize fragment s = do {
     let subnumber = bd_getSubNumber B fd (bdev s);
     let mainsize = bd_getSize B fd 0 (bdev s);
     if \<not> pfsCheckZoneSize zonesize then Some (- EINVAL, s)
     else do {
       scale \<leftarrow> pfsGetScale zonesize 512;
       (result, p, s) \<leftarrow> pfsCacheAllocClean B s;
       case p of
         None \<Rightarrow> Some (result, s)
       | Some clink \<Rightarrow> do {
           let s = upd_data clink (new_super zonesize subnumber scale mainsize) s;
           let lg = get_bi (inode s clink) SB_LOG;
           let (result, s) = pfsJournalResetThis B fd (push_bit scale (bi_number lg)) s;
           (result, s) \<leftarrow> (if result < 0 then Some (result, s)
             else do {
               (result, s) \<leftarrow> format_root B fd scale (get_bi (inode s clink) SB_ROOT) s;
               if result < 0 then Some (result, s)
               else do {
                 (result, s) \<leftarrow> format_subs B fd scale fragment (drop_bit scale 0x2000 + ucast (bi_count lg) + 3)
                   [0..<unat (subnumber + 1)] result s;
                 if result \<noteq> 0 then Some (result, s)
                 else
                   let (result, d) = bd_write B fd (inode s clink) 0 PFS_SUPER_BACKUP_SECTOR 1 (bdev s) in
                   if result \<noteq> 0 then Some (result, s\<lparr>bdev := d\<rparr>)
                   else let (result, d) = bd_write B fd (inode s clink) 0 PFS_SUPER_SECTOR 1 d
                        in Some (result, s\<lparr>bdev := d\<rparr>) } });
           let s = pfsCacheFree (Some clink) s;
           Some (result, s\<lparr>bdev := snd (bd_flushCache B fd (bdev s))\<rparr>) } } }"

section \<open>Mounting\<close>

text \<open>New partitions of the file system are formatted, then both super blocks are written.\<close>

definition pfsUpdateSuperBlock :: "'w pfs_block_device_t \<Rightarrow> nat \<Rightarrow> nat \<Rightarrow> u32 \<Rightarrow> 'w pfs_state \<Rightarrow> (int \<times> 'w pfs_state) option" where
  "pfsUpdateSuperBlock B m clink sub s = do {
     mt \<leftarrow> mnt m s;
     scale \<leftarrow> pfsGetScale (inode s clink SB_ZONE_SIZE) 512;
     (rv, s) \<leftarrow> format_subs B (m_fd mt) scale 0 1 [unat (inode s clink SB_NUM_SUBS + 1)..<unat (sub + 1)] 0 s;
     if rv < 0 then Some (rv, s)
     else do {
       let s = upd_data clink (\<lambda>w. w(SB_NUM_SUBS := sub)) s;
       let (rv, d) = bd_write B (m_fd mt) (inode s clink) 0 PFS_SUPER_SECTOR 1 (bdev s);
       let (rv, d) = (if rv = 0 then bd_write B (m_fd mt) (inode s clink) 0 PFS_SUPER_BACKUP_SECTOR 1 d else (rv, d));
       Some (rv, s\<lparr>bdev := snd (bd_flushCache B (m_fd mt) d)\<rparr>) } }"

text \<open>The checks of a super block that was read, in the order of the code; 0 accepts it.\<close>

definition super_status :: "pfs_mount_t \<Rightarrow> u32 \<Rightarrow> words \<Rightarrow> int" where
  "super_status mt sub w =
     (if w SB_MAGIC \<noteq> PFS_SUPER_MAGIC \<or> w SB_VERSION > PFS_FORMAT_VERSION then - EIO
      else if \<not> pfsCheckZoneSize (w SB_ZONE_SIZE) \<or>
        w SB_FSCKSTAT AND PFS_FSCK_STAT_WRITE_ERROR \<noteq> 0 \<and> m_flags mt AND 4 \<noteq> 0 \<or> sub < w SB_NUM_SUBS then - EIO
      else 0)"

definition load_super :: "words \<Rightarrow> nat \<Rightarrow> nat \<Rightarrow> pfs_mount_t \<Rightarrow> pfs_mount_t" where
  "load_super w sscale iscale mt = mt\<lparr>m_zsize := w SB_ZONE_SIZE, m_sector_scale := of_nat sscale, m_inode_scale := of_nat iscale,
     m_num_subs := w SB_NUM_SUBS, m_root_dir := get_bi w SB_ROOT, m_log := get_bi w SB_LOG, m_current_dir := get_bi w SB_ROOT,
     m_total_sector := 0, m_uid := 0, m_gid := 0\<rparr>"

definition count_free :: "'w pfs_block_device_t \<Rightarrow> nat \<Rightarrow> nat \<Rightarrow> 'w pfs_state \<Rightarrow> 'w pfs_state option" where
  "count_free B m i s = do {
     mt \<leftarrow> mnt m s;
     let n = drop_bit (unat (m_sector_scale mt)) (bd_getSize B (m_fd mt) (of_nat i) (bdev s));
     let s = upd_m m (m_total_sector_update (\<lambda>t. t + n)) s;
     (free, s) \<leftarrow> pfsBitmapCalcFreeZones B m (of_nat i) s;
     if 65 \<le> i then None
     else Some (upd_m m (\<lambda>mt. mt\<lparr>m_free_zone := (m_free_zone mt)(i := free), m_zfree := m_zfree mt + free\<rparr>) s) }"

definition pfsMountSuperBlock :: "'w pfs_block_device_t \<Rightarrow> nat \<Rightarrow> 'w pfs_state \<Rightarrow> (int \<times> 'w pfs_state) option" where
  "pfsMountSuperBlock B m s = do {
     mt \<leftarrow> mnt m s;
     let sub = bd_getSubNumber B (m_fd mt) (bdev s);
     (result, p, s) \<leftarrow> pfsCacheAllocClean B s;
     case p of
       None \<Rightarrow> Some (result, s)
     | Some clink \<Rightarrow> do {
         let (result, w, d) = bd_read B (m_fd mt) 0 PFS_SUPER_SECTOR 1 (bdev s);
         let s = upd_data clink (\<lambda>b. copy_words b 0 w 128) (s\<lparr>bdev := d\<rparr>);
         let result = (if result \<noteq> 0 then result else super_status mt sub (inode s clink));
         if result \<noteq> 0 then Some (result, pfsCacheFree (Some clink) s)
         else do {
           (result, s) \<leftarrow> (if inode s clink SB_NUM_SUBS < sub then pfsUpdateSuperBlock B m clink sub s else Some (0, s));
           if result \<noteq> 0 then Some (result, pfsCacheFree (Some clink) s)
           else do {
             sscale \<leftarrow> pfsGetScale (inode s clink SB_ZONE_SIZE) 512;
             iscale \<leftarrow> pfsGetScale (inode s clink SB_ZONE_SIZE) (of_nat pfsMetaSize);
             let s = upd_m m (load_super (inode s clink) sscale iscale) s;
             (_, s) \<leftarrow> pfsJournalRestore B m s;
             s \<leftarrow> foldO (count_free B m) [0..<unat (m_num_subs (pfsMounts s m) + 1)] s;
             Some (0, pfsCacheFree (Some clink) s) } } } }"

end
