(* ===== verification/PfsDriver.thy ===== *)
theory PfsDriver
  imports PfsSuper HddDriver
begin

text \<open>
  The PFS driver, iop/hdd/pfs/src/: its start (pfs.c), and of pfs_fio.c the open files, mounting, and the
  opening of files. The state of the file system library is a part of the state of the driver. Unit \<open>u\<close> of
  the driver is mount \<open>u + 1\<close> of the library; the one block device table is that of the hard disk, so that
  the table of a mount is not kept. The files of the block device, which are opened through the file
  manager, are parameters. A slot of an open file is its index in \<open>pfsFileSlots\<close>.
\<close>

abbreviation (input) EISDIR :: int where "EISDIR \<equiv> 21"
abbreviation (input) ENOTEMPTY :: int where "ENOTEMPTY \<equiv> 90"
abbreviation (input) O_RDWR :: u32 where "O_RDWR \<equiv> 3"
abbreviation (input) O_DIROPEN :: u32 where "O_DIROPEN \<equiv> 8"
abbreviation (input) O_APPEND :: u32 where "O_APPEND \<equiv> 0x100"
abbreviation (input) O_CREAT :: u32 where "O_CREAT \<equiv> 0x200"
abbreviation (input) O_TRUNC :: u32 where "O_TRUNC \<equiv> 0x400"
abbreviation (input) O_EXCL :: u32 where "O_EXCL \<equiv> 0x800"
abbreviation (input) PFS_FDIRO :: u32 where "PFS_FDIRO \<equiv> 8"
abbreviation (input) PFS_MOUNT_BUSY :: u32 where "PFS_MOUNT_BUSY \<equiv> 0x8000"
abbreviation (input) PFS_FIO_ATTR_CLOSED :: u16 where "PFS_FIO_ATTR_CLOSED \<equiv> 0x80"
abbreviation (input) FIO_S_IFREG :: u32 where "FIO_S_IFREG \<equiv> 0x2000"

section \<open>State\<close>

record pfs_unaligned_io_t =
  u_dirty :: u16
  u_sub :: u16
  u_sector :: u32
  u_buffer :: "nat \<Rightarrow> u8"

record pfs_file_slot_t =
  fs_fd :: "hdd_file option"
  fs_clink :: "nat option"
  fs_aentryOffset :: u32
  fs_position :: u64
  fs_block_pos :: pfs_blockpos_t
  fs_unaligned :: pfs_unaligned_io_t

record 'w pfs_env =
  pe_bd :: "'w pfs_block_device_t"
  pe_open :: "string \<Rightarrow> u32 \<Rightarrow> 'w \<Rightarrow> int \<times> 'w"
  pe_close :: "int \<Rightarrow> 'w \<Rightarrow> 'w"

record 'w pfs_drv =
  fs :: "'w pfs_state"
  pfsFileSlots :: "nat \<Rightarrow> pfs_file_slot_t"
  maxMount :: u32
  maxOpen :: u32
  pfsFioSema :: bool

definition empty_file_slot :: pfs_file_slot_t where
  "empty_file_slot = \<lparr>fs_fd = None, fs_clink = None, fs_aentryOffset = 0, fs_position = 0,
     fs_block_pos = \<lparr>bp_inode = None, bp_segment = 0, bp_offset = 0, bp_byte = 0\<rparr>,
     fs_unaligned = \<lparr>u_dirty = 0, u_sub = 0, u_sector = 0, u_buffer = (\<lambda>_. 0)\<rparr>\<rparr>"

definition empty_mount :: pfs_mount_t where
  "empty_mount = (let b = \<lparr>bi_number = 0, bi_subpart = 0, bi_count = 0\<rparr> in
     \<lparr>m_fd = 0, m_flags = 0, m_total_sector = 0, m_zfree = 0, m_sector_scale = 0, m_inode_scale = 0, m_zsize = 0,
      m_num_subs = 0, m_root_dir = b, m_log = b, m_current_dir = b, m_lastError = 0, m_uid = 0, m_gid = 0,
      m_free_zone = (\<lambda>_. 0)\<rparr>)"

definition upd_fslot :: "nat \<Rightarrow> (pfs_file_slot_t \<Rightarrow> pfs_file_slot_t) \<Rightarrow> 'w pfs_drv \<Rightarrow> 'w pfs_drv" where
  "upd_fslot k f st = st\<lparr>pfsFileSlots := (pfsFileSlots st)(k := f (pfsFileSlots st k))\<rparr>"

text \<open>The halves of the word that holds the mode and the attributes of an inode.\<close>

definition i_attr :: "words \<Rightarrow> u16" where
  "i_attr w = ucast (drop_bit 16 (w I_MODE_ATTR))"

definition set_attr :: "u16 \<Rightarrow> words \<Rightarrow> words" where
  "set_attr a w = w(I_MODE_ATTR := pack16 (i_mode w) a)"

section \<open>Starting the driver\<close>

text \<open>The options. After a wrong one the module is unloaded, and with it the settings of those before it.\<close>

fun pfs_args :: "string list \<Rightarrow> u32 \<Rightarrow> u32 \<Rightarrow> int \<Rightarrow> int + u32 \<times> u32 \<times> int" where
  "pfs_args [] mounts opens numBuf = Inr (mounts, opens, numBuf)"
| "pfs_args (a # as) mounts opens numBuf =
     (if a = [] \<or> hd a \<noteq> CHR ''-'' then Inr (mounts, opens, numBuf)
      else if a = ''-m'' then
        (case as of [] \<Rightarrow> Inl MODULE_NO_RESIDENT_END
         | v # as \<Rightarrow> pfs_args as (if strtol_base10 v \<le> 32 then word_of_int (strtol_base10 v) else mounts) opens numBuf)
      else if a = ''-o'' then
        (case as of [] \<Rightarrow> Inl MODULE_NO_RESIDENT_END
         | v # as \<Rightarrow> pfs_args as mounts (if strtol_base10 v \<le> 32 then word_of_int (strtol_base10 v) else opens) numBuf)
      else if a = ''-n'' then
        (case as of [] \<Rightarrow> Inl MODULE_NO_RESIDENT_END
         | v # as \<Rightarrow>
             let numBuf = (if numBuf < strtol_base10 v then strtol_base10 v else numBuf)
             in if 127 < numBuf then Inl (- EINVAL) else pfs_args as mounts opens numBuf)
      else Inl MODULE_NO_RESIDENT_END)"

definition allocateMountBuffer :: "'w pfs_env \<Rightarrow> u32 \<Rightarrow> 'w pfs_drv \<Rightarrow> int \<times> 'w pfs_drv" where
  "allocateMountBuffer E sz st =
     (if \<not> bd_alloc (pe_bd E) (unat (sz * 328)) then (- ENOMEM, st)
      else (0, st\<lparr>fs := (fs st)\<lparr>pfsMounts := (\<lambda>_. empty_mount)\<rparr>\<rparr>))"

definition pfs_start :: "'w pfs_env \<Rightarrow> string list \<Rightarrow> 'w pfs_drv \<Rightarrow> int \<times> 'w pfs_drv" where
  "pfs_start E args st =
     (case pfs_args args (maxMount st) (maxOpen st) 8 of
        Inl e \<Rightarrow> (e, st)
      | Inr (mounts, opens, numBuf) \<Rightarrow>
          let st = st\<lparr>maxMount := mounts, maxOpen := opens\<rparr>;
              (r, st) = allocateMountBuffer E mounts st
          in if r < 0 then (MODULE_NO_RESIDENT_END, st)
             else if \<not> bd_alloc (pe_bd E) (unat (opens * 560)) then (MODULE_NO_RESIDENT_END, st)
             else
               let st = st\<lparr>pfsFileSlots := (\<lambda>_. empty_file_slot)\<rparr>;
                   (r, s) = pfsCacheInit (pe_bd E) (word_of_int numBuf) (of_nat pfsMetaSize) (fs st);
                   st = st\<lparr>fs := s\<rparr>
               in if r < 0 then (MODULE_NO_RESIDENT_END, st) else (MODULE_RESIDENT_END, st))"

definition pfsClearMount :: "nat \<Rightarrow> 'w pfs_drv \<Rightarrow> 'w pfs_drv" where
  "pfsClearMount m st = st\<lparr>fs := upd_m m (\<lambda>_. empty_mount) (fs st)\<rparr>"

text \<open>The comparison of the unit is one of unsigned numbers.\<close>

definition pfsGetMountedUnit :: "int \<Rightarrow> 'w pfs_drv \<Rightarrow> nat option" where
  "pfsGetMountedUnit u st =
     (let n = (word_of_int u :: u32) in
      if n \<ge> maxMount st then None
      else if m_flags (pfsMounts (fs st) (unat n + 1)) AND PFS_MOUNT_BUSY = 0 then None
      else Some (unat n + 1))"

section \<open>The semaphore and the slots\<close>

definition pfsWait :: "'w pfs_drv \<Rightarrow> 'w pfs_drv option" where
  "pfsWait st = (if pfsFioSema st then Some (st\<lparr>pfsFioSema := False\<rparr>) else None)"

definition pfsSignal :: "'w pfs_drv \<Rightarrow> 'w pfs_drv" where
  "pfsSignal st = st\<lparr>pfsFioSema := True\<rparr>"

definition pfsFioCheckForLastError :: "nat \<Rightarrow> int \<Rightarrow> 'w pfs_drv \<Rightarrow> int" where
  "pfsFioCheckForLastError m rv st =
     (let e = m_lastError (pfsMounts (fs st) m) in if e \<noteq> 0 then e else rv)"

text \<open>An error releases the semaphore, success keeps it.\<close>

definition pfsFioCheckFileSlot :: "nat option \<Rightarrow> 'w pfs_drv \<Rightarrow> (int \<times> 'w pfs_drv) option" where
  "pfsFioCheckFileSlot p st = do {
     st \<leftarrow> pfsWait st;
     k \<leftarrow> p;
     Some (if fs_clink (pfsFileSlots st k) = None then (- EBADF, pfsSignal st) else (0, st)) }"

definition pfsFioGetMountedUnit :: "int \<Rightarrow> 'w pfs_drv \<Rightarrow> (nat option \<times> 'w pfs_drv) option" where
  "pfsFioGetMountedUnit u st = do {
     st \<leftarrow> pfsWait st;
     Some (case pfsGetMountedUnit u st of None \<Rightarrow> (None, pfsSignal st) | Some m \<Rightarrow> (Some m, st)) }"

text \<open>A flush of the metadata that only mounts with the flag get.\<close>

definition flush_if_writeable :: "'w pfs_env \<Rightarrow> nat \<Rightarrow> 'w pfs_drv \<Rightarrow> 'w pfs_drv option" where
  "flush_if_writeable E m st = do {
     mt \<leftarrow> mnt m (fs st);
     if m_flags mt AND PFS_FIO_ATTR_WRITEABLE \<noteq> 0
     then do { s \<leftarrow> pfsCacheFlushAllDirty (pe_bd E) m (fs st); Some (st\<lparr>fs := s\<rparr>) }
     else Some st }"

text \<open>\<open>transfer\<close> of the sector buffer of a slot to the disk.\<close>

definition write_unaligned :: "'w pfs_env \<Rightarrow> pfs_mount_t \<Rightarrow> pfs_unaligned_io_t \<Rightarrow> 'w pfs_drv \<Rightarrow> int \<times> 'w pfs_drv" where
  "write_unaligned E mt u st =
     (case bd_write (pe_bd E) (m_fd mt) (word_of_bytes (u_buffer u)) (ucast (u_sub u)) (u_sector u) 1 (bdev (fs st)) of
        (r, d) \<Rightarrow> (r, st\<lparr>fs := (fs st)\<lparr>bdev := d\<rparr>\<rparr>))"

definition pfsFioCloseFileSlot :: "'w pfs_env \<Rightarrow> nat \<Rightarrow> 'w pfs_drv \<Rightarrow> 'w pfs_drv option" where
  "pfsFioCloseFileSlot E k st = do {
     let slot = pfsFileSlots st k;
     c \<leftarrow> fs_clink slot;
     let m = p_mount (pfsCacheBuf (fs st) c);
     f \<leftarrow> fs_fd slot;
     st \<leftarrow> (if hf_mode f AND O_WRONLY \<noteq> 0 then do {
              mt \<leftarrow> mnt m (fs st);
              let st = (if u_dirty (fs_unaligned slot) \<noteq> 0 then snd (write_unaligned E mt (fs_unaligned slot) st) else st);
              let s = pfsInodeSetTime (pe_bd E) c (fs st);
              let s = upd_data c (\<lambda>w. set_attr (i_attr w OR PFS_FIO_ATTR_CLOSED) w) s;
              flush_if_writeable E m (st\<lparr>fs := s\<rparr>) }
           else Some st);
     let s = pfsCacheFree (bp_inode (fs_block_pos slot)) (fs st);
     Some (upd_fslot k (\<lambda>_. empty_file_slot) (st\<lparr>fs := pfsCacheFree (Some c) s\<rparr>)) }"

section \<open>Mounting\<close>

definition mountDevice :: "'w pfs_env \<Rightarrow> int \<Rightarrow> int \<Rightarrow> u32 \<Rightarrow> 'w pfs_drv \<Rightarrow> (int \<times> 'w pfs_drv) option" where
  "mountDevice E fd u flag st =
     (let n = (word_of_int u :: u32); m = unat n + 1; mounts = pfsMounts (fs st) in
      if n \<ge> maxMount st then Some (- EMFILE, st)
      else if m_flags (mounts m) AND PFS_MOUNT_BUSY \<noteq> 0 then Some (- EBUSY, st)
      else if list_ex (\<lambda>i. m_flags (mounts (i + 1)) AND PFS_MOUNT_BUSY \<noteq> 0 \<and> fd = m_fd (mounts (i + 1))) [0..<unat (maxMount st)]
      then Some (- EBUSY, st)
      else do {
        let s = upd_m m (\<lambda>mt. mt\<lparr>m_fd := fd, m_flags := flag\<rparr>) (fs st);
        (rv, s) \<leftarrow> pfsMountSuperBlock (pe_bd E) m s;
        if rv < 0 then Some (rv, st\<lparr>fs := s\<rparr>)
        else Some (0, st\<lparr>fs := upd_m m (m_flags_update (\<lambda>f. f OR PFS_MOUNT_BUSY)) s\<rparr>) })"

section \<open>Opening a file\<close>

definition openFlagArray :: "u32 list" where
  "openFlagArray = [0, 4, 2, 6, 0, 0, 0, 0]"

definition open_access :: "u32 \<Rightarrow> u32" where
  "open_access openFlags =
     (let flags = openFlagArray ! unat (openFlags AND O_RDWR);
          flags = (if openFlags AND O_TRUNC \<noteq> 0 then flags OR 2 else flags)
      in if openFlags AND PFS_FDIRO \<noteq> 0 then flags OR 4 else flags)"

text \<open>What follows the inode of a file is the block of its attributes, here made empty.\<close>

definition clear_aentry :: "words \<Rightarrow> words" where
  "clear_aentry w = (copy_words w 0 (\<lambda>_. 0) 256)(0 := push_bit 16 (of_nat pfsMetaSize))"

definition reset_attributes :: "'w pfs_block_device_t \<Rightarrow> nat \<Rightarrow> 'w pfs_state \<Rightarrow> (int \<times> 'w pfs_state) option" where
  "reset_attributes B c s = do {
     let e = pfsCacheBuf s c;
     (r, p, s) \<leftarrow> pfsCacheGetData B (p_mount e) (ucast (p_sub e)) (p_sector e + 1)
       (PFS_CACHE_FLAG_NOLOAD OR PFS_CACHE_FLAG_NOTHING) s;
     Some (r, case p of None \<Rightarrow> s
       | Some a \<Rightarrow> pfsCacheFree (Some a) (set_flag a PFS_CACHE_FLAG_DIRTY (upd_data a clear_aentry s))) }"

text \<open>
  The loop that resolves links, at most four of them: whether it came to a file, the result, the
  directory and the file. When the path of a link cannot be walked the file stays the link, which is
  already released.
\<close>

fun follow_links :: "'w pfs_block_device_t \<Rightarrow> nat \<Rightarrow> nat \<Rightarrow> nat \<Rightarrow> nat \<Rightarrow> int \<Rightarrow> 'w pfs_state \<Rightarrow>
    (bool \<times> int \<times> nat option \<times> nat option \<times> 'w pfs_state) option" where
  "follow_links B m n parent c r s =
     (if i_mode (inode s c) AND FIO_S_IFMT \<noteq> FIO_S_IFLNK then Some (True, r, Some parent, Some c, s)
      else case n of
          0 \<Rightarrow> Some (False, - ELOOP, Some parent, Some c, s)
        | Suc n \<Rightarrow> do {
            (r, q, s) \<leftarrow> pfsInodeGetParent B m (Some parent) (link_text (inode s c)) r s;
            let s = pfsCacheFree (Some c) s;
            case q of
              None \<Rightarrow> Some (False, r, None, Some c, s)
            | Some (parent, path) \<Rightarrow> do {
                (r, p, s) \<leftarrow> pfsInodeGetFileInDir B parent path r s;
                case p of
                  None \<Rightarrow> Some (False, r, Some parent, None, s)
                | Some c \<Rightarrow> follow_links B m n parent c r s } })"

declare follow_links.simps [simp del]

definition truncate_file :: "'w pfs_block_device_t \<Rightarrow> nat \<Rightarrow> 'w pfs_state \<Rightarrow> 'w pfs_state option" where
  "truncate_file B c s = do {
     (r, s) \<leftarrow> reset_attributes B c s;
     if r = 0
     then pfsFreeZones B c (set_flag c PFS_CACHE_FLAG_DIRTY
            (upd_data c (\<lambda>w. set_attr (i_attr w AND NOT PFS_FIO_ATTR_CLOSED) (set_size64 0 w)) s))
     else Some s }"

text \<open>The branch for a file that exists.\<close>

definition open_existing :: "'w pfs_block_device_t \<Rightarrow> nat \<Rightarrow> u32 \<Rightarrow> u32 \<Rightarrow> nat \<Rightarrow> nat \<Rightarrow> int \<Rightarrow> 'w pfs_state \<Rightarrow>
    (int \<times> nat option \<times> nat option \<times> 'w pfs_state) option" where
  "open_existing B m openFlags mode parent c r s =
     (if mode AND 0x10000 \<noteq> 0 \<or> openFlags AND (O_CREAT OR O_EXCL) = O_CREAT OR O_EXCL
      then Some (- EEXIST, Some parent, Some c, s)
      else do {
        (ok, r, dir, file, s) \<leftarrow> follow_links B m 4 parent c r s;
        if \<not> ok then Some (r, dir, file, s)
        else do {
          c \<leftarrow> file;
          let isdir = (i_mode (inode s c) AND FIO_S_IFMT = FIO_S_IFDIR);
          let r = (if openFlags AND PFS_FDIRO = 0 then (if isdir then - EISDIR else r) else if \<not> isdir then - ENOTDIR else r);
          if r \<noteq> 0 then Some (r, dir, file, s)
          else do {
            r \<leftarrow> pfsCheckAccess c (open_access openFlags AND 0xFFFF) s;
            if r = 0 \<and> openFlags AND O_TRUNC \<noteq> 0
            then do { s \<leftarrow> truncate_file B c s; Some (r, dir, file, s) }
            else Some (r, dir, file, s) } } })"

text \<open>What \<open>freeSlot\<close> points to: a slot, the text of a new symbolic link, or nothing.\<close>

datatype open_target = Slot nat | LinkText string | NoTarget

text \<open>The text of a link is copied behind the first segment without a test of its length.\<close>

definition put_link :: "string \<Rightarrow> words \<Rightarrow> words option" where
  "put_link text w = (if length text < pfsMetaSize - 4 * (I_DATA + 2) then Some (put_bytes (4 * (I_DATA + 2)) (chars text @ [0]) w) else None)"

text \<open>The branch that makes a new file: the result, its inode, and the target that is left.\<close>

definition open_create :: "'w pfs_block_device_t \<Rightarrow> nat \<Rightarrow> open_target \<Rightarrow> string \<Rightarrow> u32 \<Rightarrow> nat \<Rightarrow> 'w pfs_state \<Rightarrow>
    (int \<times> nat option \<times> open_target \<times> 'w pfs_state) option" where
  "open_create B m target name mode parent s = do {
     r \<leftarrow> pfsCheckAccess parent 2 s;
     if r \<noteq> 0 then Some (r, None, target, s)
     else do {
       mt \<leftarrow> mnt m s;
       (r, p, s) \<leftarrow> pfsInodeCreate B parent (ucast mode) (m_uid mt) (m_gid mt) s;
       case p of
         None \<Rightarrow> Some (r, None, target, s)
       | Some c \<Rightarrow> do {
           (target, s) \<leftarrow> (if mode AND ucast FIO_S_IFMT = ucast FIO_S_IFLNK
              then (case target of
                      LinkText text \<Rightarrow> do { w \<leftarrow> put_link text (inode s c); Some (NoTarget, upd_data c (\<lambda>_. w) s) }
                    | _ \<Rightarrow> None)
              else Some (target, s));
           (r, s) \<leftarrow> (if mode AND ucast FIO_S_IFMT = ucast FIO_S_IFDIR
              then do {
                let m' = p_mount (pfsCacheBuf s c);
                mt \<leftarrow> mnt m' s;
                let bi = seg_at (inode s c) 1;
                (r, q, s) \<leftarrow> pfsCacheGetData B m' (bi_subpart bi) (push_bit (unat (m_inode_scale mt)) (bi_number bi))
                  (PFS_CACHE_FLAG_NOLOAD OR PFS_CACHE_FLAG_NOTHING) s;
                Some (r, case q of None \<Rightarrow> s
                  | Some d \<Rightarrow> pfsCacheFree (Some d) (set_flag d PFS_CACHE_FLAG_DIRTY
                      (pfsFillSelfAndParentDentries d (get_bi (inode s c) I_INODE_BLOCK) (get_bi (inode s parent) I_INODE_BLOCK) s))) }
              else reset_attributes B c s);
           if r \<noteq> 0 then Some (r, Some c, target, s)
           else do {
             (r, q, s) \<leftarrow> pfsDirAddEntry B parent name (get_bi (inode s c) I_INODE_BLOCK) (ucast mode) r s;
             Some (r, Some c, target, case q of None \<Rightarrow> s
               | Some d \<Rightarrow> pfsCacheFree (Some d) (set_flag d PFS_CACHE_FLAG_DIRTY (pfsInodeSetTime B parent s))) } } } }"

text \<open>The end of \<open>openFile\<close>: the slot is filled, or what was opened is released.\<close>

definition fill_file_slot :: "'w pfs_env \<Rightarrow> nat \<Rightarrow> u32 \<Rightarrow> nat \<Rightarrow> nat \<Rightarrow> 'w pfs_drv \<Rightarrow> (int \<times> 'w pfs_drv) option" where
  "fill_file_slot E m openFlags k c st = do {
     let pos = (if openFlags AND O_APPEND \<noteq> 0 then i_size (inode (fs st) c) else 0);
     (r, bp, s) \<leftarrow> pfsBlockInitPos (pe_bd E) c pos (fs st);
     let st = upd_fslot k (\<lambda>sl. sl\<lparr>fs_clink := Some c, fs_position := pos, fs_block_pos := bp\<rparr>) (st\<lparr>fs := s\<rparr>);
     (r, st) \<leftarrow> (if r \<noteq> 0 then Some (r, st)
       else do {
         st \<leftarrow> (if openFlags AND O_WRONLY \<noteq> 0 \<and> i_attr (inode (fs st) c) AND PFS_FIO_ATTR_CLOSED \<noteq> 0
               then flush_if_writeable E m (st\<lparr>fs := set_flag c PFS_CACHE_FLAG_DIRTY
                      (upd_data c (\<lambda>w. set_attr (i_attr w AND NOT PFS_FIO_ATTR_CLOSED) w) (fs st))\<rparr>)
               else Some st);
         Some (pfsFioCheckForLastError m r st, st) });
     if r = 0 then Some (0, st)
     else
       let st = upd_fslot k (fs_clink_update (\<lambda>_. None)) st;
           st = st\<lparr>fs := pfsCacheFree (Some c) (fs st)\<rparr>
       in Some (pfsFioCheckForLastError m r st, st) }"

definition openFile :: "'w pfs_env \<Rightarrow> nat \<Rightarrow> open_target \<Rightarrow> string \<Rightarrow> u32 \<Rightarrow> u32 \<Rightarrow> 'w pfs_drv \<Rightarrow> (int \<times> 'w pfs_drv) option" where
  "openFile E m target filename openFlags mode st = do {
     let B = pe_bd E;
     (r, q, s) \<leftarrow> pfsInodeGetParent B m None filename 0 (fs st);
     case q of
       None \<Rightarrow> Some (r, st\<lparr>fs := s\<rparr>)
     | Some (parent, name) \<Rightarrow> do {
         (r, p, s) \<leftarrow> pfsInodeGetFileInDir B parent name r s;
         (r, dir, file, target, s) \<leftarrow> (case p of
            Some c \<Rightarrow> do {
              (r, dir, file, s) \<leftarrow> open_existing B m openFlags mode parent c r s;
              Some (r, dir, file, target, s) }
          | None \<Rightarrow>
              if openFlags AND O_CREAT \<noteq> 0 \<and> r = - ENOENT
              then do {
                (r, file, target, s) \<leftarrow> open_create B m target name mode parent s;
                Some (r, Some parent, file, target, s) }
              else Some (r, Some parent, None, target, s));
         let st = st\<lparr>fs := pfsCacheFree dir s\<rparr>;
         case (target, file) of
           (Slot k, Some c) \<Rightarrow>
             if r = 0 then fill_file_slot E m openFlags k c st
             else let st = st\<lparr>fs := pfsCacheFree (Some c) (fs st)\<rparr> in Some (pfsFioCheckForLastError m r st, st)
         | _ \<Rightarrow> let st = st\<lparr>fs := pfsCacheFree file (fs st)\<rparr> in Some (pfsFioCheckForLastError m r st, st) } }"

end
