(* ===== verification/PfsTransfer.thy ===== *)
theory PfsTransfer
  imports PfsDriver
begin

text \<open>
  Reading and writing files, \<open>fileTransferRemainder\<close> and \<open>fileTransfer\<close> of iop/hdd/pfs/src/pfs_fio.c. Every
  open file has a buffer for one sector that is transferred in part; on a mount without the flag
  \<open>PFS_FIO_ATTR_WRITEABLE\<close> what is written there stays in the buffer until it is needed for another sector.
  A buffer of the caller is a function from offsets to bytes, with its address for the test of the
  alignment; a read returns it updated. The operation is 0 for a read and 1 for a write.
\<close>

section \<open>Positions\<close>

text \<open>The sector of a position, relative to its partition, and the bytes up to the end of its segment.\<close>

definition sector_of :: "pfs_mount_t \<Rightarrow> pfs_blockinfo_t \<Rightarrow> pfs_blockpos_t \<Rightarrow> u32" where
  "sector_of mt bi bp = push_bit (unat (m_sector_scale mt)) (bi_number bi + bp_offset bp) + drop_bit 9 (bp_byte bp)"

definition bytes_remain :: "pfs_mount_t \<Rightarrow> pfs_blockinfo_t \<Rightarrow> pfs_blockpos_t \<Rightarrow> u64" where
  "bytes_remain mt bi bp = ucast ((ucast (bi_count bi) - bp_offset bp) * m_zsize mt - bp_byte bp)"

section \<open>Transfers of a part of a sector\<close>

definition slot_mount :: "'w pfs_drv \<Rightarrow> nat \<Rightarrow> nat option" where
  "slot_mount st k = map_option (\<lambda>c. p_mount (pfsCacheBuf (fs st) c)) (fs_clink (pfsFileSlots st k))"

text \<open>Whether a slot in use has that sector of that mount in its buffer.\<close>

definition has_sector :: "'w pfs_drv \<Rightarrow> nat \<Rightarrow> u16 \<Rightarrow> u32 \<Rightarrow> nat \<Rightarrow> bool" where
  "has_sector st m sub sector i \<longleftrightarrow> slot_mount st i = Some m \<and>
     u_sub (fs_unaligned (pfsFileSlots st i)) = sub \<and> u_sector (fs_unaligned (pfsFileSlots st i)) = sector"

text \<open>The slot whose buffer has the latest data of a sector that is to be read.\<close>

definition dirty_slot :: "'w pfs_drv \<Rightarrow> nat \<Rightarrow> u16 \<Rightarrow> u32 \<Rightarrow> nat option" where
  "dirty_slot st m sub sector =
     find (\<lambda>i. has_sector st m sub sector i \<and> u_dirty (fs_unaligned (pfsFileSlots st i)) \<noteq> 0) [0..<unat (maxOpen st)]"

definition upd_unaligned :: "nat \<Rightarrow> (pfs_unaligned_io_t \<Rightarrow> pfs_unaligned_io_t) \<Rightarrow> 'w pfs_drv \<Rightarrow> 'w pfs_drv" where
  "upd_unaligned k f = upd_fslot k (fs_unaligned_update f)"

text \<open>
  The buffer of slot \<open>k\<close> is made to hold the sector: what it holds is written if it was changed, and the
  sector is read unless the position is the end of the file at the start of a sector. The result is an
  error, or none.
\<close>

definition load_unaligned :: "'w pfs_env \<Rightarrow> pfs_mount_t \<Rightarrow> nat \<Rightarrow> u16 \<Rightarrow> u32 \<Rightarrow> bool \<Rightarrow> 'w pfs_drv \<Rightarrow> int option \<times> 'w pfs_drv" where
  "load_unaligned E mt k sub sector needed st =
     (let u = fs_unaligned (pfsFileSlots st k) in
      if u_sector u = sector \<and> u_sub u = sub then (None, st)
      else
        let (r, st) = (if u_dirty u \<noteq> 0 then write_unaligned E mt u st else (0, st)) in
        if r \<noteq> 0 then (Some r, st)
        else
          let st = upd_unaligned k (\<lambda>u. u\<lparr>u_dirty := 0, u_sub := sub, u_sector := sector\<rparr>) st in
          if \<not> needed then (None, st)
          else (case bd_read (pe_bd E) (m_fd mt) (ucast sub) sector 1 (bdev (fs st)) of (r, w, d) \<Rightarrow>
                  let st = upd_unaligned k (u_buffer_update (\<lambda>b i. if i < 512 then byte_at w i else b i)) (st\<lparr>fs := (fs st)\<lparr>bdev := d\<rparr>\<rparr>)
                  in (if r \<noteq> 0 then Some (r OR 0x10000) else None, st)))"

text \<open>The other buffers with that sector get the data, unless they were changed themselves.\<close>

definition sync_slots :: "nat \<Rightarrow> nat \<Rightarrow> 'w pfs_drv \<Rightarrow> 'w pfs_drv" where
  "sync_slots m k st = fold (\<lambda>i st.
     let u = fs_unaligned (pfsFileSlots st k) in
     if has_sector st m (u_sub u) (u_sector u) i \<and> u_dirty (fs_unaligned (pfsFileSlots st i)) = 0
     then upd_unaligned i (u_buffer_update (\<lambda>b j. if j < 512 then u_buffer u j else b j)) st else st) [0..<unat (maxOpen st)] st"

definition fileTransferRemainder :: "'w pfs_env \<Rightarrow> nat \<Rightarrow> (nat \<Rightarrow> u8) \<Rightarrow> nat \<Rightarrow> int \<Rightarrow> nat \<Rightarrow> 'w pfs_drv \<Rightarrow>
    (int \<times> (nat \<Rightarrow> u8) \<times> 'w pfs_drv) option" where
  "fileTransferRemainder E k buf off sz operation st = do {
     let slot = pfsFileSlots st k;
     c \<leftarrow> fs_clink slot;
     let m = p_mount (pfsCacheBuf (fs st) c);
     mt \<leftarrow> mnt m (fs st);
     bi \<leftarrow> pfsBlockGetCurrent (fs_block_pos slot) (fs st);
     let sector = sector_of mt bi (fs_block_pos slot);
     let pos = unat (bp_byte (fs_block_pos slot) AND 0x1FF);
     let other = (if operation = 0 then dirty_slot st m (bi_subpart bi) sector else None);
     let needed = (pos \<noteq> 0 \<or> fs_position slot \<noteq> i_size (inode (fs st) c));
     let (err, st) = (case other of
            Some i \<Rightarrow>
              if i \<noteq> k
              then (None, upd_unaligned k (u_buffer_update (\<lambda>b j. if j < 512 then u_buffer (fs_unaligned (pfsFileSlots st i)) j else b j)) st)
              else load_unaligned E mt k (bi_subpart bi) sector needed st
          | None \<Rightarrow> load_unaligned E mt k (bi_subpart bi) sector needed st);
     case err of
       Some e \<Rightarrow> Some (e, buf, st)
     | None \<Rightarrow>
         let sz = min sz (512 - int pos) in
         if sz < 0 then None
         else if operation = 0
         then Some (sz, \<lambda>i. if off \<le> i \<and> i < off + nat sz
                            then u_buffer (fs_unaligned (pfsFileSlots st k)) (pos + (i - off)) else buf i, st)
         else
           let st = upd_unaligned k (u_buffer_update (\<lambda>b j. if pos \<le> j \<and> j < pos + nat sz then buf (off + (j - pos)) else b j)) st in
           if operation \<noteq> 1 then Some (sz, buf, st)
           else if m_flags mt AND PFS_FIO_ATTR_WRITEABLE \<noteq> 0 then
             (case write_unaligned E mt (fs_unaligned (pfsFileSlots st k)) st of (r, st) \<Rightarrow>
                if r \<noteq> 0 then Some (r, buf, st) else Some (sz, buf, sync_slots m k st))
           else Some (sz, buf, upd_unaligned k (u_dirty_update (\<lambda>_. 1)) st) }"

section \<open>The loop\<close>

text \<open>Room at the end of the file: the last segment is extended when it is too short for a write.\<close>

definition expand_last :: "'w pfs_env \<Rightarrow> nat \<Rightarrow> int \<Rightarrow> 'w pfs_drv \<Rightarrow> 'w pfs_drv option" where
  "expand_last E k sz st = do {
     let slot = pfsFileSlots st k;
     c \<leftarrow> fs_clink slot;
     mt \<leftarrow> mount_of c (fs st);
     if inode (fs st) c I_NUMBER_DATA - 1 \<noteq> bp_segment (fs_block_pos slot) then Some st
     else do {
       bi \<leftarrow> pfsBlockGetCurrent (fs_block_pos slot) (fs st);
       let room = bytes_remain mt bi (fs_block_pos slot);
       if \<not> room < ucast (word_of_int sz :: u32) then Some st
       else if m_zsize mt = 0 then None
       else do {
         let count = ucast (((word_of_int sz - room + ucast (m_zsize mt) - 1) AND ucast (NOT (m_zsize mt - 1))) div ucast (m_zsize mt));
         (_, s) \<leftarrow> pfsBlockExpandSegment (pe_bd E) c (fs_block_pos slot) count (fs st);
         Some (st\<lparr>fs := s\<rparr>) } } }"

text \<open>At the end of a segment the position moves on to the next one, or to a new one; a result ends the transfer.\<close>

definition next_segment :: "'w pfs_env \<Rightarrow> nat \<Rightarrow> int \<Rightarrow> nat \<Rightarrow> 'w pfs_drv \<Rightarrow> (int option \<times> 'w pfs_drv) option" where
  "next_segment E k sz operation st = do {
     let slot = pfsFileSlots st k;
     c \<leftarrow> fs_clink slot;
     mt \<leftarrow> mount_of c (fs st);
     bi \<leftarrow> pfsBlockGetCurrent (fs_block_pos slot) (fs st);
     if bytes_remain mt bi (fs_block_pos slot) \<noteq> 0 then Some (None, st)
     else if bp_segment (fs_block_pos slot) = inode (fs st) c I_NUMBER_DATA - 1 then
       (if operation = 0 then Some (Some 0, st)
        else if m_zsize mt = 0 then None
        else do {
          (r, bp, s) \<leftarrow> pfsBlockAllocNewSegment (pe_bd E) c (fs_block_pos slot) ((word_of_int (sz - 1) + m_zsize mt) div m_zsize mt) (fs st);
          Some (if r < 0 then Some r else None, upd_fslot k (fs_block_pos_update (\<lambda>_. bp)) (st\<lparr>fs := s\<rparr>)) })
     else do {
       (r, bp, s) \<leftarrow> pfsBlockSeekNextSegment (pe_bd E) c (fs_block_pos slot) (fs st);
       Some (if r \<noteq> 0 then Some r else None, upd_fslot k (fs_block_pos_update (\<lambda>_. bp)) (st\<lparr>fs := s\<rparr>)) } }"

text \<open>A changed buffer is written first when less than a sector of it is to be transferred.\<close>

definition flush_partial :: "'w pfs_env \<Rightarrow> pfs_mount_t \<Rightarrow> pfs_blockinfo_t \<Rightarrow> nat \<Rightarrow> int \<Rightarrow> 'w pfs_drv \<Rightarrow> int \<times> 'w pfs_drv" where
  "flush_partial E mt bi k sz st =
     (let slot = pfsFileSlots st k; u = fs_unaligned slot in
      if u_dirty u \<noteq> 0 \<and> u_sector u = sector_of mt bi (fs_block_pos slot) \<and> u_sub u = bi_subpart bi \<and> sz < 512
      then (case write_unaligned E mt u st of (r, st) \<Rightarrow>
              if r \<noteq> 0 then (r, st) else (0, upd_unaligned k (u_dirty_update (\<lambda>_. 0)) st))
      else (0, st))"

text \<open>Whole sectors go directly between the disk and the buffer of the caller.\<close>

definition transfer_direct :: "'w pfs_env \<Rightarrow> pfs_mount_t \<Rightarrow> pfs_blockinfo_t \<Rightarrow> nat \<Rightarrow> (nat \<Rightarrow> u8) \<Rightarrow> nat \<Rightarrow> int \<Rightarrow> nat \<Rightarrow> 'w pfs_drv \<Rightarrow>
    int \<times> (nat \<Rightarrow> u8) \<times> 'w pfs_drv" where
  "transfer_direct E mt bi k buf off sz operation st =
     (let bp = fs_block_pos (pfsFileSlots st k);
          n = min (ucast (bytes_remain mt bi bp div 512)) (word_of_int (sz div 512) :: u32);
          sector = sector_of mt bi bp
      in if operation = 0
         then (case bd_read (pe_bd E) (m_fd mt) (ucast (bi_subpart bi)) sector n (bdev (fs st)) of (r, w, d) \<Rightarrow>
                 (if r < 0 then r OR 0x10000 else sint (n * 512),
                  \<lambda>i. if off \<le> i \<and> i < off + 512 * unat n then byte_at w (i - off) else buf i, st\<lparr>fs := (fs st)\<lparr>bdev := d\<rparr>\<rparr>))
         else (case bd_write (pe_bd E) (m_fd mt) (word_of_bytes (\<lambda>j. buf (off + j))) (ucast (bi_subpart bi)) sector n (bdev (fs st)) of (r, d) \<Rightarrow>
                 (if r < 0 then r OR 0x10000 else sint (n * 512), buf, st\<lparr>fs := (fs st)\<lparr>bdev := d\<rparr>\<rparr>)))"

text \<open>The position behind what was transferred; a file that has grown gets its new size.\<close>

definition advance :: "nat \<Rightarrow> int \<Rightarrow> 'w pfs_drv \<Rightarrow> 'w pfs_drv option" where
  "advance k n st = do {
     let st = upd_fslot k (fs_position_update (\<lambda>p. p + word_of_int n)) st;
     let slot = pfsFileSlots st k;
     c \<leftarrow> fs_clink slot;
     let s = (if i_size (inode (fs st) c) < fs_position slot
              then set_flag c PFS_CACHE_FLAG_DIRTY (upd_data c (set_size64 (fs_position slot)) (fs st)) else fs st);
     (zones, bp) \<leftarrow> pfsBlockSyncPos (fs_block_pos slot) (word_of_int n) s;
     Some (upd_fslot k (fs_block_pos_update (\<lambda>_. bp\<lparr>bp_offset := bp_offset bp + zones\<rparr>)) (st\<lparr>fs := s\<rparr>)) }"

text \<open>One round: a result that ends the transfer, or the number of bytes that were transferred.\<close>

definition transfer_step :: "'w pfs_env \<Rightarrow> nat \<Rightarrow> u32 \<Rightarrow> (nat \<Rightarrow> u8) \<Rightarrow> nat \<Rightarrow> int \<Rightarrow> nat \<Rightarrow> 'w pfs_drv \<Rightarrow>
    ((int + int) \<times> (nat \<Rightarrow> u8) \<times> 'w pfs_drv) option" where
  "transfer_step E k addr buf off sz operation st = do {
     (e, st) \<leftarrow> next_segment E k sz operation st;
     case e of
       Some r \<Rightarrow> Some (Inl r, buf, st)
     | None \<Rightarrow> do {
         let slot = pfsFileSlots st k;
         c \<leftarrow> fs_clink slot;
         mt \<leftarrow> mount_of c (fs st);
         bi \<leftarrow> pfsBlockGetCurrent (fs_block_pos slot) (fs st);
         if bytes_remain mt bi (fs_block_pos slot) = 0 then Some (Inl 0, buf, st)
         else do {
           let (r, st) = flush_partial E mt bi k sz st;
           if r \<noteq> 0 then Some (Inl r, buf, st)
           else do {
             (r, buf, st) \<leftarrow>
               (if bp_byte (fs_block_pos slot) AND 0x1FF \<noteq> 0 \<or> sz < 512 \<or> (addr + of_nat off) AND 3 \<noteq> 0
                then fileTransferRemainder E k buf off sz operation st
                else Some (transfer_direct E mt bi k buf off sz operation st));
             if r < 0 then Some (Inl r, buf, st)
             else do { st \<leftarrow> advance k r st; Some (Inr r, buf, st) } } } } }"

partial_function (option) transfer_loop :: "'w pfs_env \<Rightarrow> nat \<Rightarrow> u32 \<Rightarrow> int \<Rightarrow> (nat \<Rightarrow> u8) \<Rightarrow> nat \<Rightarrow> int \<Rightarrow> nat \<Rightarrow> 'w pfs_drv \<Rightarrow>
    (int \<times> (nat \<Rightarrow> u8) \<times> 'w pfs_drv) option" where
  "transfer_loop E k addr whole buf off sz operation st =
     (if sz = 0 then Some (whole, buf, st)
      else Option.bind (transfer_step E k addr buf off sz operation st) (\<lambda>(r, buf, st).
        case r of
          Inl r \<Rightarrow> Some (r, buf, st)
        | Inr n \<Rightarrow> transfer_loop E k addr whole buf (off + nat n) (sz - n) operation st))"

definition fileTransfer :: "'w pfs_env \<Rightarrow> nat \<Rightarrow> u32 \<Rightarrow> (nat \<Rightarrow> u8) \<Rightarrow> int \<Rightarrow> nat \<Rightarrow> 'w pfs_drv \<Rightarrow>
    (int \<times> (nat \<Rightarrow> u8) \<times> 'w pfs_drv) option" where
  "fileTransfer E k addr buf sz operation st = do {
     st \<leftarrow> (if operation = 1 then expand_last E k sz st else Some st);
     transfer_loop E k addr sz buf 0 sz operation st }"

end
