(* ===== verification/PfsFio.thy ===== *)
theory PfsFio
  imports PfsTransfer
begin

text \<open>
  The operations of the PFS driver on files and names, iop/hdd/pfs/src/pfs_fio.c. A call that gets a file
  finds its slot in \<open>hf_privdata\<close>.
\<close>

abbreviation (input) FIO_MT_RDONLY :: u32 where "FIO_MT_RDONLY \<equiv> 1"
abbreviation (input) PFS_FSCK_STAT_ERRORS_FIXED :: u32 where "PFS_FSCK_STAT_ERRORS_FIXED \<equiv> 2"

definition on_fs :: "('w pfs_state \<Rightarrow> 'w pfs_state) \<Rightarrow> 'w pfs_drv \<Rightarrow> 'w pfs_drv" where
  "on_fs g st = st\<lparr>fs := g (fs st)\<rparr>"

section \<open>Files\<close>

definition pfsFioOpen :: "'w pfs_env \<Rightarrow> hdd_file \<Rightarrow> string option \<Rightarrow> u32 \<Rightarrow> 'w pfs_drv \<Rightarrow> (int \<times> hdd_file \<times> 'w pfs_drv) option" where
  "pfsFioOpen E f name mode st =
     (case name of
        None \<Rightarrow> Some (- ENOENT, f, st)
      | Some name \<Rightarrow> do {
          (p, st) \<leftarrow> pfsFioGetMountedUnit (hf_unit f) st;
          case p of
            None \<Rightarrow> Some (- ENODEV, f, st)
          | Some m \<Rightarrow>
              (case find (\<lambda>i. fs_fd (pfsFileSlots st i) = None) [0..<unat (maxOpen st)] of
                 None \<Rightarrow> Some (- EMFILE, f, pfsSignal st)
               | Some k \<Rightarrow> do {
                   (rv, st) \<leftarrow> openFile E m (Slot k) name (hf_mode f) ((mode AND 0xFFF) OR FIO_S_IFREG) st;
                   if rv \<noteq> 0 then Some (rv, f, pfsSignal st)
                   else
                     let f = f\<lparr>hf_privdata := Some k\<rparr>
                     in Some (0, f, pfsSignal (upd_fslot k (fs_fd_update (\<lambda>_. Some f)) st)) }) })"

definition pfsFioClose :: "'w pfs_env \<Rightarrow> hdd_file \<Rightarrow> 'w pfs_drv \<Rightarrow> (int \<times> 'w pfs_drv) option" where
  "pfsFioClose E f st = do {
     (rv, st) \<leftarrow> pfsFioCheckFileSlot (hf_privdata f) st;
     if rv \<noteq> 0 then Some (rv, st)
     else do {
       k \<leftarrow> hf_privdata f;
       st \<leftarrow> pfsFioCloseFileSlot E k st;
       Some (rv, pfsSignal st) } }"

text \<open>How much of a read is left in the file.\<close>

definition read_size :: "u64 \<Rightarrow> u64 \<Rightarrow> int \<Rightarrow> int" where
  "read_size fsize position sz =
     (if fsize < position + word_of_int sz then sint (ucast (fsize - position) :: u32) else sz)"

definition pfsFioRead :: "'w pfs_env \<Rightarrow> hdd_file \<Rightarrow> u32 \<Rightarrow> (nat \<Rightarrow> u8) \<Rightarrow> int \<Rightarrow> 'w pfs_drv \<Rightarrow> (int \<times> (nat \<Rightarrow> u8) \<times> 'w pfs_drv) option" where
  "pfsFioRead E f addr buf sz st = do {
     (rv, st) \<leftarrow> pfsFioCheckFileSlot (hf_privdata f) st;
     if rv \<noteq> 0 then Some (rv, buf, st)
     else do {
       k \<leftarrow> hf_privdata f;
       c \<leftarrow> fs_clink (pfsFileSlots st k);
       let sz = read_size (i_size (inode (fs st) c)) (fs_position (pfsFileSlots st k)) sz;
       (rv, buf, st) \<leftarrow> (if sz \<noteq> 0 then fileTransfer E k addr buf sz 0 st else Some (0, buf, st));
       Some (pfsFioCheckForLastError (p_mount (pfsCacheBuf (fs st) c)) rv st, buf, pfsSignal st) } }"

definition pfsFioWrite :: "'w pfs_env \<Rightarrow> hdd_file \<Rightarrow> u32 \<Rightarrow> (nat \<Rightarrow> u8) \<Rightarrow> int \<Rightarrow> 'w pfs_drv \<Rightarrow> (int \<times> 'w pfs_drv) option" where
  "pfsFioWrite E f addr buf sz st = do {
     (rv, st) \<leftarrow> pfsFioCheckFileSlot (hf_privdata f) st;
     if rv \<noteq> 0 then Some (rv, st)
     else do {
       k \<leftarrow> hf_privdata f;
       c \<leftarrow> fs_clink (pfsFileSlots st k);
       let m = p_mount (pfsCacheBuf (fs st) c);
       let pos = fs_position (pfsFileSlots st k);
       (rv, _, st) \<leftarrow> (if pos + ucast (word_of_int sz :: u32) < pos then Some (- EINVAL, buf, st)
                     else fileTransfer E k addr buf sz 1 st);
       st \<leftarrow> flush_if_writeable E m st;
       Some (pfsFioCheckForLastError m rv st, pfsSignal st) } }"

text \<open>The new position, computed with 64 bits, or none when it wraps or is behind the end of the file.\<close>

definition seek_target :: "u64 \<Rightarrow> u64 \<Rightarrow> int \<Rightarrow> u64 option" where
  "seek_target fsize start offset =
     (let new = start + word_of_int offset in
      if offset < 0 \<and> sint start < sint new \<or> 0 < offset \<and> sint new < sint start \<or> fsize < new then None else Some new)"

definition seek :: "'w pfs_env \<Rightarrow> nat \<Rightarrow> int \<Rightarrow> int \<Rightarrow> u32 \<Rightarrow> 'w pfs_drv \<Rightarrow> (int \<times> 'w pfs_drv) option" where
  "seek E k offset whence mode st = do {
     let slot = pfsFileSlots st k;
     c \<leftarrow> fs_clink slot;
     let fsize = i_size (inode (fs st) c);
     if mode AND O_DIROPEN \<noteq> 0 then Some (- EISDIR, st)
     else if whence \<noteq> 0 \<and> whence \<noteq> 1 \<and> whence \<noteq> 2 then Some (- EINVAL, st)
     else case seek_target fsize (if whence = 0 then 0 else if whence = 1 then fs_position slot else fsize) offset of
         None \<Rightarrow> Some (- EINVAL, st)
       | Some new \<Rightarrow> do {
           (rv, bp, s) \<leftarrow> pfsBlockInitPos (pe_bd E) c new (pfsCacheFree (bp_inode (fs_block_pos slot)) (fs st));
           if rv = 0
           then Some (sint new, upd_fslot k (\<lambda>sl. sl\<lparr>fs_position := new, fs_block_pos := bp\<rparr>) (st\<lparr>fs := s\<rparr>))
           else do {
             (_, bp, s) \<leftarrow> pfsBlockInitPos (pe_bd E) c 0 s;
             Some (rv, upd_fslot k (\<lambda>sl. sl\<lparr>fs_position := 0, fs_block_pos := bp\<rparr>) (st\<lparr>fs := s\<rparr>)) } } }"

definition pfsFioLseek64 :: "'w pfs_env \<Rightarrow> hdd_file \<Rightarrow> int \<Rightarrow> int \<Rightarrow> 'w pfs_drv \<Rightarrow> (int \<times> 'w pfs_drv) option" where
  "pfsFioLseek64 E f offset whence st = do {
     (rv, st) \<leftarrow> pfsFioCheckFileSlot (hf_privdata f) st;
     if rv \<noteq> 0 then Some (rv, st)
     else do {
       k \<leftarrow> hf_privdata f;
       (rv, st) \<leftarrow> seek E k offset whence (hf_mode f) st;
       Some (rv, pfsSignal st) } }"

definition pfsFioLseek :: "'w pfs_env \<Rightarrow> hdd_file \<Rightarrow> int \<Rightarrow> int \<Rightarrow> 'w pfs_drv \<Rightarrow> (int \<times> 'w pfs_drv) option" where
  "pfsFioLseek E f pos whence st = do {
     (rv, st) \<leftarrow> pfsFioCheckFileSlot (hf_privdata f) st;
     if rv \<noteq> 0 then Some (rv, st)
     else do {
       k \<leftarrow> hf_privdata f;
       (rv, st) \<leftarrow> seek E k pos whence (hf_mode f) st;
       Some (sint (word_of_int rv :: u32), pfsSignal st) } }"

section \<open>Names\<close>

text \<open>Whether an inode is that directory: its number is cut to 16 bits before it is compared.\<close>

definition is_dir_block :: "words \<Rightarrow> pfs_blockinfo_t \<Rightarrow> bool" where
  "is_dir_block w b \<longleftrightarrow>
     (let ib = get_bi w I_INODE_BLOCK in ucast (ucast (bi_number ib) :: u16) = bi_number b \<and> bi_subpart ib = bi_subpart b)"

definition remove_status :: "'w pfs_block_device_t \<Rightarrow> nat \<Rightarrow> bool \<Rightarrow> nat \<Rightarrow> int \<Rightarrow> 'w pfs_state \<Rightarrow> (int \<times> 'w pfs_state) option" where
  "remove_status B m dir file rv s = do {
     mt \<leftarrow> mnt m s;
     let isdir = (i_mode (inode s file) AND FIO_S_IFMT = FIO_S_IFDIR);
     if \<not> dir then Some (if isdir then - EISDIR else rv, s)
     else if \<not> isdir then Some (- ENOTDIR, s)
     else do {
       (empty, s) \<leftarrow> pfsCheckDirForFiles B file s;
       Some (if empty = 0 then - ENOTEMPTY
             else if is_dir_block (inode s file) (m_root_dir mt) \<or> is_dir_block (inode s file) (m_current_dir mt) then - EBUSY
             else rv, s) } }"

definition fio_remove :: "'w pfs_env \<Rightarrow> nat \<Rightarrow> string \<Rightarrow> bool \<Rightarrow> 'w pfs_drv \<Rightarrow> (int \<times> 'w pfs_drv) option" where
  "fio_remove E m path dir st = do {
     let B = pe_bd E;
     (rv, q, s) \<leftarrow> pfsInodeGetParent B m None path 0 (fs st);
     case q of
       None \<Rightarrow> Some (rv, st\<lparr>fs := s\<rparr>)
     | Some (parent, name) \<Rightarrow> do {
         (rv, p, s) \<leftarrow> pfsInodeGetFileInDir B parent name rv s;
         case p of
           None \<Rightarrow> let st = st\<lparr>fs := pfsCacheFree (Some parent) s\<rparr> in Some (pfsFioCheckForLastError m rv st, st)
         | Some file \<Rightarrow> do {
             (rv, s) \<leftarrow> remove_status B m dir file rv s;
             rv \<leftarrow> (if rv \<noteq> 0 then Some rv
                   else do {
                     rv \<leftarrow> (if ucast (inode s file I_UID_GID) \<noteq> (0 :: u16) then pfsCheckAccess file 2 s else Some rv);
                     Some (if 2 \<le> p_nused (pfsCacheBuf s file) then - EBUSY else rv) });
             if rv = 0
             then do { (rv, s) \<leftarrow> pfsInodeRemove B parent file name s; Some (rv, st\<lparr>fs := s\<rparr>) }
             else
               let st = st\<lparr>fs := pfsCacheFree (Some parent) (pfsCacheFree (Some file) s)\<rparr>
               in Some (pfsFioCheckForLastError m rv st, st) } } }"

text \<open>A call on a mounted unit, between taking and releasing the semaphore.\<close>

definition on_unit :: "hdd_file \<Rightarrow> (nat \<Rightarrow> 'w pfs_drv \<Rightarrow> (int \<times> 'w pfs_drv) option) \<Rightarrow> 'w pfs_drv \<Rightarrow> (int \<times> 'w pfs_drv) option" where
  "on_unit f g st = do {
     (p, st) \<leftarrow> pfsFioGetMountedUnit (hf_unit f) st;
     case p of
       None \<Rightarrow> Some (- ENODEV, st)
     | Some m \<Rightarrow> do { (rv, st) \<leftarrow> g m st; Some (rv, pfsSignal st) } }"

definition pfsFioRemove :: "'w pfs_env \<Rightarrow> hdd_file \<Rightarrow> string \<Rightarrow> 'w pfs_drv \<Rightarrow> (int \<times> 'w pfs_drv) option" where
  "pfsFioRemove E f name = on_unit f (\<lambda>m. fio_remove E m name False)"

definition pfsFioMkdir :: "'w pfs_env \<Rightarrow> hdd_file \<Rightarrow> string \<Rightarrow> u32 \<Rightarrow> 'w pfs_drv \<Rightarrow> (int \<times> 'w pfs_drv) option" where
  "pfsFioMkdir E f path mode =
     on_unit f (\<lambda>m. openFile E m NoTarget path (O_CREAT OR O_WRONLY) ((mode AND 0xFFF) OR 0x10000 OR ucast FIO_S_IFDIR))"

text \<open>The test for a final dot looks at the end of the string, which is never a dot.\<close>

definition pfsFioRmdir :: "'w pfs_env \<Rightarrow> hdd_file \<Rightarrow> string \<Rightarrow> 'w pfs_drv \<Rightarrow> (int \<times> 'w pfs_drv) option" where
  "pfsFioRmdir E f path st =
     (if str_byte path (length path) = 46 then Some (- EINVAL, st) else on_unit f (\<lambda>m. fio_remove E m path True) st)"

definition pfsFioDopen :: "'w pfs_env \<Rightarrow> hdd_file \<Rightarrow> string option \<Rightarrow> 'w pfs_drv \<Rightarrow> (int \<times> hdd_file \<times> 'w pfs_drv) option" where
  "pfsFioDopen E f name = pfsFioOpen E f name 0"

definition pfsFioSymlink :: "'w pfs_env \<Rightarrow> hdd_file \<Rightarrow> string option \<Rightarrow> string option \<Rightarrow> 'w pfs_drv \<Rightarrow> (int \<times> 'w pfs_drv) option" where
  "pfsFioSymlink E f old new st =
     (case (old, new) of
        (Some old, Some new) \<Rightarrow> on_unit f (\<lambda>m. openFile E m (LinkText old) new (O_CREAT OR O_WRONLY) 0x141FF) st
      | _ \<Rightarrow> Some (- ENOENT, st))"

text \<open>The result is -EINVAL for a link, and the bytes behind the first segment for anything else.\<close>

definition pfsFioReadlink :: "'w pfs_env \<Rightarrow> hdd_file \<Rightarrow> string \<Rightarrow> u32 \<Rightarrow> 'w pfs_drv \<Rightarrow> (int \<times> string \<times> 'w pfs_drv) option" where
  "pfsFioReadlink E f path buflen st = do {
     (p, st) \<leftarrow> pfsFioGetMountedUnit (hf_unit f) st;
     case p of
       None \<Rightarrow> Some (- ENODEV, [], st)
     | Some m \<Rightarrow> do {
         (rv, q, s) \<leftarrow> pfsInodeGetFile (pe_bd E) m None path 0 (fs st);
         let (rv, out, s) = (case q of
                None \<Rightarrow> (rv, [], s)
              | Some c \<Rightarrow>
                  let text = link_text (inode s c) in
                  if i_mode (inode s c) AND FIO_S_IFMT = FIO_S_IFLNK then (- EINVAL, [], pfsCacheFree (Some c) s)
                  else (int (min (unat buflen) (length text)), take (unat buflen) text, pfsCacheFree (Some c) s));
         let st = pfsSignal (st\<lparr>fs := s\<rparr>);
         Some (pfsFioCheckForLastError m rv st, out, st) } }"

definition fioStatFiller :: "words \<Rightarrow> iox_stat_t" where
  "fioStatFiller w = \<lparr>st_mode = ucast (i_mode w), st_attr = ucast (i_attr w), st_size = ucast (i_size w),
     st_ctime = bytes_at w (4 * I_CTIME) 8, st_atime = bytes_at w (4 * I_ATIME) 8, st_mtime = bytes_at w (4 * I_MTIME) 8,
     st_hisize = ucast (drop_bit 32 (i_size w)),
     st_private = [ucast (ucast (w I_UID_GID) :: u16), drop_bit 16 (w I_UID_GID), w I_NUMBER_BLOCKS, w I_NUMBER_DATA, 0, 0]\<rparr>"

text \<open>The entry is filled from the scan; \<open>junk\<close> is what \<open>bi\<close> holds before it.\<close>

definition pfsFioDread :: "'w pfs_env \<Rightarrow> pfs_blockinfo_t \<Rightarrow> hdd_file \<Rightarrow> iox_dirent_t \<Rightarrow> 'w pfs_drv \<Rightarrow> (int \<times> iox_dirent_t \<times> 'w pfs_drv) option" where
  "pfsFioDread E junk f dirent st = do {
     (rv, st) \<leftarrow> pfsFioCheckFileSlot (hf_privdata f) st;
     if rv < 0 then Some (rv, dirent, st)
     else do {
       k \<leftarrow> hf_privdata f;
       let slot = pfsFileSlots st k;
       c \<leftarrow> fs_clink slot;
       let m = p_mount (pfsCacheBuf (fs st) c);
       (rv, dirent, st) \<leftarrow>
         (if i_mode (inode (fs st) c) AND FIO_S_IFMT \<noteq> FIO_S_IFDIR then Some (- ENOTDIR, dirent, st)
          else do {
            let pos = fs_position slot;
            (len, name, bi, pos32, bp, s) \<leftarrow>
              pfsGetNextDentry (pe_bd E) c (fs_block_pos slot) (ucast pos) (chars (iox_name dirent)) junk 0 (fs st);
            let st = upd_fslot k (\<lambda>sl. sl\<lparr>fs_position := push_bit 32 (drop_bit 32 pos) OR ucast pos32, fs_block_pos := bp\<rparr>) (st\<lparr>fs := s\<rparr>);
            let dirent = dirent\<lparr>iox_name := map (\<lambda>b. char_of (unat b)) name\<rparr>;
            if len = 0 then Some (0, dirent, st)
            else do {
              (r, p, s) \<leftarrow> pfsInodeGetData (pe_bd E) m (bi_subpart bi) (bi_number bi) (fs st);
              let (dirent, s) = (case p of None \<Rightarrow> (dirent, s)
                     | Some c \<Rightarrow> (dirent\<lparr>iox_stat := fioStatFiller (inode s c)\<rparr>, pfsCacheFree (Some c) s));
              Some (if r \<noteq> 0 then r else int len, dirent, st\<lparr>fs := s\<rparr>) } });
       Some (pfsFioCheckForLastError m rv st, dirent, pfsSignal st) } }"

definition pfsFioGetstat :: "'w pfs_env \<Rightarrow> hdd_file \<Rightarrow> string \<Rightarrow> 'w pfs_drv \<Rightarrow> (int \<times> iox_stat_t option \<times> 'w pfs_drv) option" where
  "pfsFioGetstat E f name st = do {
     (p, st) \<leftarrow> pfsFioGetMountedUnit (hf_unit f) st;
     case p of
       None \<Rightarrow> Some (- ENODEV, None, st)
     | Some m \<Rightarrow> do {
         (rv, q, s) \<leftarrow> pfsInodeGetFile (pe_bd E) m None name 0 (fs st);
         let (out, s) = (case q of None \<Rightarrow> (None, s) | Some c \<Rightarrow> (Some (fioStatFiller (inode s c)), pfsCacheFree (Some c) s));
         let st = pfsSignal (st\<lparr>fs := s\<rparr>);
         Some (pfsFioCheckForLastError m rv st, out, st) } }"

definition chstat_inode :: "iox_stat_t \<Rightarrow> u32 \<Rightarrow> words \<Rightarrow> words" where
  "chstat_inode stat statmask w =
     (let w = (if statmask AND 1 \<noteq> 0 \<and> i_mode w AND FIO_S_IFMT \<noteq> FIO_S_IFLNK
               then w(I_MODE_ATTR := pack16 ((i_mode w AND FIO_S_IFMT) OR (ucast (st_mode stat) AND 0xFFF)) (i_attr w)) else w);
          w = (if statmask AND 2 \<noteq> 0 then set_attr ((i_attr w AND 0xA0) OR (ucast (st_attr stat) AND 0xFF5F)) w else w);
          w = (if statmask AND 8 \<noteq> 0 then put_bytes (4 * I_CTIME) (st_ctime stat) w else w);
          w = (if statmask AND 0x10 \<noteq> 0 then put_bytes (4 * I_ATIME) (st_atime stat) w else w);
          w = (if statmask AND 0x20 \<noteq> 0 then put_bytes (4 * I_MTIME) (st_mtime stat) w else w)
      in if statmask AND 0x40 \<noteq> 0 then w(I_UID_GID := pack16 (ucast (st_private stat ! 0)) (ucast (st_private stat ! 1))) else w)"

definition pfsFioChstat :: "'w pfs_env \<Rightarrow> hdd_file \<Rightarrow> string \<Rightarrow> iox_stat_t \<Rightarrow> u32 \<Rightarrow> 'w pfs_drv \<Rightarrow> (int \<times> 'w pfs_drv) option" where
  "pfsFioChstat E f name stat statmask = on_unit f (\<lambda>m st. do {
     (rv, q, s) \<leftarrow> pfsInodeGetFile (pe_bd E) m None name 0 (fs st);
     (rv, st) \<leftarrow> (case q of
        None \<Rightarrow> Some (rv, st\<lparr>fs := s\<rparr>)
      | Some c \<Rightarrow> do {
          rv \<leftarrow> pfsCheckAccess c 2 s;
          st \<leftarrow> (if rv \<noteq> 0 then Some (st\<lparr>fs := s\<rparr>)
                else flush_if_writeable E m (st\<lparr>fs := upd_data c (chstat_inode stat statmask) (set_flag c PFS_CACHE_FLAG_DIRTY s)\<rparr>));
          Some (if rv = 0 \<and> statmask AND 4 \<noteq> 0 then - EACCES else rv, on_fs (pfsCacheFree (Some c)) st) });
     Some (pfsFioCheckForLastError m rv st, st) })"

definition pfsFioChdir :: "'w pfs_env \<Rightarrow> hdd_file \<Rightarrow> string \<Rightarrow> 'w pfs_drv \<Rightarrow> (int \<times> 'w pfs_drv) option" where
  "pfsFioChdir E f name = on_unit f (\<lambda>m st. do {
     (rv, q, s) \<leftarrow> pfsInodeGetFile (pe_bd E) m None name 0 (fs st);
     (rv, s) \<leftarrow> (case q of
        None \<Rightarrow> Some (rv, s)
      | Some c \<Rightarrow>
          if i_mode (inode s c) AND FIO_S_IFMT \<noteq> FIO_S_IFDIR then Some (- ENOTDIR, pfsCacheFree (Some c) s)
          else do {
            rv \<leftarrow> pfsCheckAccess c 1 s;
            let s = (if rv = 0 then upd_m m (m_current_dir_update (\<lambda>_. get_bi (inode s c) I_INODE_BLOCK)) s else s);
            Some (rv, pfsCacheFree (Some c) s) });
     let st = st\<lparr>fs := s\<rparr>;
     Some (pfsFioCheckForLastError m rv st, st) })"

end
