(* ===== verification/PfsAdmin.thy ===== *)
theory PfsAdmin
  imports PfsFio
begin

text \<open>
  Renaming, synchronisation, formatting and mounting of iop/hdd/pfs/src/pfs_fio.c, and the requests of
  pfs_fioctl.c with the attributes of files. The attributes are entries in the block behind the inode:
  the length of the key, that of the value, the allocated length, and the characters of both. The tagged
  arguments of \<open>ioctl2\<close> and \<open>devctl\<close> are datatypes with a constructor for each command.
\<close>

section \<open>Renaming\<close>

text \<open>Whether the new name may be replaced: the result, and whether nothing is to be done.\<close>

definition rename_status :: "'w pfs_block_device_t \<Rightarrow> bool \<Rightarrow> nat \<Rightarrow> nat option \<Rightarrow> int \<Rightarrow> 'w pfs_state \<Rightarrow> (bool \<times> int \<times> 'w pfs_state) option" where
  "rename_status B dir old new r s =
     (case new of
        None \<Rightarrow> let r = (if r = - ENOENT then 0 else r) in Some (r \<noteq> 0, r, s)
      | Some n \<Rightarrow> do {
          let isdir = (i_mode (inode s n) AND FIO_S_IFMT = FIO_S_IFDIR);
          (r', s) \<leftarrow> (if dir then
               (if \<not> isdir then Some (- ENOTDIR, s)
                else do { (empty, s) \<leftarrow> pfsCheckDirForFiles B n s; Some (if empty \<noteq> 0 then 0 else - ENOTEMPTY, s) })
             else Some (if isdir then - EISDIR else 0, s));
          if r' \<noteq> 0 then Some (True, r', s)
          else if 2 \<le> p_nused (pfsCacheBuf s n) then Some (True, - EBUSY, s)
          else Some (old = n \<or> r \<noteq> 0, r, s) })"

text \<open>The walk from the new parent up to the root, which must not meet the directory that is moved.\<close>

partial_function (option) up_loop :: "'w pfs_block_device_t \<Rightarrow> nat \<Rightarrow> nat \<Rightarrow> int \<Rightarrow> 'w pfs_state \<Rightarrow> (int \<times> 'w pfs_state) option" where
  "up_loop B parent old r s =
     (if parent = old then Some (- EINVAL, pfsCacheFree (Some parent) s)
      else Option.bind (pfsInodeGetFileInDir B parent ''..'' r s) (\<lambda>(r, tmp, s).
        let s = pfsCacheFree (Some parent) s in
        case tmp of
          None \<Rightarrow> Some (r, s)
        | Some p \<Rightarrow> if p = parent then Some (r, pfsCacheFree (Some parent) s) else up_loop B p old r s))"

record renamed =
  rn_new :: "nat option"
  rn_old :: "nat option"
  rn_add :: "nat option"
  rn_parent :: "nat option"

definition rename_access :: "nat \<Rightarrow> string \<Rightarrow> nat \<Rightarrow> string \<Rightarrow> 'w pfs_state \<Rightarrow> int option" where
  "rename_access parentOld path1 parentNew path2 s =
     (if path1 = ''.'' \<or> path1 = ''..'' \<or> path2 = ''.'' \<or> path2 = ''..'' then Some (- EINVAL)
      else do {
        r \<leftarrow> pfsCheckAccess parentOld 3 s;
        if r = 0 then pfsCheckAccess parentNew 3 s else Some r })"

text \<open>The changes of the directories: the result and the blocks of entries they were made in.\<close>

definition rename_entries :: "'w pfs_block_device_t \<Rightarrow> bool \<Rightarrow> nat \<Rightarrow> string \<Rightarrow> nat \<Rightarrow> string \<Rightarrow> nat \<Rightarrow> nat option \<Rightarrow> 'w pfs_state \<Rightarrow>
    (int \<times> renamed \<times> 'w pfs_state) option" where
  "rename_entries B dir parentOld path1 parentNew path2 old new s = do {
     let none = \<lparr>rn_new = None, rn_old = None, rn_add = None, rn_parent = None\<rparr>;
     r \<leftarrow> rename_access parentOld path1 parentNew path2 s;
     if r \<noteq> 0 then Some (r, none, s)
     else do {
       (e, s) \<leftarrow> (if new \<noteq> None then pfsDirRemoveEntry B parentNew path2 s else Some (None, s));
       let bs = none\<lparr>rn_new := e\<rparr>;
       if new \<noteq> None \<and> e = None then Some (- ENOENT, bs, s)
       else do {
         (e, s) \<leftarrow> pfsDirRemoveEntry B parentOld path1 s;
         let bs = bs\<lparr>rn_old := e\<rparr>;
         if e = None then Some (- ENOENT, bs, s)
         else do {
           (r, e, s) \<leftarrow> pfsDirAddEntry B parentNew path2 (get_bi (inode s old) I_INODE_BLOCK) (i_mode (inode s old)) r s;
           let bs = bs\<lparr>rn_add := e\<rparr>;
           if e \<noteq> None \<and> dir \<and> parentOld \<noteq> parentNew
           then do {
             (r, e, s) \<leftarrow> pfsSetDentryParent B old (get_bi (inode s parentNew) I_INODE_BLOCK) s;
             Some (r, bs\<lparr>rn_parent := e\<rparr>, s) }
           else Some (r, bs, s) } } } }"

definition forget :: "nat option \<Rightarrow> 'w pfs_state \<Rightarrow> 'w pfs_state" where
  "forget p s = (case p of None \<Rightarrow> s | Some c \<Rightarrow> upd_p c (p_mount_update (\<lambda>_. 0)) s)"

text \<open>After a failure the blocks are dropped from the cache, after a success they are marked and written.\<close>

definition rename_finish :: "'w pfs_env \<Rightarrow> nat \<Rightarrow> nat \<Rightarrow> nat \<Rightarrow> nat \<Rightarrow> nat option \<Rightarrow> int \<Rightarrow> renamed \<Rightarrow> 'w pfs_drv \<Rightarrow> 'w pfs_drv option" where
  "rename_finish E m parentOld parentNew old new r bs st = do {
     let B = pe_bd E;
     st \<leftarrow> (if r \<noteq> 0
        then Some (on_fs (\<lambda>s. forget (Some parentNew) (forget (Some parentOld) (forget new (forget (rn_add bs) (forget (rn_old bs) (forget (rn_new bs) s)))))) st)
        else do {
          ro \<leftarrow> rn_old bs;
          ra \<leftarrow> rn_add bs;
          let s = fs st;
          let s = (if parentOld = parentNew then (if ro \<noteq> ra then set_flag ro PFS_CACHE_FLAG_DIRTY s else s)
                   else set_flag ro PFS_CACHE_FLAG_DIRTY (pfsInodeSetTime B parentOld s));
          let s = set_flag ra PFS_CACHE_FLAG_DIRTY (pfsInodeSetTime B parentNew s);
          let s = (case rn_parent bs of None \<Rightarrow> s
             | Some d \<Rightarrow> pfsCacheFree (Some d) (set_flag d PFS_CACHE_FLAG_DIRTY (pfsInodeSetTime B old s)));
          s \<leftarrow> (case new of None \<Rightarrow> Some s | Some n \<Rightarrow> pfsBitmapFreeInodeBlocks B n (clear_flag n PFS_CACHE_FLAG_DIRTY s));
          flush_if_writeable E m (st\<lparr>fs := s\<rparr>) });
     Some (on_fs (\<lambda>s. pfsCacheFree (rn_new bs) (pfsCacheFree (rn_add bs) (pfsCacheFree (rn_old bs) s))) st) }"

definition pfsFioRename :: "'w pfs_env \<Rightarrow> hdd_file \<Rightarrow> string \<Rightarrow> string \<Rightarrow> 'w pfs_drv \<Rightarrow> (int \<times> 'w pfs_drv) option" where
  "pfsFioRename E f oldpath newpath = on_unit f (\<lambda>m st. do {
     let B = pe_bd E;
     (r, q, s) \<leftarrow> pfsInodeGetParent B m None oldpath 0 (fs st);
     (r, st) \<leftarrow> (case q of
        None \<Rightarrow> Some (r, st\<lparr>fs := s\<rparr>)
      | Some (parentOld, path1) \<Rightarrow>
          if p_nused (pfsCacheBuf s parentOld) \<noteq> 1 then Some (- EBUSY, st\<lparr>fs := pfsCacheFree (Some parentOld) s\<rparr>)
          else do {
            (r, p, s) \<leftarrow> pfsInodeGetFileInDir B parentOld path1 r s;
            case p of
              None \<Rightarrow> Some (r, st\<lparr>fs := pfsCacheFree (Some parentOld) s\<rparr>)
            | Some old \<Rightarrow> do {
                (r, q, s) \<leftarrow> pfsInodeGetParent B m None newpath r s;
                case q of
                  None \<Rightarrow> Some (r, st\<lparr>fs := pfsCacheFree (Some parentOld) (pfsCacheFree (Some old) s)\<rparr>)
                | Some (parentNew, path2) \<Rightarrow> do {
                    let dir = (i_mode (inode s old) AND FIO_S_IFMT = FIO_S_IFDIR);
                    let n = p_nused (pfsCacheBuf s parentNew);
                    (r, new, st) \<leftarrow>
                      (if n \<noteq> 1 \<and> (parentOld \<noteq> parentNew \<or> n \<noteq> 2) then Some (- EBUSY, None, st\<lparr>fs := s\<rparr>)
                       else do {
                         (r, new, s) \<leftarrow> pfsInodeGetFileInDir B parentNew path2 r s;
                         (stop, r, s) \<leftarrow> rename_status B dir old new r s;
                         if stop then Some (r, new, st\<lparr>fs := s\<rparr>)
                         else do {
                           (r, s) \<leftarrow> (if dir \<and> parentOld \<noteq> parentNew then up_loop B parentNew old r (pfsCacheUsedAdd parentNew s) else Some (r, s));
                           (r, bs, s) \<leftarrow> (if r = 0 then rename_entries B dir parentOld path1 parentNew path2 old new s
                                         else Some (r, \<lparr>rn_new = None, rn_old = None, rn_add = None, rn_parent = None\<rparr>, s));
                           st \<leftarrow> rename_finish E m parentOld parentNew old new r bs (st\<lparr>fs := s\<rparr>);
                           Some (r, new, st) } });
                    Some (r, on_fs (\<lambda>s. pfsCacheFree (Some parentNew) (pfsCacheFree (Some parentOld)
                             (pfsCacheFree (Some old) (pfsCacheFree new s)))) st) } } });
     Some (pfsFioCheckForLastError m r st, st) })"

section \<open>Synchronisation and mounts\<close>

text \<open>The round of \<open>_sync\<close> for slot \<open>i\<close>: its changed buffer is written, and copied to those with the same sector.\<close>

definition sync_slot :: "'w pfs_env \<Rightarrow> nat \<Rightarrow> 'w pfs_drv \<Rightarrow> 'w pfs_drv option" where
  "sync_slot E i st =
     (let u = fs_unaligned (pfsFileSlots st i) in
      if u_dirty u = 0 then Some st
      else do {
        m \<leftarrow> slot_mount st i;
        mt \<leftarrow> mnt m (fs st);
        Some (upd_unaligned i (u_dirty_update (\<lambda>_. 0)) (sync_slots m i (snd (write_unaligned E mt u st)))) })"

definition fio_sync :: "'w pfs_env \<Rightarrow> 'w pfs_drv \<Rightarrow> 'w pfs_drv option" where
  "fio_sync E st = foldO (sync_slot E) [0..<unat (maxOpen st)] st"

definition pfsFioSync :: "'w pfs_env \<Rightarrow> hdd_file \<Rightarrow> 'w pfs_drv \<Rightarrow> (int \<times> 'w pfs_drv) option" where
  "pfsFioSync E f = on_unit f (\<lambda>m st. do {
     st \<leftarrow> fio_sync E st;
     s \<leftarrow> pfsCacheFlushAllDirty (pe_bd E) m (fs st);
     let st = st\<lparr>fs := s\<rparr>;
     Some (pfsFioCheckForLastError m 0 st, st) })"

text \<open>Opening and closing the block device through the file manager.\<close>

definition dev_open :: "'w pfs_env \<Rightarrow> string \<Rightarrow> u32 \<Rightarrow> 'w pfs_drv \<Rightarrow> int \<times> 'w pfs_drv" where
  "dev_open E name flags st = (case pe_open E name flags (bdev (fs st)) of (fd, d) \<Rightarrow> (fd, on_fs (bdev_update (\<lambda>_. d)) st))"

definition dev_close :: "'w pfs_env \<Rightarrow> int \<Rightarrow> 'w pfs_drv \<Rightarrow> 'w pfs_drv" where
  "dev_close E fd = on_fs (bdev_update (pe_close E fd))"

text \<open>The arguments are an array of words: the size of a zone, and a pattern for the bitmap behind a mark.\<close>

definition pfsFioFormat :: "'w pfs_env \<Rightarrow> string \<Rightarrow> u32 list \<Rightarrow> 'w pfs_drv \<Rightarrow> (int \<times> 'w pfs_drv) option" where
  "pfsFioFormat E blockdev args st = do {
     let fragment = (if length args = 3 \<and> args ! 1 = 0x2D66 then args ! 2 else 0);
     ok \<leftarrow> pfsGetBlockDeviceTable blockdev;
     if \<not> ok then Some (- ENXIO, st)
     else do {
       st \<leftarrow> pfsWait st;
       let (fd, st) = dev_open E blockdev O_RDWR st;
       if fd < 0 then Some (fd, pfsSignal st)
       else if args = [] then None
       else do {
         (rv, s) \<leftarrow> pfsFormat (pe_bd E) fd (args ! 0) fragment (fs st);
         Some (rv, pfsSignal (dev_close E fd (st\<lparr>fs := s\<rparr>))) } } }"

definition pfsFioMount :: "'w pfs_env \<Rightarrow> hdd_file \<Rightarrow> string \<Rightarrow> u32 \<Rightarrow> 'w pfs_drv \<Rightarrow> (int \<times> 'w pfs_drv) option" where
  "pfsFioMount E f devname flag st = do {
     ok \<leftarrow> pfsGetBlockDeviceTable devname;
     if \<not> ok then Some (- ENXIO, st)
     else do {
       st \<leftarrow> pfsWait st;
       let (fd, st) = dev_open E devname (if flag AND FIO_MT_RDONLY \<noteq> 0 then O_RDONLY else O_RDWR) st;
       if fd < 0 then Some (fd, pfsSignal st)
       else do {
         (rv, st) \<leftarrow> mountDevice E fd (hf_unit f) flag st;
         Some (rv, pfsSignal (if rv < 0 then dev_close E fd st else st)) } } }"

definition mount_in_use :: "nat \<Rightarrow> 'w pfs_drv \<Rightarrow> bool" where
  "mount_in_use m st = list_ex (\<lambda>i. slot_mount st i = Some m) [0..<unat (maxOpen st)]"

definition pfsFioUmount :: "'w pfs_env \<Rightarrow> hdd_file \<Rightarrow> 'w pfs_drv \<Rightarrow> (int \<times> 'w pfs_drv) option" where
  "pfsFioUmount E f = on_unit f (\<lambda>m st.
     if mount_in_use m st then Some (- EBUSY, st)
     else do {
       s \<leftarrow> pfsCacheClose (pe_bd E) m (fs st);
       Some (0, pfsClearMount m (dev_close E (m_fd (pfsMounts s m)) (st\<lparr>fs := s\<rparr>))) })"

section \<open>Requests\<close>

text \<open>The mounts are looked at up to the number of open files, not that of mounts.\<close>

definition pfsFioDevctlCloseAll :: "'w pfs_env \<Rightarrow> 'w pfs_drv \<Rightarrow> 'w pfs_drv option" where
  "pfsFioDevctlCloseAll E st = do {
     st \<leftarrow> foldO (\<lambda>i st. if fs_fd (pfsFileSlots st i) \<noteq> None then pfsFioCloseFileSlot E i st else Some st) [0..<unat (maxOpen st)] st;
     foldO (\<lambda>i st. case pfsGetMountedUnit (int i) st of
              None \<Rightarrow> Some st
            | Some m \<Rightarrow> do { s \<leftarrow> pfsCacheFlushAllDirty (pe_bd E) m (fs st); Some (st\<lparr>fs := s\<rparr>) }) [0..<unat (maxOpen st)] st }"

definition pfsFioInit :: "'w pfs_drv \<Rightarrow> int \<times> 'w pfs_drv" where
  "pfsFioInit st = (0, st\<lparr>pfsFioSema := True\<rparr>)"

definition pfsFioDeinit :: "'w pfs_env \<Rightarrow> 'w pfs_drv \<Rightarrow> (int \<times> 'w pfs_drv) option" where
  "pfsFioDeinit E st = do {
     st \<leftarrow> pfsFioDevctlCloseAll E st;
     Some (0, st\<lparr>pfsFioSema := False\<rparr>) }"

definition devctlFsckStat :: "'w pfs_env \<Rightarrow> nat \<Rightarrow> nat \<Rightarrow> 'w pfs_drv \<Rightarrow> (int \<times> 'w pfs_drv) option" where
  "devctlFsckStat E m mode st = do {
     (rv, p, s) \<leftarrow> pfsCacheAllocClean (pe_bd E) (fs st);
     case p of
       None \<Rightarrow> Some (rv, st\<lparr>fs := s\<rparr>)
     | Some c \<Rightarrow> do {
         mt \<leftarrow> mnt m s;
         let (rv, w, d) = pfsFsckStat (pe_bd E) (m_fd mt) (inode s c) PFS_FSCK_STAT_ERRORS_FIXED mode (bdev s);
         Some (rv, st\<lparr>fs := pfsCacheFree (Some c) (upd_data c (\<lambda>_. w) (s\<lparr>bdev := d\<rparr>))\<rparr>) } }"

datatype pfs_devctl = PDIOC_ZONESZ | PDIOC_ZONEFREE | PDIOC_CLOSEALL | PDIOC_CLRFSCKSTAT | PDIOC_GETFSCKSTAT |
  PDIOC_SETUID u16 | PDIOC_SETGID u16 | PDIOC_SHOWBITMAP | OtherPdioc int

definition pfsFioDevctl :: "'w pfs_env \<Rightarrow> hdd_file \<Rightarrow> pfs_devctl \<Rightarrow> 'w pfs_drv \<Rightarrow> (int \<times> 'w pfs_drv) option" where
  "pfsFioDevctl E f cmd = on_unit f (\<lambda>m st. do {
     mt \<leftarrow> mnt m (fs st);
     (case cmd of
        PDIOC_ZONESZ \<Rightarrow> Some (sint (m_zsize mt), st)
      | PDIOC_ZONEFREE \<Rightarrow> Some (sint (m_zfree mt), st)
      | PDIOC_CLOSEALL \<Rightarrow> do { st \<leftarrow> pfsFioDevctlCloseAll E st; Some (0, st) }
      | PDIOC_CLRFSCKSTAT \<Rightarrow> devctlFsckStat E m 1 st
      | PDIOC_GETFSCKSTAT \<Rightarrow> devctlFsckStat E m 2 st
      | PDIOC_SETUID n \<Rightarrow> Some (0, on_fs (upd_m m (m_uid_update (\<lambda>_. n))) st)
      | PDIOC_SETGID n \<Rightarrow> Some (0, on_fs (upd_m m (m_gid_update (\<lambda>_. n))) st)
      | PDIOC_SHOWBITMAP \<Rightarrow> do { s \<leftarrow> pfsBitmapShow (pe_bd E) m (fs st); Some (0, st\<lparr>fs := s\<rparr>) }
      | OtherPdioc n \<Rightarrow> Some (- EINVAL, st)) })"

section \<open>Attributes\<close>

definition a_kLen :: "words \<Rightarrow> nat \<Rightarrow> nat" where "a_kLen w d = unat (byte_at w d)"
definition a_vLen :: "words \<Rightarrow> nat \<Rightarrow> nat" where "a_vLen w d = unat (byte_at w (d + 1))"

definition a_aLen :: "words \<Rightarrow> nat \<Rightarrow> nat" where
  "a_aLen w d = unat (byte_at w (d + 2)) + 256 * unat (byte_at w (d + 3))"

text \<open>The length an entry needs: \<open>(kLen + vLen + 7) & ~3\<close>.\<close>

definition a_need :: "nat \<Rightarrow> nat \<Rightarrow> nat" where
  "a_need k v = (k + v + 7) div 4 * 4"

definition set_aLen :: "nat \<Rightarrow> nat \<Rightarrow> words \<Rightarrow> words" where
  "set_aLen d n = put_bytes (d + 2) [of_nat n, of_nat (n div 256)]"

definition a_key :: "words \<Rightarrow> nat \<Rightarrow> u8 list" where "a_key w d = bytes_at w (d + 4) (a_kLen w d)"
definition a_value :: "words \<Rightarrow> nat \<Rightarrow> u8 list" where "a_value w d = bytes_at w (d + 4 + a_kLen w d) (a_vLen w d)"

text \<open>
  The loop of \<open>getAentry\<close> over the entries, from the one at \<open>d\<close>. It goes on while the end of the block is
  in front of the entry. The mode is 0 for a lookup, 1 for an entry with room, and else for a removal.
\<close>

partial_function (option) aentry_loop :: "nat \<Rightarrow> u8 list \<Rightarrow> nat \<Rightarrow> nat option \<Rightarrow> nat \<Rightarrow> words \<Rightarrow> (nat option \<times> words) option" where
  "aentry_loop mode key fullsize prev d w =
     (if \<not> pfsMetaSize < d then Some (None, w)
      else if a_aLen w d < a_need (a_kLen w d) (a_vLen w d) then Some (None, w)
      else if mode = 0 then
        (if a_key w d = key then Some (Some d, w) else aentry_loop mode key fullsize prev (d + a_aLen w d) w)
      else if mode = 1 then
        (if a_kLen w d = 0 \<and> fullsize \<le> a_aLen w d \<or> fullsize \<le> a_aLen w d - a_need (a_kLen w d) (a_vLen w d)
         then Some (Some d, w) else aentry_loop mode key fullsize prev (d + a_aLen w d) w)
      else if a_key w d = key then
        Some (Some d, case prev of Some l \<Rightarrow> set_aLen l (a_aLen w l + a_aLen w d) w | None \<Rightarrow> put_bytes d [0, 0] w)
      else aentry_loop mode key fullsize (Some d) (d + a_aLen w d) w)"

text \<open>\<open>vlen\<close> is what \<open>strlen\<close> gives for the value, which is a null pointer in three of the four calls.\<close>

definition getAentry :: "words \<Rightarrow> string \<Rightarrow> nat \<Rightarrow> nat \<Rightarrow> (nat option \<times> words) option" where
  "getAentry w key vlen mode = aentry_loop mode (chars key) (a_need (length key) vlen) None 0 w"

text \<open>\<open>nl\<close> is what \<open>strlen\<close> gives for a null pointer.\<close>

definition ioctl2AttrAdd :: "nat \<Rightarrow> nat \<Rightarrow> string \<Rightarrow> string \<Rightarrow> 'w pfs_state \<Rightarrow> (int \<times> 'w pfs_state) option" where
  "ioctl2AttrAdd nl c key value s =
     (if 256 \<le> length key \<or> 256 \<le> length value then Some (- EINVAL, s)
      else if key = [] \<or> value = [] then Some (- EINVAL, s)
      else do {
        (p, w) \<leftarrow> getAentry (inode s c) key nl 0;
        if p \<noteq> None then Some (- EEXIST, s)
        else do {
          (p, w) \<leftarrow> getAentry (inode s c) key (length value) 1;
          case p of
            None \<Rightarrow> Some (- ENOSPC, s)
          | Some d \<Rightarrow>
              let tmp = (if a_kLen w d = 0 then a_aLen w d else a_aLen w d - a_need (a_kLen w d) (a_vLen w d));
                  w = set_aLen d (a_aLen w d - tmp) w;
                  d = d + a_aLen w d;
                  w = set_aLen d tmp (put_bytes d [of_nat (length key), of_nat (length value)] w);
                  w = put_bytes (d + 4) (chars key @ chars value) w
              in Some (0, set_flag c PFS_CACHE_FLAG_DIRTY (upd_data c (\<lambda>_. w) s)) } })"

definition ioctl2AttrDelete :: "nat \<Rightarrow> nat \<Rightarrow> string \<Rightarrow> 'w pfs_state \<Rightarrow> (int \<times> 'w pfs_state) option" where
  "ioctl2AttrDelete nl c key s = do {
     (p, w) \<leftarrow> getAentry (inode s c) key nl 2;
     if p = None then Some (- ENOENT, upd_data c (\<lambda>_. w) s)
     else Some (0, set_flag c PFS_CACHE_FLAG_DIRTY (upd_data c (\<lambda>_. w) s)) }"

definition ioctl2AttrLoopUp :: "nat \<Rightarrow> nat \<Rightarrow> string \<Rightarrow> 'w pfs_state \<Rightarrow> (int \<times> u8 list) option" where
  "ioctl2AttrLoopUp nl c key s = do {
     (p, w) \<leftarrow> getAentry (inode s c) key nl 0;
     Some (case p of Some d \<Rightarrow> (int (a_vLen w d), a_value w d) | None \<Rightarrow> (- ENOENT, [])) }"

text \<open>The next entry that is not empty, from an offset on: the length of its key, its key and value, and the next offset.\<close>

partial_function (option) attr_read_loop :: "words \<Rightarrow> u32 \<Rightarrow> (int \<times> (u8 list \<times> u8 list) \<times> u32) option" where
  "attr_read_loop w offset =
     (let d = unat offset; nxt = offset + of_nat (a_aLen w d) in
      if a_kLen w d \<noteq> 0 \<or> \<not> nxt < of_nat pfsMetaSize then Some (int (a_kLen w d), (a_key w d, a_value w d), nxt)
      else attr_read_loop w nxt)"

definition ioctl2AttrRead :: "nat \<Rightarrow> u32 \<Rightarrow> 'w pfs_state \<Rightarrow> (int \<times> (u8 list \<times> u8 list) option \<times> u32) option" where
  "ioctl2AttrRead c offset s =
     (if of_nat pfsMetaSize \<le> offset then Some (0, None, offset)
      else do {
        (n, kv, offset) \<leftarrow> attr_read_loop (inode s c) offset;
        Some (n, Some kv, offset) })"

datatype pfs_ioctl2 = PIOCALLOC u32 | PIOCFREE | PIOCATTRADD string string | PIOCATTRDEL string | PIOCATTRLOOKUP string |
  PIOCATTRREAD | OtherPioc int

text \<open>The result, what is stored in the buffer of the caller, and the offset of the scan.\<close>

definition ioctl2Attr :: "'w pfs_block_device_t \<Rightarrow> nat \<Rightarrow> nat \<Rightarrow> pfs_ioctl2 \<Rightarrow> u32 \<Rightarrow> 'w pfs_state \<Rightarrow>
    (int \<times> (u8 list \<times> u8 list) option \<times> u32 \<times> 'w pfs_state) option" where
  "ioctl2Attr B nl clink cmd offset s = do {
     let e = pfsCacheBuf s clink;
     (rv, p, s) \<leftarrow> pfsCacheGetData B (p_mount e) (ucast (p_sub e)) (p_sector e + 1) PFS_CACHE_FLAG_NOTHING s;
     case p of
       None \<Rightarrow> Some (rv, None, offset, s)
     | Some c \<Rightarrow> do {
         (rv, out, offset, s) \<leftarrow> (case cmd of
            PIOCATTRADD key value \<Rightarrow> do { (rv, s) \<leftarrow> ioctl2AttrAdd nl c key value s; Some (rv, None, offset, s) }
          | PIOCATTRDEL key \<Rightarrow> do { (rv, s) \<leftarrow> ioctl2AttrDelete nl c key s; Some (rv, None, offset, s) }
          | PIOCATTRLOOKUP key \<Rightarrow> do { (rv, v) \<leftarrow> ioctl2AttrLoopUp nl c key s; Some (rv, if 0 \<le> rv then Some ([], v) else None, offset, s) }
          | PIOCATTRREAD \<Rightarrow> do { (rv, kv, offset) \<leftarrow> ioctl2AttrRead c offset s; Some (rv, kv, offset, s) }
          | _ \<Rightarrow> Some (rv, None, offset, s));
         Some (rv, out, offset, pfsCacheFree (Some c) s) } }"

definition ioctl2_refused :: "hdd_file \<Rightarrow> pfs_ioctl2 \<Rightarrow> int" where
  "ioctl2_refused f cmd =
     (let lookup = (case cmd of PIOCATTRLOOKUP _ \<Rightarrow> True | _ \<Rightarrow> False) in
      if hf_mode f AND O_DIROPEN \<noteq> 0 \<and> cmd = PIOCATTRREAD then - EISDIR
      else if hf_mode f AND O_WRONLY = 0 \<and> \<not> lookup \<and> cmd \<noteq> PIOCATTRREAD then - EACCES
      else 0)"

definition pfsFioIoctl2 :: "'w pfs_env \<Rightarrow> nat \<Rightarrow> hdd_file \<Rightarrow> pfs_ioctl2 \<Rightarrow> 'w pfs_drv \<Rightarrow>
    (int \<times> (u8 list \<times> u8 list) option \<times> 'w pfs_drv) option" where
  "pfsFioIoctl2 E nl f cmd st =
     (if ioctl2_refused f cmd \<noteq> 0 then Some (ioctl2_refused f cmd, None, st)
      else do {
        (rv, st) \<leftarrow> pfsFioCheckFileSlot (hf_privdata f) st;
        if rv < 0 then Some (rv, None, st)
        else do {
          k \<leftarrow> hf_privdata f;
          let slot = pfsFileSlots st k;
          c \<leftarrow> fs_clink slot;
          let m = p_mount (pfsCacheBuf (fs st) c);
          (rv, out, st) \<leftarrow> (case cmd of
             PIOCALLOC n \<Rightarrow> do { (rv, s) \<leftarrow> pfsAllocZones (pe_bd E) c n 1 (fs st); Some (rv, None, st\<lparr>fs := s\<rparr>) }
           | PIOCFREE \<Rightarrow> do { s \<leftarrow> pfsFreeZones (pe_bd E) c (fs st); Some (rv, None, st\<lparr>fs := s\<rparr>) }
           | OtherPioc n \<Rightarrow> Some (- EINVAL, None, st)
           | _ \<Rightarrow> do {
               (rv, out, offset, s) \<leftarrow> ioctl2Attr (pe_bd E) nl c cmd (fs_aentryOffset slot) (fs st);
               Some (rv, out, upd_fslot k (fs_aentryOffset_update (\<lambda>_. offset)) (st\<lparr>fs := s\<rparr>)) });
          st \<leftarrow> flush_if_writeable E m st;
          Some (pfsFioCheckForLastError m rv st, out, pfsSignal st) } })"

definition pfsFioIoctl :: "hdd_file \<Rightarrow> int \<Rightarrow> int" where
  "pfsFioIoctl f cmd = - 1"

end
