(* ===== verification/PfsDisk.thy ===== *)
theory PfsDisk
  imports PfsCache
begin

text \<open>
  A block device in memory, on which the theorems about PFS are tried out. A disk is a function from the
  partition (0 the main one) and the sector to the 128 words of the sector; every transfer succeeds. The
  second device is the same one with all writes failing. The clock has no answer.
\<close>

type_synonym ram_disk = "u32 \<Rightarrow> u32 \<Rightarrow> words"

definition ram_read :: "int \<Rightarrow> u32 \<Rightarrow> u32 \<Rightarrow> u32 \<Rightarrow> ram_disk \<Rightarrow> int \<times> words \<times> ram_disk" where
  "ram_read fd sub sector n d = (0, (\<lambda>k. d sub (sector + of_nat (k div 128)) (k mod 128)), d)"

definition ram_write :: "int \<Rightarrow> words \<Rightarrow> u32 \<Rightarrow> u32 \<Rightarrow> u32 \<Rightarrow> ram_disk \<Rightarrow> int \<times> ram_disk" where
  "ram_write fd w sub sector n d =
     (0, d(sub := (\<lambda>x. if x - sector < n then (\<lambda>k. w (128 * unat (x - sector) + k)) else d sub x)))"

definition ram_device :: "ram_disk pfs_block_device_t" where
  "ram_device = \<lparr>bd_read = ram_read, bd_write = ram_write, bd_getSubNumber = (\<lambda>fd d. 0),
     bd_getSize = (\<lambda>fd sub d. 0x10000), bd_setPartitionError = (\<lambda>fd d. d), bd_flushCache = (\<lambda>fd d. (0, d)),
     bd_clock = (\<lambda>d. (0, \<lparr>ck_stat = 0, ck_second = 0, ck_minute = 0, ck_hour = 0, ck_day = 0, ck_month = 0, ck_year = 0\<rparr>, d)),
     bd_alloc = (\<lambda>n. True)\<rparr>"

definition broken_device :: "ram_disk pfs_block_device_t" where
  "broken_device = ram_device\<lparr>bd_write := (\<lambda>fd w sub sector n d. (- EIO, d))\<rparr>"

definition blank_mount :: pfs_mount_t where
  "blank_mount = \<lparr>m_fd = 0, m_flags = 0, m_total_sector = 0, m_zfree = 0, m_sector_scale = 0, m_inode_scale = 0,
     m_zsize = 0, m_num_subs = 0, m_root_dir = \<lparr>bi_number = 0, bi_subpart = 0, bi_count = 0\<rparr>,
     m_log = \<lparr>bi_number = 0, bi_subpart = 0, bi_count = 0\<rparr>, m_current_dir = \<lparr>bi_number = 0, bi_subpart = 0, bi_count = 0\<rparr>,
     m_lastError = 0, m_uid = 0, m_gid = 0, m_free_zone = (\<lambda>_. 0)\<rparr>"

definition blank_state :: "ram_disk pfs_state" where
  "blank_state = \<lparr>pfsCacheBuf = (\<lambda>_. empty_entry (\<lambda>_. 0)), pfsCacheNumBuffers = 0, pfsMounts = (\<lambda>_. blank_mount),
     pfsJournalBuf = (\<lambda>_. 0), pfsTimeBuf = (\<lambda>_. 0), bdev = (\<lambda>_ _ _. 0)\<rparr>"

end
