(* ===== verification/PfsFiles.thy ===== *)
theory PfsFiles
  imports PfsAdmin PfsDisk
begin

text \<open>
  What the PFS driver keeps between calls, and properties of single requests: the semaphore, the slots of
  open files, the positions a seek accepts, and the attributes of files.
\<close>

section \<open>The slots of open files\<close>

text \<open>A slot that was handed out refers to an inode.\<close>

definition fslots_ok :: "'w pfs_drv \<Rightarrow> bool" where
  "fslots_ok st \<longleftrightarrow> (\<forall>i. fs_fd (pfsFileSlots st i) \<noteq> None \<longrightarrow> fs_clink (pfsFileSlots st i) \<noteq> None)"

lemma fslots_fs [simp]:
  "fslots_ok (st\<lparr>fs := s\<rparr>) = fslots_ok st" "fslots_ok (st\<lparr>pfsFioSema := b\<rparr>) = fslots_ok st"
  "fslots_ok (pfsSignal st) = fslots_ok st" "fslots_ok (on_fs g st) = fslots_ok st"
  by (simp_all add: fslots_ok_def pfsSignal_def on_fs_def)

text \<open>Changes of a slot that keep what it refers to.\<close>

lemma fslots_upd: "fslots_ok st \<Longrightarrow> (\<And>sl. fs_fd (f sl) = fs_fd sl \<and> fs_clink (f sl) = fs_clink sl) \<Longrightarrow> fslots_ok (upd_fslot k f st)"
  by (auto simp: fslots_ok_def upd_fslot_def)

lemma fslots_unaligned [simp]: "fslots_ok st \<Longrightarrow> fslots_ok (upd_unaligned k f st)"
  by (simp add: upd_unaligned_def fslots_upd)

lemma fslots_free: "fslots_ok st \<Longrightarrow> fs_fd (pfsFileSlots st k) = None \<Longrightarrow> (\<And>sl. fs_fd (f sl) = fs_fd sl) \<Longrightarrow> fslots_ok (upd_fslot k f st)"
  by (auto simp: fslots_ok_def upd_fslot_def)

lemma write_unaligned_keeps [simp]:
  "pfsFileSlots (snd (write_unaligned E mt u st)) = pfsFileSlots st" "maxOpen (snd (write_unaligned E mt u st)) = maxOpen st"
  by (simp_all add: write_unaligned_def split: prod.split)

lemma write_unaligned_fslots: "write_unaligned E mt u st = (r, t) \<Longrightarrow> fslots_ok t = fslots_ok st"
  by (auto simp: write_unaligned_def split: prod.splits)

lemma flush_if_keeps: "flush_if_writeable E m st = Some t \<Longrightarrow> pfsFileSlots t = pfsFileSlots st"
  by (auto simp: flush_if_writeable_def split: if_splits Option.bind_splits)

lemma flush_if_fslots: "flush_if_writeable E m st = Some t \<Longrightarrow> fslots_ok t = fslots_ok st"
  by (simp add: fslots_ok_def flush_if_keeps)

lemma load_fslots: "load_unaligned E mt k sub sector needed st = (r, t) \<Longrightarrow> fslots_ok st \<Longrightarrow> fslots_ok t"
  by (auto simp: load_unaligned_def Let_def split: if_splits prod.splits dest!: write_unaligned_fslots)

lemma sync_fslots: "fslots_ok st \<Longrightarrow> fslots_ok (sync_slots m k st)"
proof -
  assume "fslots_ok st"
  moreover have "fslots_ok (fold (\<lambda>i st. let u = fs_unaligned (pfsFileSlots st k) in
     if has_sector st m (u_sub u) (u_sector u) i \<and> u_dirty (fs_unaligned (pfsFileSlots st i)) = 0
     then upd_unaligned i (u_buffer_update (\<lambda>b j. if j < 512 then u_buffer u j else b j)) st else st) is st)"
    if "fslots_ok st" for "is" st
    using that by (induction "is" arbitrary: st) (auto simp: Let_def)
  ultimately show ?thesis by (simp add: sync_slots_def)
qed

lemma remainder_fslots:
  assumes "fileTransferRemainder E k buf off sz op st = Some (r, b, t)" "fslots_ok st"
  shows "fslots_ok t"
  using assms
  by (auto simp: fileTransferRemainder_def Let_def split: Option.bind_splits option.splits if_splits prod.splits
      dest!: load_fslots write_unaligned_fslots intro!: sync_fslots fslots_unaligned)

lemma next_segment_fslots: "next_segment E k sz op st = Some (e, t) \<Longrightarrow> fslots_ok st \<Longrightarrow> fslots_ok t"
  by (auto simp: next_segment_def Let_def split: Option.bind_splits if_splits prod.splits intro!: fslots_upd)

lemma flush_partial_fslots: "flush_partial E mt bi k sz st = (r, t) \<Longrightarrow> fslots_ok st \<Longrightarrow> fslots_ok t"
  by (auto simp: flush_partial_def Let_def split: if_splits prod.splits dest!: write_unaligned_fslots intro!: fslots_unaligned)

lemma direct_fslots: "transfer_direct E mt bi k buf off sz op st = (r, b, t) \<Longrightarrow> fslots_ok t = fslots_ok st"
  by (auto simp: transfer_direct_def Let_def split: if_splits prod.splits)

lemma advance_fslots: "advance k n st = Some t \<Longrightarrow> fslots_ok st \<Longrightarrow> fslots_ok t"
  by (auto simp: advance_def Let_def split: Option.bind_splits if_splits prod.splits intro!: fslots_upd)

lemma step_fslots:
  assumes "transfer_step E k addr buf off sz op st = Some (r, b, t)" "fslots_ok st"
  shows "fslots_ok t"
  using assms
  by (auto simp: transfer_step_def Let_def split: Option.bind_splits option.splits if_splits prod.splits
      dest!: next_segment_fslots flush_partial_fslots remainder_fslots advance_fslots direct_fslots)

lemma loop_fslots:
  fixes E :: "'w pfs_env"
  assumes "transfer_loop E k addr whole buf off sz op st = Some y" "fslots_ok st"
  shows "fslots_ok (snd (snd y))"
proof -
  have "fslots_ok st \<longrightarrow> fslots_ok (snd (snd y))"
  proof (rule transfer_loop.raw_induct [where P = "\<lambda>E k addr whole buf off sz op st y. fslots_ok st \<longrightarrow> fslots_ok (snd (snd y))", OF _ assms(1)])
    fix f :: "'w pfs_env \<Rightarrow> nat \<Rightarrow> u32 \<Rightarrow> int \<Rightarrow> (nat \<Rightarrow> u8) \<Rightarrow> nat \<Rightarrow> int \<Rightarrow> nat \<Rightarrow> 'w pfs_drv \<Rightarrow> (int \<times> (nat \<Rightarrow> u8) \<times> 'w pfs_drv) option"
      and E k addr whole buf off sz op st y
    assume ih: "\<And>E k addr whole buf off sz op st y. f E k addr whole buf off sz op st = Some y \<Longrightarrow> fslots_ok st \<longrightarrow> fslots_ok (snd (snd y))"
      and step: "(if sz = 0 then Some (whole, buf, st) else Option.bind (transfer_step E k addr buf off sz op st) (\<lambda>(r, buf, st).
        case r of Inl r \<Rightarrow> Some (r, buf, st) | Inr n \<Rightarrow> f E k addr whole buf (off + nat n) (sz - n) op st)) = Some y"
    show "fslots_ok st \<longrightarrow> fslots_ok (snd (snd y))"
    proof (cases "sz = 0")
      case True
      with step show ?thesis by auto
    next
      case False
      with step obtain r b t where s: "transfer_step E k addr buf off sz op st = Some (r, b, t)"
        by (cases "transfer_step E k addr buf off sz op st") auto
      show ?thesis
      proof (cases r)
        case (Inl x)
        with False step s step_fslots [OF s] show ?thesis by auto
      next
        case (Inr n)
        with False step s have "f E k addr whole b (off + nat n) (sz - n) op t = Some y" by simp
        from ih [OF this] step_fslots [OF s] show ?thesis by blast
      qed
    qed
  qed
  with assms(2) show ?thesis by blast
qed

lemma transfer_fslots: "fileTransfer E k addr buf sz op st = Some (r, b, t) \<Longrightarrow> fslots_ok st \<Longrightarrow> fslots_ok t"
  by (auto simp: fileTransfer_def expand_last_def Let_def split: Option.bind_splits if_splits dest!: loop_fslots)

section \<open>Opening and closing\<close>

lemma get_data_fails: "pfsCacheGetData B m sub sector flags s = Some (r, None, t) \<Longrightarrow> r < 0"
  by (auto simp: pfsCacheGetData_def Let_def split: option.splits Option.bind_splits if_splits)

lemma inode_data_fails: "pfsInodeGetData B m sub ino s = Some (r, None, t) \<Longrightarrow> r < 0"
  by (auto simp: pfsInodeGetData_def split: Option.bind_splits dest!: get_data_fails)

lemma file_in_dir_fails: "pfsInodeGetFileInDir B dir path r0 s = Some (r, None, t) \<Longrightarrow> r < 0"
  by (auto simp: pfsInodeGetFileInDir_def Let_def split: Option.bind_splits if_splits option.splits dest!: inode_data_fails)

lemma inode_create_fails: "pfsInodeCreate B parent mode uid gid s = Some (r, None, t) \<Longrightarrow> r < 0"
  by (auto simp: pfsInodeCreate_def Let_def split: Option.bind_splits if_splits option.splits dest!: get_data_fails)

lemma create_slot: "open_create B m (Slot k) name mode parent s = Some (r, p, tg, t) \<Longrightarrow> tg = Slot k \<and> (p = None \<longrightarrow> r \<noteq> 0)"
  by (auto simp: open_create_def Let_def split: Option.bind_splits if_splits option.splits dest!: inode_create_fails)

lemma follow_fails: "follow_links B m n parent c r0 s = Some (ok, r, dir, None, t) \<Longrightarrow> \<not> ok \<and> r < 0"
proof (induction n arbitrary: parent c r0 s ok r dir t)
  case 0
  then show ?case by (subst (asm) follow_links.simps) (auto split: if_splits)
next
  case (Suc n)
  from Suc.prems show ?case
    by (subst (asm) follow_links.simps)
      (auto simp: Let_def split: if_splits Option.bind_splits option.splits dest!: file_in_dir_fails Suc.IH)
qed

lemma existing_fails: "open_existing B m flags mode parent c r0 s = Some (r, dir, None, t) \<Longrightarrow> r \<noteq> 0"
  by (auto simp: open_existing_def Let_def split: if_splits Option.bind_splits dest!: follow_fails)

lemma last_error_nonzero: "r \<noteq> 0 \<Longrightarrow> pfsFioCheckForLastError m r st \<noteq> 0"
  by (simp add: pfsFioCheckForLastError_def Let_def)

text \<open>What filling a free slot gives: the other slots are kept, and success leaves an inode in it.\<close>

definition slot_filled :: "nat \<Rightarrow> int \<Rightarrow> 'w pfs_drv \<Rightarrow> 'w pfs_drv \<Rightarrow> bool" where
  "slot_filled k r st t \<longleftrightarrow> (fslots_ok st \<and> fs_fd (pfsFileSlots st k) = None \<longrightarrow>
     fslots_ok t \<and> (r = 0 \<longrightarrow> fs_clink (pfsFileSlots t k) \<noteq> None))"

lemma fill_slot_filled: "fill_file_slot E m flags k c st = Some (r, t) \<Longrightarrow> slot_filled k r st t"
  by (auto simp: fill_file_slot_def Let_def slot_filled_def fslots_ok_def upd_fslot_def last_error_nonzero
      split: Option.bind_splits if_splits dest!: flush_if_keeps)

lemma start_dir_fails: "start_dir B m clink name r0 s = Some (r, None, t) \<Longrightarrow> r < 0"
  by (auto simp: start_dir_def split: if_splits Option.bind_splits dest!: inode_data_fails)

text \<open>A path that cannot be walked always has an error number.\<close>

lemma path_walk_fails: "path_walk B m depth c name r0 s = Some (r, None, t) \<Longrightarrow> r < 0"
proof (induction "(4 - depth, length name)" arbitrary: depth c name r0 s r t rule: wf_induct_rule [OF wf_lex_prod [OF wf_less_than wf_less_than]])
  case 1
  note prem = "1.prems"
  have IH: "r' < 0" if "4 - d < 4 - depth \<or> d = depth \<and> length n < length name" "path_walk B m d c' n r0' s' = Some (r', None, t')"
    for d c' n r0' s' r' t' using "1.hyps" [OF _ that(2)] that(1) by auto
  show ?case
  proof (cases "pfsSplitPath name")
    case None
    with prem show ?thesis by (subst (asm) path_walk.simps) auto
  next
    case (Some pr)
    obtain path rest where pr: "pr = (path, rest)" by fastforce
    note short = split_path_shorter [OF Some [unfolded pr]]
    show ?thesis
    proof (cases "rest = []")
      case True
      with prem Some pr show ?thesis by (subst (asm) path_walk.simps) (auto split: if_splits)
    next
      case False
      from prem Some pr False obtain r1 p s1 where f: "pfsInodeGetFileInDir B c path r0 s = Some (r1, p, s1)"
        by (subst (asm) path_walk.simps) (auto split: Option.bind_splits)
      show ?thesis
      proof (cases p)
        case None
        with prem Some pr False f file_in_dir_fails show ?thesis by (subst (asm) path_walk.simps) auto
      next
        case ino: (Some ino)
        show ?thesis
        proof (cases "i_mode (inode s1 ino) AND FIO_S_IFMT = FIO_S_IFLNK")
          case False
          with prem Some pr \<open>rest \<noteq> []\<close> f ino have "path_walk B m depth ino rest r1 (pfsCacheFree (Some c) s1) = Some (r, None, t)"
            by (subst (asm) path_walk.simps) auto
          with IH short \<open>rest \<noteq> []\<close> show ?thesis by blast
        next
          case True
          have deep: "r' < 0" if "path_walk B m (Suc depth) c' n r0' s' = Some (r', None, t')" "\<not> 4 \<le> depth" for c' n r0' s' r' t'
            using IH [OF _ that(1)] that(2) by simp
          have on: "r' < 0" if "path_walk B m depth c' rest r0' s' = Some (r', None, t')" for c' r0' s' r' t'
            using IH [OF _ that] short False by simp
          from True prem Some pr False f ino show ?thesis
            by (subst (asm) path_walk.simps)
              (auto simp: Let_def split: if_splits Option.bind_splits option.splits dest!: start_dir_fails file_in_dir_fails deep on)
        qed
      qed
    qed
  qed
qed

lemma get_parent_fails: "pfsInodeGetParent B m clink name r0 s = Some (r, None, t) \<Longrightarrow> r < 0"
  by (auto simp: pfsInodeGetParent_def split: Option.bind_splits option.splits dest: start_dir_fails path_walk_fails)

lemma open_file_filled:
  assumes "openFile E m (Slot k) name flags mode st = Some (r, t)"
  shows "slot_filled k r st t"
proof -
  have free: "slot_filled k r st (st\<lparr>fs := s\<rparr>)" if "r \<noteq> 0" for r s using that by (simp add: slot_filled_def)
  have fill: "slot_filled k r st t" if "fill_file_slot E m flags k c (st\<lparr>fs := s\<rparr>) = Some (r, t)" for c s r t
    using fill_slot_filled [OF that] by (simp add: slot_filled_def)
  obtain r1 q s1 where g: "pfsInodeGetParent (pe_bd E) m None name 0 (fs st) = Some (r1, q, s1)"
    using assms by (cases "pfsInodeGetParent (pe_bd E) m None name 0 (fs st)") (auto simp: openFile_def)
  show ?thesis
  proof (cases q)
    case None
    with g have "r1 < 0" by (auto dest: get_parent_fails)
    with assms g None show ?thesis by (auto simp: openFile_def intro: free)
  next
    case (Some pn)
    obtain parent nm where pn: "pn = (parent, nm)" by fastforce
    obtain r2 p s2 where h: "pfsInodeGetFileInDir (pe_bd E) parent nm r1 s1 = Some (r2, p, s2)"
      using assms g Some pn by (cases "pfsInodeGetFileInDir (pe_bd E) parent nm r1 s1") (auto simp: openFile_def)
    show ?thesis
    proof (cases p)
      case c: (Some c)
      with assms g Some pn h show ?thesis
        by (auto simp: openFile_def Let_def split: Option.bind_splits option.splits if_splits
            dest!: existing_fails fill intro!: free last_error_nonzero)
    next
      case None
      with h have "r2 < 0" by (auto dest: file_in_dir_fails)
      with None assms g Some pn h show ?thesis
        by (auto simp: openFile_def Let_def split: Option.bind_splits option.splits if_splits open_target.splits
            dest!: create_slot fill intro!: free last_error_nonzero)
    qed
  qed
qed

section \<open>Between calls\<close>

definition drv_ok :: "'w pfs_drv \<Rightarrow> bool" where
  "drv_ok st \<longleftrightarrow> pfsFioSema st \<and> fslots_ok st"

lemma signal_drv [simp]: "drv_ok (pfsSignal st) = fslots_ok st"
  by (simp add: drv_ok_def) (simp add: pfsSignal_def)

lemma wait_fslots: "pfsWait st = Some t \<Longrightarrow> fslots_ok t = fslots_ok st"
  by (auto simp: pfsWait_def split: if_splits)

lemma check_slot_ok: "pfsFioCheckFileSlot p st = Some (rv, t) \<Longrightarrow> drv_ok st \<Longrightarrow> fslots_ok t \<and> (rv \<noteq> 0 \<longrightarrow> drv_ok t)"
  by (auto simp: pfsFioCheckFileSlot_def drv_ok_def split: Option.bind_splits if_splits dest!: wait_fslots) (simp_all add: pfsSignal_def)

lemma unit_ok: "pfsFioGetMountedUnit u st = Some (p, t) \<Longrightarrow> drv_ok st \<Longrightarrow> fslots_ok t \<and> (p = None \<longrightarrow> drv_ok t)"
  by (auto simp: pfsFioGetMountedUnit_def drv_ok_def split: Option.bind_splits option.splits dest!: wait_fslots) (simp_all add: pfsSignal_def)

lemma on_unit_ok:
  assumes "on_unit f g st = Some (rv, t)" "drv_ok st" "\<And>m st rv t. g m st = Some (rv, t) \<Longrightarrow> fslots_ok st \<Longrightarrow> fslots_ok t"
  shows "drv_ok t"
  using assms by (auto simp: on_unit_def split: Option.bind_splits option.splits dest!: unit_ok)

text \<open>The operations that do not open a file leave the slots as they are.\<close>

lemma create_leaves_target: "open_create B m target name mode parent s = Some (r, p, tg, t) \<Longrightarrow> tg = target \<or> tg = NoTarget"
  by (auto simp: open_create_def Let_def split: Option.bind_splits if_splits option.splits open_target.splits)

lemma open_file_fslots:
  assumes "openFile E m target name flags mode st = Some (r, t)" "\<forall>k. target \<noteq> Slot k"
  shows "fslots_ok t = fslots_ok st"
  using assms by (auto simp: openFile_def Let_def split: Option.bind_splits option.splits if_splits open_target.splits
      dest!: create_leaves_target)

lemma remove_fslots: "fio_remove E m path dir st = Some (r, t) \<Longrightarrow> fslots_ok t = fslots_ok st"
  by (auto simp: fio_remove_def Let_def split: Option.bind_splits option.splits if_splits)

lemma rename_finish_fslots: "rename_finish E m po pn old new r bs st = Some t \<Longrightarrow> fslots_ok t = fslots_ok st"
  by (auto simp: rename_finish_def Let_def split: Option.bind_splits option.splits if_splits dest!: flush_if_fslots)

lemma sync_slot_fslots: "sync_slot E i st = Some t \<Longrightarrow> fslots_ok st \<Longrightarrow> fslots_ok t"
proof -
  assume s: "sync_slot E i st = Some t" and ok: "fslots_ok st"
  have "fslots_ok (snd (write_unaligned E mt u st))" for mt u using ok by (simp add: fslots_ok_def)
  with s ok show ?thesis by (auto simp: sync_slot_def Let_def split: Option.bind_splits if_splits intro!: fslots_unaligned sync_fslots)
qed

lemma close_slot_fslots: "pfsFioCloseFileSlot E k st = Some t \<Longrightarrow> fslots_ok st \<Longrightarrow> fslots_ok t"
  by (auto simp: pfsFioCloseFileSlot_def Let_def fslots_ok_def upd_fslot_def empty_file_slot_def write_unaligned_def
      split: Option.bind_splits if_splits prod.splits dest!: flush_if_keeps)

lemma close_all_fslots:
  assumes "pfsFioDevctlCloseAll E st = Some t" "fslots_ok st"
  shows "fslots_ok t"
proof -
  from assms(1) obtain u where
    u: "foldO (\<lambda>i st. if fs_fd (pfsFileSlots st i) \<noteq> None then pfsFioCloseFileSlot E i st else Some st) [0..<unat (maxOpen st)] st = Some u"
    and t: "foldO (\<lambda>i st. case pfsGetMountedUnit (int i) st of None \<Rightarrow> Some st
            | Some m \<Rightarrow> do { s \<leftarrow> pfsCacheFlushAllDirty (pe_bd E) m (fs st); Some (st\<lparr>fs := s\<rparr>) }) [0..<unat (maxOpen u)] u = Some t"
    by (auto simp: pfsFioDevctlCloseAll_def split: Option.bind_splits)
  have "fslots_ok u" by (rule foldO_keeps [where P = fslots_ok, OF u assms(2)]) (auto split: if_splits dest: close_slot_fslots)
  then show ?thesis by (rule foldO_keeps [where P = fslots_ok, OF t]) (auto split: option.splits Option.bind_splits)
qed

lemma mount_device_fslots: "mountDevice E fd u flag st = Some (r, t) \<Longrightarrow> fslots_ok t = fslots_ok st"
  by (auto simp: mountDevice_def Let_def split: Option.bind_splits if_splits)

lemma dev_fslots [simp]: "fslots_ok (dev_close E fd st) = fslots_ok st"
  by (simp add: dev_close_def)

lemma dev_open_fslots: "dev_open E name flags st = (fd, t) \<Longrightarrow> fslots_ok t = fslots_ok st"
  by (auto simp: dev_open_def split: prod.splits)

lemmas fslots_dests = check_slot_ok unit_ok wait_fslots flush_if_fslots dev_open_fslots mount_device_fslots

text \<open>The operations, one after the other.\<close>

lemma fio_open_ok: "pfsFioOpen E f name mode st = Some (r, f', t) \<Longrightarrow> drv_ok st \<Longrightarrow> drv_ok t"
proof (cases name)
  case (Some n)
  assume o: "pfsFioOpen E f name mode st = Some (r, f', t)" and ok: "drv_ok st"
  obtain p st1 where u: "pfsFioGetMountedUnit (hf_unit f) st = Some (p, st1)"
    using o Some by (cases "pfsFioGetMountedUnit (hf_unit f) st") (auto simp: pfsFioOpen_def)
  have free: "fs_fd (pfsFileSlots st1 k) = None" if "find (\<lambda>i. fs_fd (pfsFileSlots st1 i) = None) xs = Some k" for xs k
    using that by (auto simp: find_Some_iff)
  have put: "fslots_ok (upd_fslot k (fs_fd_update (\<lambda>_. x)) t)" if "fslots_ok t" "fs_clink (pfsFileSlots t k) \<noteq> None" for k x t
    using that by (auto simp: fslots_ok_def upd_fslot_def)
  from o Some u unit_ok [OF u ok] show ?thesis
    by (auto simp: pfsFioOpen_def Let_def split: option.splits Option.bind_splits if_splits
        dest!: open_file_filled free simp: slot_filled_def intro!: put)
qed (auto simp: pfsFioOpen_def)

lemma fio_close_ok: "pfsFioClose E f st = Some (r, t) \<Longrightarrow> drv_ok st \<Longrightarrow> drv_ok t"
  by (auto simp: pfsFioClose_def split: Option.bind_splits if_splits dest!: check_slot_ok close_slot_fslots)

lemma fio_read_ok: "pfsFioRead E f addr buf sz st = Some (r, b, t) \<Longrightarrow> drv_ok st \<Longrightarrow> drv_ok t"
  by (auto simp: pfsFioRead_def Let_def split: Option.bind_splits if_splits dest!: check_slot_ok transfer_fslots)

lemma fio_write_ok: "pfsFioWrite E f addr buf sz st = Some (r, t) \<Longrightarrow> drv_ok st \<Longrightarrow> drv_ok t"
  by (auto simp: pfsFioWrite_def Let_def split: Option.bind_splits if_splits dest!: check_slot_ok transfer_fslots flush_if_fslots)

lemma seek_fslots: "seek E k offset whence mode st = Some (r, t) \<Longrightarrow> fslots_ok st \<Longrightarrow> fslots_ok t"
  by (auto simp: seek_def Let_def split: Option.bind_splits if_splits option.splits intro!: fslots_upd)

lemma fio_lseek_ok: "pfsFioLseek E f pos whence st = Some (r, t) \<Longrightarrow> drv_ok st \<Longrightarrow> drv_ok t"
  by (auto simp: pfsFioLseek_def split: Option.bind_splits if_splits dest!: check_slot_ok seek_fslots)

lemma fio_lseek64_ok: "pfsFioLseek64 E f pos whence st = Some (r, t) \<Longrightarrow> drv_ok st \<Longrightarrow> drv_ok t"
  by (auto simp: pfsFioLseek64_def split: Option.bind_splits if_splits dest!: check_slot_ok seek_fslots)

lemma fio_dread_ok: "pfsFioDread E junk f de st = Some (r, de', t) \<Longrightarrow> drv_ok st \<Longrightarrow> drv_ok t"
  by (auto simp: pfsFioDread_def Let_def split: Option.bind_splits if_splits option.splits prod.splits dest!: check_slot_ok intro!: fslots_upd)

lemma fio_ioctl2_ok: "pfsFioIoctl2 E nl f cmd st = Some (r, out, t) \<Longrightarrow> drv_ok st \<Longrightarrow> drv_ok t"
  by (cases cmd) (auto simp: pfsFioIoctl2_def Let_def split: Option.bind_splits if_splits dest!: check_slot_ok flush_if_fslots intro!: fslots_upd)

lemma fio_readlink_ok: "pfsFioReadlink E f path n st = Some (r, out, t) \<Longrightarrow> drv_ok st \<Longrightarrow> drv_ok t"
  by (auto simp: pfsFioReadlink_def Let_def split: Option.bind_splits option.splits prod.splits if_splits dest!: unit_ok)

lemma fio_getstat_ok: "pfsFioGetstat E f name st = Some (r, out, t) \<Longrightarrow> drv_ok st \<Longrightarrow> drv_ok t"
  by (auto simp: pfsFioGetstat_def Let_def split: Option.bind_splits option.splits prod.splits dest!: unit_ok)

lemma fio_format_ok: "pfsFioFormat E dv args st = Some (r, t) \<Longrightarrow> drv_ok st \<Longrightarrow> drv_ok t"
  by (auto simp: pfsFioFormat_def Let_def drv_ok_def split: Option.bind_splits prod.splits if_splits dest!: wait_fslots dev_open_fslots)
    (simp_all add: pfsSignal_def)

lemma fio_mount_ok: "pfsFioMount E f dv flag st = Some (r, t) \<Longrightarrow> drv_ok st \<Longrightarrow> drv_ok t"
  by (auto simp: pfsFioMount_def Let_def drv_ok_def split: Option.bind_splits prod.splits if_splits
      dest!: wait_fslots dev_open_fslots mount_device_fslots) (simp_all add: pfsSignal_def)

text \<open>A call of the driver, whatever its arguments and whatever the block device answers.\<close>

inductive pfs_call :: "'w pfs_env \<Rightarrow> 'w pfs_drv \<Rightarrow> 'w pfs_drv \<Rightarrow> bool" for E where
  openf: "pfsFioOpen E f name mode st = Some (r, f', t) \<Longrightarrow> pfs_call E st t"
| closef: "pfsFioClose E f st = Some (r, t) \<Longrightarrow> pfs_call E st t"
| readf: "pfsFioRead E f addr buf sz st = Some (r, b, t) \<Longrightarrow> pfs_call E st t"
| writef: "pfsFioWrite E f addr buf sz st = Some (r, t) \<Longrightarrow> pfs_call E st t"
| lseek: "pfsFioLseek E f pos whence st = Some (r, t) \<Longrightarrow> pfs_call E st t"
| lseek64: "pfsFioLseek64 E f pos whence st = Some (r, t) \<Longrightarrow> pfs_call E st t"
| remove: "pfsFioRemove E f name st = Some (r, t) \<Longrightarrow> pfs_call E st t"
| mkdir: "pfsFioMkdir E f name mode st = Some (r, t) \<Longrightarrow> pfs_call E st t"
| rmdir: "pfsFioRmdir E f name st = Some (r, t) \<Longrightarrow> pfs_call E st t"
| dread: "pfsFioDread E junk f de st = Some (r, de', t) \<Longrightarrow> pfs_call E st t"
| getstat: "pfsFioGetstat E f name st = Some (r, out, t) \<Longrightarrow> pfs_call E st t"
| chstat: "pfsFioChstat E f name stat statmask st = Some (r, t) \<Longrightarrow> pfs_call E st t"
| rename: "pfsFioRename E f old new st = Some (r, t) \<Longrightarrow> pfs_call E st t"
| chdir: "pfsFioChdir E f name st = Some (r, t) \<Longrightarrow> pfs_call E st t"
| sync: "pfsFioSync E f st = Some (r, t) \<Longrightarrow> pfs_call E st t"
| format: "pfsFioFormat E dv args st = Some (r, t) \<Longrightarrow> pfs_call E st t"
| mount: "pfsFioMount E f dv flag st = Some (r, t) \<Longrightarrow> pfs_call E st t"
| umount: "pfsFioUmount E f st = Some (r, t) \<Longrightarrow> pfs_call E st t"
| symlink: "pfsFioSymlink E f old new st = Some (r, t) \<Longrightarrow> pfs_call E st t"
| readlink: "pfsFioReadlink E f path n st = Some (r, out, t) \<Longrightarrow> pfs_call E st t"
| devctl: "pfsFioDevctl E f cmd st = Some (r, t) \<Longrightarrow> pfs_call E st t"
| ioctl2: "pfsFioIoctl2 E nl f req st = Some (r, out, t) \<Longrightarrow> pfs_call E st t"

inductive pfs_reach :: "'w pfs_env \<Rightarrow> 'w pfs_drv \<Rightarrow> bool" for E where
  start: "pfs_start E args st0 = (MODULE_RESIDENT_END, st) \<Longrightarrow> pfs_reach E (snd (pfsFioInit st))"
| call: "pfs_reach E st \<Longrightarrow> pfs_call E st t \<Longrightarrow> pfs_reach E t"

lemma chstat_ok: "pfsFioChstat E f name stat sm st = Some (r, t) \<Longrightarrow> drv_ok st \<Longrightarrow> drv_ok t"
  unfolding pfsFioChstat_def
  by (erule (1) on_unit_ok) (auto split: Option.bind_splits option.splits if_splits dest!: flush_if_fslots)

lemma chdir_ok: "pfsFioChdir E f name st = Some (r, t) \<Longrightarrow> drv_ok st \<Longrightarrow> drv_ok t"
  unfolding pfsFioChdir_def by (erule (1) on_unit_ok) (auto simp: Let_def split: Option.bind_splits option.splits if_splits)

lemma fio_rename_ok: "pfsFioRename E f old new st = Some (r, t) \<Longrightarrow> drv_ok st \<Longrightarrow> drv_ok t"
  unfolding pfsFioRename_def
  by (erule (1) on_unit_ok) (auto simp: Let_def split: Option.bind_splits option.splits if_splits dest!: rename_finish_fslots)

lemma fio_sync_ok: "pfsFioSync E f st = Some (r, t) \<Longrightarrow> drv_ok st \<Longrightarrow> drv_ok t"
proof (unfold pfsFioSync_def, erule (1) on_unit_ok)
  fix m st rv t
  assume s: "do { st \<leftarrow> fio_sync E st; s \<leftarrow> pfsCacheFlushAllDirty (pe_bd E) m (fs st); let st = st\<lparr>fs := s\<rparr>;
     Some (pfsFioCheckForLastError m 0 st, st) } = Some (rv, t)" and ok: "fslots_ok st"
  then obtain u where u: "fio_sync E st = Some u" by (auto split: Option.bind_splits)
  have "fslots_ok u" by (rule foldO_keeps [where P = fslots_ok, OF u [unfolded fio_sync_def] ok]) (rule sync_slot_fslots)
  with s u show "fslots_ok t" by (auto simp: Let_def split: Option.bind_splits)
qed

lemma umount_ok: "pfsFioUmount E f st = Some (r, t) \<Longrightarrow> drv_ok st \<Longrightarrow> drv_ok t"
  unfolding pfsFioUmount_def
  by (erule (1) on_unit_ok) (auto simp: pfsClearMount_def split: Option.bind_splits if_splits)

lemma fio_devctl_ok: "pfsFioDevctl E f cmd st = Some (r, t) \<Longrightarrow> drv_ok st \<Longrightarrow> drv_ok t"
  unfolding pfsFioDevctl_def
  by (erule (1) on_unit_ok)
    (cases cmd; auto simp: devctlFsckStat_def Let_def split: Option.bind_splits option.splits prod.splits dest!: close_all_fslots)

lemma name_calls_ok:
  "pfsFioRemove E f name st = Some (r, t) \<Longrightarrow> drv_ok st \<Longrightarrow> drv_ok t"
  "pfsFioMkdir E f name mode st = Some (r, t) \<Longrightarrow> drv_ok st \<Longrightarrow> drv_ok t"
  "pfsFioRmdir E f name st = Some (r, t) \<Longrightarrow> drv_ok st \<Longrightarrow> drv_ok t"
  "pfsFioSymlink E f old new st = Some (r, t) \<Longrightarrow> drv_ok st \<Longrightarrow> drv_ok t"
  by (auto simp: pfsFioRemove_def pfsFioMkdir_def pfsFioRmdir_def pfsFioSymlink_def split: if_splits option.splits
      elim!: on_unit_ok dest!: remove_fslots open_file_fslots)

lemma pfs_args_fails: "pfs_args as m k n = Inl e \<Longrightarrow> e \<noteq> MODULE_RESIDENT_END"
  by (induction as m k n rule: pfs_args.induct) (auto simp: Let_def split: if_splits list.splits)

lemma call_ok: "pfs_call E st t \<Longrightarrow> drv_ok st \<Longrightarrow> drv_ok t"
  by (induction rule: pfs_call.induct)
    (blast intro: fio_open_ok fio_close_ok fio_read_ok fio_write_ok fio_lseek_ok fio_lseek64_ok fio_dread_ok fio_ioctl2_ok fio_readlink_ok
      fio_getstat_ok fio_format_ok fio_mount_ok chstat_ok chdir_ok fio_rename_ok fio_sync_ok umount_ok fio_devctl_ok name_calls_ok)+

text \<open>
  (C22) Between calls the semaphore of the PFS driver is free, so that no call waits for ever, and a slot that
  was given to a file is never rejected as a bad descriptor: the check every operation starts with
  succeeds on it. This holds for every order of calls and every behaviour of the block device.
\<close>

theorem pfs_reach_ok:
  assumes "pfs_reach E st"
  shows "pfsFioSema st \<and> (\<forall>k. fs_fd (pfsFileSlots st k) \<noteq> None \<longrightarrow>
    pfsFioCheckFileSlot (Some k) st = Some (0, st\<lparr>pfsFioSema := False\<rparr>))"
proof -
  from assms have "drv_ok st"
  proof induction
    case (start args st0 st)
    then show ?case
      by (auto simp: pfs_start_def pfsFioInit_def drv_ok_def fslots_ok_def empty_file_slot_def Let_def
          dest: pfs_args_fails split: sum.splits prod.splits if_splits)
  qed (rule call_ok)
  then show ?thesis by (auto simp: drv_ok_def fslots_ok_def pfsFioCheckFileSlot_def pfsWait_def)
qed

definition ram_env :: "ram_disk pfs_env" where
  "ram_env = \<lparr>pe_bd = ram_device, pe_open = (\<lambda>name mode w. (0, w)), pe_close = (\<lambda>fd w. w)\<rparr>"

definition pfs_loaded :: "ram_disk pfs_drv" where
  "pfs_loaded = \<lparr>fs = blank_state, pfsFileSlots = (\<lambda>_. empty_file_slot), maxMount = 1, maxOpen = 2, pfsFioSema = False\<rparr>"

text \<open>The driver is started with room for three files.\<close>

theorem pfs_reach_ok_witness:
  "\<exists>st. pfs_start ram_env [''-o'', ''3''] pfs_loaded = (MODULE_RESIDENT_END, st) \<and>
     pfsFioSema (snd (pfsFioInit st)) \<and> pfsFileSlots st 0 = empty_file_slot \<and> maxOpen st = 3"
proof -
  have three: "strtol_base10 ''3'' = 3" by code_simp
  obtain st where st: "pfs_start ram_env [''-o'', ''3''] pfs_loaded = (MODULE_RESIDENT_END, st)"
    and m: "pfsFileSlots st 0 = empty_file_slot \<and> maxOpen st = 3"
    by (auto simp: pfs_start_def ram_env_def pfs_loaded_def allocateMountBuffer_def ram_device_def pfsCacheInit_def Let_def
        three)
  with pfs_reach_ok [OF pfs_reach.start [OF st]] show ?thesis by blast
qed

section \<open>Seeking\<close>

lemma sint_small64: "uint (w :: u64) < 2 ^ 63 \<Longrightarrow> sint w = uint w"
  by (simp add: sint_uint, rule signed_take_bit_int_eq_self) (simp_all add: order_trans [OF _ uint_ge_0])

text \<open>
  (C23) A seek accepts exactly the positions from the start of the file to its end: for sizes and offsets
  of 63 bits the tests on wrapped 64-bit numbers are those on the true sum, and the new position is the
  sum.
\<close>

theorem seek_target_exact:
  assumes "uint fsize < 2 ^ 63" "start \<le> fsize" "- (2 ^ 63) \<le> offset" "offset < 2 ^ 63"
  shows "seek_target fsize start offset =
    (if 0 \<le> uint start + offset \<and> uint start + offset \<le> uint fsize then Some (word_of_int (uint start + offset)) else None)"
proof -
  define n where "n = uint start + offset"
  have s: "0 \<le> uint start" "uint start \<le> uint fsize" using assms(2) by (simp_all add: word_le_def)
  have new: "start + word_of_int offset = word_of_int n" by (simp add: n_def)
  have nb: "n < 2 ^ 64" using s assms(1,4) by (simp add: n_def)
  have ss: "sint start = uint start" using s assms(1) by (intro sint_small64) simp
  show ?thesis
  proof (cases "0 \<le> n \<and> n \<le> uint fsize")
    case True
    then have u: "uint (word_of_int n :: u64) = n" using assms(1) by (simp add: uint_word_of_int_eq take_bit_int_eq_self)
    then have "sint (word_of_int n :: u64) = n" using True assms(1) by (subst sint_small64) simp_all
    with True u ss show ?thesis unfolding seek_target_def Let_def new n_def [symmetric] by (auto simp: word_less_def n_def)
  next
    case False
    have "fsize < word_of_int n"
    proof (cases "0 \<le> n")
      case True
      then have "uint (word_of_int n :: u64) = n" using nb by (simp add: uint_word_of_int_eq take_bit_int_eq_self)
      with True False show ?thesis by (simp add: word_less_def)
    next
      case neg: False
      have ge: "- (2 ^ 63) \<le> n" using s assms(3) unfolding n_def by linarith
      have "n mod 2 ^ 64 = (n + 2 ^ 64) mod 2 ^ 64" by simp
      also have "\<dots> = n + 2 ^ 64" using neg ge by (intro mod_pos_pos_trivial) simp_all
      finally have "uint (word_of_int n :: u64) = n + 2 ^ 64" by (simp add: uint_word_of_int)
      moreover have "uint fsize < n + 2 ^ 64" using ge assms(1) by simp
      ultimately show ?thesis by (simp add: word_less_def)
    qed
    with False show ?thesis unfolding seek_target_def Let_def new n_def [symmetric] by auto
  qed
qed

theorem seek_target_exact_witness:
  "seek_target 100 40 (- 40) = Some 0 \<and> seek_target 100 40 (- 41) = None \<and> seek_target 100 40 61 = None"
  using seek_target_exact [of 100 40 "- 40"] seek_target_exact [of 100 40 "- 41"] seek_target_exact [of 100 40 61] by simp

section \<open>Attributes\<close>

text \<open>
  (C38) Attributes of files do not work: the search for an entry stops before the first one, because its
  condition is the wrong way round. So a lookup and a removal never find a key, and adding one reports
  that there is no room, for every contents of the block.
\<close>

theorem attributes_never_found:
  assumes "0 < length key" "length key < 256" "0 < length val" "length val < 256"
  shows "ioctl2AttrLoopUp nl c key s = Some (- ENOENT, []) \<and>
    (\<exists>t. ioctl2AttrDelete nl c key s = Some (- ENOENT, t) \<and> inode t c = inode s c) \<and>
    ioctl2AttrAdd nl c key val s = Some (- ENOSPC, s)"
proof -
  have "getAentry w key n mode = Some (None, w)" for w n mode
    by (simp add: getAentry_def aentry_loop.simps)
  with assms show ?thesis
    by (auto simp: ioctl2AttrLoopUp_def ioctl2AttrDelete_def ioctl2AttrAdd_def inode_def upd_data_def upd_p_def)
qed

theorem attributes_never_found_witness:
  "ioctl2AttrAdd 0 0 ''key'' ''value'' blank_state = Some (- ENOSPC, blank_state)"
  using attributes_never_found [of "''key''" "''value''" 0 0 blank_state] by simp

end
