(* ===== verification/PfsZones.thy ===== *)
theory PfsZones
  imports PfsBitmap PfsDisk
begin

text \<open>
  What the bitmap routines do to the bits of a chunk: marking changes exactly the range it is given, the
  scan finds a run of free zones exactly when there is one, the count of free zones by table is the
  number of zero bits, and the search over the partitions never reports that the disk is full.
\<close>

section \<open>Zones as bits\<close>

text \<open>Whether zone \<open>k\<close> of a chunk is in use.\<close>

definition zbit :: "words \<Rightarrow> nat \<Rightarrow> bool" where
  "zbit bm k = bit (bm (k div 32)) (k mod 32)"

lemma zbit_word: "j < 32 \<Longrightarrow> zbit bm (32 * i + j) = bit (bm i) j"
  by (simp add: zbit_def)

lemma zbit_upd: "j < 32 \<Longrightarrow> zbit (bm(i := w)) (32 * i + j) = bit w j"
  by (simp add: zbit_def)

lemma zbit_upd_other: "k < 32 * i \<or> 32 * i + 32 \<le> k \<Longrightarrow> zbit (bm(i := w)) k = zbit bm k"
  by (auto simp: zbit_def)

lemma mark_bits_spec:
  "b \<le> 32 \<Longrightarrow> fst (mark_bits operation b count w) = count - (32 - b) \<and>
    (\<forall>j<32. bit (snd (mark_bits operation b count w)) j =
       (if b \<le> j \<and> j < b + count then operation = PFS_BITMAP_ALLOC else bit w j))"
proof (induction count arbitrary: b w)
  case 0
  then show ?case by (auto simp: mark_bits_stop)
next
  case (Suc n)
  show ?case
  proof (cases "b < 32")
    case True
    define w1 where "w1 = (if operation = 0 then w OR push_bit b 1 else w AND NOT (push_bit b 1))"
    have st: "mark_bits operation b (Suc n) w = mark_bits operation (Suc b) n w1"
      using True by (simp add: mark_bits_step w1_def)
    have bits: "bit w1 j = (if j = b then operation = 0 else bit w j)" if "j < 32" for j
      using that True by (auto simp: bit_simps w1_def)
    have ih: "fst (mark_bits operation (Suc b) n w1) = n - (32 - Suc b)"
      "\<And>j. j < 32 \<Longrightarrow> bit (snd (mark_bits operation (Suc b) n w1)) j =
        (if Suc b \<le> j \<and> j < Suc b + n then operation = 0 else bit w1 j)"
      using Suc.IH [of "Suc b" w1] True by simp_all
    show ?thesis unfolding st using ih(1) True ih(2) bits by auto
  next
    case False
    with Suc.prems show ?thesis by (simp add: mark_bits_stop)
  qed
qed

lemma mark_bits_count: "b \<le> 32 \<Longrightarrow> fst (mark_bits operation b count w) = count - (32 - b)"
  using mark_bits_spec [of b operation count w] by blast

lemma mark_bits_bit: "b \<le> 32 \<Longrightarrow> j < 32 \<Longrightarrow> bit (snd (mark_bits operation b count w)) j =
    (if b \<le> j \<and> j < b + count then operation = PFS_BITMAP_ALLOC else bit w j)"
  using mark_bits_spec [of b operation count w] by blast

lemma mark_words_count:
  "index \<le> 256 \<Longrightarrow> b < 32 \<Longrightarrow> fst (mark_words operation index b count bm) = count - (8192 - (32 * index + b))"
proof (induction "256 - index" arbitrary: index b count bm)
  case 0
  then show ?case by (simp add: mark_words_stop)
next
  case (Suc n)
  have idx: "index < 256" "n = 256 - (index + 1)" using Suc.hyps(2) by auto
  show ?case
  proof (cases "count = 0")
    case True
    then show ?thesis by (simp add: mark_words_stop)
  next
    case False
    let ?m = "mark_bits operation b count (bm index)"
    have "fst (mark_words operation (index + 1) 0 (fst ?m) (bm(index := snd ?m))) = fst ?m - (8192 - 32 * (index + 1))"
      using Suc.hyps(1) [OF idx(2)] idx(1) by simp
    then show ?thesis using mark_words_step [OF idx(1), of count operation b bm] False Suc.prems(2) idx(1)
      by (simp add: mark_bits_count)
  qed
qed

lemma zone_cases:
  obtains "k < 32 * i" | j where "j < 32" "k = 32 * i + j" | "32 * (i + 1) \<le> (k :: nat)"
proof -
  have "k < 32 * i \<or> (\<exists>j<32. k = 32 * i + j) \<or> 32 * (i + 1) \<le> k"
    by (cases "k < 32 * i"; cases "32 * (i + 1) \<le> k") (auto intro: exI [of _ "k - 32 * i"])
  then show thesis using that by blast
qed

lemma mark_words_zbit:
  "index \<le> 256 \<Longrightarrow> b < 32 \<Longrightarrow> k < 8192 \<Longrightarrow> zbit (snd (snd (mark_words operation index b count bm))) k =
    (if 32 * index + b \<le> k \<and> k < 32 * index + b + count then operation = PFS_BITMAP_ALLOC else zbit bm k)"
proof (induction "256 - index" arbitrary: index b count bm)
  case 0
  then show ?case by (simp add: mark_words_stop)
next
  case (Suc n)
  have idx: "index < 256" "n = 256 - (index + 1)" using Suc.hyps(2) by auto
  show ?case
  proof (cases "count = 0")
    case True
    then show ?thesis by (auto simp: mark_words_stop)
  next
    case False
    let ?m = "mark_bits operation b count (bm index)"
    have ih: "zbit (snd (snd (mark_words operation index b count bm))) k =
        (if 32 * (index + 1) \<le> k \<and> k < 32 * (index + 1) + (count - (32 - b)) then operation = 0
         else zbit (bm(index := snd ?m)) k)"
      using Suc.hyps(1) [OF idx(2), of 0 "fst ?m" "bm(index := snd ?m)"] idx(1) Suc.prems False
        mark_words_step [OF idx(1), of count operation b bm] by (simp add: mark_bits_count)
    show ?thesis
    proof (cases rule: zone_cases [of k index])
      case 1
      then show ?thesis using ih zbit_upd_other [of k index bm] by simp
    next
      case (2 j)
      then show ?thesis using ih zbit_upd [of j bm index] zbit_word [of j bm index] Suc.prems(2)
        by (auto simp: mark_bits_bit)
    next
      case 3
      then show ?thesis using ih zbit_upd_other [of k index bm] Suc.prems(2) by auto
    qed
  qed
qed

text \<open>Two chunks with the same bits are the same.\<close>

lemma chunk_eqI:
  assumes "\<And>k. k < 8192 \<Longrightarrow> zbit bm k = zbit bm' k" "i < 256"
  shows "bm i = bm' i"
proof (rule bit_word_eqI)
  fix j assume "j < LENGTH(32)"
  then have "j < 32" by simp
  with assms(1) [of "32 * i + j"] assms(2) show "bit (bm i) j = bit (bm' i) j" by (simp add: zbit_word)
qed

section \<open>The scan for a free run\<close>

lemma scan_free:
  "index < limit \<Longrightarrow> b < 32 \<Longrightarrow> \<not> bit (bm index) b \<Longrightarrow>
    scan_words amount bm chunk limit index b (count, start) =
    (if count + 1 = amount then (True, b, count + 1, if count = 0 then (chunk, index, b) else start)
     else scan_words amount bm chunk limit index (b + 1) (count + 1, if count = 0 then (chunk, index, b) else start))"
  by (subst scan_words.simps) (simp add: Let_def)

lemma scan_used:
  "index < limit \<Longrightarrow> b < 32 \<Longrightarrow> bit (bm index) b \<Longrightarrow>
    scan_words amount bm chunk limit index b (count, start) = scan_words amount bm chunk limit index (b + 1) (0, start)"
  by (subst scan_words.simps) simp

lemma scan_next: "index < limit \<Longrightarrow> \<not> b < 32 \<Longrightarrow>
    scan_words amount bm chunk limit index b run = scan_words amount bm chunk limit (index + 1) 0 run"
  by (subst scan_words.simps) simp

lemma scan_end: "\<not> index < limit \<Longrightarrow> scan_words amount bm chunk limit index b run = (False, b, run)"
  by (subst scan_words.simps) simp

text \<open>
  At position \<open>pos\<close> of a scan from \<open>z0\<close>: the run is the longest of free zones that ends here, and no run
  of the wanted length lies behind.
\<close>

definition free_from :: "words \<Rightarrow> nat \<Rightarrow> nat \<Rightarrow> bool" where
  "free_from bm z n \<longleftrightarrow> (\<forall>k. z \<le> k \<and> k < z + n \<longrightarrow> \<not> zbit bm k)"

definition scan_inv :: "nat \<Rightarrow> words \<Rightarrow> nat \<Rightarrow> nat \<Rightarrow> nat \<Rightarrow> run \<Rightarrow> bool" where
  "scan_inv amount bm chunk z0 pos run \<longleftrightarrow> (case run of (count, sc, si, sb) \<Rightarrow>
     z0 + count \<le> pos \<and> count < amount \<and> (0 < count \<longrightarrow> sc = chunk \<and> sb < 32 \<and> 32 * si + sb + count = pos) \<and>
     free_from bm (pos - count) count \<and> (z0 + count = pos \<or> zbit bm (pos - count - 1)) \<and>
     (\<forall>z. z0 \<le> z \<and> z + amount \<le> pos \<longrightarrow> \<not> free_from bm z amount))"

lemma free_from_0 [simp]: "free_from bm z 0"
  by (auto simp: free_from_def)

lemma free_from_Suc: "free_from bm z (Suc n) \<longleftrightarrow> free_from bm z n \<and> \<not> zbit bm (z + n)"
  by (auto simp: free_from_def less_Suc_eq)

lemma scan_inv_used:
  assumes "scan_inv amount bm chunk z0 pos (count, start)" "zbit bm pos" "0 < amount"
  shows "scan_inv amount bm chunk z0 (Suc pos) (0, start)"
proof -
  have "\<not> free_from bm z amount" if "z0 \<le> z" "z + amount \<le> Suc pos" for z
  proof (cases "z + amount \<le> pos")
    case True
    then show ?thesis using assms(1) that by (auto simp: scan_inv_def split: prod.splits)
  next
    case False
    then have "z \<le> pos" "pos < z + amount" using that assms(3) by auto
    then show ?thesis using assms(2) by (auto simp: free_from_def)
  qed
  then show ?thesis using assms by (auto simp: scan_inv_def split: prod.splits)
qed

lemma scan_inv_free:
  assumes "scan_inv amount bm chunk z0 pos (count, start)" "\<not> zbit bm pos" "count + 1 \<noteq> amount"
    "pos = 32 * index + b" "b < 32"
  shows "scan_inv amount bm chunk z0 (Suc pos) (Suc count, if count = 0 then (chunk, index, b) else start)"
proof -
  obtain sc si sb where st: "start = (sc, si, sb)" by (cases start)
  note inv = assms(1) [unfolded scan_inv_def st prod.case]
  have le: "count \<le> pos" using inv by simp
  have ff: "free_from bm (pos - count) (Suc count)" using inv assms(2) le by (simp add: free_from_Suc)
  have "\<not> free_from bm z amount" if z: "z0 \<le> z" "z + amount \<le> Suc pos" for z
  proof (cases "z + amount \<le> pos")
    case True
    then show ?thesis using inv z by blast
  next
    case False
    then have e: "z + amount = Suc pos" using z by simp
    have lt: "z < pos - count" using e inv assms(3) by auto
    with z(1) have "zbit bm (pos - count - 1)" using inv by auto
    moreover have "z \<le> pos - count - 1" "pos - count - 1 < z + amount" using lt e by auto
    ultimately show ?thesis by (auto simp: free_from_def)
  qed
  then show ?thesis using inv ff assms(3-5) by (auto simp: scan_inv_def st)
qed

lemma scan_found:
  assumes "scan_inv amount bm chunk z0 pos (count, start)" "\<not> zbit bm pos" "count + 1 = amount"
    "pos = 32 * index + b" "b < 32"
  shows "\<exists>si sb. (if count = 0 then (chunk, index, b) else start) = (chunk, si, sb) \<and> sb < 32 \<and>
    z0 \<le> 32 * si + sb \<and> 32 * si + sb + amount = Suc pos \<and> free_from bm (32 * si + sb) amount"
proof -
  obtain sc si sb where st: "start = (sc, si, sb)" by (cases start)
  note inv = assms(1) [unfolded scan_inv_def st prod.case]
  have ff: "free_from bm (pos - count) amount" using inv assms(2) assms(3) [symmetric] by (simp add: free_from_Suc)
  show ?thesis
  proof (cases "count = 0")
    case True
    then show ?thesis using inv ff assms(3-5) by auto
  next
    case False
    then have "pos - count = 32 * si + sb" "sc = chunk" "sb < 32" using inv by auto
    then show ?thesis using inv ff False assms(3) st by auto
  qed
qed

lemma scan_words_correct:
  assumes "scan_inv amount bm chunk z0 (32 * index + b) run" "index \<le> limit" "b \<le> 32" "index = limit \<longrightarrow> b = 0"
    "0 < amount" "scan_words amount bm chunk limit index b run = (found, b', run')"
  shows "if found then \<exists>si sb. run' = (amount, chunk, si, sb) \<and> sb < 32 \<and> z0 \<le> 32 * si + sb \<and>
      32 * si + sb + amount \<le> 32 * limit \<and> free_from bm (32 * si + sb) amount
    else scan_inv amount bm chunk z0 (32 * limit) run'"
  using assms
proof (induction "33 * (limit - index) + (33 - b)" arbitrary: index b run rule: less_induct)
  case less
  obtain count start where run: "run = (count, start)" by (cases run)
  consider "index = limit" | "index < limit" "b = 32" | "index < limit" "b < 32" using less.prems(2,3) by fastforce
  then show ?case
  proof cases
    case 1
    then show ?thesis using less.prems by (simp add: scan_end)
  next
    case 2
    then have m: "33 * (limit - (index + 1)) + (33 - 0) < 33 * (limit - index) + (33 - b)" by simp
    show ?thesis using less.hyps [OF m, of run] less.prems 2 by (simp add: scan_next add.commute)
  next
    case 3
    then have m: "33 * (limit - index) + (33 - (b + 1)) < 33 * (limit - index) + (33 - b)" by simp
    have pos: "32 * index + b < 32 * limit" using 3 by linarith
    show ?thesis
    proof (cases "bit (bm index) b")
      case True
      then have z: "zbit bm (32 * index + b)" using 3 by (simp add: zbit_word)
      show ?thesis using less.hyps [OF m, of "(0, start)"] less.prems 3 scan_inv_used [OF _ z] True run
        by (simp add: scan_used)
    next
      case False
      then have z: "\<not> zbit bm (32 * index + b)" using 3 by (simp add: zbit_word)
      show ?thesis
      proof (cases "count + 1 = amount")
        case True
        then have "run' = (amount, if count = 0 then (chunk, index, b) else start)" "found"
          using less.prems(6) 3 False run by (simp_all add: scan_free)
        then show ?thesis using scan_found [OF less.prems(1) [unfolded run] z True refl 3(2)] pos by auto
      next
        case f: False
        show ?thesis using less.hyps [OF m, of "(count + 1, if count = 0 then (chunk, index, b) else start)"] less.prems 3 False f
            scan_inv_free [OF less.prems(1) [unfolded run] z f refl 3(2)] run
          by (simp add: scan_free)
      qed
    qed
  qed
qed

lemma scan_inv_start: "0 < amount \<Longrightarrow> scan_inv amount bm chunk z z (0, start)"
  by (auto simp: scan_inv_def split: prod.splits)

text \<open>
  (C26) The search for zones inside a chunk of the bitmap, and the marking of what it finds. If the scan
  succeeds, its run has the wanted length, lies behind the start and before the limit, and all its zones
  are free; marking any first part of it changes exactly these zones, from free to used, and nothing is
  left to mark. If the scan fails, no run of this length is free in what was scanned.
\<close>

theorem scan_and_mark_correct:
  assumes "b < 32" "index < limit" "limit \<le> 256" "0 < amount"
    "scan_words amount bm chunk limit index b (0, start) = (found, b', n, sc, si, sb)"
  shows "if found
    then n = amount \<and> sc = chunk \<and> sb < 32 \<and> 32 * index + b \<le> 32 * si + sb \<and> 32 * si + sb + amount \<le> 32 * limit \<and>
      (\<forall>m bm' left b''. m \<le> amount \<longrightarrow> mark_words PFS_BITMAP_ALLOC si sb m bm = (left, b'', bm') \<longrightarrow>
         left = 0 \<and> (\<forall>k < 8192. zbit bm' k = (zbit bm k \<or> 32 * si + sb \<le> k \<and> k < 32 * si + sb + m)) \<and>
         free_from bm (32 * si + sb) m)
    else \<forall>z. 32 * index + b \<le> z \<longrightarrow> z + amount \<le> 32 * limit \<longrightarrow> \<not> free_from bm z amount"
proof (cases found)
  case True
  note c = scan_words_correct [OF scan_inv_start [OF assms(4)] _ _ _ assms(4,5)]
  have c': "n = amount" "sc = chunk" "sb < 32" "32 * index + b \<le> 32 * si + sb" "32 * si + sb + amount \<le> 32 * limit"
      "free_from bm (32 * si + sb) amount"
    using c True assms(1,2) by auto
  have "left = 0 \<and> (\<forall>k < 8192. zbit bm' k = (zbit bm k \<or> 32 * si + sb \<le> k \<and> k < 32 * si + sb + m)) \<and>
      free_from bm (32 * si + sb) m"
    if m: "m \<le> amount" and mark: "mark_words PFS_BITMAP_ALLOC si sb m bm = (left, b'', bm')" for m bm' left b''
  proof -
    have si: "si \<le> 256" "32 * si + sb + m \<le> 8192" using c'(5) m assms(3) by auto
    have "free_from bm (32 * si + sb) m" using c'(6) m by (auto simp: free_from_def)
    moreover have "left = 0" using mark_words_count [OF si(1) c'(3), of PFS_BITMAP_ALLOC m bm] mark si(2) by simp
    moreover have "zbit bm' k = (zbit bm k \<or> 32 * si + sb \<le> k \<and> k < 32 * si + sb + m)" if "k < 8192" for k
      using mark_words_zbit [OF si(1) c'(3) that, of PFS_BITMAP_ALLOC m bm] mark by auto
    ultimately show ?thesis by blast
  qed
  then show ?thesis using True c'(1-5) by auto
next
  case False
  have "scan_inv amount bm chunk (32 * index + b) (32 * limit) (n, sc, si, sb)"
    using scan_words_correct [OF scan_inv_start [OF assms(4)] _ _ _ assms(4,5)] assms(1,2) False by auto
  then show ?thesis using False by (simp add: scan_inv_def)
qed

definition bits_example :: words where
  "bits_example = (\<lambda>_. 0xFFFFFFFF)(0 := 0x3FFFFFFF, 1 := 0xFFFFFFFE)"

lemma bits_example_free: "free_from bits_example 30 3"
proof -
  have "free_from bits_example 30 (Suc (Suc (Suc 0)))"
    by (simp only: free_from_Suc free_from_0) (simp add: zbit_def bits_example_def bit_numeral_rec)
  then show ?thesis by (simp add: numeral_3_eq_3)
qed

lemma bits_example_scan: "scan_words 3 bits_example 5 2 0 28 (0, 0, 0, 0) = (True, 0, 3, 5, 0, 30)"
  by code_simp

lemma scan_and_mark_correct_witness:
  "case mark_words PFS_BITMAP_ALLOC 0 30 3 bits_example of (left, b, bm') \<Rightarrow>
     left = 0 \<and> (zbit bm' 31 = (zbit bits_example 31 \<or> 30 \<le> (31 :: nat) \<and> (31 :: nat) < 33)) \<and> free_from bits_example 30 3"
  using scan_and_mark_correct [OF _ _ _ _ bits_example_scan] by (auto split: prod.splits)

text \<open>
  Releasing the zones of a range that was free before it was allocated gives the bitmap back, word
  for word; together with the allocation it is a round trip.
\<close>

theorem free_undoes_alloc:
  assumes "index < 256" "b < 32" "free_from bm (32 * index + b) count" "i < 256"
  shows "snd (snd (mark_words PFS_BITMAP_FREE index b count
      (snd (snd (mark_words PFS_BITMAP_ALLOC index b count bm))))) i = bm i"
  by (rule chunk_eqI [OF _ assms(4)]) (use assms(1-3) in \<open>auto simp: mark_words_zbit free_from_def\<close>)

lemma free_undoes_alloc_witness:
  "snd (snd (mark_words PFS_BITMAP_FREE 0 30 3 (snd (snd (mark_words PFS_BITMAP_ALLOC 0 30 3 bits_example))))) 1 =
     bits_example 1"
  using free_undoes_alloc [of 0 30 bits_example 3 1] bits_example_free by simp

section \<open>Counting free zones\<close>

lemma byte_at_zbit: "j < 8 \<Longrightarrow> bit (byte_at bm i) j = zbit bm (8 * i + j)"
proof -
  assume j: "j < 8"
  have "8 * i + j = 32 * (i div 4) + (8 * (i mod 4) + j)" 
    using mult_div_mod_eq [of 4 i] by linarith
  moreover have "8 * (i mod 4) + j < 32" using j mod_less_divisor [of 4 i] by linarith
  ultimately have "(8 * i + j) div 32 = i div 4" "(8 * i + j) mod 32 = 8 * (i mod 4) + j"
    by (simp_all only: div_mult_self4 mod_mult_self4 div_less mod_less)
  then show ?thesis using j by (simp add: byte_at_def zbit_def bit_simps)
qed

text \<open>The table against the bits of its index, for each of its sixteen entries.\<close>

definition zero_bits :: "u8 \<Rightarrow> nat" where
  "zero_bits v = length (filter (\<lambda>j. \<not> bit v j) [0..<8])"

lemma octet: "[0..<8] = [0, 1, 2, 3, 4, 5, 6, 7 :: nat]"
  by (simp add: upt_rec)

lemma nibble_table:
  assumes "n < 16"
  shows "pfsFreeZoneBitmap ! n = of_nat (length (filter (\<lambda>j. \<not> bit n j) [0, 1, 2, 3]))"
proof -
  have "[0..<16] = [0, 1, 2, 3, 4, 5, 6, 7, 8, 9, 10, 11, 12, 13, 14, 15 :: nat]" by (simp add: upt_rec)
  moreover have "n \<in> set [0..<16]" using assms by simp
  ultimately have "n \<in> set [0, 1, 2, 3, 4, 5, 6, 7, 8, 9, 10, 11, 12, 13, 14, 15]" by (simp only:)
  then show ?thesis by (simp only: list.set, elim insertE emptyE) (simp_all add: pfsFreeZoneBitmap_def bit_iff_odd)
qed

lemma free_in_byte_bits: "free_in_byte v = of_nat (zero_bits v)"
proof -
  have "v AND 15 \<le> 15" by (rule word_and_le1)
  then have lo: "unat (v AND 15) < 16" by (simp add: word_le_nat_alt)
  have m: "(15 :: u8) = mask 4" by (simp add: mask_eq_exp_minus_1)
  have hi: "unat (drop_bit 4 v) < 16" using unat_u8_less [of v] by (simp add: drop_bit_eq_div unat_div)
  have blo: "bit (unat (v AND 15)) j = bit v j" if "j < 4" for j
    using that unfolding m by (simp add: bit_unsigned_iff bit_simps)
  have bhi: "bit (unat (drop_bit 4 v)) j = bit v (4 + j)" if "j < 4" for j
    using that by (simp add: bit_unsigned_iff bit_simps)
  show ?thesis
    unfolding free_in_byte_def nibble_table [OF lo] nibble_table [OF hi] zero_bits_def
    by (simp add: blo bhi octet)
qed

lemma free_in_bytes_0 [simp]: "free_in_bytes bm 0 z = z"
  by (simp add: free_in_bytes_def)

lemma free_in_bytes_Suc: "free_in_bytes bm (Suc n) z = free_in_bytes bm n z + free_in_byte (byte_at bm n)"
  by (simp add: free_in_bytes_def)

lemma zero_bits_zone: "zero_bits (byte_at bm n) = length (filter (\<lambda>k. \<not> zbit bm k) [8 * n..<8 * n + 8])"
proof -
  have "[8 * n..<8 * n + 8] = map (\<lambda>j. j + 8 * n) [0..<8]"
    unfolding map_add_upt by (simp add: add.commute)
  then have "filter (\<lambda>k. \<not> zbit bm k) [8 * n..<8 * n + 8] = map (\<lambda>j. j + 8 * n) (filter (\<lambda>j. \<not> zbit bm (j + 8 * n)) [0..<8])"
    by (simp only: filter_map comp_def)
  also have "filter (\<lambda>j. \<not> zbit bm (j + 8 * n)) [0..<8] = filter (\<lambda>j. \<not> bit (byte_at bm n) j) [0..<8]"
    by (rule filter_cong [OF refl]) (simp add: byte_at_zbit add.commute)
  finally show ?thesis by (simp add: zero_bits_def)
qed

text \<open>
  (C32) The count of free zones that a mount reports goes through the bitmap a byte at a time with a
  table of sixteen numbers. It is the number of zones whose bit is clear, modulo the width of the
  counter, for any number of bytes and any count so far.
\<close>

theorem free_in_bytes_counts_zones:
  "free_in_bytes bm bitmapSize zoneFree =
     zoneFree + of_nat (length (filter (\<lambda>k. \<not> zbit bm k) [0..<8 * bitmapSize]))"
proof (induction bitmapSize)
  case 0
  then show ?case by simp
next
  case (Suc n)
  have "[0..<8 * Suc n] = [0..<8 * n] @ [8 * n..<8 * n + 8]"
    using upt_add_eq_append [of 0 "8 * n" 8] by (simp add: add.commute)
  then show ?case using Suc by (simp add: free_in_bytes_Suc free_in_byte_bits zero_bits_zone)
qed

section \<open>The search over the partitions\<close>

lemma search_parts_returns_0:
  assumes "search_parts B m num count bi s = Some (r, bi', s')"
  shows "r = 0"
proof -
  have "fst (r, bi', s') = 0"
    by (rule search_parts.raw_induct [where P = "\<lambda>B m num count bi s y. fst y = 0", OF _ assms])
      (auto simp: bind_eq_Some_conv split: if_splits)
  then show ?thesis by simp
qed

text \<open>The free counters of all partitions are zero.\<close>

definition no_free_zone :: "pfs_mount_t \<Rightarrow> bool" where
  "no_free_zone mt \<longleftrightarrow> m_num_subs mt \<le> 64 \<and> (\<forall>i \<le> unat (m_num_subs mt). m_free_zone mt i = 0)"

lemma try_sizes_full:
  assumes "m \<noteq> 0" "no_free_zone (pfsMounts s m)" "ucast (bi_subpart bi) \<le> m_num_subs (pfsMounts s m)"
  shows "try_sizes B m bi n s = Some (False, bi, s)"
proof (induction n rule: less_induct)
  case (less n)
  have le: "unat (bi_subpart bi) \<le> unat (m_num_subs (pfsMounts s m))"
    using assms(3) by (simp add: word_le_nat_alt)
  moreover have "unat (m_num_subs (pfsMounts s m)) \<le> 64"
    using assms(2) by (simp add: no_free_zone_def word_le_nat_alt)
  moreover have "m_free_zone (pfsMounts s m) (unat (bi_subpart bi)) = 0" using le assms(2) by (simp add: no_free_zone_def)
  moreover have "0 < n \<Longrightarrow> try_sizes B m bi (n div 2) s = Some (False, bi, s)" by (rule less) simp
  ultimately show ?case using assms(1) by (subst try_sizes.simps) (simp add: mnt_def)
qed

lemma next_part_le:
  fixes n :: u32
  assumes "ucast (bi_subpart bi) \<le> n" "n \<le> 64"
  shows "ucast (bi_subpart (next_part_of n bi)) \<le> n"
proof -
  have le: "unat (bi_subpart bi) \<le> unat n" "unat n \<le> 64"
    using assms by (simp_all add: word_le_nat_alt)
  have u: "unat (bi_subpart bi + 1) = unat (bi_subpart bi) + 1" "unat (n + 1) = unat n + 1"
    using le by (simp_all add: unat_word_ariths)
  show ?thesis
  proof (cases "unat (bi_subpart bi) = unat n")
    case True
    then have "ucast (bi_subpart bi + 1) = n + 1" by (simp add: word_unat_eq_iff u)
    then show ?thesis by (simp add: next_part_of_def)
  next
    case False
    then have "ucast (bi_subpart bi + 1) \<noteq> n + 1" by (simp add: word_unat_eq_iff u)
    then have "bi_subpart (next_part_of n bi) = bi_subpart bi + 1" by (simp add: next_part_of_def)
    moreover have "unat (bi_subpart bi) + 1 \<le> unat n" using False le by simp
    ultimately show ?thesis by (simp only: word_le_nat_alt unat_ucast16 u)
  qed
qed

lemma search_parts_full:
  assumes "m \<noteq> 0" "no_free_zone (pfsMounts s m)" "ucast (bi_subpart bi) \<le> m_num_subs (pfsMounts s m)"
  shows "search_parts B m num count bi s = None"
proof (rule ccontr)
  assume "search_parts B m num count bi s \<noteq> None"
  then obtain y where ret: "search_parts B m num count bi s = Some y" by blast
  have "\<not> (m \<noteq> 0 \<and> no_free_zone (pfsMounts s m) \<and> ucast (bi_subpart bi) \<le> m_num_subs (pfsMounts s m))"
  proof (rule search_parts.raw_induct [where P = "\<lambda>B m num count bi s y. \<not> (m \<noteq> 0 \<and> no_free_zone (pfsMounts s m) \<and>
      ucast (bi_subpart bi) \<le> m_num_subs (pfsMounts s m))", OF _ ret], intro notI, elim conjE)
    fix f :: "'a pfs_block_device_t \<Rightarrow> nat \<Rightarrow> u32 \<Rightarrow> nat \<Rightarrow> pfs_blockinfo_t \<Rightarrow> 'a pfs_state \<Rightarrow>
        (int \<times> pfs_blockinfo_t \<times> 'a pfs_state) option"
      and B m num count bi s y
    assume ih: "\<And>B m num count bi s y. f B m num count bi s = Some y \<Longrightarrow>
          \<not> (m \<noteq> 0 \<and> no_free_zone (pfsMounts s m) \<and> ucast (bi_subpart bi) \<le> m_num_subs (pfsMounts s m))"
      and step: "(if \<not> 0 \<le> num then Some (- ENOSPC, bi, s)
          else do {
            (ok, bi, s) \<leftarrow> try_sizes B m bi count s;
            if ok then Some (0, bi, s)
            else do { mt \<leftarrow> mnt m s; f B m (num - 1) count (next_part_of (m_num_subs mt) bi) s } }) = Some y"
      and full: "m \<noteq> 0" "no_free_zone (pfsMounts s m)" "ucast (bi_subpart bi) \<le> m_num_subs (pfsMounts s m)"
    have "f B m (num - 1) count (next_part_of (m_num_subs (pfsMounts s m)) bi) s = Some y"
      using step full(1) try_sizes_full [OF full] by (simp add: mnt_def)
    note again = ih [OF this]
    have "m_num_subs (pfsMounts s m) \<le> 64" using full(2) by (simp add: no_free_zone_def)
    with full(3) have "ucast (bi_subpart (next_part_of (m_num_subs (pfsMounts s m)) bi)) \<le> m_num_subs (pfsMounts s m)"
      by (rule next_part_le)
    with again full(1,2) show False by blast
  qed
  then show False using assms by blast
qed

text \<open>
  (C35) A full disk is never reported. The loop over the partitions counts an unsigned number down and
  waits for it to be negative, so the search of free zones has success as its only result, and when
  the free counter of every partition is zero it does not return at all, whatever was asked for.
\<close>

theorem search_never_reports_full:
  "(pfsBitmapSearchFreeZone B m bi max_count s = Some (r, bi', s') \<longrightarrow> r = 0) \<and>
   (m \<noteq> 0 \<longrightarrow> no_free_zone (pfsMounts s m) \<longrightarrow> pfsBitmapSearchFreeZone B m bi max_count s = None)"
proof (intro conjI impI)
  assume "pfsBitmapSearchFreeZone B m bi max_count s = Some (r, bi', s')"
  then show "r = 0"
    unfolding pfsBitmapSearchFreeZone_def Let_def by (elim bind_SomeE) (rule search_parts_returns_0)
next
  assume full: "m \<noteq> 0" "no_free_zone (pfsMounts s m)"
  let ?n = "m_num_subs (pfsMounts s m)" and
    ?bi = "if ucast (bi_subpart bi) \<ge> m_num_subs (pfsMounts s m) + 1 then bi\<lparr>bi_subpart := 0\<rparr> else bi"
  have "unat ?n \<le> 64" using full(2) by (simp add: no_free_zone_def word_le_nat_alt)
  then have "unat (?n + 1) = unat ?n + 1" by (simp add: unat_word_ariths)
  then have "ucast (bi_subpart ?bi) \<le> ?n"
    by (simp add: word_le_nat_alt)
  from search_parts_full [OF full this] show "pfsBitmapSearchFreeZone B m bi max_count s = None"
    using full(1) by (simp add: pfsBitmapSearchFreeZone_def Let_def mnt_def)
qed

lemma search_never_reports_full_witness:
  "pfsBitmapSearchFreeZone ram_device 1 \<lparr>bi_number = 0, bi_subpart = 0, bi_count = 1\<rparr> 1 blank_state = None"
  using search_never_reports_full [of ram_device 1 "\<lparr>bi_number = 0, bi_subpart = 0, bi_count = 1\<rparr>" 1 blank_state]
  by (simp add: no_free_zone_def blank_state_def blank_mount_def)

end
