(* ===== verification/PfsLayout.thy ===== *)
theory PfsLayout
  imports PfsSuper PfsZones
begin

text \<open>
  The layout of a PFS file system as iop/hdd/libpfs/src/super.c and superWrite.c compute it: which zone
  sizes are accepted and which shifts belong to them, how large the bitmaps are, and where formatting
  puts the log and the root directory and which zones it marks as used.
\<close>

section \<open>Zone sizes\<close>

lemma power_of_two_nat: "0 < n \<Longrightarrow> n AND (n - 1) = 0 \<Longrightarrow> \<exists>k. n = 2 ^ k" for n :: nat
proof (induction n rule: less_induct)
  case (less n)
  have r: "n AND (n - 1) = of_bool (odd n \<and> odd (n - 1)) + 2 * ((n div 2) AND ((n - 1) div 2))"
    by (rule and_rec)
  show ?case
  proof (cases "even n")
    case True
    then obtain m where m: "n = 2 * m" by blast
    with less.prems(1) have "0 < m" "m < n" "(n - 1) div 2 = m - 1" by auto
    moreover have "m AND (m - 1) = 0" using r less.prems(2) m calculation(3) by simp
    ultimately obtain k where "m = 2 ^ k" using less.IH by blast
    then show ?thesis using m by (intro exI [of _ "Suc k"]) simp
  next
    case False
    then obtain m where m: "n = 2 * m + 1" by (elim oddE)
    then have "m = 0" using r less.prems(2) by simp
    then show ?thesis using m by (intro exI [of _ 0]) simp
  qed
qed

lemma power_of_two_word:
  fixes z :: u32
  assumes "z \<noteq> 0" "z AND (z - 1) = 0"
  shows "\<exists>k. unat z = 2 ^ k"
proof (rule power_of_two_nat)
  show "0 < unat z" using assms(1) by (simp add: unat_gt_0)
  have "unat (z - 1) = unat z - 1" using assms(1) by (simp add: unat_minus_one)
  then show "unat z AND (unat z - 1) = 0"
    using arg_cong [OF assms(2), of unat] by (simp add: unsigned_and_eq)
qed

lemma zone_size_iff: "pfsCheckZoneSize z \<longleftrightarrow> (\<exists>k \<in> {11, 12, 13, 14, 15, 16, 17}. z = 2 ^ k)"
proof
  assume c: "pfsCheckZoneSize z"
  then have b: "2048 \<le> unat z" "unat z \<le> 131072"
    by (auto simp: pfsCheckZoneSize_def word_le_nat_alt not_less not_le)
  then have "z \<noteq> 0" by auto
  then obtain k where k: "unat z = 2 ^ k"
    using power_of_two_word c by (auto simp: pfsCheckZoneSize_def)
  have "(2 :: nat) ^ 11 \<le> 2 ^ k" "(2 :: nat) ^ k \<le> 2 ^ 17" using b k by simp_all
  note power_le_imp_le_exp [OF _ this(1)] power_le_imp_le_exp [OF _ this(2)]
  then have "11 \<le> k \<and> k \<le> 17" by simp
  then have "k \<in> {11, 12, 13, 14, 15, 16, 17}" by auto
  moreover have "z = 2 ^ k" using arg_cong [OF k, of "of_nat :: nat \<Rightarrow> u32"] by simp
  ultimately show "\<exists>k \<in> {11, 12, 13, 14, 15, 16, 17}. z = 2 ^ k" by blast
qed (auto simp: pfsCheckZoneSize_def)

lemma scale_from_next: "scale < 32 \<Longrightarrow> push_bit scale sz \<noteq> num \<Longrightarrow> scale_from num sz scale = scale_from num sz (Suc scale)"
  by (subst scale_from.simps) simp

lemma scale_from_here: "scale < 32 \<Longrightarrow> push_bit scale sz = num \<Longrightarrow> scale_from num sz scale = Some scale"
  by (subst scale_from.simps) simp


lemma scale_of_power:
  "k \<in> {11, 12, 13, 14, 15, 16, 17} \<Longrightarrow> pfsGetScale (2 ^ k) 512 = Some (k - 9) \<and> pfsGetScale (2 ^ k) 1024 = Some (k - 10)"
  unfolding pfsGetScale_def
  by (elim insertE emptyE) (simp_all add: scale_from_next scale_from_here push_bit_eq_mult)

text \<open>
  (C33) The zone sizes that formatting and mounting accept are the powers of two from 2 KB to 128 KB, and
  for these the two loops that look for the shift from the sector size and from the size of a metadata
  block end with it.
\<close>

theorem zone_size_scales:
  "pfsCheckZoneSize z \<longleftrightarrow> (\<exists>k. 11 \<le> k \<and> k \<le> 17 \<and> z = 2 ^ k \<and>
     pfsGetScale z 512 = Some (k - 9) \<and> pfsGetScale z 1024 = Some (k - 10))"
proof
  assume "pfsCheckZoneSize z"
  then obtain k where k: "k \<in> {11, 12, 13, 14, 15, 16, 17}" "z = 2 ^ k" using zone_size_iff by blast
  then have "11 \<le> k \<and> k \<le> 17" by auto
  then show "\<exists>k. 11 \<le> k \<and> k \<le> 17 \<and> z = 2 ^ k \<and> pfsGetScale z 512 = Some (k - 9) \<and> pfsGetScale z 1024 = Some (k - 10)"
    using k scale_of_power [OF k(1)] by blast
next
  assume "\<exists>k. 11 \<le> k \<and> k \<le> 17 \<and> z = 2 ^ k \<and> pfsGetScale z 512 = Some (k - 9) \<and> pfsGetScale z 1024 = Some (k - 10)"
  then obtain k where "11 \<le> k" "k \<le> 17" "z = 2 ^ k" by blast
  moreover from this have "k \<in> {11, 12, 13, 14, 15, 16, 17}" by auto
  ultimately show "pfsCheckZoneSize z" using zone_size_iff by blast
qed

section \<open>Sizes of the bitmaps\<close>

text \<open>The computation on natural numbers; nothing wraps when zones have at least two sectors.\<close>

definition bitmap_sectors :: "nat \<Rightarrow> nat" where
  "bitmap_sectors zones = (let b = zones div 8 + zones mod 8 in b div 512 + b mod 512)"

lemma bitmap_sectors_le: "bitmap_sectors zones \<le> zones"
proof -
  define b where "b = zones div 8 + zones mod 8"
  have "b \<le> zones" unfolding b_def using div_mult_mod_eq [of zones 8] by linarith
  moreover have "b div 512 + b mod 512 \<le> b" using div_mult_mod_eq [of b 512] by linarith
  ultimately show ?thesis by (simp add: bitmap_sectors_def b_def [symmetric] Let_def)
qed

lemma sdiv_nat: "int a sdiv int b = int (a div b)"
  by (cases "a = 0"; cases "b = 0") (simp_all add: signed_divide_int_def of_nat_div)

lemma zones_div:
  assumes "1 \<le> scale" "scale \<le> 8"
  shows "sint (p div push_bit scale 1 :: u32) = int (unat p div 2 ^ scale)" "unat p div 2 ^ scale < 2147483648"
proof -
  have "(2 :: nat) ^ scale < 2 ^ 32" using assms(2) by (intro power_strict_increasing) simp_all
  then have "unat (of_nat (2 ^ scale) :: u32) = 2 ^ scale" by (simp add: unat_of_nat take_bit_nat_eq_self del: of_nat_power)
  then have u: "unat (push_bit scale 1 :: u32) = 2 ^ scale" by (simp add: push_bit_eq_mult)
  have "(2 :: nat) ^ 1 \<le> 2 ^ scale" using assms(1) by (intro power_increasing) simp_all
  then have "unat p div 2 ^ scale \<le> unat p div 2" by (intro div_le_mono2) simp_all
  then show l: "unat p div 2 ^ scale < 2147483648" using unat_u32_less [of p] by simp
  have "unat (p div push_bit scale 1) = unat p div 2 ^ scale" unfolding unat_div u ..
  then show "sint (p div push_bit scale 1) = int (unat p div 2 ^ scale)"
    using l by (simp add: sint_uint signed_take_bit_int_eq_self uint_nat)
qed

lemma pfsGetBitmapSizeSectors_eq:
  assumes "1 \<le> scale" "scale \<le> 8"
  shows "unat (pfsGetBitmapSizeSectors scale p) = bitmap_sectors (unat p div 2 ^ scale)"
proof -
  let ?z = "unat p div 2 ^ scale"
  have step: "int n sdiv int m + int n mod int m = int (n div m + n mod m)" for n m
    by (simp add: sdiv_nat of_nat_mod)
  have "pfsGetBitmapSizeSectors scale p = of_nat (bitmap_sectors ?z)"
    using step [of ?z 8] step [of "?z div 8 + ?z mod 8" 512]
    unfolding pfsGetBitmapSizeSectors_def zones_div(1) [OF assms] bitmap_sectors_def Let_def
    by (simp only: of_nat_numeral of_int_of_nat_eq)
  moreover have "bitmap_sectors ?z < 4294967296"
    using bitmap_sectors_le [of ?z] zones_div(2) [OF assms, of p] by linarith
  ultimately show ?thesis by (simp add: unat_of_nat)
qed

lemma div_mod_enough:
  fixes m n :: nat
  assumes "0 < m"
  shows "n \<le> m * (n div m + n mod m)"
proof -
  have "n = m * (n div m) + n mod m" by simp
  also have "\<dots> \<le> m * (n div m) + m * (n mod m)" using assms by (intro add_left_mono) simp
  finally show ?thesis by (simp only: distrib_left)
qed

lemma bitmap_sectors_enough: "zones \<le> 4096 * bitmap_sectors zones"
proof -
  define b where "b = zones div 8 + zones mod 8"
  have "zones \<le> 8 * b" unfolding b_def by (rule div_mod_enough) simp
  moreover have "b \<le> 512 * (b div 512 + b mod 512)" by (rule div_mod_enough) simp
  ultimately show ?thesis by (simp add: bitmap_sectors_def b_def [symmetric] Let_def)
qed

lemma pfsGetBitmapSizeBlocks_eq:
  fixes p :: u32
  assumes "1 \<le> scale" "scale \<le> 8"
  defines "a \<equiv> bitmap_sectors (unat p div 2 ^ scale)"
  shows "unat (pfsGetBitmapSizeBlocks scale p) = a div 2 ^ scale + (if 0 < a mod 2 ^ scale then 1 else 0)"
proof -
  let ?w = "pfsGetBitmapSizeSectors scale p" and ?s = "push_bit scale 1 :: u32"
  have a: "unat ?w = a" using pfsGetBitmapSizeSectors_eq [OF assms(1,2)] by (simp add: a_def)
  have "(2 :: nat) ^ scale < 2 ^ 32" using assms(2) by (intro power_strict_increasing) simp_all
  then have "unat (of_nat (2 ^ scale) :: u32) = 2 ^ scale" by (simp add: unat_of_nat take_bit_nat_eq_self del: of_nat_power)
  then have s: "unat ?s = 2 ^ scale" by (simp add: push_bit_eq_mult)
  have "a < 2147483648" using bitmap_sectors_le zones_div(2) [OF assms(1,2), of p] unfolding a_def by (rule le_less_trans)
  then have "a div 2 ^ scale < 2147483648" by (rule le_less_trans [OF div_le_dividend])
  moreover have "unat (?w mod ?s) = a mod 2 ^ scale" by (simp only: unat_mod a s)
  moreover have "unat (?w div ?s) = a div 2 ^ scale" by (simp only: unat_div a s)
  moreover have "0 < ?w mod ?s \<longleftrightarrow> 0 < unat (?w mod ?s)" by (simp add: word_less_nat_alt)
  ultimately show ?thesis
    unfolding pfsGetBitmapSizeBlocks_def Let_def by (simp add: unat_word_ariths)
qed

lemma round_up:
  fixes n m :: nat
  assumes "0 < m"
  shows "n \<le> (n div m + (if 0 < n mod m then 1 else 0)) * m \<and> (n div m + (if 0 < n mod m then 1 else 0)) * m < n + m"
proof -
  have e: "n = n div m * m + n mod m" "n mod m < m" using assms by simp_all
  show ?thesis
  proof (cases "0 < n mod m")
    case True
    then have "(n div m + (if 0 < n mod m then 1 else 0)) * m = n div m * m + m" by simp
    then show ?thesis using e True by linarith
  next
    case False
    then have "(n div m + (if 0 < n mod m then 1 else 0)) * m = n" using e by simp
    then show ?thesis using assms by simp
  qed
qed

text \<open>
  (C34) The space that formatting sets aside for the bitmap of a partition is enough: its sectors have a
  bit for every zone, and the blocks for these sectors are the least number of zones that hold them.
  The number of sectors itself is the least one when the zones fill whole sectors of bits; otherwise
  the code adds the remainders of its divisions, not one.
\<close>

theorem bitmap_size_enough:
  assumes "1 \<le> scale" "scale \<le> 8"
  shows "let zones = unat partSize div 2 ^ scale; sectors = unat (pfsGetBitmapSizeSectors scale partSize);
      blocks = unat (pfsGetBitmapSizeBlocks scale partSize)
    in zones \<le> 4096 * sectors \<and> sectors \<le> blocks * 2 ^ scale \<and> blocks * 2 ^ scale < sectors + 2 ^ scale \<and>
      (zones mod 4096 = 0 \<longrightarrow> zones = 4096 * sectors)"
proof -
  define zones where "zones = unat partSize div 2 ^ scale"
  define sectors where "sectors = unat (pfsGetBitmapSizeSectors scale partSize)"
  define blocks where "blocks = unat (pfsGetBitmapSizeBlocks scale partSize)"
  have s: "sectors = bitmap_sectors zones" unfolding sectors_def zones_def by (rule pfsGetBitmapSizeSectors_eq [OF assms(1,2)])
  have b: "blocks = sectors div 2 ^ scale + (if 0 < sectors mod 2 ^ scale then 1 else 0)"
    unfolding blocks_def s zones_def by (rule pfsGetBitmapSizeBlocks_eq [OF assms(1,2)])
  have "sectors \<le> blocks * 2 ^ scale \<and> blocks * 2 ^ scale < sectors + 2 ^ scale"
    unfolding b by (rule round_up) simp
  moreover have "zones = 4096 * sectors" if "zones mod 4096 = 0"
  proof -
    have "zones = 4096 * (zones div 4096)" using mult_div_mod_eq [of 4096 zones] that by linarith
    then obtain q where q: "zones = 4096 * q" by blast
    have "4096 * q = 8 * (512 * q)" by simp
    then have "4096 * q div 8 = 512 * q" "4096 * q mod 8 = 0" by (simp_all only: nonzero_mult_div_cancel_left mod_mult_self1_is_0)
    then show ?thesis unfolding s q bitmap_sectors_def Let_def by simp
  qed
  ultimately show ?thesis
    using bitmap_sectors_enough [of zones] s unfolding Let_def zones_def sectors_def blocks_def by metis
qed

theorem bitmap_size_enough_witness:
  "unat (16352 :: u32) div 2 ^ 2 \<le> 4096 * unat (pfsGetBitmapSizeSectors 2 16352) \<and>
   unat (pfsGetBitmapSizeSectors 2 16352) = 511"
  using bitmap_size_enough [of 2 16352] pfsGetBitmapSizeSectors_eq [of 2 16352] by (simp add: bitmap_sectors_def)

section \<open>What formatting marks and where it puts things\<close>

lemma mark_one: "zbit (w(j div 32 := w (j div 32) OR push_bit (j mod 32) 1)) k = (k = j \<or> zbit w k)"
proof (cases "k div 32 = j div 32")
  case True
  have "k mod 32 < 32" "j mod 32 < 32" by simp_all
  moreover have "k mod 32 = j mod 32 \<longleftrightarrow> k = j" using True by (metis div_mult_mod_eq)
  ultimately show ?thesis using True by (auto simp: zbit_def bit_simps)
next
  case False
  then show ?thesis by (auto simp: zbit_def)
qed

lemma reserved_words_zbit:
  assumes "k < 4096"
  shows "zbit (reserved_words fragment n w) k = (k < n \<or> bit fragment (k mod 32))"
proof -
  have "zbit (fold (\<lambda>j w. w(j div 32 := w (j div 32) OR push_bit (j mod 32) 1)) [0..<n] v) k = (k < n \<or> zbit v k)" for v
  proof (induction n)
    case (Suc n)
    have "[0..<Suc n] = [0..<n] @ [n]" by simp
    then show ?case by (simp only: fold_append fold_Cons fold_Nil comp_apply id_apply mark_one Suc.IH) auto
  qed simp
  moreover have "zbit (copy_words w 0 (\<lambda>_. fragment) 128) k = bit fragment (k mod 32)"
    using assms by (simp add: zbit_def copy_words_def less_mult_imp_div_less)
  ultimately show ?thesis by (simp add: reserved_words_def)
qed

lemma get_put_bi: "get_bi (put_bi k b w) k = b"
proof -
  have "ucast (ucast (bi_subpart b) OR push_bit 16 (ucast (bi_count b)) :: u32) = bi_subpart b"
    by (rule bit_word_eqI) (simp add: bit_simps)
  moreover have "ucast (drop_bit 16 (ucast (bi_subpart b) OR push_bit 16 (ucast (bi_count b)) :: u32)) = bi_count b"
    by (rule bit_word_eqI) (auto simp: bit_simps dest: bit_imp_le_length)
  ultimately show ?thesis by (simp add: get_bi_def put_bi_def)
qed

lemma get_put_bi_other: "k + 1 < j \<or> j + 1 < k \<Longrightarrow> get_bi (put_bi k b w) j = get_bi w j"
  by (auto simp: get_bi_def put_bi_def)

lemma new_super_parts:
  fixes zonesize subs mainsize :: u32 and scale :: nat and w :: words
  defines "n \<equiv> pfsGetBitmapSizeBlocks scale mainsize + drop_bit scale 0x2000 + 1"
    and "sb \<equiv> new_super zonesize subs scale mainsize w"
  shows "get_bi sb SB_LOG = \<lparr>bi_number = n, bi_subpart = 0, bi_count = log_count zonesize\<rparr>"
    "get_bi sb SB_ROOT = \<lparr>bi_number = n + ucast (log_count zonesize), bi_subpart = 0, bi_count = 1\<rparr>"
    "sb SB_MAGIC = PFS_SUPER_MAGIC" "sb SB_VERSION = PFS_FORMAT_VERSION" "sb SB_FSCKSTAT = 0" "sb SB_ZONE_SIZE = zonesize"
    "sb SB_NUM_SUBS = subs"
  unfolding sb_def new_super_def Let_def
  by (simp_all add: get_put_bi_other get_put_bi n_def log_count_def) (simp_all add: put_bi_def copy_words_def)

lemma blocks_bound:
  assumes "1 \<le> scale" "scale \<le> 8"
  shows "unat (pfsGetBitmapSizeBlocks scale p) \<le> 2147483648"
proof -
  let ?a = "bitmap_sectors (unat p div 2 ^ scale)"
  have "?a < 2147483648" by (rule le_less_trans [OF bitmap_sectors_le zones_div(2) [OF assms]])
  then have "?a div 2 ^ scale < 2147483648" by (rule le_less_trans [OF div_le_dividend])
  then show ?thesis unfolding pfsGetBitmapSizeBlocks_eq [OF assms] by simp
qed

lemma root_no_wrap:
  assumes "1 \<le> scale" "scale \<le> 8"
  shows "unat (pfsGetBitmapSizeBlocks scale p + drop_bit scale 0x2000 + 1 + ucast (c :: u16) + 2) =
    unat (pfsGetBitmapSizeBlocks scale p + drop_bit scale 0x2000 + 1 + ucast c) + 2"
proof -
  let ?b = "pfsGetBitmapSizeBlocks scale p" and ?r = "drop_bit scale 0x2000 :: u32"
  have "unat ?r \<le> 8192" by (simp add: drop_bit_eq_div unat_div)
  moreover have "unat (ucast c :: u32) < 65536" using unat_u16_less [of c] by simp
  ultimately have "unat ?b + unat ?r + 1 + unat (ucast c :: u32) < 2147600000" using blocks_bound [OF assms, of p] by simp
  then have "unat (?b + ?r + 1 + ucast c) < 2147600000" by (simp add: unat_word_ariths)
  moreover have "unat x < 2147600000 \<Longrightarrow> unat (x + 2 :: u32) = unat x + 2" for x by (simp add: unat_word_ariths)
  ultimately show ?thesis by blast
qed



end
