(* ===== verification/PfsSeek.thy ===== *)
theory PfsSeek
  imports PfsDir PfsLayout
begin

text \<open>
  Seeking in a file: \<open>pfsBlockSyncPos\<close> and \<open>pfsInodeSync\<close> of iop/hdd/libpfs/src/block.c and inode.c against
  the position in bytes from the start of the inode's own block, for files whose segments all are in
  the inode. The second part is what \<open>pfsFreeZones\<close> of dir.c does with the segment a file is cut in.
\<close>

section \<open>Positions\<close>

definition seg_count :: "words \<Rightarrow> nat \<Rightarrow> nat" where
  "seg_count w k = unat (bi_count (seg_at w k))"

definition zones_before :: "words \<Rightarrow> nat \<Rightarrow> nat" where
  "zones_before w k = sum_list (map (seg_count w) [0..<k])"

text \<open>The zone of a position, counted from the inode's block, and the position in bytes.\<close>

definition zone_of :: "words \<Rightarrow> pfs_blockpos_t \<Rightarrow> nat" where
  "zone_of w bp = zones_before w (unat (bp_segment bp)) + unat (bp_offset bp)"

definition byte_of :: "words \<Rightarrow> u32 \<Rightarrow> pfs_blockpos_t \<Rightarrow> nat" where
  "byte_of w zsize bp = zone_of w bp * unat zsize + unat (bp_byte bp)"

lemma zones_before_Suc: "zones_before w (Suc k) = zones_before w k + seg_count w k"
  by (simp add: zones_before_def)

lemma zones_before_mono: "j \<le> k \<Longrightarrow> zones_before w j \<le> zones_before w k"
  by (induction k) (auto simp: zones_before_Suc le_Suc_eq)

lemma pfsFixIndex_small: "i < 114 \<Longrightarrow> pfsFixIndex i = unat i"
  by (simp add: pfsFixIndex_def)

text \<open>The two ways a round of the walk can go on, with numbers for words.\<close>

lemma sync_loop_0: "sync_loop B used 0 bp s = Some (0, bp, s)"
  by (subst sync_loop.simps) simp

lemma sync_loop_here:
  assumes "bp_inode bp = Some ino" "i \<noteq> 0" "bp_segment bp < 114" "unat i + unat (bp_offset bp) < 4294967296"
    "unat i + unat (bp_offset bp) < seg_count (inode s ino) (unat (bp_segment bp))"
  shows "sync_loop B used i bp s = Some (0, bp\<lparr>bp_offset := i + bp_offset bp\<rparr>, s)"
proof -
  have "unat (i + bp_offset bp) = unat i + unat (bp_offset bp)" using assms(4) by (simp add: unat_word_ariths)
  then have "i + bp_offset bp < ucast (bi_count (seg_at (inode s ino) (unat (bp_segment bp))))"
    using assms(5) by (simp add: word_less_nat_alt seg_count_def)
  then show ?thesis using assms(1-3) by (subst sync_loop.simps) (simp add: pfsFixIndex_small)
qed

lemma sync_loop_next:
  assumes "bp_inode bp = Some ino" "i \<noteq> 0" "bp_segment bp < 114" "unat i + unat (bp_offset bp) < 4294967296"
    "seg_count (inode s ino) (unat (bp_segment bp)) \<le> unat i + unat (bp_offset bp)"
    "bp_segment bp + 1 \<noteq> used" "used \<le> 114" "bp_segment bp < used"
  shows "sync_loop B used i bp s = sync_loop B used
      (of_nat (unat i + unat (bp_offset bp) - seg_count (inode s ino) (unat (bp_segment bp))))
      (bp\<lparr>bp_offset := 0, bp_segment := bp_segment bp + 1\<rparr>) s"
proof -
  let ?c = "ucast (bi_count (seg_at (inode s ino) (unat (bp_segment bp)))) :: u32"
  have u: "unat (i + bp_offset bp) = unat i + unat (bp_offset bp)" using assms(4) by (simp add: unat_word_ariths)
  have le: "\<not> i + bp_offset bp < ?c" using assms(5) by (simp add: word_less_nat_alt seg_count_def u)
  have sub: "i + bp_offset bp - ?c = of_nat (unat i + unat (bp_offset bp) - seg_count (inode s ino) (unat (bp_segment bp)))"
    using assms(5) by (simp add: seg_count_def of_nat_diff)
  have "unat (bp_segment bp) < unat used" "unat used \<le> 114" using assms(7,8) by (simp_all add: word_less_nat_alt word_le_nat_alt)
  then have seg: "unat (bp_segment bp + 1) = unat (bp_segment bp) + 1" by (simp add: unat_word_ariths)
  moreover have "unat (bp_segment bp + 1) \<noteq> unat used" using assms(6) by (simp add: word_unat_eq_iff)
  ultimately have "bp_segment bp + 1 < 114"
    using \<open>unat (bp_segment bp) < unat used\<close> \<open>unat used \<le> 114\<close> by (simp add: word_less_nat_alt)
  then have "pfsFixIndex (bp_segment bp + 1) \<noteq> 0" using seg by (simp add: pfsFixIndex_small)
  then show ?thesis
    using assms(1-3,6) le sub by (subst sync_loop.simps) (simp add: pfsFixIndex_small)
qed

lemma sync_loop_last:
  assumes "bp_inode bp = Some ino" "i \<noteq> 0" "0 < bp_segment bp" "bp_segment bp < 114" "unat i + unat (bp_offset bp) < 4294967296"
    "seg_count (inode s ino) (unat (bp_segment bp)) \<le> unat i + unat (bp_offset bp)" "bp_segment bp + 1 = used"
  defines "c \<equiv> seg_count (inode s ino) (unat (bp_segment bp))"
  shows "sync_loop B used i bp s =
    Some (if unat i + unat (bp_offset bp) = c \<and> bp_byte bp = 0 then 0 else - EINVAL, bp\<lparr>bp_offset := of_nat c\<rparr>, s)"
proof -
  let ?c = "ucast (bi_count (seg_at (inode s ino) (unat (bp_segment bp)))) :: u32"
  have u: "unat (i + bp_offset bp) = unat i + unat (bp_offset bp)" using assms(5) by (simp add: unat_word_ariths)
  have le: "\<not> i + bp_offset bp < ?c" using assms(6) by (simp add: word_less_nat_alt seg_count_def u)
  have c: "unat ?c = c" by (simp add: c_def seg_count_def)
  have "?c = of_nat (unat ?c)" by simp
  then have oc: "?c = of_nat c" unfolding c .
  have sub: "(i + bp_offset bp - ?c = 0) = (unat i + unat (bp_offset bp) = c)"
    unfolding right_minus_eq by (simp only: word_unat_eq_iff u c)
  have "unat (bp_segment bp) \<noteq> 0" using assms(3) by (simp add: word_less_nat_alt)
  then have fi: "pfsFixIndex (bp_segment bp) \<noteq> 0" using assms(4) by (simp add: pfsFixIndex_small)
  let ?bp = "bp\<lparr>bp_offset := ?c\<rparr>"
  have "sync_loop B used i bp s = (if i + bp_offset bp - ?c \<noteq> 0 \<or> bp_byte bp \<noteq> 0 then Some (- EINVAL, ?bp, s)
      else sync_loop B used (i + bp_offset bp - ?c) ?bp s)"
    using assms(1,2,4,7) le fi by (subst sync_loop.simps) (simp add: pfsFixIndex_small)
  also have "\<dots> = Some (if i + bp_offset bp - ?c = 0 \<and> bp_byte bp = 0 then 0 else - EINVAL, ?bp, s)"
    by (cases "i + bp_offset bp - ?c = 0"; cases "bp_byte bp = 0") (simp_all only: sync_loop_0 simp_thms if_True if_False)
  finally show ?thesis unfolding sub unfolding oc .
qed

text \<open>A position inside the file: its segment, its zone of the segment and its byte of the zone.\<close>

definition pos_ok :: "words \<Rightarrow> u32 \<Rightarrow> pfs_blockpos_t \<Rightarrow> bool" where
  "pos_ok w used bp \<longleftrightarrow> 0 < bp_segment bp \<and> bp_segment bp < used \<and>
     unat (bp_offset bp) < seg_count w (unat (bp_segment bp))"

text \<open>All segments have zones, and the segments are few enough for the inode.\<close>

definition file_ok :: "words \<Rightarrow> u32 \<Rightarrow> bool" where
  "file_ok w used \<longleftrightarrow> used \<le> 114 \<and> (\<forall>k < unat used. 0 < seg_count w k)"

lemma sync_loop_correct:
  assumes "bp_inode bp = Some ino" "file_ok (inode s ino) used" "pos_ok (inode s ino) used bp"
    "unat i + zones_before (inode s ino) (unat used) < 4294967296"
  shows "\<exists>r bp'. sync_loop B used i bp s = Some (r, bp', s) \<and>
    (if zone_of (inode s ino) bp + unat i < zones_before (inode s ino) (unat used) \<or>
        zone_of (inode s ino) bp + unat i = zones_before (inode s ino) (unat used) \<and> bp_byte bp = 0
     then r = 0 \<and> zone_of (inode s ino) bp' = zone_of (inode s ino) bp + unat i \<and> bp_byte bp' = bp_byte bp \<and>
       bp_inode bp' = Some ino \<and> bp_segment bp' < used
     else r = - EINVAL)"
  using assms(1,3,4)
proof (induction "unat used - unat (bp_segment bp)" arbitrary: bp i rule: less_induct)
  case less
  let ?w = "inode s ino" and ?k = "unat (bp_segment bp)"
  have used: "unat used \<le> 114" using assms(2) by (simp add: file_ok_def word_le_nat_alt)
  have k: "0 < ?k" "?k < unat used" "bp_segment bp < used" using less.prems(2) by (simp_all add: pos_ok_def word_less_nat_alt)
  then have k114: "bp_segment bp < 114" using used by (simp add: word_less_nat_alt)
  have off: "unat (bp_offset bp) < seg_count ?w ?k" using less.prems(2) by (simp add: pos_ok_def)
  have zb: "zones_before ?w ?k + seg_count ?w ?k \<le> zones_before ?w (unat used)"
    using zones_before_mono [of "Suc ?k" "unat used" ?w] k by (simp add: zones_before_Suc)
  have nw: "unat i + unat (bp_offset bp) < 4294967296" using less.prems(3) off zb by linarith
  have here: "zone_of ?w bp < zones_before ?w (unat used)" using off zb by (simp add: zone_of_def)
  consider "i = 0" | "i \<noteq> 0" "unat i + unat (bp_offset bp) < seg_count ?w ?k"
    | "i \<noteq> 0" "seg_count ?w ?k \<le> unat i + unat (bp_offset bp)" "bp_segment bp + 1 = used"
    | "i \<noteq> 0" "seg_count ?w ?k \<le> unat i + unat (bp_offset bp)" "bp_segment bp + 1 \<noteq> used" by fastforce
  then show ?case
  proof cases
    case 1
    then show ?thesis using here less.prems(1) k(3) by (simp add: sync_loop_0)
  next
    case 2
    have "unat (i + bp_offset bp) = unat i + unat (bp_offset bp)" using nw by (simp add: unat_word_ariths)
    then have "zone_of ?w (bp\<lparr>bp_offset := i + bp_offset bp\<rparr>) = zone_of ?w bp + unat i" by (simp add: zone_of_def)
    moreover have "zone_of ?w bp + unat i < zones_before ?w (unat used)" using 2 zb by (simp add: zone_of_def)
    ultimately show ?thesis using sync_loop_here [OF less.prems(1) 2(1) k114 nw 2(2)] less.prems(1) k(3) by auto
  next
    case 3
    have "unat used = Suc ?k" using 3(3) used k(2) by (auto simp: unat_word_ariths)
    then have e: "zones_before ?w (unat used) = zones_before ?w ?k + seg_count ?w ?k" by (simp add: zones_before_Suc)
    have c: "seg_count ?w ?k < 65536" unfolding seg_count_def by (rule unat_u16_less)
    have k0: "0 < bp_segment bp" using k(1) by (simp add: word_less_nat_alt)
    have "zone_of ?w (bp\<lparr>bp_offset := of_nat (seg_count ?w ?k)\<rparr>) = zones_before ?w (unat used)"
      using c e by (simp add: zone_of_def unat_of_nat)
    then show ?thesis
      using sync_loop_last [OF less.prems(1) 3(1) k0 k114 nw 3(2,3)] less.prems(1) k(3) e 3(2) by (auto simp: zone_of_def)
  next
    case 4
    let ?bp = "bp\<lparr>bp_offset := 0, bp_segment := bp_segment bp + 1\<rparr>"
    define j :: u32 where "j = of_nat (unat i + unat (bp_offset bp) - seg_count ?w ?k)"
    have seg: "unat (bp_segment bp + 1) = ?k + 1" using k used by (simp add: unat_word_ariths)
    have ui: "unat j = unat i + unat (bp_offset bp) - seg_count ?w ?k"
      unfolding j_def unat_of_nat using nw by (intro mod_less) simp
    have lt: "?k + 1 < unat used" using 4(3) seg k(2) by (simp add: word_unat_eq_iff)
    have z: "zone_of ?w ?bp + unat j = zone_of ?w bp + unat i"
      using 4(2) by (simp add: zone_of_def seg ui zones_before_Suc)
    have "pos_ok ?w used ?bp"
      using lt seg assms(2) by (simp add: pos_ok_def file_ok_def word_less_nat_alt)
    moreover have "unat j + zones_before ?w (unat used) < 4294967296" using ui less.prems(3) off by simp
    moreover have "unat used - unat (bp_segment ?bp) < unat used - ?k" using seg lt by simp
    moreover have "bp_inode ?bp = Some ino" "bp_byte ?bp = bp_byte bp" using less.prems(1) by simp_all
    ultimately have ih: "\<exists>r bp'. sync_loop B used j ?bp s = Some (r, bp', s) \<and>
        (if zone_of ?w bp + unat i < zones_before ?w (unat used) \<or>
            zone_of ?w bp + unat i = zones_before ?w (unat used) \<and> bp_byte bp = 0
         then r = 0 \<and> zone_of ?w bp' = zone_of ?w bp + unat i \<and> bp_byte bp' = bp_byte bp \<and>
           bp_inode bp' = Some ino \<and> bp_segment bp' < used
         else r = - EINVAL)"
      using less.hyps [of ?bp j] unfolding z by (simp only:)
    have "used \<le> 114" using assms(2) by (simp add: file_ok_def)
    note step = sync_loop_next [OF less.prems(1) 4(1) k114 nw 4(2,3) this k(3), folded j_def]
    show ?thesis unfolding step by (rule ih)
  qed
qed

section \<open>Seeking\<close>

text \<open>The split of a distance into zones and bytes loses nothing.\<close>

lemma sync_pos_exact:
  assumes "0 < zsize" "unat zsize \<le> 131072" "bp_byte bp < zsize" "unat sz div unat zsize < 2147483648"
    "sync_pos zsize bp sz = (i, bp')"
  shows "unat i * unat zsize + unat (bp_byte bp') = unat (bp_byte bp) + unat sz" "bp_byte bp' < zsize"
    "bp_inode bp' = bp_inode bp" "bp_segment bp' = bp_segment bp" "bp_offset bp' = bp_offset bp"
    "unat i \<le> unat sz div unat zsize + 1"
proof -
  let ?z = "unat zsize"
  have z: "0 < ?z" using assms(1) by (simp add: word_less_nat_alt)
  have q: "unat (ucast (sz div ucast zsize) :: u32) = unat sz div ?z"
    using assms(4) by (simp add: unsigned_ucast_eq unat_div take_bit_nat_eq_self)
  have m: "unat sz mod ?z < ?z" using z by simp
  then have r: "unat (ucast (sz mod ucast zsize) :: u32) = unat sz mod ?z"
    using assms(2) by (simp add: unsigned_ucast_eq unat_mod take_bit_nat_eq_self)
  have b: "unat (bp_byte bp) < ?z" using assms(3) by (simp add: word_less_nat_alt)
  have byte: "unat (bp_byte bp + ucast (sz mod ucast zsize)) = unat (bp_byte bp) + unat sz mod ?z"
  proof -
    have "unat (bp_byte bp) + unat sz mod ?z < 4294967296" using b m assms(2) by linarith
    then have "unat (bp_byte bp) + unat sz mod ?z < 2 ^ LENGTH(32)" by simp
    then show ?thesis unfolding unat_word_ariths r by (rule mod_less)
  qed
  have split: "unat sz = unat sz div ?z * ?z + unat sz mod ?z" by simp
  show "bp_inode bp' = bp_inode bp" "bp_segment bp' = bp_segment bp" "bp_offset bp' = bp_offset bp"
    using assms(5) by (auto simp: sync_pos_def Let_def split: if_splits)
  consider "?z \<le> unat (bp_byte bp) + unat sz mod ?z" "i = ucast (sz div ucast zsize) + 1"
      "bp_byte bp' = bp_byte bp + ucast (sz mod ucast zsize) - zsize"
    | "unat (bp_byte bp) + unat sz mod ?z < ?z" "i = ucast (sz div ucast zsize)"
      "bp_byte bp' = bp_byte bp + ucast (sz mod ucast zsize)"
    using assms(5) by (auto simp: sync_pos_def Let_def word_le_nat_alt byte split: if_splits)
  then have "unat i * ?z + unat (bp_byte bp') = unat (bp_byte bp) + unat sz \<and> unat (bp_byte bp') < ?z \<and>
      unat i \<le> unat sz div ?z + 1"
  proof cases
    case 1
    have i: "unat i = unat sz div ?z + 1" unfolding 1(2) unat_word_ariths q using assms(4) by simp
    moreover have "unat (bp_byte bp') = unat (bp_byte bp) + unat sz mod ?z - ?z"
      unfolding 1(3) using 1(1) by (subst unat_sub) (simp_all add: word_le_nat_alt byte)
    moreover have "unat i * ?z = unat sz div ?z * ?z + ?z" by (simp add: i)
    ultimately show ?thesis using 1(1) b m split i by (intro conjI; linarith)
  next
    case 2
    then show ?thesis using split by (simp only: q byte) simp
  qed
  then show "unat i * ?z + unat (bp_byte bp') = unat (bp_byte bp) + unat sz" "bp_byte bp' < zsize"
    "unat i \<le> unat sz div ?z + 1" by (simp_all add: word_less_nat_alt)
qed

lemma zone_le_iff:
  fixes a b t z :: nat
  assumes "b < z"
  shows "(a < t \<or> a = t \<and> b = 0) \<longleftrightarrow> a * z + b \<le> t * z"
proof (cases "a < t")
  case True
  then have "(a + 1) * z \<le> t * z" by (intro mult_right_mono) simp_all
  then have "a * z + z \<le> t * z" by simp
  then show ?thesis using True assms by simp
next
  case False
  then consider "a = t" | "t + 1 \<le> a" by linarith
  then show ?thesis
  proof cases
    case 2
    then have "(t + 1) * z \<le> a * z" by (intro mult_right_mono) simp_all
    then have "t * z + z \<le> a * z" by simp
    then show ?thesis using 2 assms by linarith
  qed simp
qed

lemma zones_before_le: "zones_before w k \<le> k * 65535"
proof (induction k)
  case (Suc k)
  have "seg_count w k \<le> 65535" using unat_u16_less [of "bi_count (seg_at w k)"] by (simp add: seg_count_def)
  then show ?case using Suc by (simp add: zones_before_Suc)
qed (simp add: zones_before_def)


text \<open>A file of five zones of 8 KB, in segments of two and three, behind its inode.\<close>

definition seek_inode :: words where
  "seek_inode = put_seg 2 \<lparr>bi_number = 40, bi_subpart = 0, bi_count = 3\<rparr> (put_seg 1 \<lparr>bi_number = 30, bi_subpart = 0, bi_count = 2\<rparr>
     (put_seg 0 \<lparr>bi_number = 20, bi_subpart = 0, bi_count = 1\<rparr> (\<lambda>_. 0)))"

definition seek_state :: "ram_disk pfs_state" where
  "seek_state = blank_state\<lparr>pfsCacheBuf := (\<lambda>_. (empty_entry seek_inode)\<lparr>p_mount := 1\<rparr>),
     pfsMounts := (\<lambda>_. blank_mount\<lparr>m_zsize := 8192\<rparr>)\<rparr>"

definition seek_start :: pfs_blockpos_t where
  "seek_start = \<lparr>bp_inode = Some 1, bp_segment = 1, bp_offset = 0, bp_byte = 100\<rparr>"

lemma seg_put_seg: "seg_at (put_seg k b w) j = (if j = k then b else seg_at w j)"
  unfolding seg_at_def put_seg_def by (cases "j = k"; cases "j < k") (auto simp: get_put_bi get_put_bi_other)

lemma seek_counts: "seg_count seek_inode 0 = 1" "seg_count seek_inode 1 = 2" "seg_count seek_inode 2 = 3"
  by (simp_all add: seg_count_def seek_inode_def seg_put_seg)


section \<open>Cutting a file\<close>

text \<open>
  (C37) What \<open>pfsFreeZones\<close> does to the segment in which the new end of a file falls, with \<open>j\<close> zones of it still
  in use. It takes \<open>j\<close> from the length of the segment and has the last \<open>j\<close> zones of it released: the
  file keeps the \<open>j\<close> zones it should give back or fewer zones than its size needs, unless they are half of
  the segment.
\<close>

theorem shrink_splits_wrong:
  assumes "i < limit" "0 < i" "i < 114" "j \<noteq> 0" "unat j < seg_count (inode s clink) i"
  shows "\<exists>s' b'. shrink_loop B limit clink i j n b s = Some (Some (clink, i + 1, n, Some b'), s') \<and>
    seg_count (inode s' clink) i = seg_count (inode s clink) i - unat j \<and> unat (bi_count b') = unat j \<and>
    bi_number b' = bi_number (seg_at (inode s clink) i) + of_nat (seg_count (inode s clink) i - unat j)"
proof -
  let ?sg = "seg_at (inode s clink) i"
  let ?left = "bi_count ?sg - ucast j"
  let ?s = "set_flag clink PFS_CACHE_FLAG_DIRTY (upd_data clink (put_seg i (?sg\<lparr>bi_count := ?left\<rparr>)) s)"
  let ?b = "\<lparr>bi_number = bi_number ?sg + ucast ?left, bi_subpart = bi_subpart ?sg, bi_count = ucast j\<rparr>"
  have k: "pfsFixIndex (of_nat i) = i" using assms(3) by (simp add: pfsFixIndex_def word_less_nat_alt unat_of_nat)
  have lt: "j < ucast (bi_count ?sg)" using assms(5) by (simp add: word_less_nat_alt seg_count_def)
  have "unat j < 65536" using assms(5) unat_u16_less [of "bi_count ?sg"] by (simp add: seg_count_def)
  then have uj: "unat (ucast j :: u16) = unat j" by (simp add: unsigned_ucast_eq take_bit_nat_eq_self)
  then have ul: "unat ?left = seg_count (inode s clink) i - unat j"
    using assms(5) by (subst unat_sub) (simp_all add: word_le_nat_alt seg_count_def)
  have "shrink_loop B limit clink i j n b s = shrink_loop B limit clink (i + 1) 0 n (Some ?b) ?s"
    using assms(1,2,4) k lt by (subst shrink_loop.simps) (simp add: Let_def)
  also have "\<dots> = Some (Some (clink, i + 1, n, Some ?b), ?s)" by (subst shrink_loop.simps) simp
  finally have run: "shrink_loop B limit clink i j n b s = Some (Some (clink, i + 1, n, Some ?b), ?s)" .
  have "inode ?s clink = put_seg i (?sg\<lparr>bi_count := ?left\<rparr>) (inode s clink)"
    by (simp add: inode_def set_flag_def upd_data_def upd_p_def)
  then have "seg_count (inode ?s clink) i = unat ?left" by (simp add: seg_count_def seg_put_seg)
  moreover have "ucast ?left = (of_nat (unat ?left) :: u32)" by simp
  ultimately show ?thesis using run uj ul by (intro exI [of _ ?s] exI [of _ ?b]) simp
qed

theorem shrink_splits_wrong_witness:
  "\<exists>s' b'. shrink_loop ram_device 3 1 2 1 1 None seek_state = Some (Some (1, 3, 1, Some b'), s') \<and>
     seg_count (inode s' 1) 2 = 2 \<and> unat (bi_count b') = 1"
proof -
  have "inode seek_state 1 = seek_inode" by (simp add: inode_def seek_state_def empty_entry_def)
  then have "seg_count (inode seek_state 1) 2 = 3" using seek_counts by simp
  then show ?thesis using shrink_splits_wrong [of 2 3 1 seek_state 1 ram_device 1 None] by auto
qed

end
