(* ===== verification/PfsData.thy ===== *)
theory PfsData
  imports PfsFiles PfsSeek
begin

text \<open>
  The data path of the PFS driver: what a read of a file returns, and what the sector buffers of open files
  do to each other. A segment of a file is seen as a run of bytes of its partition; the medium is a function
  from byte numbers to bytes.
\<close>

section \<open>Bytes of a segment\<close>

text \<open>The sectors from \<open>lo\<close> up to \<open>hi\<close> of partition \<open>sub\<close> can be read, and their bytes are those of \<open>D\<close>.\<close>

definition on_medium :: "'w pfs_env \<Rightarrow> int \<Rightarrow> u32 \<Rightarrow> nat \<Rightarrow> nat \<Rightarrow> (nat \<Rightarrow> u8) \<Rightarrow> 'w \<Rightarrow> bool" where
  "on_medium E fd sub lo hi D d \<longleftrightarrow> (\<forall>sector n. lo \<le> unat sector \<longrightarrow> unat sector + unat n \<le> hi \<longrightarrow>
     (\<exists>w. bd_read (pe_bd E) fd sub sector n d = (0, w, d) \<and>
       (\<forall>j < 512 * unat n. byte_at w j = D (512 * unat sector + j))))"

text \<open>The offset of a position in its segment, and its byte number in the partition.\<close>

definition seg_pos :: "pfs_mount_t \<Rightarrow> pfs_blockpos_t \<Rightarrow> nat" where
  "seg_pos mt bp = unat (bp_offset bp) * unat (m_zsize mt) + unat (bp_byte bp)"

definition at_byte :: "pfs_mount_t \<Rightarrow> pfs_blockinfo_t \<Rightarrow> pfs_blockpos_t \<Rightarrow> nat" where
  "at_byte mt bi bp = unat (bi_number bi) * unat (m_zsize mt) + seg_pos mt bp"

definition seg_bytes :: "pfs_mount_t \<Rightarrow> pfs_blockinfo_t \<Rightarrow> nat" where
  "seg_bytes mt bi = unat (bi_count bi) * unat (m_zsize mt)"

definition first_sector :: "pfs_mount_t \<Rightarrow> pfs_blockinfo_t \<Rightarrow> nat" where
  "first_sector mt bi = unat (bi_number bi) * 2 ^ unat (m_sector_scale mt)"

definition last_sector :: "pfs_mount_t \<Rightarrow> pfs_blockinfo_t \<Rightarrow> nat" where
  "last_sector mt bi = (unat (bi_number bi) + unat (bi_count bi)) * 2 ^ unat (m_sector_scale mt)"

text \<open>Zones are up to 128 KB, segments shorter than 4 GB, and the sectors of the segment have 32-bit numbers.\<close>

definition geometry :: "pfs_mount_t \<Rightarrow> pfs_blockinfo_t \<Rightarrow> bool" where
  "geometry mt bi \<longleftrightarrow> unat (m_zsize mt) = 512 * 2 ^ unat (m_sector_scale mt) \<and> unat (m_zsize mt) \<le> 131072 \<and>
     seg_bytes mt bi < 4294967296 \<and> last_sector mt bi < 4294967296"

definition in_segment :: "pfs_mount_t \<Rightarrow> pfs_blockinfo_t \<Rightarrow> pfs_blockpos_t \<Rightarrow> bool" where
  "in_segment mt bi bp \<longleftrightarrow> bp_byte bp < m_zsize mt \<and> seg_pos mt bp \<le> seg_bytes mt bi"

lemma unat_bounded_mult:
  fixes a b :: u32
  shows "unat a * unat b < 4294967296 \<Longrightarrow> unat (a * b) = unat a * unat b"
  by (simp add: unat_word_ariths)

lemma unat_u64: "unat (w :: u64) < 18446744073709551616"
  by (rule order.strict_trans2 [OF unsigned_less]) simp

lemma unat_u16: "unat (w :: u16) < 65536"
  by (rule order.strict_trans2 [OF unsigned_less]) simp

lemma offset_bounds:
  assumes "in_segment mt bi bp"
  shows "unat (bp_offset bp) \<le> unat (bi_count bi)"
proof (rule ccontr)
  assume "\<not> ?thesis"
  then have "(unat (bi_count bi) + 1) * unat (m_zsize mt) \<le> unat (bp_offset bp) * unat (m_zsize mt)" by (intro mult_right_mono) simp_all
  with assms show False by (simp add: in_segment_def seg_pos_def seg_bytes_def word_less_nat_alt)
qed

lemma bytes_remain_exact:
  assumes g: "geometry mt bi" and i: "in_segment mt bi bp"
  shows "unat (bytes_remain mt bi bp) = seg_bytes mt bi - seg_pos mt bp"
proof -
  have le: "unat (bp_offset bp) \<le> unat (bi_count bi)" by (rule offset_bounds [OF i])
  then have d: "unat (ucast (bi_count bi) - bp_offset bp) = unat (bi_count bi) - unat (bp_offset bp)"
    by (subst unat_sub) (simp_all add: word_le_nat_alt)
  have m: "unat ((ucast (bi_count bi) - bp_offset bp) * m_zsize mt) = (unat (bi_count bi) - unat (bp_offset bp)) * unat (m_zsize mt)"
    unfolding d [symmetric]
  proof (rule unat_bounded_mult)
    have "(unat (bi_count bi) - unat (bp_offset bp)) * unat (m_zsize mt) \<le> seg_bytes mt bi"
      unfolding seg_bytes_def by (intro mult_right_mono) simp_all
    also have "\<dots> < 4294967296" using g by (simp add: geometry_def)
    finally show "unat (ucast (bi_count bi) - bp_offset bp) * unat (m_zsize mt) < 4294967296" by (simp only: d)
  qed
  have "unat (bp_byte bp) \<le> (unat (bi_count bi) - unat (bp_offset bp)) * unat (m_zsize mt)"
    using i by (auto simp: in_segment_def seg_pos_def seg_bytes_def diff_mult_distrib)
  then have "unat ((ucast (bi_count bi) - bp_offset bp) * m_zsize mt - bp_byte bp) =
      (unat (bi_count bi) - unat (bp_offset bp)) * unat (m_zsize mt) - unat (bp_byte bp)"
    by (subst unat_sub) (simp_all add: word_le_nat_alt m)
  then show ?thesis by (simp add: bytes_remain_def seg_pos_def seg_bytes_def diff_mult_distrib)
qed

lemma sector_of_exact:
  assumes g: "geometry mt bi" and i: "in_segment mt bi bp" and l: "seg_pos mt bp < seg_bytes mt bi"
  shows "unat (sector_of mt bi bp) = at_byte mt bi bp div 512"
    and "first_sector mt bi \<le> unat (sector_of mt bi bp)"
proof -
  let ?S = "2 ^ unat (m_sector_scale mt) :: nat" and ?a = "unat (bi_number bi) + unat (bp_offset bp)"
  have z: "unat (m_zsize mt) = 512 * ?S" using g by (simp add: geometry_def)
  have b: "unat (bp_byte bp) < 512 * ?S" using i z by (simp add: in_segment_def word_less_nat_alt)
  have "unat (bp_offset bp) < unat (bi_count bi)"
  proof (rule ccontr)
    assume "\<not> ?thesis"
    then have "unat (bi_count bi) * unat (m_zsize mt) \<le> unat (bp_offset bp) * unat (m_zsize mt)" by (intro mult_right_mono) simp_all
    with l show False by (simp add: seg_pos_def seg_bytes_def)
  qed
  then have "(?a + 1) * ?S \<le> (unat (bi_number bi) + unat (bi_count bi)) * ?S" by (intro mult_right_mono) simp_all
  also have "\<dots> < 4294967296" using g by (simp add: geometry_def last_sector_def)
  finally have lim: "?a * ?S + ?S < 4294967296" by simp
  have s1: "1 \<le> ?S" by simp
  have "?a \<le> ?a * ?S" by simp
  then have "?a < 4294967296" using lim by linarith
  then have a: "unat (bi_number bi + bp_offset bp) = ?a" by (simp add: unat_word_ariths)
  have p: "unat (push_bit (unat (m_sector_scale mt)) (bi_number bi + bp_offset bp)) = ?a * ?S"
    using lim by (simp only: unsigned_push_bit_eq a, simp add: push_bit_eq_mult take_bit_nat_eq_self)
  have q: "unat (drop_bit 9 (bp_byte bp)) = unat (bp_byte bp) div 512" by (simp add: drop_bit_eq_div unat_div)
  have "unat (bp_byte bp) div 512 < ?S" using b by (simp add: less_mult_imp_div_less mult.commute)
  then have "?a * ?S + unat (bp_byte bp) div 512 < 4294967296" using lim by linarith
  then have u: "unat (sector_of mt bi bp) = ?a * ?S + unat (bp_byte bp) div 512"
    unfolding sector_of_def by (simp add: unat_word_ariths(1) p q)
  have "at_byte mt bi bp = unat (bp_byte bp) + (?a * ?S) * 512" by (simp add: at_byte_def seg_pos_def z algebra_simps)
  then show "unat (sector_of mt bi bp) = at_byte mt bi bp div 512" by (simp add: u)
  show "first_sector mt bi \<le> unat (sector_of mt bi bp)" by (simp add: u algebra_simps first_sector_def)
qed

lemma sector_in_segment:
  assumes g: "geometry mt bi" and i: "in_segment mt bi bp" and l: "seg_pos mt bp < seg_bytes mt bi"
    and q: "q \<le> 1 \<or> seg_pos mt bp + 512 * q \<le> seg_bytes mt bi"
  shows "unat (sector_of mt bi bp) + q \<le> last_sector mt bi"
proof -
  have e: "512 * last_sector mt bi = unat (bi_number bi) * unat (m_zsize mt) + seg_bytes mt bi"
    using g by (simp add: geometry_def last_sector_def seg_bytes_def algebra_simps)
  have u: "unat (sector_of mt bi bp) = at_byte mt bi bp div 512" by (rule sector_of_exact(1) [OF g i l])
  have "at_byte mt bi bp < 512 * last_sector mt bi" using e l by (simp add: at_byte_def)
  moreover have "q \<le> 1 \<or> at_byte mt bi bp + 512 * q \<le> 512 * last_sector mt bi" using e q by (auto simp: at_byte_def)
  ultimately show ?thesis unfolding u by (auto simp: le_Suc_eq)
qed

lemma byte_in_sector:
  assumes "geometry mt bi"
  shows "unat (bp_byte bp AND 0x1FF) = at_byte mt bi bp mod 512"
proof -
  have "bp_byte bp AND 0x1FF = take_bit 9 (bp_byte bp)" by (simp add: take_bit_eq_mask mask_eq_exp_minus_1)
  then have "unat (bp_byte bp AND 0x1FF) = take_bit 9 (unat (bp_byte bp))" by (simp only: unsigned_take_bit_eq)
  then have "unat (bp_byte bp AND 0x1FF) = unat (bp_byte bp) mod 512" by (simp add: take_bit_eq_mod)
  moreover have "at_byte mt bi bp = unat (bp_byte bp) +
      ((unat (bi_number bi) + unat (bp_offset bp)) * 2 ^ unat (m_sector_scale mt)) * 512"
    using assms by (simp add: at_byte_def seg_pos_def geometry_def algebra_simps)
  ultimately show ?thesis by simp
qed

section \<open>Reads\<close>

text \<open>
  Slot \<open>k\<close> is in a segment, no buffer has unsaved data, and the own buffer holds what is on the medium if it
  holds a sector of the segment or behind it; the segment can be read.
\<close>

definition file_clean :: "nat \<Rightarrow> nat \<Rightarrow> pfs_mount_t \<Rightarrow> pfs_blockinfo_t \<Rightarrow> (nat \<Rightarrow> u8) \<Rightarrow> 'w pfs_drv \<Rightarrow> bool" where
  "file_clean k c mt bi D st \<longleftrightarrow>
     (let slot = pfsFileSlots st k; u = fs_unaligned slot in
      fs_clink slot = Some c \<and> mount_of c (fs st) = Some mt \<and>
      (\<exists>ino. bp_inode (fs_block_pos slot) = Some ino \<and> mount_of ino (fs st) = Some mt) \<and>
      pfsBlockGetCurrent (fs_block_pos slot) (fs st) = Some bi \<and> geometry mt bi \<and> in_segment mt bi (fs_block_pos slot) \<and>
      (\<forall>i. u_dirty (fs_unaligned (pfsFileSlots st i)) = 0) \<and>
      (u_sub u = bi_subpart bi \<and> first_sector mt bi \<le> unat (u_sector u) \<longrightarrow>
         (\<forall>j < 512. u_buffer u j = D (512 * unat (u_sector u) + j))))"

definition file_settled :: "'w pfs_env \<Rightarrow> nat \<Rightarrow> nat \<Rightarrow> pfs_mount_t \<Rightarrow> pfs_blockinfo_t \<Rightarrow> (nat \<Rightarrow> u8) \<Rightarrow> 'w pfs_drv \<Rightarrow> bool" where
  "file_settled E k c mt bi D st \<longleftrightarrow> file_clean k c mt bi D st \<and>
     on_medium E (m_fd mt) (ucast (bi_subpart bi)) (first_sector mt bi) (last_sector mt bi) D (bdev (fs st))"

abbreviation here :: "'w pfs_drv \<Rightarrow> nat \<Rightarrow> pfs_blockpos_t" where
  "here st k \<equiv> fs_block_pos (pfsFileSlots st k)"

text \<open>What a part of a sector, or whole sectors, put into the buffer of the caller.\<close>

definition filled :: "(nat \<Rightarrow> u8) \<Rightarrow> nat \<Rightarrow> nat \<Rightarrow> nat \<Rightarrow> (nat \<Rightarrow> u8) \<Rightarrow> nat \<Rightarrow> u8" where
  "filled D a off n buf i = (if off \<le> i \<and> i < off + n then D (a + (i - off)) else buf i)"

lemma filled_more: "filled D (a + n) (off + n) n' (filled D a off n buf) = filled D a off (n + n') buf"
proof
  fix i
  have "off + n \<le> i \<Longrightarrow> a + n + (i - (off + n)) = a + (i - off)" by simp
  then show "filled D (a + n) (off + n) n' (filled D a off n buf) i = filled D a off (n + n') buf i"
    by (auto simp: filled_def)
qed

lemma dirty_slot_clean: "(\<And>i. u_dirty (fs_unaligned (pfsFileSlots st i)) = 0) \<Longrightarrow> dirty_slot st m sub sector = None"
  by (simp add: dirty_slot_def find_None_iff)

lemma upd_unaligned_here [simp]:
  "fs_unaligned (pfsFileSlots (upd_unaligned k f st) k) = f (fs_unaligned (pfsFileSlots st k))"
  "fs_block_pos (pfsFileSlots (upd_unaligned k f st) i) = fs_block_pos (pfsFileSlots st i)"
  "fs_position (pfsFileSlots (upd_unaligned k f st) i) = fs_position (pfsFileSlots st i)"
  "fs_clink (pfsFileSlots (upd_unaligned k f st) i) = fs_clink (pfsFileSlots st i)"
  "fs (upd_unaligned k f st) = fs st"
  by (simp_all add: upd_unaligned_def upd_fslot_def)

lemma upd_unaligned_twice:
  "upd_unaligned k g (upd_unaligned k f st) = upd_unaligned k (\<lambda>_. g (f (fs_unaligned (pfsFileSlots st k)))) st"
  by (cases "pfsFileSlots st k") (simp add: upd_unaligned_def upd_fslot_def)

lemma load_settled:
  assumes "file_settled E k c mt bi D st" "seg_pos mt (here st k) < seg_bytes mt bi"
  defines "x \<equiv> sector_of mt bi (here st k)"
  obtains u where "load_unaligned E mt k (bi_subpart bi) x True st = (None, upd_unaligned k (\<lambda>_. u) st)"
    "u_dirty u = 0" "u_sub u = bi_subpart bi" "u_sector u = x" "\<And>j. j < 512 \<Longrightarrow> u_buffer u j = D (512 * unat x + j)"
proof -
  let ?u = "fs_unaligned (pfsFileSlots st k)"
  have g: "geometry mt bi" "in_segment mt bi (here st k)" using assms(1) by (simp_all add: file_settled_def file_clean_def Let_def)
  have lo: "first_sector mt bi \<le> unat x" unfolding x_def by (rule sector_of_exact(2) [OF g assms(2)])
  have "unat x + unat (1 :: u32) \<le> last_sector mt bi" unfolding x_def by (rule sector_in_segment [OF g assms(2)]) simp
  with lo assms(1) obtain w where w: "bd_read (pe_bd E) (m_fd mt) (ucast (bi_subpart bi)) x 1 (bdev (fs st)) = (0, w, bdev (fs st))"
    "\<And>j. j < 512 \<Longrightarrow> byte_at w j = D (512 * unat x + j)"
    unfolding file_settled_def on_medium_def by (metis mult.right_neutral unat_1)
  have d: "u_dirty ?u = 0" using assms(1) by (simp add: file_settled_def file_clean_def Let_def)
  show thesis
  proof (cases "u_sector ?u = x \<and> u_sub ?u = bi_subpart bi")
    case True
    then show thesis using assms(1) d lo
      by (intro that [of ?u]) (auto simp: load_unaligned_def Let_def upd_unaligned_def upd_fslot_def file_settled_def file_clean_def)
  next
    case False
    define u where "u = u_buffer_update (\<lambda>b i. if i < 512 then byte_at w i else b i) (?u\<lparr>u_dirty := 0, u_sub := bi_subpart bi, u_sector := x\<rparr>)"
    show thesis
    proof (rule that)
      have "load_unaligned E mt k (bi_subpart bi) x True st =
          (None, upd_unaligned k (u_buffer_update (\<lambda>b i. if i < 512 then byte_at w i else b i))
             (upd_unaligned k (\<lambda>u. u\<lparr>u_dirty := 0, u_sub := bi_subpart bi, u_sector := x\<rparr>) st))"
        using False d w(1) by (auto simp: load_unaligned_def Let_def upd_unaligned_def upd_fslot_def)
      then show "load_unaligned E mt k (bi_subpart bi) x True st = (None, upd_unaligned k (\<lambda>_. u) st)"
        by (simp add: upd_unaligned_twice u_def)
    qed (simp_all add: u_def w(2))
  qed
qed

lemma settled_reloaded:
  assumes "file_settled E k c mt bi D st" "u_dirty u = 0"
    "\<And>j. j < 512 \<Longrightarrow> u_buffer u j = D (512 * unat (u_sector u) + j)"
  shows "file_settled E k c mt bi D (upd_unaligned k (\<lambda>_. u) st)"
  using assms by (auto simp: file_settled_def file_clean_def Let_def upd_unaligned_def upd_fslot_def)

lemma remainder_settled:
  fixes sz :: nat
  assumes s: "file_settled E k c mt bi D st" and l: "seg_pos mt (here st k) < seg_bytes mt bi"
    and e: "fs_position (pfsFileSlots st k) \<noteq> i_size (inode (fs st) c)"
  defines "a \<equiv> at_byte mt bi (here st k)"
  defines "n \<equiv> min sz (512 - a mod 512)"
  shows "\<exists>u. fileTransferRemainder E k buf off (int sz) 0 st = Some (int n, filled D a off n buf, upd_unaligned k (\<lambda>_. u) st) \<and>
    file_settled E k c mt bi D (upd_unaligned k (\<lambda>_. u) st)"
proof -
  let ?x = "sector_of mt bi (here st k)"
  obtain u where u: "load_unaligned E mt k (bi_subpart bi) ?x True st = (None, upd_unaligned k (\<lambda>_. u) st)"
    "u_dirty u = 0" "u_sector u = ?x" "\<And>j. j < 512 \<Longrightarrow> u_buffer u j = D (512 * unat ?x + j)"
    using load_settled [OF s l] by metis
  have g: "geometry mt bi" "in_segment mt bi (here st k)" using s by (simp_all add: file_settled_def file_clean_def Let_def)
  have x: "512 * unat ?x + a mod 512 = a" using sector_of_exact(1) [OF g l] by (simp add: a_def)
  have p: "unat (bp_byte (here st k) AND 0x1FF) = a mod 512" using byte_in_sector [OF g(1)] by (simp add: a_def)
  have m: "min (int sz) (512 - int (a mod 512)) = int n"
    by (simp add: n_def of_nat_diff min_def) linarith?
  have "fileTransferRemainder E k buf off (int sz) 0 st =
      Some (int n, \<lambda>i. if off \<le> i \<and> i < off + n then u_buffer u (a mod 512 + (i - off)) else buf i, upd_unaligned k (\<lambda>_. u) st)"
    using s e u(1) by (auto simp: fileTransferRemainder_def file_settled_def file_clean_def Let_def mount_of_def dirty_slot_clean p m)
  moreover have "(\<lambda>i. if off \<le> i \<and> i < off + n then u_buffer u (a mod 512 + (i - off)) else buf i) = filled D a off n buf"
  proof
    fix i
    have "u_buffer u (a mod 512 + (i - off)) = D (a + (i - off))" if "off \<le> i" "i < off + n"
      using u(4) [of "a mod 512 + (i - off)"] x that by (simp add: n_def add.assoc [symmetric])
    then show "(if off \<le> i \<and> i < off + n then u_buffer u (a mod 512 + (i - off)) else buf i) = filled D a off n buf i"
      by (simp add: filled_def)
  qed
  ultimately show ?thesis using settled_reloaded [OF s u(2)] u(3,4) by auto
qed

lemma direct_settled:
  fixes sz :: nat
  assumes s: "file_settled E k c mt bi D st" and z: "512 \<le> sz" "sz < 2147483648" "seg_pos mt (here st k) + sz \<le> seg_bytes mt bi"
    and al: "bp_byte (here st k) AND 0x1FF = 0"
  defines "n \<equiv> 512 * (sz div 512)"
  shows "transfer_direct E mt bi k buf off (int sz) 0 st = (int n, filled D (at_byte mt bi (here st k)) off n buf, st)"
proof -
  let ?bp = "here st k" and ?q = "sz div 512"
  have g: "geometry mt bi" "in_segment mt bi ?bp" and m: "on_medium E (m_fd mt) (ucast (bi_subpart bi)) (first_sector mt bi) (last_sector mt bi) D (bdev (fs st))"
    using s by (simp_all add: file_settled_def file_clean_def Let_def)
  have r: "unat (bytes_remain mt bi ?bp) = seg_bytes mt bi - seg_pos mt ?bp" by (rule bytes_remain_exact [OF g])
  have q: "unat (word_of_int (int sz div 512) :: u32) = ?q"
    using z(2) by (simp add: zdiv_int [symmetric, of sz 512, simplified] unat_of_nat take_bit_nat_eq_self)
  have "unat (bytes_remain mt bi ?bp div 512) = (seg_bytes mt bi - seg_pos mt ?bp) div 512" by (simp add: unat_div r)
  moreover have "\<dots> < 4294967296"
    by (rule le_less_trans [OF div_le_dividend]) (use g(1) in \<open>auto simp: geometry_def\<close>)
  ultimately have "unat (ucast (bytes_remain mt bi ?bp div 512) :: u32) = (seg_bytes mt bi - seg_pos mt ?bp) div 512"
    by (simp add: unsigned_ucast_eq take_bit_nat_eq_self)
  moreover have "?q \<le> (seg_bytes mt bi - seg_pos mt ?bp) div 512" using z(3) by (intro div_le_mono) simp
  ultimately have mn: "min (ucast (bytes_remain mt bi ?bp div 512)) (word_of_int (int sz div 512) :: u32) = word_of_int (int sz div 512)"
    by (intro min.absorb2) (simp add: word_le_nat_alt q)
  let ?n = "word_of_int (int sz div 512) :: u32"
  have "unat (?n * 512) = n" using z(2) by (simp add: unat_word_ariths q n_def)
  then have sn: "sint (?n * 512) = int n" using z(2) by (subst sint_small) (simp_all add: n_def)
  have l: "seg_pos mt ?bp < seg_bytes mt bi" using z by simp
  have "unat (sector_of mt bi ?bp) + unat ?n \<le> last_sector mt bi"
    unfolding q by (rule sector_in_segment [OF g l]) (use z(3) in auto)
  then obtain w where w: "bd_read (pe_bd E) (m_fd mt) (ucast (bi_subpart bi)) (sector_of mt bi ?bp) ?n (bdev (fs st)) = (0, w, bdev (fs st))"
    "\<And>j. j < 512 * ?q \<Longrightarrow> byte_at w j = D (512 * unat (sector_of mt bi ?bp) + j)"
    using m sector_of_exact(2) [OF g l] unfolding on_medium_def by (metis q)
  from l have "512 * unat (sector_of mt bi ?bp) + at_byte mt bi ?bp mod 512 = at_byte mt bi ?bp" by (simp add: sector_of_exact(1) [OF g])
  moreover have "at_byte mt bi ?bp mod 512 = 0" using byte_in_sector [OF g(1), of ?bp] al by simp
  ultimately have "512 * unat (sector_of mt bi ?bp) = at_byte mt bi ?bp" by simp
  with w(2) have "(\<lambda>i. if off \<le> i \<and> i < off + 512 * ?q then byte_at w (i - off) else buf i) = filled D (at_byte mt bi ?bp) off n buf"
    by (auto simp: filled_def n_def fun_eq_iff)
  then show ?thesis unfolding transfer_direct_def Let_def mn by (simp add: w(1) q sn)
qed

lemma advance_settled:
  assumes s: "file_settled E k c mt bi D st" and n: "n < 2147483648" "seg_pos mt (here st k) + n \<le> seg_bytes mt bi"
    and e: "unat (fs_position (pfsFileSlots st k)) + n \<le> unat (i_size (inode (fs st) c))"
  shows "\<exists>t. advance k (int n) st = Some t \<and> file_settled E k c mt bi D t \<and> fs t = fs st \<and>
    unat (fs_position (pfsFileSlots t k)) = unat (fs_position (pfsFileSlots st k)) + n \<and> seg_pos mt (here t k) = seg_pos mt (here st k) + n"
proof -
  let ?bp = "here st k"
  have g: "geometry mt bi" "in_segment mt bi ?bp" and c: "fs_clink (pfsFileSlots st k) = Some c"
    using s by (simp_all add: file_settled_def file_clean_def Let_def)
  from s obtain ino where ino: "bp_inode ?bp = Some ino" "mount_of ino (fs st) = Some mt" by (auto simp: file_settled_def file_clean_def Let_def)
  have z: "0 < m_zsize mt" "unat (m_zsize mt) \<le> 131072" "m_zsize mt \<noteq> 0"
    using g by (auto simp: geometry_def in_segment_def word_less_nat_alt)
  have un: "unat (of_nat n :: u64) = n" using n(1) by (simp add: unat_of_nat take_bit_nat_eq_self)
  have p: "unat (fs_position (pfsFileSlots st k) + of_nat n) = unat (fs_position (pfsFileSlots st k)) + n"
    using e unat_u64 [of "i_size (inode (fs st) c)"] by (simp add: unat_word_ariths un)
  then have grow: "\<not> i_size (inode (fs st) c) < fs_position (pfsFileSlots st k) + of_nat n" using e by (simp add: word_less_nat_alt)
  obtain zn bp where sp: "sync_pos (m_zsize mt) ?bp (of_nat n) = (zn, bp)" by fastforce
  have "n div unat (m_zsize mt) \<le> n" by simp
  then have dv: "unat (of_nat n :: u64) div unat (m_zsize mt) < 2147483648" unfolding un using n(1) by linarith
  have b: "bp_byte ?bp < m_zsize mt" using g(2) by (simp add: in_segment_def)
  note x = sync_pos_exact [OF z(1,2) b dv sp, unfolded un]
  define bp' where "bp' = bp\<lparr>bp_offset := bp_offset bp + zn\<rparr>"
  have "unat zn \<le> n + 1" using x(6) \<open>n div _ \<le> n\<close> by linarith
  moreover have "unat (bp_offset ?bp) \<le> 65535" using offset_bounds [OF g(2)] unat_u16 [of "bi_count bi"] by simp
  ultimately have "unat (bp_offset bp + zn) = unat (bp_offset ?bp) + unat zn" using n(1) by (simp add: unat_word_ariths x(5))
  then have pos: "seg_pos mt bp' = seg_pos mt ?bp + n" using x(1) by (simp add: seg_pos_def bp'_def algebra_simps)
  define t where "t = upd_fslot k (\<lambda>sl. (fs_position_update (\<lambda>p. p + of_nat n) sl)\<lparr>fs_block_pos := bp'\<rparr>) st"
  have "advance k (int n) st = Some t"
    using c grow ino z(3) sp by (simp add: advance_def upd_fslot_def pfsBlockSyncPos_def Let_def t_def bp'_def)
  moreover have "file_settled E k c mt bi D t"
    using s pos n(2) x(2-4) ino
    by (auto simp: file_settled_def file_clean_def Let_def t_def upd_fslot_def in_segment_def bp'_def pfsBlockGetCurrent_def)
  ultimately show ?thesis using pos p by (auto simp: t_def upd_fslot_def)
qed

lemma step_settled:
  fixes sz :: nat
  assumes s: "file_settled E k c mt bi D st" and z: "0 < sz" "sz < 2147483648" "seg_pos mt (here st k) + sz \<le> seg_bytes mt bi"
    and e: "unat (fs_position (pfsFileSlots st k)) + sz \<le> unat (i_size (inode (fs st) c))"
  shows "\<exists>n t. 0 < n \<and> n \<le> sz \<and>
    transfer_step E k addr buf off (int sz) 0 st = Some (Inr (int n), filled D (at_byte mt bi (here st k)) off n buf, t) \<and>
    file_settled E k c mt bi D t \<and> fs t = fs st \<and>
    unat (fs_position (pfsFileSlots t k)) = unat (fs_position (pfsFileSlots st k)) + n \<and> seg_pos mt (here t k) = seg_pos mt (here st k) + n"
proof -
  let ?bp = "here st k" and ?a = "at_byte mt bi (here st k)"
  have g: "geometry mt bi" "in_segment mt bi ?bp" using s by (simp_all add: file_settled_def file_clean_def Let_def)
  have r: "bytes_remain mt bi ?bp \<noteq> 0"
  proof
    assume "bytes_remain mt bi ?bp = 0"
    then show False using bytes_remain_exact [OF g] z by simp
  qed
  have run: "transfer_step E k addr buf off (int sz) 0 st = do {
      (r, buf, st) \<leftarrow>
        (if bp_byte ?bp AND 0x1FF \<noteq> 0 \<or> int sz < 512 \<or> (addr + of_nat off) AND 3 \<noteq> 0
         then fileTransferRemainder E k buf off (int sz) 0 st
         else Some (transfer_direct E mt bi k buf off (int sz) 0 st));
      if r < 0 then Some (Inl r, buf, st)
      else do { st \<leftarrow> advance k r st; Some (Inr r, buf, st) } }"
    using s r by (auto simp: transfer_step_def next_segment_def flush_partial_def file_settled_def file_clean_def Let_def)
  show ?thesis
  proof (cases "bp_byte ?bp AND 0x1FF \<noteq> 0 \<or> sz < 512 \<or> (addr + of_nat off) AND 3 \<noteq> 0")
    case True
    define n where "n = min sz (512 - ?a mod 512)"
    have n: "0 < n" "n \<le> sz" using z(1) by (simp_all add: n_def)
    have ne: "fs_position (pfsFileSlots st k) \<noteq> i_size (inode (fs st) c)" using e z(1) by auto
    obtain u where u: "fileTransferRemainder E k buf off (int sz) 0 st = Some (int n, filled D ?a off n buf, upd_unaligned k (\<lambda>_. u) st)"
      "file_settled E k c mt bi D (upd_unaligned k (\<lambda>_. u) st)"
      using remainder_settled [OF s _ ne, of buf off sz] z unfolding n_def by auto
    obtain t where "advance k (int n) (upd_unaligned k (\<lambda>_. u) st) = Some t" "file_settled E k c mt bi D t" "fs t = fs st"
      "unat (fs_position (pfsFileSlots t k)) = unat (fs_position (pfsFileSlots st k)) + n" "seg_pos mt (here t k) = seg_pos mt ?bp + n"
      using advance_settled [OF u(2), of n] n z e by auto
    with True n u(1) show ?thesis unfolding run by (intro exI [of _ n] exI [of _ t]) auto
  next
    case False
    define n where "n = 512 * (sz div 512)"
    have n: "0 < n" "n \<le> sz" using False by (auto simp: n_def div_greater_zero_iff)
    have d: "transfer_direct E mt bi k buf off (int sz) 0 st = (int n, filled D ?a off n buf, st)"
      using direct_settled [OF s _ z(2,3), of buf off] False by (simp add: n_def)
    obtain t where "advance k (int n) st = Some t" "file_settled E k c mt bi D t" "fs t = fs st"
      "unat (fs_position (pfsFileSlots t k)) = unat (fs_position (pfsFileSlots st k)) + n" "seg_pos mt (here t k) = seg_pos mt ?bp + n"
      using advance_settled [OF s, of n] n z e by auto
    with False n d show ?thesis unfolding run by (intro exI [of _ n] exI [of _ t]) auto
  qed
qed

lemma loop_settled:
  fixes sz :: nat
  assumes "file_settled E k c mt bi D st" "sz < 2147483648" "seg_pos mt (here st k) + sz \<le> seg_bytes mt bi"
    "unat (fs_position (pfsFileSlots st k)) + sz \<le> unat (i_size (inode (fs st) c))"
  shows "\<exists>t. transfer_loop E k addr whole buf off (int sz) 0 st = Some (whole, filled D (at_byte mt bi (here st k)) off sz buf, t) \<and>
    file_settled E k c mt bi D t \<and> fs t = fs st \<and>
    unat (fs_position (pfsFileSlots t k)) = unat (fs_position (pfsFileSlots st k)) + sz \<and> seg_pos mt (here t k) = seg_pos mt (here st k) + sz"
  using assms
proof (induction sz arbitrary: st buf off rule: less_induct)
  case (less sz)
  show ?case
  proof (cases "sz = 0")
    case True
    have "filled D a off 0 buf = buf" for a by (auto simp: filled_def fun_eq_iff)
    with True less.prems show ?thesis by (subst transfer_loop.simps) simp
  next
    case False
    with step_settled [OF less.prems(1) _ less.prems(2-4), of addr buf off] obtain n t where n: "0 < n" "n \<le> sz"
      and r: "transfer_step E k addr buf off (int sz) 0 st = Some (Inr (int n), filled D (at_byte mt bi (here st k)) off n buf, t)"
      and t: "file_settled E k c mt bi D t" "fs t = fs st"
        "unat (fs_position (pfsFileSlots t k)) = unat (fs_position (pfsFileSlots st k)) + n" "seg_pos mt (here t k) = seg_pos mt (here st k) + n"
      by auto
    have a: "at_byte mt bi (here t k) = at_byte mt bi (here st k) + n" by (simp add: at_byte_def t(4))
    have sm: "int sz - int n = int (sz - n)" using n by simp
    have "transfer_loop E k addr whole buf off (int sz) 0 st =
        transfer_loop E k addr whole (filled D (at_byte mt bi (here st k)) off n buf) (off + n) (int (sz - n)) 0 t"
      using False by (subst transfer_loop.simps) (simp add: r sm)
    moreover have "sz - n < sz" using n by simp
    ultimately show ?thesis
      using less.IH [OF _ t(1), of "sz - n" "filled D (at_byte mt bi (here st k)) off n buf" "off + n"] less.prems n t a
      by (auto simp: filled_more)
  qed
qed

lemma settled_sema [simp]: "file_settled E k c mt bi D (st\<lparr>pfsFioSema := b\<rparr>) = file_settled E k c mt bi D st"
  by (simp add: file_settled_def file_clean_def Let_def)

lemma read_size_exact:
  assumes "unat fsize < 9223372036854775808" "unat position \<le> unat fsize" "sz < 2147483648"
  shows "read_size fsize position (int sz) = int (min sz (unat fsize - unat position))"
proof -
  have "unat (of_nat sz :: u64) = sz" using assms(3) by (simp add: unat_of_nat take_bit_nat_eq_self)
  then have s: "unat (position + of_nat sz) = unat position + sz" using assms by (simp add: unat_word_ariths)
  show ?thesis
  proof (cases "unat fsize < unat position + sz")
    case True
    have "unat (fsize - position) = unat fsize - unat position" using assms(2) by (simp add: unat_sub word_le_nat_alt)
    moreover have lt: "unat fsize - unat position < 2147483648" using True assms(3) by linarith
    ultimately have "unat (ucast (fsize - position) :: u32) = unat fsize - unat position"
      by (simp add: unsigned_ucast_eq take_bit_nat_eq_self)
    then have "sint (ucast (fsize - position) :: u32) = int (unat fsize - unat position)"
      using lt by (subst sint_small) simp_all
    with True s assms(2) show ?thesis by (simp add: read_size_def word_less_nat_alt)
  qed (use s assms in \<open>simp add: read_size_def word_less_nat_alt\<close>)
qed

lemma read_settled:
  assumes "file_settled E k c mt bi D st" "hf_privdata f = Some k" "pfsFioSema st" "m_lastError mt = 0"
    "fsize = unat (i_size (inode (fs st) c))" "pos = unat (fs_position (pfsFileSlots st k))" "n = min sz (fsize - pos)"
    "fsize < 9223372036854775808" "pos \<le> fsize" "sz < 2147483648" "seg_pos mt (here st k) + n \<le> seg_bytes mt bi"
  shows "\<exists>t. pfsFioRead E f addr buf (int sz) st =
      Some (int n, filled D (at_byte mt bi (here st k)) 0 n buf, t) \<and>
    pfsFioSema t \<and> unat (fs_position (pfsFileSlots t k)) = pos + n \<and> file_settled E k c mt bi D t"
proof -
  let ?st = "st\<lparr>pfsFioSema := False\<rparr>"
  have c: "fs_clink (pfsFileSlots st k) = Some c" "pfsMounts (fs st) (p_mount (pfsCacheBuf (fs st) c)) = mt"
    using assms(1) by (auto simp: file_settled_def file_clean_def Let_def mount_of_def mnt_def split: if_splits)
  have r: "read_size (i_size (inode (fs st) c)) (fs_position (pfsFileSlots st k)) (int sz) = int n"
    using assms by (simp add: read_size_exact)
  have s: "file_settled E k c mt bi D ?st" and n: "n < 2147483648" "pos + n \<le> fsize" using assms by simp_all
  obtain t where t: "transfer_loop E k addr (int n) buf 0 (int n) 0 ?st = Some (int n, filled D (at_byte mt bi (here st k)) 0 n buf, t)"
      "file_settled E k c mt bi D t" "fs t = fs st" "unat (fs_position (pfsFileSlots t k)) = pos + n"
    using loop_settled [OF s n(1), of addr "int n" buf 0] assms n(2) by auto
  have z: "n = 0 \<Longrightarrow> filled D a 0 n buf = buf" for a by (simp add: filled_def fun_eq_iff)
  have "fileTransfer E k addr buf (int n) 0 ?st = Some (int n, filled D (at_byte mt bi (here st k)) 0 n buf, t)"
    using t(1) by (simp add: fileTransfer_def)
  moreover have chk: "pfsFioCheckFileSlot (Some k) st = Some (0, ?st)"
    using assms(3) c by (auto simp: pfsFioCheckFileSlot_def pfsWait_def)
  ultimately show ?thesis
    using assms(1-4,6) c t z
    by (cases "n = 0") (simp_all add: pfsFioRead_def r pfsFioCheckForLastError_def pfsSignal_def Let_def)
qed


text \<open>The bytes of consecutive sectors, each a function of its own.\<close>

lemma sector_bytes:
  "byte_at (\<lambda>k. f (sector + of_nat (k div 128)) (k mod 128)) j =
     byte_at (f (of_nat ((512 * unat (sector :: u32) + j) div 512))) ((512 * unat sector + j) mod 512)"
proof -
  have "j div 4 div 128 = j div 512" "j mod 512 mod 4 = j mod 4" "j mod 512 div 4 = j div 4 mod 128"
    using div_mult2_eq [of j 4 128] mod_mult2_eq [of j 4 128] by (simp_all add: mod_mod_cancel)
  then show ?thesis by (simp add: byte_at_def)
qed

lemma ram_on_medium: "on_medium ram_env fd sub lo hi (\<lambda>b. byte_at (d sub (of_nat (b div 512))) (b mod 512)) d"
  using sector_bytes [of "d sub"] by (simp add: on_medium_def ram_env_def ram_device_def ram_read_def)

text \<open>A file of three bytes in the second segment of the inode of PfsSeek; every word of a sector is its number.\<close>

definition read_state :: "ram_disk pfs_drv" where
  "read_state = pfs_loaded\<lparr>fs := blank_state\<lparr>pfsCacheBuf := (\<lambda>_. (empty_entry (seek_inode(I_SIZE := 3)))\<lparr>p_mount := 1\<rparr>),
       pfsMounts := (\<lambda>_. blank_mount\<lparr>m_zsize := 8192, m_sector_scale := 4\<rparr>), bdev := (\<lambda>_ x _. x)\<rparr>,
     pfsFileSlots := (\<lambda>_. empty_file_slot\<lparr>fs_clink := Some 0,
       fs_block_pos := \<lparr>bp_inode = Some 0, bp_segment = 1, bp_offset = 0, bp_byte = 0\<rparr>\<rparr>), pfsFioSema := True\<rparr>"


section \<open>Sector buffers\<close>

text \<open>The block device reports errors with negative numbers.\<close>

definition errors_negative :: "'w pfs_env \<Rightarrow> bool" where
  "errors_negative E \<longleftrightarrow> (\<forall>fd sub sector n d. fst (bd_read (pe_bd E) fd sub sector n d) \<le> 0) \<and>
     (\<forall>fd w sub sector n d. fst (bd_write (pe_bd E) fd w sub sector n d) \<le> 0)"

abbreviation with_bdev :: "'w \<Rightarrow> 'w pfs_drv \<Rightarrow> 'w pfs_drv" where
  "with_bdev d st \<equiv> st\<lparr>fs := (fs st)\<lparr>bdev := d\<rparr>\<rparr>"

lemma write_unaligned_bdev: "write_unaligned E mt u st = (r, t) \<Longrightarrow> \<exists>d. t = with_bdev d st"
  by (auto simp: write_unaligned_def split: prod.splits)

lemma upd_unaligned_fs [simp]: "(upd_unaligned k f st)\<lparr>fs := s\<rparr> = upd_unaligned k f (st\<lparr>fs := s\<rparr>)"
  by (simp add: upd_unaligned_def upd_fslot_def)

lemma upd_unaligned_const: "upd_unaligned k f st = upd_unaligned k (\<lambda>_. f (fs_unaligned (pfsFileSlots st k))) st"
  by (cases "pfsFileSlots st k") (simp add: upd_unaligned_def upd_fslot_def)

lemma load_result:
  assumes "load_unaligned E mt k sub x needed st = (err, t)"
  shows "errors_negative E \<Longrightarrow> err = Some e \<Longrightarrow> e < 0"
    and "err = None \<Longrightarrow> \<exists>u d. t = upd_unaligned k (\<lambda>_. u) (with_bdev d st) \<and> u_sub u = sub \<and> u_sector u = x"
proof -
  let ?u = "fs_unaligned (pfsFileSlots st k)"
  have same: "st = upd_unaligned k (\<lambda>_. ?u) (with_bdev (bdev (fs st)) st)"
    by (simp add: upd_unaligned_def upd_fslot_def)
  obtain r1 d1 where w: "(if u_dirty ?u \<noteq> 0 then write_unaligned E mt ?u st else (0, st)) = (r1, with_bdev d1 st)"
    "errors_negative E \<Longrightarrow> r1 \<le> 0"
  proof (cases "u_dirty ?u \<noteq> 0")
    case True
    then show thesis
      by (intro that [of "fst (write_unaligned E mt ?u st)" "bdev (fs (snd (write_unaligned E mt ?u st)))"])
        (auto simp: write_unaligned_def errors_negative_def split: prod.splits, metis fst_conv)
  next
    case False
    then show thesis by (intro that [of 0 "bdev (fs st)"]) auto
  qed
  obtain r2 b2 d2 where r: "bd_read (pe_bd E) (m_fd mt) (ucast sub) x 1 d1 = (r2, b2, d2)" by (cases "bd_read (pe_bd E) (m_fd mt) (ucast sub) x 1 d1")
  let ?g = "\<lambda>u. u\<lparr>u_dirty := 0, u_sub := sub, u_sector := x\<rparr>" and ?h = "u_buffer_update (\<lambda>b i. if i < 512 then byte_at b2 i else b i)"
  have run: "(err, t) = (if u_sector ?u = x \<and> u_sub ?u = sub then (None, st) else if r1 \<noteq> 0 then (Some r1, with_bdev d1 st)
      else if \<not> needed then (None, upd_unaligned k ?g (with_bdev d1 st))
      else (if r2 \<noteq> 0 then Some (r2 OR 0x10000) else None, upd_unaligned k (\<lambda>_. ?h (?g ?u)) (with_bdev d2 st)))"
    unfolding assms [symmetric] load_unaligned_def Let_def by (simp add: w(1) r upd_unaligned_twice cong: if_cong)
  show "e < 0" if "errors_negative E" "err = Some e"
    using run that w(2) r by (auto simp: errors_negative_def split: if_splits) (metis fst_conv order.not_eq_order_implies_strict)+
  show "\<exists>u d. t = upd_unaligned k (\<lambda>_. u) (with_bdev d st) \<and> u_sub u = sub \<and> u_sector u = x" if "err = None"
  proof -
    note none = that
    consider "t = st" "u_sector ?u = x" "u_sub ?u = sub" | "t = upd_unaligned k (\<lambda>_. ?g ?u) (with_bdev d1 st)"
      | "t = upd_unaligned k (\<lambda>_. ?h (?g ?u)) (with_bdev d2 st)"
      using run none upd_unaligned_const [of k ?g "with_bdev d1 st"] by (auto split: if_splits)
    then show ?thesis
    proof cases
      case 1
      then show ?thesis using same by (intro exI [of _ ?u] exI [of _ "bdev (fs st)"]) simp
    next
      case 2
      then show ?thesis by (intro exI [of _ "?g ?u"] exI [of _ d1]) simp
    next
      case 3
      then show ?thesis by (intro exI [of _ "?h (?g ?u)"] exI [of _ d2]) simp
    qed
  qed
qed

abbreviation sector_byte :: "'w pfs_drv \<Rightarrow> nat \<Rightarrow> nat" where
  "sector_byte st k \<equiv> unat (bp_byte (here st k) AND 0x1FF)"

lemma byte_le: "unat ((w :: u32) AND 0x1FF) \<le> 511"
proof -
  have "w AND 0x1FF = take_bit 9 w" by (simp add: take_bit_eq_mask mask_eq_exp_minus_1)
  then have "unat (w AND 0x1FF) = take_bit 9 (unat w)" by (simp only: unsigned_take_bit_eq)
  then show ?thesis using take_bit_nat_less_exp [of 9 "unat w"] by simp
qed

lemma buffered_write:
  assumes "errors_negative E" "fs_clink (pfsFileSlots st k) = Some c" "mount_of c (fs st) = Some mt"
    "pfsBlockGetCurrent (here st k) (fs st) = Some bi" "m_flags mt AND PFS_FIO_ATTR_WRITEABLE = 0"
    "fileTransferRemainder E k buf off sz 1 st = Some (n, b, t)" "0 \<le> n"
  obtains u d where "t = upd_unaligned k (\<lambda>_. u) (with_bdev d st)" "u_dirty u = 1" "u_sub u = bi_subpart bi"
    "u_sector u = sector_of mt bi (here st k)" "\<And>i. i < nat n \<Longrightarrow> u_buffer u (sector_byte st k + i) = buf (off + i)"
proof -
  let ?need = "sector_byte st k \<noteq> 0 \<or> fs_position (pfsFileSlots st k) \<noteq> i_size (inode (fs st) c)"
  obtain err t1 where l: "load_unaligned E mt k (bi_subpart bi) (sector_of mt bi (here st k)) ?need st = (err, t1)" by fastforce
  show thesis
  proof (cases err)
    case (Some e)
    with assms l have "n = e" by (auto simp: fileTransferRemainder_def Let_def mount_of_def)
    with load_result(1) [OF l assms(1) Some] assms(7) show thesis by simp
  next
    case None
    obtain u d where u: "t1 = upd_unaligned k (\<lambda>_. u) (with_bdev d st)" "u_sub u = bi_subpart bi" "u_sector u = sector_of mt bi (here st k)"
      using load_result(2) [OF l None] by blast
    let ?g = "u_buffer_update (\<lambda>b j. if sector_byte st k \<le> j \<and> j < sector_byte st k + nat n then buf (off + (j - sector_byte st k)) else b j)"
    have "t = upd_unaligned k (u_dirty_update (\<lambda>_. 1)) (upd_unaligned k ?g t1)"
      using assms(2-7) l None by (auto simp: fileTransferRemainder_def Let_def mount_of_def split: if_splits)
    then show thesis using u by (intro that [of "(?g u)\<lparr>u_dirty := 1\<rparr>" d]) (simp_all add: upd_unaligned_twice)
  qed
qed


lemma sector_480:
  "sector_of (blank_mount\<lparr>m_zsize := 8192, m_sector_scale := 4\<rparr>) \<lparr>bi_number = 30, bi_subpart = 0, bi_count = 2\<rparr>
     \<lparr>bp_inode = Some 0, bp_segment = 1, bp_offset = 0, bp_byte = 0\<rparr> = 480"
  by (simp add: sector_of_def)

lemma read_state_current:
  "pfsBlockGetCurrent \<lparr>bp_inode = Some 0, bp_segment = 1, bp_offset = 0, bp_byte = 0\<rparr> (fs read_state) =
     Some \<lparr>bi_number = 30, bi_subpart = 0, bi_count = 2\<rparr>"
  "mount_of c (fs read_state) = Some (blank_mount\<lparr>m_zsize := 8192, m_sector_scale := 4\<rparr>)"
  by (simp_all add: pfsBlockGetCurrent_def pfsFixIndex_def inode_def read_state_def empty_entry_def seek_inode_def seg_at_def
      get_bi_def put_seg_def put_bi_def mount_of_def mnt_def)


text \<open>
  (C39) A read that finds the sector in the buffer of another file takes that buffer over its own without a look
  at what it holds: its own buffer keeps its sector and stays marked as unsaved, but has the bytes of the
  other sector, which later replace the unsaved data on the disk.
\<close>

theorem buffer_takeover:
  assumes "fs_clink (pfsFileSlots st k) = Some c" "mount_of c (fs st) = Some mt" "pfsBlockGetCurrent (here st k) (fs st) = Some bi"
    "dirty_slot st (p_mount (pfsCacheBuf (fs st) c)) (bi_subpart bi) (sector_of mt bi (here st k)) = Some i" "i \<noteq> k"
    "0 \<le> sz" "u = fs_unaligned (pfsFileSlots st k)"
  shows "\<exists>r b t u'. fileTransferRemainder E k buf off sz 0 st = Some (r, b, t) \<and> u' = fs_unaligned (pfsFileSlots t k) \<and>
    u_sector u' = u_sector u \<and> u_sub u' = u_sub u \<and> u_dirty u' = u_dirty u \<and>
    (\<forall>j. u_buffer u' j = (if j < 512 then u_buffer (fs_unaligned (pfsFileSlots st i)) j else u_buffer u j))"
proof -
  have "int (sector_byte st k) \<le> int 511" unfolding of_nat_le_iff by (rule byte_le)
  then have "\<not> min sz (512 - int (sector_byte st k)) < 0" using assms(6) by linarith
  with assms show ?thesis by (simp add: fileTransferRemainder_def mount_of_def Let_def)
qed

theorem buffer_takeover_witness:
  "\<exists>st r b t. u_sector (fs_unaligned (pfsFileSlots st 0)) = 77 \<and> u_dirty (fs_unaligned (pfsFileSlots st 0)) = 1 \<and>
     fileTransferRemainder ram_env 0 (\<lambda>_. 0) 0 4 0 st = Some (r, b, t) \<and>
     u_sector (fs_unaligned (pfsFileSlots t 0)) = 77 \<and> u_buffer (fs_unaligned (pfsFileSlots st 0)) 0 = 1 \<and>
     u_buffer (fs_unaligned (pfsFileSlots t 0)) 0 = 2"
proof -
  let ?u0 = "\<lparr>u_dirty = 1, u_sub = 0, u_sector = 77, u_buffer = (\<lambda>_. 1)\<rparr>" and ?u1 = "\<lparr>u_dirty = 1, u_sub = 0, u_sector = 480, u_buffer = (\<lambda>_. 2)\<rparr>"
  define st where "st = upd_unaligned 0 (\<lambda>_. ?u0) (upd_unaligned 1 (\<lambda>_. ?u1) read_state)"
  have s: "fs st = fs read_state" "fs_unaligned (pfsFileSlots st 0) = ?u0" "fs_unaligned (pfsFileSlots st 1) = ?u1"
    "fs_clink (pfsFileSlots st k) = Some 0" "here st k = \<lparr>bp_inode = Some 0, bp_segment = 1, bp_offset = 0, bp_byte = 0\<rparr>" "maxOpen st = 2" for k
    by (simp_all add: st_def upd_unaligned_def upd_fslot_def) (simp_all add: read_state_def pfs_loaded_def)
  have "[0..<2] = [0, 1 :: nat]" by (simp add: upt_rec)
  then have d: "dirty_slot st (p_mount (pfsCacheBuf (fs st) 0)) 0 480 = Some 1"
    by (simp add: dirty_slot_def has_sector_def slot_mount_def s(1,2,4,6) s(3) [unfolded One_nat_def])
  show ?thesis
    using buffer_takeover [where st = st and k = 0 and c = 0 and i = 1 and u = ?u0 and sz = 4 and E = ram_env and buf = "\<lambda>_. 0" and off = 0
        and mt = "blank_mount\<lparr>m_zsize := 8192, m_sector_scale := 4\<rparr>" and bi = "\<lparr>bi_number = 30, bi_subpart = 0, bi_count = 2\<rparr>"] d s(3,4)
    by (intro exI [of _ st]) (auto simp: s(1,2,5) sector_480 read_state_current)
qed

end
