(* ===== verification/PfsOnHdd.thy ===== *)
theory PfsOnHdd
  imports PfsData HddFiles
begin

text \<open>
  The file system on the partition driver: the entries of \<open>pfsBlockDeviceCallTable\<close> of
  iop/hdd/libpfs/src/misc.c, which send the transfers of PFS as \<open>ioctl2\<close> requests to the APA driver, and what a
  read through the whole stack gives. \<open>files\<close> is the descriptor table of the file manager: the file of the
  APA driver a descriptor stands for. \<open>junk\<close> is the uninitialised variable of \<open>hddIoctl2\<close>.
\<close>

section \<open>The call table\<close>

definition fd_ioctl2 :: "'d ata_ops \<Rightarrow> u32 \<Rightarrow> (int \<Rightarrow> hdd_file option) \<Rightarrow> int \<Rightarrow> hdd_ioctl2 \<Rightarrow> 'd hdd_state \<Rightarrow>
    (int \<times> words option \<times> 'd hdd_state) option" where
  "fd_ioctl2 A junk files fd req s =
     (case files fd of None \<Rightarrow> Some (- EBADF, None, s) | Some f \<Rightarrow> hddIoctl2 A junk f req s)"

definition pfsHddTransfer :: "'d ata_ops \<Rightarrow> u32 \<Rightarrow> (int \<Rightarrow> hdd_file option) \<Rightarrow> int \<Rightarrow> words option \<Rightarrow> u32 \<Rightarrow> u32 \<Rightarrow> u32 \<Rightarrow> 'd hdd_state \<Rightarrow>
    (int \<times> words option \<times> 'd hdd_state) option" where
  "pfsHddTransfer A junk files fd buf sub sector n =
     fd_ioctl2 A junk files fd (HIOCTRANSFER \<lparr>tr_sub = sub, tr_sector = sector, tr_size = n, tr_buffer = buf\<rparr>)"

definition pfsHddGetSubCount :: "'d ata_ops \<Rightarrow> u32 \<Rightarrow> (int \<Rightarrow> hdd_file option) \<Rightarrow> int \<Rightarrow> 'd hdd_state \<Rightarrow> (u32 \<times> 'd hdd_state) option" where
  "pfsHddGetSubCount A junk files fd s = do {
     (rv, _, s) \<leftarrow> fd_ioctl2 A junk files fd HIOCNSUB s;
     Some (word_of_int rv, s) }"

definition pfsHddGetPartSize :: "'d ata_ops \<Rightarrow> u32 \<Rightarrow> (int \<Rightarrow> hdd_file option) \<Rightarrow> int \<Rightarrow> u32 \<Rightarrow> 'd hdd_state \<Rightarrow> (u32 \<times> 'd hdd_state) option" where
  "pfsHddGetPartSize A junk files fd sub s = do {
     (rv, _, s) \<leftarrow> fd_ioctl2 A junk files fd (HIOCGETSIZE sub) s;
     Some (word_of_int rv, s) }"

definition pfsHddSetPartError :: "'d ata_ops \<Rightarrow> u32 \<Rightarrow> (int \<Rightarrow> hdd_file option) \<Rightarrow> int \<Rightarrow> 'd hdd_state \<Rightarrow> 'd hdd_state option" where
  "pfsHddSetPartError A junk files fd s = do { (_, _, s) \<leftarrow> fd_ioctl2 A junk files fd HIOCSETPARTERROR s; Some s }"

definition pfsHddFlushCache :: "'d ata_ops \<Rightarrow> u32 \<Rightarrow> (int \<Rightarrow> hdd_file option) \<Rightarrow> int \<Rightarrow> 'd hdd_state \<Rightarrow> (int \<times> 'd hdd_state) option" where
  "pfsHddFlushCache A junk files fd s = do {
     (rv, _, s) \<leftarrow> fd_ioctl2 A junk files fd HIOCFLUSH s;
     Some (rv, s) }"

text \<open>
  The table as the block device of PFS. A read that fails leaves the buffer as it was, which is \<open>stale\<close>. The
  entries of \<open>pfs_block_device_t\<close> always return; \<open>stuck\<close> is the number that stands for the result of a call
  that does not. Both are arbitrary in every theorem. Clock and memory are those of the partition driver.
\<close>

definition hdd_block_device :: "'d ata_ops \<Rightarrow> u32 \<Rightarrow> words \<Rightarrow> int \<Rightarrow> (int \<Rightarrow> hdd_file option) \<Rightarrow> 'd hdd_state pfs_block_device_t" where
  "hdd_block_device A junk stale stuck files =
     \<lparr>bd_read = (\<lambda>fd sub sector n s. case pfsHddTransfer A junk files fd None sub sector n s of
          None \<Rightarrow> (stuck, stale, s) | Some (rv, w, s) \<Rightarrow> (rv, case w of Some w \<Rightarrow> w | None \<Rightarrow> stale, s)),
      bd_write = (\<lambda>fd w sub sector n s. case pfsHddTransfer A junk files fd (Some w) sub sector n s of
          None \<Rightarrow> (stuck, s) | Some (rv, _, s) \<Rightarrow> (rv, s)),
      bd_getSubNumber = (\<lambda>fd s. case pfsHddGetSubCount A junk files fd s of None \<Rightarrow> word_of_int stuck | Some (n, _) \<Rightarrow> n),
      bd_getSize = (\<lambda>fd sub s. case pfsHddGetPartSize A junk files fd sub s of None \<Rightarrow> word_of_int stuck | Some (n, _) \<Rightarrow> n),
      bd_setPartitionError = (\<lambda>fd s. case pfsHddSetPartError A junk files fd s of None \<Rightarrow> s | Some s \<Rightarrow> s),
      bd_flushCache = (\<lambda>fd s. case pfsHddFlushCache A junk files fd s of None \<Rightarrow> (stuck, s) | Some r \<Rightarrow> r),
      bd_clock = (\<lambda>s. case io_clock A (dev (apa s)) of (r, c, d) \<Rightarrow> (r, c, s\<lparr>apa := (apa s)\<lparr>dev := d\<rparr>\<rparr>)),
      bd_alloc = sys_alloc A\<rparr>"

section \<open>Reading through the stack\<close>

text \<open>The sectors from \<open>lo\<close> up to \<open>hi\<close> of the drive can be read, and their bytes are those of \<open>D\<close>.\<close>

definition drive_holds :: "'d ata_ops \<Rightarrow> u32 \<Rightarrow> nat \<Rightarrow> nat \<Rightarrow> (nat \<Rightarrow> u8) \<Rightarrow> 'd \<Rightarrow> bool" where
  "drive_holds A device lo hi D d \<longleftrightarrow> (\<forall>lba n. lo \<le> unat lba \<longrightarrow> unat lba + n \<le> hi \<longrightarrow>
     (\<exists>w. io_read A device lba n d = (True, w, d) \<and> (\<forall>j < 512 * n. byte_at w j = D (512 * unat lba + j))))"

text \<open>The descriptor stands for the partition in \<open>slot\<close>, the semaphore of its driver is free.\<close>

definition opened :: "(int \<Rightarrow> hdd_file option) \<Rightarrow> int \<Rightarrow> u32 \<Rightarrow> hdd_file_slot_t \<Rightarrow> 'd hdd_state \<Rightarrow> bool" where
  "opened files fd device slot s \<longleftrightarrow> fioSema s \<and>
     (\<exists>f h. files fd = Some f \<and> hdd_unit f = device \<and> hf_privdata f = Some h \<and> slot_at h s = Some slot)"

lemma hdd_on_medium:
  assumes E: "pe_bd E = hdd_block_device A junk stale stuck files" and op: "opened files fd device slot s"
    and d: "drive_holds A device (unat (sl_start slot (unat sub))) (unat (sl_start slot (unat sub)) + unat (sl_length slot (unat sub))) D (dev (apa s))"
    and sub: "sub \<le> ucast (sl_nsub slot)" "(if sub = 0 then 0x2000 else 2) \<le> lo" "hi \<le> unat (sl_length slot (unat sub))"
    and fits: "unat (sl_start slot (unat sub)) + unat (sl_length slot (unat sub)) < 4294967296"
  shows "on_medium E fd sub lo hi (\<lambda>b. D (512 * unat (sl_start slot (unat sub)) + b)) s"
  unfolding on_medium_def
proof (intro allI impI)
  fix sector n :: u32
  assume lo: "lo \<le> unat sector" and hi: "unat sector + unat n \<le> hi"
  let ?st = "sl_start slot (unat sub)" and ?lba = "sl_start slot (unat sub) + sector"
  from op obtain f h where f: "files fd = Some f" "hdd_unit f = device" "hf_privdata f = Some h" "slot_at h s = Some slot" "fioSema s"
    by (auto simp: opened_def)
  have lba: "unat ?lba = unat ?st + unat sector" using hi sub(3) fits by (simp add: unat_word_ariths)
  have sum: "unat (sector + n) = unat sector + unat n" using hi sub(3) fits by (simp add: unat_word_ariths)
  from d obtain w where w: "io_read A device ?lba (unat n) (dev (apa s)) = (True, w, dev (apa s))"
    "\<forall>j < 512 * unat n. byte_at w j = D (512 * unat ?lba + j)"
    using d [unfolded drive_holds_def, rule_format, of ?lba "unat n"] lba hi sub(3) by auto
  have ok: "\<not> ucast (sl_nsub slot) < sub" "\<not> (sub = 0 \<and> sector < 0x2000)" "\<not> (sub \<noteq> 0 \<and> sector < 2)" "\<not> sl_length slot (unat sub) < sector + n"
    using sub lo hi sum by (auto simp: not_less word_le_nat_alt word_less_nat_alt split: if_splits)
  from f(4) obtain sl where sl: "hddFileSlots s = Some sl" "sl h = slot" by (auto simp: slot_at_def split: Option.bind_splits)
  have same: "s\<lparr>apa := (apa s)\<lparr>dev := dev (apa s)\<rparr>, fioSema := True\<rparr> = s" using f(5) by (cases s) simp
  have "pfsHddTransfer A junk files fd None sub sector n s = Some (0, Some w, s\<lparr>apa := (apa s)\<lparr>dev := dev (apa s)\<rparr>, fioSema := True\<rparr>)"
    using f(1-3,5) sl ok w(1) by (auto simp: pfsHddTransfer_def fd_ioctl2_def hddIoctl2_def WaitSema_def SignalSema_def slot_at_def
        ioctl2Transfer_def sector_io_def)
  then have "pfsHddTransfer A junk files fd None sub sector n s = Some (0, Some w, s)" by (simp only: same)
  then have "bd_read (pe_bd E) fd sub sector n s = (0, w, s)" by (simp add: E hdd_block_device_def)
  with w(2) [unfolded lba] show "\<exists>w. bd_read (pe_bd E) fd sub sector n s = (0, w, s) \<and>
      (\<forall>j < 512 * unat n. byte_at w j = D (512 * unat ?st + (512 * unat sector + j)))"
    by (simp add: algebra_simps)
qed


text \<open>
  A file of three bytes in the second segment of its inode, on the partition of the example of HddFiles; every
  word of a sector of the drive is its number.
\<close>

definition stack_inode :: words where
  "stack_inode = (put_seg 1 \<lparr>bi_number = 600, bi_subpart = 0, bi_count = 2\<rparr> (\<lambda>_. 0))(I_SIZE := 3)"

definition stack_state :: "ram hdd_state pfs_drv" where
  "stack_state = \<lparr>fs = \<lparr>pfsCacheBuf = (\<lambda>_. (empty_entry stack_inode)\<lparr>p_mount := 1\<rparr>), pfsCacheNumBuffers = 0,
       pfsMounts = (\<lambda>_. blank_mount\<lparr>m_zsize := 8192, m_sector_scale := 4\<rparr>), pfsJournalBuf = (\<lambda>_. 0), pfsTimeBuf = (\<lambda>_. 0),
       bdev = hdd_open_demo\<lparr>apa := boot_state (ram_disk (\<lambda>x _. x) 9)\<rparr>\<rparr>,
     pfsFileSlots = (\<lambda>_. empty_file_slot\<lparr>fs_clink := Some 0,
       fs_block_pos := \<lparr>bp_inode = Some 0, bp_segment = 1, bp_offset = 0, bp_byte = 0\<rparr>\<rparr>), maxMount = 1, maxOpen = 2, pfsFioSema = True\<rparr>"

definition stack_env :: "ram hdd_state pfs_env" where
  "stack_env = \<lparr>pe_bd = hdd_block_device ram_ops 0 (\<lambda>_. 0) (- 1) (\<lambda>_. Some \<lparr>hf_unit = 0, hf_mode = 1, hf_privdata = Some 0\<rparr>),
     pe_open = (\<lambda>name mode w. (0, w)), pe_close = (\<lambda>fd w. w)\<rparr>"

lemma ram_holds: "0 < rd_left d \<Longrightarrow> drive_holds ram_ops device lo hi (\<lambda>b. byte_at (rd_cur d device (of_nat (b div 512))) (b mod 512)) d"
  using sector_bytes [of "rd_cur d device"] by (simp add: drive_holds_def ram_ops_def)


end
