(* ===== verification/PfsLru.thy ===== *)
theory PfsLru
  imports PfsDisk
begin

text \<open>
  What the metadata cache of iop/hdd/libpfs/src/cache.c promises to the rest of the file system: the
  ring of free entries never breaks and holds exactly the entries nobody uses, no block is cached
  twice, and a request for a block returns an entry that holds that block.
\<close>

section \<open>The free list is a ring\<close>

definition pfs_nx :: "'w pfs_state \<Rightarrow> nat \<Rightarrow> nat" where
  "pfs_nx s i = p_next (pfsCacheBuf s i)"

definition pfs_pv :: "'w pfs_state \<Rightarrow> nat \<Rightarrow> nat" where
  "pfs_pv s i = p_prev (pfsCacheBuf s i)"

interpretation pring: linked_ring pfs_nx pfs_pv pfsCacheLink pfsCacheUnLink
proof
  fix c n :: nat and s :: "'w pfs_state"
  assume "c \<noteq> n"
  then show "pfs_nx (pfsCacheLink c n s) = (pfs_nx s)(n := pfs_nx s c, c := n)"
    and "pfs_pv (pfsCacheLink c n s) = (pfs_pv s)(n := c, pfs_nx s c := n)"
    by (auto simp: fun_eq_iff pfs_nx_def pfs_pv_def pfsCacheLink_def upd_p_def Let_def)
next
  fix c :: nat and s :: "'w pfs_state"
  assume "pfs_pv s c \<noteq> c"
  then show "pfs_nx (pfsCacheUnLink c s) = (pfs_nx s)(pfs_pv s c := pfs_nx s c)"
    and "pfs_pv (pfsCacheUnLink c s) = (pfs_pv s)(pfs_nx s c := pfs_pv s c)"
    by (auto simp: fun_eq_iff pfs_nx_def pfs_pv_def pfsCacheUnLink_def upd_p_def Let_def)
qed

text \<open>What an entry stands for: its file system, partition and block.\<close>

definition p_key :: "'w pfs_state \<Rightarrow> nat \<Rightarrow> nat \<times> u32 \<times> u32" where
  "p_key s i = (p_mount (pfsCacheBuf s i), p_sub (pfsCacheBuf s i), p_sector (pfsCacheBuf s i))"

definition p_refs :: "'w pfs_state \<Rightarrow> nat \<Rightarrow> u16" where
  "p_refs s i = p_nused (pfsCacheBuf s i)"

lemma plink_data [simp]:
  "p_key (pfsCacheLink c n s) = p_key s" "p_refs (pfsCacheLink c n s) = p_refs s"
  "p_data (pfsCacheBuf (pfsCacheLink c n s) i) = p_data (pfsCacheBuf s i)"
  "pfsCacheNumBuffers (pfsCacheLink c n s) = pfsCacheNumBuffers s" "pfsMounts (pfsCacheLink c n s) = pfsMounts s"
  "bdev (pfsCacheLink c n s) = bdev s"
  by (auto simp: fun_eq_iff p_key_def p_refs_def pfsCacheLink_def upd_p_def Let_def)

lemma punlink_data [simp]:
  "p_key (pfsCacheUnLink c s) = p_key s" "p_refs (pfsCacheUnLink c s) = p_refs s"
  "p_data (pfsCacheBuf (pfsCacheUnLink c s) i) = p_data (pfsCacheBuf s i)"
  "pfsCacheNumBuffers (pfsCacheUnLink c s) = pfsCacheNumBuffers s" "pfsMounts (pfsCacheUnLink c s) = pfsMounts s"
  "bdev (pfsCacheUnLink c s) = bdev s"
  by (auto simp: fun_eq_iff p_key_def p_refs_def pfsCacheUnLink_def upd_p_def Let_def)

text \<open>
  Most updates change neither links nor counters nor keys. \<open>same_cache s t\<close> says so of two states.
\<close>

definition same_cache :: "'w pfs_state \<Rightarrow> 'w pfs_state \<Rightarrow> bool" where
  "same_cache s t \<longleftrightarrow> pfs_nx t = pfs_nx s \<and> pfs_pv t = pfs_pv s \<and> p_refs t = p_refs s \<and> p_key t = p_key s \<and>
     pfsCacheNumBuffers t = pfsCacheNumBuffers s"

lemmas cache_views = pfs_nx_def pfs_pv_def p_key_def p_refs_def fun_eq_iff

lemma same_cache_refl [simp]: "same_cache s s"
  by (simp add: same_cache_def)

lemma same_cache_trans: "same_cache s t \<Longrightarrow> same_cache t u \<Longrightarrow> same_cache s u"
  by (simp add: same_cache_def)

lemma upd_p_same:
  "(\<And>c. p_next (f c) = p_next c \<and> p_prev (f c) = p_prev c \<and> p_nused (f c) = p_nused c \<and> p_mount (f c) = p_mount c \<and>
      p_sub (f c) = p_sub c \<and> p_sector (f c) = p_sector c) \<Longrightarrow> same_cache s (upd_p i f s)"
  by (auto simp: same_cache_def cache_views upd_p_def)

lemma same_cache_entry [simp]:
  "same_cache s (upd_data i f s)" "same_cache s (set_flag i b s)" "same_cache s (clear_flag i b s)"
  "same_cache s (upd_p i (p_flags_update g) s)"
  unfolding upd_data_def set_flag_def clear_flag_def by (rule upd_p_same, simp)+

lemma same_cache_state [simp]:
  "same_cache s (t\<lparr>bdev := d\<rparr>) = same_cache s t" "same_cache s (t\<lparr>pfsJournalBuf := j\<rparr>) = same_cache s t"
  "same_cache s (upd_m m g t) = same_cache s t" "same_cache s (t\<lparr>pfsTimeBuf := tb\<rparr>) = same_cache s t"
  by (simp_all add: same_cache_def cache_views upd_m_def)

lemma same_cache_then:
  "same_cache s u \<Longrightarrow> same_cache s (upd_data i f u)" "same_cache s u \<Longrightarrow> same_cache s (clear_flag i b u)"
  by (erule same_cache_trans, simp)+

lemma same_cache_transfer:
  assumes "pfsCacheTransfer B i mode s = Some (r, t)"
  shows "same_cache s t"
  using assms unfolding pfsCacheTransfer_def Let_def
  by (elim bind_SomeE) (auto intro!: same_cache_then split: prod.splits if_splits)

lemma same_cache_log:
  assumes "log_entry m i s = Some t"
  shows "same_cache s t"
  using assms by (auto simp: log_entry_def Let_def split: if_splits)

lemma same_cache_journalFlush: "pfsJournalFlush B m s = Some (r, t) \<Longrightarrow> same_cache s t"
  by (auto simp: pfsJournalFlush_def Let_def mnt_def split: prod.splits if_splits)

lemma same_cache_journalReset: "pfsJournalReset B m s = Some (r, t) \<Longrightarrow> same_cache s t"
  by (auto simp: pfsJournalReset_def Let_def mnt_def split: prod.splits if_splits)

lemma same_cache_foldO:
  assumes "foldO f xs s = Some t" "\<And>x u v. f x u = Some v \<Longrightarrow> same_cache u v"
  shows "same_cache s t"
  by (rule foldO_keeps [OF assms(1), where P = "same_cache s"]) (auto intro: same_cache_trans assms(2))

lemma same_cache_journalWrite:
  assumes "pfsJournalWrite B m s = Some t"
  shows "same_cache s t"
proof -
  from assms obtain s1 mt where f: "foldO (log_entry m) (slots (pfsCacheNumBuffers s)) s = Some s1"
    and rest: "\<exists>d. t = s1\<lparr>bdev := d\<rparr> \<or> (\<exists>r. pfsJournalFlush B m (s1\<lparr>bdev := d\<rparr>) = Some (r, t))"
    unfolding pfsJournalWrite_def Let_def
    by (elim bind_SomeE) (fastforce split: prod.splits if_splits)
  have "same_cache s s1" by (rule same_cache_foldO [OF f same_cache_log])
  moreover have "same_cache s1 t" using rest same_cache_journalFlush by (fastforce simp: same_cache_def cache_views)
  ultimately show ?thesis by (rule same_cache_trans)
qed

lemma same_cache_flush:
  assumes "pfsCacheFlushAllDirty B m s = Some t"
  shows "same_cache s t"
proof -
  let ?w = "\<lambda>i s. if dirty_of m (pfsCacheBuf s i)
                  then map_option snd (pfsCacheTransfer B i PFS_IO_MODE_WRITE s) else Some s"
  have w: "?w i u = Some v \<Longrightarrow> same_cache u v" for i u v
    by (auto split: if_splits dest: same_cache_transfer)
  from assms obtain s1 r where s1: "s1 = s \<or> (\<exists>s0. pfsJournalWrite B m s = Some s0 \<and> foldO ?w (slots (pfsCacheNumBuffers s0)) s0 = Some s1)"
    and t: "pfsJournalReset B m s1 = Some (r, t)"
    unfolding pfsCacheFlushAllDirty_def by (elim bind_SomeE) (auto split: if_splits elim!: bind_SomeE)
  have "same_cache s0 s1" if "foldO ?w xs s0 = Some s1" for xs s0
    by (rule same_cache_foldO [OF that w])
  with s1 have "same_cache s s1" by (auto intro: same_cache_trans [OF same_cache_journalWrite])
  with same_cache_journalReset [OF t] show ?thesis using same_cache_trans by blast
qed

section \<open>The invariant\<close>

definition pfs_inv :: "nat list \<Rightarrow> 'w pfs_state \<Rightarrow> bool" where
  "pfs_inv xs s \<longleftrightarrow> is_ring (pfs_nx s) (pfs_pv s) xs \<and> set xs \<subseteq> {1..pfsCacheNumBuffers s} \<and>
     (\<forall>i. 1 \<le> i \<and> i \<le> pfsCacheNumBuffers s \<longrightarrow> (p_refs s i = 0 \<longleftrightarrow> i \<in> set xs))"

definition blocks_once :: "'w pfs_state \<Rightarrow> bool" where
  "blocks_once s \<longleftrightarrow> (\<forall>i \<in> {1..pfsCacheNumBuffers s}. \<forall>j \<in> {1..pfsCacheNumBuffers s}.
     p_key s i = p_key s j \<and> fst (p_key s i) \<noteq> 0 \<longrightarrow> i = j)"

definition pfs_cache_ok :: "'w pfs_state \<Rightarrow> bool" where
  "pfs_cache_ok s \<longleftrightarrow> (\<exists>xs. pfs_inv xs s) \<and> blocks_once s"

lemma pfs_inv_ring: "pfs_inv xs s \<Longrightarrow> is_ring (pfs_nx s) (pfs_pv s) xs"
  by (simp add: pfs_inv_def)

lemma same_cache_inv: "same_cache s t \<Longrightarrow> pfs_inv xs t = pfs_inv xs s"
  by (simp add: same_cache_def pfs_inv_def)

lemma same_cache_once: "same_cache s t \<Longrightarrow> blocks_once t = blocks_once s"
  by (simp add: same_cache_def blocks_once_def)

lemma same_cache_ok: "same_cache s t \<Longrightarrow> pfs_cache_ok s \<Longrightarrow> pfs_cache_ok t"
  by (simp add: pfs_cache_ok_def same_cache_inv same_cache_once)

lemma pfs_list_empty_iff: "pfs_inv xs s \<Longrightarrow> pfs_list_empty s \<longleftrightarrow> xs = []"
  using is_ring_test [of "pfs_nx s" "pfs_pv s" xs]
  by (auto simp: pfs_inv_def pfs_list_empty_def pfs_nx_def pfs_pv_def)

lemma pfs_inv_head: "pfs_inv (i # is) s \<Longrightarrow> p_next (pfsCacheBuf s 0) = i"
  using is_ring_nx0 [of "pfs_nx s" "pfs_pv s" "i # is"] by (simp add: pfs_inv_def pfs_nx_def)

lemma blocks_onceD: "blocks_once s \<Longrightarrow> i \<in> {1..pfsCacheNumBuffers s} \<Longrightarrow> j \<in> {1..pfsCacheNumBuffers s} \<Longrightarrow>
    p_key s i = p_key s j \<Longrightarrow> fst (p_key s i) \<noteq> 0 \<Longrightarrow> i = j"
  unfolding blocks_once_def by blast

text \<open>The views of a state after an update of one entry that keeps its links.\<close>

lemma upd_p_views:
  assumes "\<And>c. p_next (f c) = p_next c \<and> p_prev (f c) = p_prev c"
  shows "pfs_nx (upd_p i f s) = pfs_nx s" "pfs_pv (upd_p i f s) = pfs_pv s"
    "p_refs (upd_p i f s) = (p_refs s)(i := p_nused (f (pfsCacheBuf s i)))"
    "p_key (upd_p i f s) = (p_key s)(i := (p_mount (f (pfsCacheBuf s i)), p_sub (f (pfsCacheBuf s i)), p_sector (f (pfsCacheBuf s i))))"
    "pfsCacheNumBuffers (upd_p i f s) = pfsCacheNumBuffers s"
  using assms by (auto simp: cache_views upd_p_def)

lemma upd_p_buf [simp]:
  "pfsCacheBuf (upd_p i f s) = (pfsCacheBuf s)(i := f (pfsCacheBuf s i))"
  "pfsMounts (upd_p i f s) = pfsMounts s" "bdev (upd_p i f s) = bdev s"
  by (simp_all add: upd_p_def)

text \<open>The invariant from its parts, when entry \<open>i\<close> alone changes between free and used.\<close>

lemma pfs_invI:
  assumes "pfs_inv xs s" "is_ring (pfs_nx t) (pfs_pv t) ys" "pfsCacheNumBuffers t = pfsCacheNumBuffers s"
    "p_refs t = (p_refs s)(i := n)" "n = 0 \<longleftrightarrow> i \<in> set ys" "set ys - {i} = set xs - {i}" "1 \<le> i" "i \<le> pfsCacheNumBuffers s"
  shows "pfs_inv ys t"
  unfolding pfs_inv_def assms(3,4)
proof (intro conjI allI impI)
  show "set ys \<subseteq> {1..pfsCacheNumBuffers s}" using assms(1,6-8) unfolding pfs_inv_def by auto
next
  fix j assume j: "1 \<le> j \<and> j \<le> pfsCacheNumBuffers s"
  show "(((p_refs s)(i := n)) j = 0) = (j \<in> set ys)"
  proof (cases "j = i")
    case False
    then have "(j \<in> set ys) = (j \<in> set xs)" using assms(6) by blast
    then show ?thesis using False assms(1) j by (simp add: pfs_inv_def)
  qed (simp add: assms(5))
qed (rule assms(2))

section \<open>Operations\<close>

lemma pfsCacheFree_eq:
  "pfsCacheFree (Some i) s =
     (if p_refs s i = 0 then s
      else if p_refs s i \<noteq> 1 then upd_p i (p_nused_update (\<lambda>n. n - 1)) s
      else pfsCacheLink (if p_mount (pfsCacheBuf s i) \<noteq> 0 then pfs_pv (upd_p i (p_nused_update (\<lambda>n. n - 1)) s) 0 else 0) i
             (upd_p i (p_nused_update (\<lambda>n. n - 1)) s))"
  by (simp add: pfsCacheFree_def Let_def p_refs_def pfs_pv_def)

lemma pfsCacheFree_inv:
  assumes inv: "pfs_inv xs s" and i: "1 \<le> i" "i \<le> pfsCacheNumBuffers s"
  shows "\<exists>ys. pfs_inv ys (pfsCacheFree (Some i) s) \<and> p_key (pfsCacheFree (Some i) s) = p_key s \<and>
    p_refs (pfsCacheFree (Some i) s) = (p_refs s)(i := p_refs s i - (if p_refs s i = 0 then 0 else 1)) \<and>
    pfsCacheNumBuffers (pfsCacheFree (Some i) s) = pfsCacheNumBuffers s"
proof -
  let ?t = "upd_p i (p_nused_update (\<lambda>n. n - 1)) s"
  have keep: "p_next (p_nused_update (\<lambda>n. n - 1) c) = p_next c \<and> p_prev (p_nused_update (\<lambda>n. n - 1) c) = p_prev c" for c
    by simp
  note v = upd_p_views [OF keep, of i s]
  have k: "p_key ?t = p_key s" by (simp add: v(4)) (simp add: p_key_def fun_eq_iff)
  have r: "p_refs ?t = (p_refs s)(i := p_refs s i - 1)" by (simp add: v(3) p_refs_def)
  have one: "p_refs s i - 1 = 0 \<longleftrightarrow> p_refs s i = 1" by simp
  consider "p_refs s i = 0" | "p_refs s i \<noteq> 0" "p_refs s i \<noteq> 1" | "p_refs s i = 1" by blast
  then show ?thesis
  proof cases
    case 1
    then have "pfsCacheFree (Some i) s = s" by (simp add: pfsCacheFree_eq)
    then show ?thesis using inv 1 by (intro exI [of _ xs]) (simp add: fun_upd_idem)
  next
    case 2
    then have f: "pfsCacheFree (Some i) s = ?t" by (simp add: pfsCacheFree_eq)
    have "i \<notin> set xs" using inv i 2 by (simp add: pfs_inv_def)
    then have "pfs_inv xs ?t"
      by (intro pfs_invI [OF inv _ v(5) r]) (use inv i 2 in \<open>simp_all add: v(1,2) pfs_inv_ring\<close>)
    then show ?thesis unfolding f k r v(5) using 2 by (intro exI [of _ xs]) simp
  next
    case 3
    have ni: "i \<notin> set (0 # xs)" using 3 inv i by (auto simp: pfs_inv_def)
    have ring: "is_ring (pfs_nx ?t) (pfs_pv ?t) xs" using inv by (simp add: pfs_inv_def v(1,2))
    have r0: "p_refs ?t = (p_refs s)(i := 0)" using r 3 by simp
    obtain c ys where f: "pfsCacheFree (Some i) s = pfsCacheLink c i ?t" and ys: "set ys = insert i (set xs)"
      and ring': "is_ring (pfs_nx (pfsCacheLink c i ?t)) (pfs_pv (pfsCacheLink c i ?t)) ys"
    proof (cases "p_mount (pfsCacheBuf s i) = 0")
      case True
      with 3 have "pfsCacheFree (Some i) s = pfsCacheLink 0 i ?t" by (simp add: pfsCacheFree_eq)
      then show thesis using that [of 0 "i # xs"] pring.link_head [OF ring ni] by simp
    next
      case False
      with 3 have "pfsCacheFree (Some i) s = pfsCacheLink (pfs_pv ?t 0) i ?t" by (simp add: pfsCacheFree_eq)
      then show thesis using that [of "pfs_pv ?t 0" "xs @ [i]"] pring.link_tail [OF ring ni] by simp
    qed
    have "pfs_inv ys (pfsCacheLink c i ?t)"
      by (rule pfs_invI [OF inv ring', where n = 0]) (use i ys r0 v(5) in auto)
    then show ?thesis unfolding f plink_data k r0 v(5) using 3 by (intro exI [of _ ys]) simp
  qed
qed

text \<open>Taking the first free entry for a block.\<close>

lemma take_first:
  assumes inv: "pfs_inv (i # is) s" and f: "\<And>c. p_next (f c) = p_next c \<and> p_prev (f c) = p_prev c \<and> p_nused (f c) = 1"
  shows "pfs_inv is (pfsCacheUnLink i (upd_p i f s))"
proof -
  have keep: "p_next (f c) = p_next c \<and> p_prev (f c) = p_prev c" for c using f by blast
  note v = upd_p_views [OF keep, of i s]
  have ring: "is_ring (pfs_nx (upd_p i f s)) (pfs_pv (upd_p i f s)) (i # is)"
    using inv by (simp add: pfs_inv_def v(1,2))
  have "is_ring (pfs_nx (pfsCacheUnLink i (upd_p i f s))) (pfs_pv (pfsCacheUnLink i (upd_p i f s))) is"
    using pring.unlink_out [OF ring, of i] by simp
  moreover have "p_nused (f (pfsCacheBuf s i)) = 1" using f by blast
  ultimately show ?thesis
    by (intro pfs_invI [OF inv, where n = 1 and i = i])
      (use is_ring_distinct [OF ring] inv in \<open>simp_all add: v(3,5) pfs_inv_def\<close>)
qed

lemma pfsCacheAlloc_inv:
  assumes inv: "pfs_inv xs s" and run: "pfsCacheAlloc B m sub scale flags s = Some (p, s')"
  shows "case xs of [] \<Rightarrow> p = None \<and> s' = s
    | i # is \<Rightarrow> p = Some i \<and> pfs_inv is s' \<and> p_key s' = (p_key s)(i := (m, ucast sub, scale)) \<and>
        p_refs s' = (p_refs s)(i := 1) \<and> pfsCacheNumBuffers s' = pfsCacheNumBuffers s"
proof (cases xs)
  case Nil
  then show ?thesis using run pfs_list_empty_iff [OF inv] by (simp add: pfsCacheAlloc_def)
next
  case (Cons i "is")
  let ?f = "\<lambda>c. c\<lparr>p_flags := flags AND PFS_CACHE_FLAG_MASKTYPE, p_mount := m, p_sub := ucast sub, p_sector := scale, p_nused := 1\<rparr>"
  have hd: "p_next (pfsCacheBuf s 0) = i" using inv Cons pfs_inv_head by blast
  have ne: "\<not> pfs_list_empty s" using pfs_list_empty_iff [OF inv] Cons by simp
  from run [unfolded pfsCacheAlloc_def Let_def hd if_not_P [OF ne]]
  obtain s1 where s1: "(if p_mount (pfsCacheBuf s i) \<noteq> 0 \<and> p_flags (pfsCacheBuf s i) AND PFS_CACHE_FLAG_DIRTY \<noteq> 0
      then pfsCacheFlushAllDirty B (p_mount (pfsCacheBuf s i)) s else Some s) = Some s1"
    and p: "p = Some i" and s': "s' = pfsCacheUnLink i (upd_p i ?f s1)"
    by (elim bind_SomeE) simp
  have sc: "same_cache s s1" using s1 same_cache_flush by (simp split: if_splits)
  have keep: "p_next (?f c) = p_next c \<and> p_prev (?f c) = p_prev c" for c by simp
  note v = upd_p_views [OF keep, of i s1]
  have "pfs_inv (i # is) s1" using sc inv Cons by (simp add: same_cache_inv)
  then have "pfs_inv is s'" unfolding s' by (rule take_first) simp
  moreover have "p_key s' = (p_key s)(i := (m, ucast sub, scale))" "p_refs s' = (p_refs s)(i := 1)"
      "pfsCacheNumBuffers s' = pfsCacheNumBuffers s"
    using sc unfolding s' punlink_data v(3-5) same_cache_def by simp_all
  ultimately show ?thesis using Cons p by simp
qed

lemma blocks_once_upd:
  assumes "blocks_once s" "\<forall>j \<in> {1..pfsCacheNumBuffers s}. fst k \<noteq> 0 \<longrightarrow> p_key s j \<noteq> k"
    "p_key t = (p_key s)(i := k)" "pfsCacheNumBuffers t = pfsCacheNumBuffers s"
  shows "blocks_once t"
  unfolding blocks_once_def assms(3,4)
proof (intro ballI impI)
  fix a b assume ab: "a \<in> {1..pfsCacheNumBuffers s}" "b \<in> {1..pfsCacheNumBuffers s}"
    and eq: "((p_key s)(i := k)) a = ((p_key s)(i := k)) b \<and> fst (((p_key s)(i := k)) a) \<noteq> 0"
  have new: "p_key s b = k \<Longrightarrow> fst k = 0" if "b \<in> {1..pfsCacheNumBuffers s}" for b using assms(2) that by blast
  note old = blocks_onceD [OF assms(1) ab]
  show "a = b"
    using eq new [OF ab(1)] new [OF ab(2)] old unfolding fun_upd_apply by (metis (full_types))
qed

definition counts_below_max :: "'w pfs_state \<Rightarrow> bool" where
  "counts_below_max s \<longleftrightarrow> list_all (\<lambda>i. p_refs s i \<noteq> -1) (slots (pfsCacheNumBuffers s))"

text \<open>What a request for the block \<open>k\<close> does to the cache, in the three ways it can go.\<close>

lemma get_cached:
  assumes inv: "pfs_inv xs s" and room: "counts_below_max s"
    and i: "1 \<le> i" "i \<le> pfsCacheNumBuffers s" "p_key s i = (m, ucast sub, sector)" "m \<noteq> 0" and once: "blocks_once s"
    and run: "pfsCacheGetData B m sub sector flags s = Some (r, p, s')"
  shows "\<exists>ys. pfs_inv ys s' \<and> r = 0 \<and> p = Some i \<and> p_key s' = p_key s \<and> p_refs s' = (p_refs s)(i := p_refs s i + 1) \<and>
    pfsCacheNumBuffers s' = pfsCacheNumBuffers s \<and> bdev s' = bdev s \<and> p_data (pfsCacheBuf s' i) = p_data (pfsCacheBuf s i)"
proof -
  let ?P = "\<lambda>i. p_mount (pfsCacheBuf s i) \<noteq> 0 \<and> p_mount (pfsCacheBuf s i) = m \<and>
                    p_sector (pfsCacheBuf s i) = sector \<and> p_sub (pfsCacheBuf s i) = ucast sub"
  let ?g = "p_flags_update (\<lambda>f. (f AND PFS_CACHE_FLAG_MASKSTATUS) OR (flags AND PFS_CACHE_FLAG_MASKTYPE))"
  let ?s1 = "upd_p i ?g s" and ?u = "p_nused_update (\<lambda>n. n + 1)"
  have "?P j \<longleftrightarrow> j = i" if "1 \<le> j" "j \<le> pfsCacheNumBuffers s" for j
  proof
    assume "?P j"
    then have "p_key s j = p_key s i" "fst (p_key s j) \<noteq> 0" using i(3) by (simp_all add: p_key_def)
    then show "j = i" using blocks_onceD [OF once, of j i] i(1,2) that by simp
  qed (use i(3,4) in \<open>simp add: p_key_def\<close>)
  then have f: "find ?P (slots (pfsCacheNumBuffers s)) = Some i"
    using i(1,2) by (intro find_only) simp_all
  have sc: "same_cache s ?s1" by simp
  have inv1: "pfs_inv xs ?s1" and r1: "p_refs ?s1 = p_refs s" and k1: "p_key ?s1 = p_key s" and n1: "pfsCacheNumBuffers ?s1 = pfsCacheNumBuffers s"
    using same_cache_inv [OF sc] inv sc by (simp_all add: same_cache_def)
  have "p_refs s i \<noteq> -1" using room i(1,2) by (simp add: counts_below_max_def list_all_iff)
  then have nz: "p_refs s i + 1 \<noteq> 0" by (metis eq_neg_iff_add_eq_0)
  have d: "bdev ?s1 = bdev s" "p_data (pfsCacheBuf ?s1 i) = p_data (pfsCacheBuf s i)" by (simp_all add: upd_p_def)
  have keep: "p_next (?u c) = p_next c \<and> p_prev (?u c) = p_prev c" for c by simp
  note v = upd_p_views [OF keep]
  have kk: "p_key (upd_p i ?u t) = p_key t" "p_refs (upd_p i ?u t) = (p_refs t)(i := p_refs t i + 1)"
      "bdev (upd_p i ?u t) = bdev t" "p_data (pfsCacheBuf (upd_p i ?u t) i) = p_data (pfsCacheBuf t i)" for t :: "'a pfs_state"
    unfolding v(3,4) by (simp_all add: p_key_def p_refs_def fun_eq_iff upd_p_def)
  show ?thesis
  proof (cases "p_refs s i = 0")
    case True
    then have s': "s' = upd_p i ?u (pfsCacheUnLink i ?s1)" "r = 0" "p = Some i"
      using run f by (simp_all add: pfsCacheGetData_def p_refs_def)
    have ixs: "i \<in> set xs" using True inv i by (simp add: pfs_inv_def)
    have "distinct xs" using is_ring_distinct [OF pfs_inv_ring [OF inv]] by blast
    then have "pfs_inv (remove1 i xs) s'"
      by (intro pfs_invI [OF inv1, where n = "p_refs s i + 1" and i = i])
        (use pring.unlink_out [OF pfs_inv_ring [OF inv1] ixs] nz i(1,2) in \<open>simp_all add: s'(1) v(1,2,5) kk r1 n1\<close>)
    then show ?thesis unfolding s' kk punlink_data k1 r1 n1 d v(5) by blast
  next
    case False
    then have s': "s' = upd_p i ?u ?s1" "r = 0" "p = Some i"
      using run f by (simp_all add: pfsCacheGetData_def p_refs_def)
    have "i \<notin> set xs" using False inv i by (simp add: pfs_inv_def)
    then have "pfs_inv xs s'"
      by (intro pfs_invI [OF inv1, where n = "p_refs s i + 1" and i = i])
        (use pfs_inv_ring [OF inv1] nz i(1,2) in \<open>simp_all add: s'(1) v(1,2,5) kk r1 n1\<close>)
    then show ?thesis unfolding s' kk k1 r1 n1 d v(5) by blast
  qed
qed

text \<open>An entry whose block could not be read goes back to the free list and stands for nothing.\<close>

lemma drop_entry:
  assumes "pfs_inv xs s" "blocks_once s" "1 \<le> i" "i \<le> pfsCacheNumBuffers s" "p_refs s i = 1"
  defines "t \<equiv> pfsCacheFree (Some i) (upd_p i (p_mount_update (\<lambda>_. 0)) s)"
  shows "(\<exists>ys. pfs_inv ys t) \<and> blocks_once t \<and> p_refs t = (p_refs s)(i := 0) \<and> pfsCacheNumBuffers t = pfsCacheNumBuffers s"
proof -
  let ?f = "p_mount_update (\<lambda>_. 0)"
  let ?u = "upd_p i ?f s"
  have keep: "p_next (?f c) = p_next c \<and> p_prev (?f c) = p_prev c" for c by simp
  note v = upd_p_views [OF keep, of i s]
  have r: "p_refs ?u = p_refs s" unfolding v(3) by (simp add: p_refs_def fun_eq_iff)
  have inv: "pfs_inv xs ?u" using assms(1) by (simp add: pfs_inv_def v(1,2,5) r)
  have "p_key ?u = (p_key s)(i := (0, p_sub (pfsCacheBuf s i), p_sector (pfsCacheBuf s i)))" by (simp add: v(4))
  then have once: "blocks_once ?u" by (intro blocks_once_upd [OF assms(2) _ _ v(5)]) simp_all
  have "i \<le> pfsCacheNumBuffers ?u" using assms(4) v(5) by simp
  from pfsCacheFree_inv [OF inv assms(3) this] obtain ys where
    ys: "pfs_inv ys t" "p_key t = p_key ?u" "p_refs t = (p_refs ?u)(i := p_refs ?u i - (if p_refs ?u i = 0 then 0 else 1))"
      "pfsCacheNumBuffers t = pfsCacheNumBuffers ?u"
    unfolding t_def by blast
  have "blocks_once t" using once unfolding blocks_once_def ys(2,4) .
  with ys(1) show ?thesis unfolding ys(3,4) r v(5) assms(5) by auto
qed

lemma get_missed:
  assumes inv: "pfs_inv xs s" and once: "blocks_once s"
    and new: "\<not> (\<exists>i. 1 \<le> i \<and> i \<le> pfsCacheNumBuffers s \<and> m \<noteq> 0 \<and> p_key s i = (m, ucast sub, sector))"
    and run: "pfsCacheGetData B m sub sector flags s = Some (r, p, s')"
  shows "(\<exists>ys. pfs_inv ys s') \<and> blocks_once s' \<and> pfsCacheNumBuffers s' = pfsCacheNumBuffers s \<and>
    (case p of None \<Rightarrow> r < 0 \<and> p_refs s' = p_refs s
     | Some i \<Rightarrow> xs \<noteq> [] \<and> i = hd xs \<and> p_key s' = (p_key s)(i := (m, ucast sub, sector)) \<and> p_refs s' = (p_refs s)(i := 1))"
proof -
  have "find (\<lambda>i. p_mount (pfsCacheBuf s i) \<noteq> 0 \<and> p_mount (pfsCacheBuf s i) = m \<and>
      p_sector (pfsCacheBuf s i) = sector \<and> p_sub (pfsCacheBuf s i) = ucast sub) (slots (pfsCacheNumBuffers s)) = None"
    using new by (auto simp: find_slots_None p_key_def)
  from run [unfolded pfsCacheGetData_def this option.case]
  obtain q s1 where al: "pfsCacheAlloc B m sub sector flags s = Some (q, s1)"
    and rest: "(case q of None \<Rightarrow> Some (- ENOMEM, None, s1)
      | Some i \<Rightarrow> if flags AND PFS_CACHE_FLAG_NOLOAD \<noteq> 0 then Some (0, Some i, s1)
          else do {
            (result, s) \<leftarrow> pfsCacheTransfer B i PFS_IO_MODE_READ s1;
            if 0 \<le> result then Some (result, Some i, s)
            else Some (result, None, pfsCacheFree (Some i) (upd_p i (p_mount_update (\<lambda>_. 0)) s)) }) = Some (r, p, s')"
    by (elim bind_SomeE) auto
  note alloc = pfsCacheAlloc_inv [OF inv al]
  show ?thesis
  proof (cases xs)
    case Nil
    then show ?thesis using alloc rest inv once by auto
  next
    case (Cons i "is")
    with alloc have q: "q = Some i" and inv1: "pfs_inv is s1" and k1: "p_key s1 = (p_key s)(i := (m, ucast sub, sector))"
      and r1: "p_refs s1 = (p_refs s)(i := 1)" and n1: "pfsCacheNumBuffers s1 = pfsCacheNumBuffers s" by simp_all
    have i: "1 \<le> i" "i \<le> pfsCacheNumBuffers s" "p_refs s i = 0" using inv Cons by (auto simp: pfs_inv_def)
    have once1: "blocks_once s1"
      by (rule blocks_once_upd [OF once _ k1 n1]) (use new in auto)
    show ?thesis
    proof (cases "flags AND PFS_CACHE_FLAG_NOLOAD \<noteq> 0")
      case True
      then show ?thesis using rest q inv1 once1 k1 r1 n1 Cons by auto
    next
      case False
      with rest q obtain res s2 where tr: "pfsCacheTransfer B i PFS_IO_MODE_READ s1 = Some (res, s2)"
        and rest2: "(if 0 \<le> res then Some (res, Some i, s2)
            else Some (res, None, pfsCacheFree (Some i) (upd_p i (p_mount_update (\<lambda>_. 0)) s2))) = Some (r, p, s')"
        by (auto elim!: bind_SomeE)
      note sc = same_cache_transfer [OF tr]
      have s2: "pfs_inv is s2" "blocks_once s2" "p_key s2 = p_key s1" "p_refs s2 = p_refs s1"
          "pfsCacheNumBuffers s2 = pfsCacheNumBuffers s"
        using sc inv1 once1 n1 by (simp_all add: same_cache_inv same_cache_once) (simp_all add: same_cache_def)
      show ?thesis
      proof (cases "0 \<le> res")
        case True
        then show ?thesis using rest2 s2 k1 r1 Cons by auto
      next
        case False
        have i2: "i \<le> pfsCacheNumBuffers s2" "p_refs s2 i = 1" using i(2) s2(4,5) r1 by simp_all
        have "(p_refs s2)(i := 0) = p_refs s" unfolding s2(4) r1 using i(3) by (simp add: fun_upd_idem)
        then show ?thesis using drop_entry [OF s2(1,2) i(1) i2] rest2 False s2(5) by auto
      qed
    qed
  qed
qed

lemma pfsCacheUsedAdd_ok:
  assumes "pfs_cache_ok s" "1 \<le> i" "i \<le> pfsCacheNumBuffers s" "p_refs s i \<noteq> 0" "p_refs s i \<noteq> -1"
  shows "pfs_cache_ok (pfsCacheUsedAdd i s)"
proof -
  obtain xs where inv: "pfs_inv xs s" and once: "blocks_once s" using assms(1) by (auto simp: pfs_cache_ok_def)
  let ?u = "p_nused_update (\<lambda>n. n + 1)"
  have keep: "p_next (?u c) = p_next c \<and> p_prev (?u c) = p_prev c" for c by simp
  note v = upd_p_views [OF keep, of i s]
  have k: "p_key (upd_p i ?u s) = p_key s" unfolding v(4) by (simp add: p_key_def fun_eq_iff)
  have nz: "p_refs s i + 1 \<noteq> 0" using assms(5) by (metis eq_neg_iff_add_eq_0)
  have "i \<notin> set xs" using inv assms(2-4) by (simp add: pfs_inv_def)
  then have "pfs_inv xs (upd_p i ?u s)"
    by (intro pfs_invI [OF inv _ v(5) v(3)])
      (use pfs_inv_ring [OF inv] nz assms(2,3) in \<open>simp_all add: v(1,2), simp_all add: p_refs_def\<close>)
  moreover have "blocks_once (upd_p i ?u s)" using once unfolding blocks_once_def k v(5) .
  ultimately show ?thesis unfolding pfs_cache_ok_def pfsCacheUsedAdd_def by blast
qed

lemma pfsCacheFree_ok:
  assumes "pfs_cache_ok s" "1 \<le> i" "i \<le> pfsCacheNumBuffers s"
  shows "pfs_cache_ok (pfsCacheFree (Some i) s)"
proof -
  obtain xs where inv: "pfs_inv xs s" and once: "blocks_once s" using assms(1) by (auto simp: pfs_cache_ok_def)
  from pfsCacheFree_inv [OF inv assms(2,3)] obtain ys where ys: "pfs_inv ys (pfsCacheFree (Some i) s)"
    "p_key (pfsCacheFree (Some i) s) = p_key s" "pfsCacheNumBuffers (pfsCacheFree (Some i) s) = pfsCacheNumBuffers s" by blast
  have "blocks_once (pfsCacheFree (Some i) s)" using once unfolding blocks_once_def ys(2,3) .
  then show ?thesis using ys(1) unfolding pfs_cache_ok_def by blast
qed

lemma pfsCacheAllocClean_ok:
  assumes "pfs_cache_ok s" "pfsCacheAllocClean B s = Some (r, p, s')"
  shows "pfs_cache_ok s' \<and> pfsCacheNumBuffers s' = pfsCacheNumBuffers s \<and>
    (\<forall>i. p = Some i \<longrightarrow> 1 \<le> i \<and> i \<le> pfsCacheNumBuffers s)"
proof -
  obtain xs where inv: "pfs_inv xs s" and once: "blocks_once s" using assms(1) by (auto simp: pfs_cache_ok_def)
  from assms(2) have al: "pfsCacheAlloc B 0 0 0 0 s = Some (p, s')"
    unfolding pfsCacheAllocClean_def by (elim bind_SomeE) auto
  note alloc = pfsCacheAlloc_inv [OF inv al]
  show ?thesis
  proof (cases xs)
    case Nil
    then show ?thesis using alloc assms(1) by simp
  next
    case (Cons i "is")
    then have a: "p = Some i" "pfs_inv is s'" "p_key s' = (p_key s)(i := (0, 0, 0))" "pfsCacheNumBuffers s' = pfsCacheNumBuffers s"
      using alloc by simp_all
    have "blocks_once s'" by (rule blocks_once_upd [OF once _ a(3,4)]) simp
    moreover have "1 \<le> i" "i \<le> pfsCacheNumBuffers s" using inv Cons by (auto simp: pfs_inv_def)
    ultimately show ?thesis using a unfolding pfs_cache_ok_def by auto
  qed
qed

text \<open>Closing a file system and marking blocks clean are loops over all entries.\<close>

lemma fold_keeps: "P s \<Longrightarrow> (\<And>x s. P s \<Longrightarrow> P (f x s)) \<Longrightarrow> P (fold f xs s)"
  by (induction xs arbitrary: s) auto

lemma forget_ok: "pfs_cache_ok s \<Longrightarrow> pfs_cache_ok (upd_p i (p_mount_update (\<lambda>_. 0)) s)"
proof -
  assume "pfs_cache_ok s"
  then obtain xs where inv: "pfs_inv xs s" and once: "blocks_once s" by (auto simp: pfs_cache_ok_def)
  let ?f = "p_mount_update (\<lambda>_. 0)"
  have keep: "p_next (?f c) = p_next c \<and> p_prev (?f c) = p_prev c" for c by simp
  note v = upd_p_views [OF keep, of i s]
  have r: "p_refs (upd_p i ?f s) = p_refs s" unfolding v(3) by (simp add: p_refs_def fun_eq_iff)
  have "pfs_inv xs (upd_p i ?f s)" using inv by (simp add: pfs_inv_def v(1,2,5) r)
  moreover have "blocks_once (upd_p i ?f s)"
    by (rule blocks_once_upd [OF once _ v(4) v(5)]) simp
  ultimately show ?thesis unfolding pfs_cache_ok_def by blast
qed

lemma pfsCacheClose_ok:
  assumes "pfs_cache_ok s" "pfsCacheClose B m s = Some s'"
  shows "pfs_cache_ok s'"
proof -
  from assms(2) obtain s1 where s1: "pfsCacheFlushAllDirty B m s = Some s1"
    and s': "s' = fold (\<lambda>i s. if p_mount (pfsCacheBuf s i) = m then upd_p i (p_mount_update (\<lambda>_. 0)) s else s)
             (slots (pfsCacheNumBuffers s1)) s1"
    unfolding pfsCacheClose_def by (elim bind_SomeE) simp
  have "pfs_cache_ok s1" using same_cache_flush [OF s1] assms(1) by (rule same_cache_ok)
  then show ?thesis unfolding s' by (rule fold_keeps) (simp add: forget_ok)
qed

lemma pfsCacheMarkClean_ok: "pfs_cache_ok s \<Longrightarrow> pfs_cache_ok (pfsCacheMarkClean m sub a b s)"
  unfolding pfsCacheMarkClean_def Let_def
  by (erule fold_keeps) (auto intro: same_cache_ok [OF same_cache_entry(3)])

lemma same_cache_restore_entry: "restore_entry B mt c i s = Some t \<Longrightarrow> same_cache s t"
  by (auto simp: restore_entry_def Let_def intro!: same_cache_then split: if_splits prod.splits)

lemma journalReset_ok: "pfsJournalReset B m u = Some (r, v) \<Longrightarrow> pfs_cache_ok u \<Longrightarrow> pfs_cache_ok v"
  using same_cache_journalReset same_cache_ok by blast

lemma pfsJournalRestore_ok:
  assumes "pfs_cache_ok s" "pfsJournalRestore B m s = Some (r, s')"
  shows "pfs_cache_ok s'"
proof -
  from assms(2) obtain mt where mt: "mnt m s = Some mt" unfolding pfsJournalRestore_def by (elim bind_SomeE)
  obtain rv w d where rd: "bd_read B (m_fd mt) 0 (log_sector mt) 2 (bdev s) = (rv, w, d)" by (rule prod_cases3)
  let ?s = "s\<lparr>pfsJournalBuf := copy_words (pfsJournalBuf s) 0 w 256, bdev := d\<rparr>"
  have "same_cache s ?s" by simp
  then have ok: "pfs_cache_ok ?s" using assms(1) by (rule same_cache_ok)
  consider "pfsJournalReset B m ?s = Some (r, s')"
    | r1 p s1 where "pfsCacheAllocClean B ?s = Some (r1, p, s1)"
      "(case p of None \<Rightarrow> Some (r1, s1)
        | Some c \<Rightarrow> do { s \<leftarrow> foldO (restore_entry B mt c) [0..<unat (j_num (pfsJournalBuf s1))] s1;
                         pfsJournalReset B m (pfsCacheFree (Some c) s) }) = Some (r, s')"
    using assms(2) unfolding pfsJournalRestore_def mt bind.bind_lunit rd Let_def prod.case
    by (auto split: if_splits elim!: bind_SomeE)
  then show ?thesis
  proof cases
    case 1
    then show ?thesis using ok by (rule journalReset_ok)
  next
    case (2 r1 p s1)
    note a = pfsCacheAllocClean_ok [OF ok 2(1)]
    show ?thesis
    proof (cases p)
      case None
      then show ?thesis using 2(2) a by simp
    next
      case (Some c)
      with 2(2) obtain s2 where s2: "foldO (restore_entry B mt c) [0..<unat (j_num (pfsJournalBuf s1))] s1 = Some s2"
        and re: "pfsJournalReset B m (pfsCacheFree (Some c) s2) = Some (r, s')"
        by (auto elim: bind_SomeE)
      have sc: "same_cache s1 s2" by (rule same_cache_foldO [OF s2 same_cache_restore_entry])
      have "1 \<le> c" "c \<le> pfsCacheNumBuffers s2" using a Some sc by (auto simp: same_cache_def)
      then have "pfs_cache_ok (pfsCacheFree (Some c) s2)" using same_cache_ok [OF sc] a pfsCacheFree_ok by blast
      with re show ?thesis by (rule journalReset_ok)
    qed
  qed
qed

section \<open>Initialisation and reachable states\<close>

lemma pfs_init_steps:
  assumes "is_ring (pfs_nx s) (pfs_pv s) [1..<k]" "k \<le> n" "1 \<le> k"
  defines "t \<equiv> fold (\<lambda>i s. pfsCacheLink (p_prev (pfsCacheBuf s 0)) i s) [k..<n] s"
  shows "is_ring (pfs_nx t) (pfs_pv t) [1..<n] \<and> p_key t = p_key s \<and> p_refs t = p_refs s \<and>
    pfsCacheNumBuffers t = pfsCacheNumBuffers s"
  using assms(1-3) unfolding t_def
proof (induction "n - k" arbitrary: k s)
  case 0
  then show ?case by simp
next
  case (Suc d)
  then have k: "[k..<n] = k # [Suc k..<n]" by (simp add: upt_rec)
  let ?v = "pfsCacheLink (pfs_pv s 0) k s"
  have "is_ring (pfs_nx ?v) (pfs_pv ?v) [1..<Suc k]"
    using pring.link_tail [OF Suc.prems(1), of k] Suc.prems(3) by simp
  moreover have "d = n - Suc k" "Suc k \<le> n" using Suc.hyps(2) by simp_all
  ultimately show ?case using Suc.hyps(1) [of "Suc k" ?v] unfolding k by (simp add: pfs_pv_def)
qed

lemma pfsCacheInit_ok:
  assumes "pfsCacheInit B numBuf bufSize s = (0, s')"
  shows "pfs_cache_ok s'"
proof -
  let ?s = "s\<lparr>pfsCacheNumBuffers := unat numBuf, pfsCacheBuf := (\<lambda>i. empty_entry (p_data (pfsCacheBuf s i)))\<rparr>"
  have s': "s' = fold (\<lambda>i s. pfsCacheLink (p_prev (pfsCacheBuf s 0)) i s) [1..<unat numBuf + 1] ?s"
    using assms by (simp add: pfsCacheInit_def Let_def split: if_splits)
  have "is_ring (pfs_nx ?s) (pfs_pv ?s) [1..<1]" by (simp add: is_ring_def pfs_nx_def pfs_pv_def empty_entry_def)
  from pfs_init_steps [OF this, of "unat numBuf + 1"]
  have t: "is_ring (pfs_nx s') (pfs_pv s') [1..<unat numBuf + 1]" "p_key s' = p_key ?s" "p_refs s' = p_refs ?s"
      "pfsCacheNumBuffers s' = unat numBuf"
    unfolding s' by simp_all
  have "p_refs ?s i = 0" "fst (p_key ?s i) = 0" for i by (simp_all add: p_refs_def p_key_def empty_entry_def)
  then have "pfs_inv [1..<unat numBuf + 1] s'" "blocks_once s'"
    using t(1) unfolding pfs_inv_def blocks_once_def t(2-4) by auto
  then show ?thesis unfolding pfs_cache_ok_def by blast
qed

text \<open>
  What the rest of the file system may do to the cache: every operation of cache.c and journal.c, on
  entries that exist, and changes of the data and flags of an entry. A reference is added to an entry
  in use, and no counter is at its maximum.
\<close>

inductive pfs_cache_step :: "'w pfs_block_device_t \<Rightarrow> 'w pfs_state \<Rightarrow> 'w pfs_state \<Rightarrow> bool" for B where
  pstep_get: "counts_below_max s \<Longrightarrow> pfsCacheGetData B m sub sector flags s = Some (r, p, s') \<Longrightarrow> pfs_cache_step B s s'"
| pstep_alloc: "pfsCacheAllocClean B s = Some (r, p, s') \<Longrightarrow> pfs_cache_step B s s'"
| pstep_free: "1 \<le> i \<Longrightarrow> i \<le> pfsCacheNumBuffers s \<Longrightarrow> pfs_cache_step B s (pfsCacheFree (Some i) s)"
| pstep_add: "1 \<le> i \<Longrightarrow> i \<le> pfsCacheNumBuffers s \<Longrightarrow> p_refs s i \<noteq> 0 \<Longrightarrow> p_refs s i \<noteq> -1 \<Longrightarrow>
     pfs_cache_step B s (pfsCacheUsedAdd i s)"
| pstep_flush: "pfsCacheFlushAllDirty B m s = Some s' \<Longrightarrow> pfs_cache_step B s s'"
| pstep_close: "pfsCacheClose B m s = Some s' \<Longrightarrow> pfs_cache_step B s s'"
| pstep_clean: "pfs_cache_step B s (pfsCacheMarkClean m sub a b s)"
| pstep_restore: "pfsJournalRestore B m s = Some (r, s') \<Longrightarrow> pfs_cache_step B s s'"
| pstep_data: "pfs_cache_step B s (upd_data i f s)"
| pstep_dirty: "pfs_cache_step B s (set_flag i PFS_CACHE_FLAG_DIRTY s)"

inductive_cases pfs_cache_stepE: "pfs_cache_step B s s'"

inductive pfs_cache_reach :: "'w pfs_block_device_t \<Rightarrow> 'w pfs_state \<Rightarrow> bool" for B where
  preach_init: "pfsCacheInit B numBuf bufSize s0 = (0, s) \<Longrightarrow> pfs_cache_reach B s"
| preach_step: "pfs_cache_reach B s \<Longrightarrow> pfs_cache_step B s s' \<Longrightarrow> pfs_cache_reach B s'"

lemma get_ok:
  assumes "pfs_cache_ok s" "counts_below_max s" "pfsCacheGetData B m sub sector flags s = Some (r, p, s')"
  shows "pfs_cache_ok s' \<and> pfsCacheNumBuffers s' = pfsCacheNumBuffers s \<and>
    (case p of None \<Rightarrow> r < 0 \<and> p_refs s' = p_refs s
     | Some i \<Rightarrow> 1 \<le> i \<and> i \<le> pfsCacheNumBuffers s \<and> p_key s' i = (m, ucast sub, sector) \<and>
         p_refs s' = (p_refs s)(i := p_refs s i + 1))"
proof -
  obtain xs where inv: "pfs_inv xs s" and once: "blocks_once s" using assms(1) by (auto simp: pfs_cache_ok_def)
  show ?thesis
  proof (cases "\<exists>i. 1 \<le> i \<and> i \<le> pfsCacheNumBuffers s \<and> m \<noteq> 0 \<and> p_key s i = (m, ucast sub, sector)")
    case True
    then obtain i where i: "1 \<le> i" "i \<le> pfsCacheNumBuffers s" "m \<noteq> 0" "p_key s i = (m, ucast sub, sector)" by blast
    from get_cached [OF inv assms(2) i(1,2,4,3) once assms(3)] obtain ys where
      ys: "pfs_inv ys s'" "r = 0" "p = Some i" "p_key s' = p_key s" "p_refs s' = (p_refs s)(i := p_refs s i + 1)"
        "pfsCacheNumBuffers s' = pfsCacheNumBuffers s" by blast
    have "blocks_once s'" using once unfolding blocks_once_def ys(4,6) .
    then show ?thesis using ys i unfolding pfs_cache_ok_def by auto
  next
    case False
    note g = get_missed [OF inv once False assms(3)]
    show ?thesis
    proof (cases p)
      case None
      then show ?thesis using g unfolding pfs_cache_ok_def by simp
    next
      case (Some i)
      then have "i \<in> set xs" using g by auto
      then have "1 \<le> i" "i \<le> pfsCacheNumBuffers s" "p_refs s i = 0" using inv by (auto simp: pfs_inv_def)
      then show ?thesis using g Some unfolding pfs_cache_ok_def by simp
    qed
  qed
qed

text \<open>
  (C24) Every state the metadata cache can get into, from its initialisation through any sequence of
  requests, scratch allocations, releases, flushes, closings of file systems, journal recoveries and
  changes of data, has an intact free list that holds exactly the entries nobody uses, and no block of
  a mounted file system is cached twice.
\<close>

theorem pfs_cache_reach_ok: "pfs_cache_reach B s \<Longrightarrow> pfs_cache_ok s"
proof (induction rule: pfs_cache_reach.induct)
  case (preach_init numBuf bufSize s0 s)
  then show ?case by (rule pfsCacheInit_ok)
next
  case (preach_step s s')
  from preach_step(2,3) show ?case
  proof (induction rule: pfs_cache_step.induct)
    case (pstep_get s m sub sector flags r p s')
    then show ?case using get_ok by blast
  next
    case (pstep_alloc s r p s')
    then show ?case using pfsCacheAllocClean_ok by blast
  next
    case (pstep_flush m s s')
    then show ?case using same_cache_flush same_cache_ok by blast
  next
    case (pstep_data s i f)
    then show ?case using same_cache_ok same_cache_entry(1) by blast
  next
    case (pstep_dirty s i)
    then show ?case using same_cache_ok same_cache_entry(2) by blast
  qed (auto intro: pfsCacheFree_ok pfsCacheUsedAdd_ok pfsCacheClose_ok pfsCacheMarkClean_ok pfsJournalRestore_ok)
qed

definition pboot :: "ram_disk pfs_state" where
  "pboot = snd (pfsCacheInit ram_device 2 1024 blank_state)"

lemma pboot_init: "pfsCacheInit ram_device 2 1024 blank_state = (0, pboot)"
  by (simp add: pboot_def pfsCacheInit_def ram_device_def)

lemma pboot_ok: "pfs_cache_ok pboot"
  by (rule pfsCacheInit_ok [OF pboot_init])

lemma pboot_views:
  "pfsCacheNumBuffers pboot = 2" "p_refs pboot = (\<lambda>_. 0)" "p_key pboot = (\<lambda>_. (0, 0, 0))" "p_next (pfsCacheBuf pboot 0) = 1"
  "pfs_list_empty pboot = False" "bdev pboot = (\<lambda>_ _ _. 0)" "pfsMounts pboot = (\<lambda>_. blank_mount)"
  by (simp_all add: pboot_def pfsCacheInit_def ram_device_def blank_state_def upt_rec pfsCacheLink_def empty_entry_def
      cache_views pfs_list_empty_def upd_p_def)

lemma pboot_counts: "counts_below_max pboot"
  by (simp add: counts_below_max_def list_all_iff pboot_views)

definition got_block :: "ram_disk pfs_state" where
  "got_block = pfsCacheUnLink 1 (upd_p 1 (\<lambda>c. c\<lparr>p_flags := 0, p_mount := 1, p_sub := 0, p_sector := 5, p_nused := 1\<rparr>) pboot)"

lemma got_block_run: "pfsCacheGetData ram_device 1 0 5 PFS_CACHE_FLAG_NOLOAD pboot = Some (0, Some 1, got_block)"
proof -
  have m: "p_mount (pfsCacheBuf pboot i) = 0" for i
    using fun_cong [OF pboot_views(3), of i] by (simp add: p_key_def)
  have "find (\<lambda>i. p_mount (pfsCacheBuf pboot i) \<noteq> 0 \<and> p_mount (pfsCacheBuf pboot i) = 1 \<and>
      p_sector (pfsCacheBuf pboot i) = 5 \<and> p_sub (pfsCacheBuf pboot i) = ucast (0 :: u16)) (slots (pfsCacheNumBuffers pboot)) = None"
    by (simp add: find_None_iff m)
  then show ?thesis
    by (simp add: got_block_def pfsCacheGetData_def pfsCacheAlloc_def pboot_views m)
qed

theorem pfs_cache_reach_ok_witness: "pfs_cache_ok got_block"
proof -
  have "pfs_cache_reach ram_device pboot" by (rule preach_init [OF pboot_init])
  then have "pfs_cache_reach ram_device got_block"
    by (rule preach_step) (rule pstep_get [OF pboot_counts got_block_run])
  then show ?thesis by (rule pfs_cache_reach_ok)
qed

text \<open>
  (C25) A request for a block of a mounted file system. If it returns an entry, the entry exists,
  stands for that block, and has one user more, all other counters as before; if it returns none, it
  reports an error and no counter has changed. A block that is cached is found without touching the
  disk and with its data as it was.
\<close>

theorem pfsCacheGetData_correct:
  assumes "pfs_cache_ok s" "counts_below_max s" "pfsCacheGetData B m sub sector flags s = Some (r, p, s')"
  shows "pfs_cache_ok s' \<and>
    (case p of None \<Rightarrow> r < 0 \<and> p_refs s' = p_refs s
     | Some i \<Rightarrow> 1 \<le> i \<and> i \<le> pfsCacheNumBuffers s \<and> p_key s' i = (m, ucast sub, sector) \<and>
         p_refs s' = (p_refs s)(i := p_refs s i + 1)) \<and>
    (\<forall>i. 1 \<le> i \<and> i \<le> pfsCacheNumBuffers s \<and> m \<noteq> 0 \<and> p_key s i = (m, ucast sub, sector) \<longrightarrow>
       r = 0 \<and> p = Some i \<and> bdev s' = bdev s \<and> p_data (pfsCacheBuf s' i) = p_data (pfsCacheBuf s i))"
proof -
  obtain xs where inv: "pfs_inv xs s" and once: "blocks_once s" using assms(1) by (auto simp: pfs_cache_ok_def)
  then show ?thesis
    using get_cached [OF inv assms(2) _ _ _ _ once assms(3)] get_ok [OF assms] by blast
qed

theorem pfsCacheGetData_correct_witness:
  "p_key got_block 1 = (1, 0, 5) \<and> p_refs got_block = (\<lambda>_. 0)(1 := 1)"
  using pfsCacheGetData_correct [OF pboot_ok pboot_counts got_block_run] by (simp add: pboot_views)

section \<open>Failed writes\<close>

text \<open>
  (C36) What a failed write does to the cache. The status flag of the partition is set in the super
  block, and the buffer used for this is that of the block that could not be written: its first sector
  now holds the super block. The entry counts as clean, the error is kept in the mount, and from
  then on every transfer of this file system does nothing but mark its entry clean.
\<close>

theorem failed_write_clobbers:
  assumes "p_mount (pfsCacheBuf s i) \<noteq> 0" "m_lastError (pfsMounts s (p_mount (pfsCacheBuf s i))) = 0"
    "bd_write B (m_fd (pfsMounts s (p_mount (pfsCacheBuf s i)))) (p_data (pfsCacheBuf s i)) (p_sub (pfsCacheBuf s i))
       (push_bit pfsBlockSize (p_sector (pfsCacheBuf s i))) 2 (bdev s) = (e, d)" "e \<noteq> 0"
    "bd_read B (m_fd (pfsMounts s (p_mount (pfsCacheBuf s i)))) 0 PFS_SUPER_SECTOR 1
       (bd_setPartitionError B (m_fd (pfsMounts s (p_mount (pfsCacheBuf s i)))) d) = (0, w, d')"
  shows "\<exists>s'. pfsCacheTransfer B i PFS_IO_MODE_WRITE s = Some (e, s') \<and>
    (\<forall>k < 128. k \<noteq> SB_FSCKSTAT \<longrightarrow> p_data (pfsCacheBuf s' i) k = w k) \<and>
    p_flags (pfsCacheBuf s' i) AND PFS_CACHE_FLAG_DIRTY = 0 \<and>
    (\<forall>j mode. p_mount (pfsCacheBuf s' j) = p_mount (pfsCacheBuf s i) \<longrightarrow>
       pfsCacheTransfer B j mode s' = Some (e, clear_flag j PFS_CACHE_FLAG_DIRTY s'))"
proof -
  let ?m = "p_mount (pfsCacheBuf s i)"
  let ?fd = "m_fd (pfsMounts s ?m)"
  let ?b = "copy_words (p_data (pfsCacheBuf s i)) 0 w 128"
  let ?b' = "?b(SB_FSCKSTAT := ?b SB_FSCKSTAT OR PFS_FSCK_STAT_WRITE_ERROR)"
  let ?d = "snd (bd_flushCache B ?fd (snd (bd_write B ?fd ?b' 0 PFS_SUPER_SECTOR 1 d')))"
  let ?s = "clear_flag i PFS_CACHE_FLAG_DIRTY
    (upd_m ?m (m_lastError_update (\<lambda>_. e)) (upd_data i (\<lambda>_. ?b') (s\<lparr>bdev := ?d\<rparr>)))"
  have fs: "pfsFsckStat B ?fd (p_data (pfsCacheBuf s i)) PFS_FSCK_STAT_WRITE_ERROR 0 (bd_setPartitionError B ?fd d) = (0, ?b', ?d)"
    by (simp add: pfsFsckStat_def assms(5) Let_def)
  have run: "pfsCacheTransfer B i PFS_IO_MODE_WRITE s = Some (e, ?s)"
    using assms(1-4) fs by (simp add: pfsCacheTransfer_def mnt_def Let_def clear_flag_def upd_data_def upd_m_def)
  have "p_data (pfsCacheBuf ?s i) k = w k" if "k < 128" "k \<noteq> SB_FSCKSTAT" for k
    using that by (simp add: clear_flag_def upd_m_def upd_data_def copy_words_def)
  moreover have "p_flags (pfsCacheBuf ?s i) AND PFS_CACHE_FLAG_DIRTY = 0"
    by (simp add: clear_flag_def upd_m_def upd_data_def and.assoc)
  moreover have "pfsCacheTransfer B j mode ?s = Some (e, clear_flag j PFS_CACHE_FLAG_DIRTY ?s)"
    if "p_mount (pfsCacheBuf ?s j) = ?m" for j mode
  proof -
    have le: "m_lastError (pfsMounts ?s ?m) = e" by (simp add: clear_flag_def upd_m_def upd_data_def)
    then have le': "m_lastError (pfsMounts (clear_flag j b ?s) ?m) = e" for b by (simp add: clear_flag_def)
    show ?thesis
      unfolding pfsCacheTransfer_def that mnt_def Let_def using assms(1,4) le le' by simp
  qed
  ultimately show ?thesis using run by blast
qed

lemma got_block_views:
  "p_key got_block 1 = (1, 0, 5)" "pfsMounts got_block = (\<lambda>_. blank_mount)" "bdev got_block = (\<lambda>_ _ _. 0)"
  by (simp_all add: got_block_def pboot_views) (simp add: p_key_def)

theorem failed_write_clobbers_witness:
  "\<exists>s'. pfsCacheTransfer broken_device 1 PFS_IO_MODE_WRITE got_block = Some (- EIO, s') \<and> p_data (pfsCacheBuf s' 1) 0 = 0"
proof -
  have m: "p_mount (pfsCacheBuf got_block 1) = 1" using got_block_views(1) by (simp add: p_key_def)
  have "\<exists>s'. pfsCacheTransfer broken_device 1 PFS_IO_MODE_WRITE got_block = Some (- EIO, s') \<and>
      (\<forall>k < 128. k \<noteq> SB_FSCKSTAT \<longrightarrow> p_data (pfsCacheBuf s' 1) k = (\<lambda>_. 0) k) \<and>
      p_flags (pfsCacheBuf s' 1) AND PFS_CACHE_FLAG_DIRTY = 0 \<and>
      (\<forall>j mode. p_mount (pfsCacheBuf s' j) = p_mount (pfsCacheBuf got_block 1) \<longrightarrow>
         pfsCacheTransfer broken_device j mode s' = Some (- EIO, clear_flag j PFS_CACHE_FLAG_DIRTY s'))"
    by (rule failed_write_clobbers [where d = "\<lambda>_ _ _. 0" and d' = "\<lambda>_ _ _. 0"])
      (simp_all add: m [simplified] got_block_views(2,3) blank_mount_def broken_device_def ram_device_def ram_read_def)
  then show ?thesis by auto
qed

end
