(* ===== verification/PfsNames.thy ===== *)
theory PfsNames
  imports PfsDir PfsLru PfsSeek
begin

text \<open>
  What the directory routines of iop/hdd/libpfs/src/dir.c do to the names in a sector of a directory. A
  sector is a sequence of entries without gaps; a lookup of a name is a search in this sequence; adding
  and removing an entry keep the sequence without gaps and change the lookup of that name only. The
  last section compares the split of a path into names with the usual one.
\<close>

section \<open>Bytes\<close>

lemma byte_at_put_byte: "byte_at (put_byte k v w) j = (if j = k then v else byte_at w j)"
proof (cases "j div 4 = k div 4")
  case False
  then show ?thesis by (auto simp: byte_at_def put_byte_def)
next
  case True
  have m: "j mod 4 < 4" "k mod 4 < 4" by simp_all
  have iff: "j mod 4 = k mod 4 \<longleftrightarrow> j = k" using True by (metis div_mult_mod_eq)
  show ?thesis
  proof (rule bit_word_eqI)
    fix n assume "n < LENGTH(8)"
    then have n: "n < 8" by simp
    have b255: "bit (255 :: int) i = (i < 8)" for i
    proof -
      have m: "(255 :: int) = mask 8" by (simp add: mask_eq_exp_minus_1)
      show ?thesis unfolding m bit_mask_iff by auto
    qed
    have p: "8 * (j mod 4) + n < 32" using n m by linarith
    show "bit (byte_at (put_byte k v w) j) n = bit (if j = k then v else byte_at w j) n"
    proof (cases "j = k")
      case True
      then show ?thesis using n p by (simp add: byte_at_def put_byte_def bit_simps b255)
    next
      case False
      then have "8 * (j mod 4) + n < 8 * (k mod 4) \<or> 8 * (k mod 4) + 8 \<le> 8 * (j mod 4) + n" using iff n by linarith
      then show ?thesis using n p True False
        by (auto simp: byte_at_def put_byte_def bit_simps b255 dest: bit_imp_le_length)
    qed
  qed
qed

lemma byte_at_put_bytes:
  "byte_at (put_bytes k vs w) j = (if k \<le> j \<and> j < k + length vs then vs ! (j - k) else byte_at w j)"
proof (induction vs arbitrary: k w)
  case (Cons v vs)
  show ?case by (auto simp: Cons.IH byte_at_put_byte nth_Cons')
qed auto

lemma bytes_at_eq: "(\<And>j. k \<le> j \<Longrightarrow> j < k + n \<Longrightarrow> byte_at w j = byte_at w' j) \<Longrightarrow> bytes_at w k n = bytes_at w' k n"
  by (simp add: bytes_at_def)

lemma length_bytes_at [simp]: "length (bytes_at w k n) = n"
  by (simp add: bytes_at_def)

lemma bytes_at_put_bytes: "bytes_at (put_bytes k vs w) k (length vs) = vs"
  by (rule nth_equalityI) (simp_all add: bytes_at_def byte_at_put_bytes)

section \<open>Fields of an entry\<close>

lemma de_aLen16_set: "de_aLen16 (set_de_aLen16 d n w) d = n"
proof -
  have "ucast (ucast n :: u8) OR push_bit 8 (ucast (ucast (drop_bit 8 n) :: u8)) = n"
    by (rule bit_word_eqI) (auto simp: bit_simps dest: bit_imp_le_length)
  then show ?thesis by (simp add: de_aLen16_def set_de_aLen16_def byte_at_put_byte)
qed

lemma de_inode_set: "de_inode (set_de_inode d n w) d = n"
proof -
  have "ucast (ucast n :: u8) OR push_bit 8 (ucast (ucast (drop_bit 8 n) :: u8)) OR
      push_bit 16 (ucast (ucast (drop_bit 16 n) :: u8)) OR push_bit 24 (ucast (ucast (drop_bit 24 n) :: u8)) = n"
    (is "?l = n")
  proof (rule bit_word_eqI)
    fix i assume "i < LENGTH(32)"
    then show "bit ?l i = bit n i" by (cases "i < 8"; cases "i < 16"; cases "i < 24") (auto simp: bit_simps)
  qed
  then show ?thesis by (simp add: de_inode_def word_of_bytes_def set_de_inode_def byte_at_put_byte)
qed

text \<open>Two blocks that agree on the bytes of an entry.\<close>

definition same_bytes :: "words \<Rightarrow> words \<Rightarrow> nat \<Rightarrow> nat \<Rightarrow> bool" where
  "same_bytes w w' a b \<longleftrightarrow> (\<forall>j. a \<le> j \<and> j < b \<longrightarrow> byte_at w' j = byte_at w j)"

definition de_name :: "words \<Rightarrow> nat \<Rightarrow> u8 list" where
  "de_name w d = bytes_at w (d + 8) (de_pLen w d)"

lemma same_head:
  assumes "same_bytes w w' d (d + 8)"
  shows "de_inode w' d = de_inode w d" "de_sub w' d = de_sub w d" "de_pLen w' d = de_pLen w d" "de_aLen16 w' d = de_aLen16 w d"
    "de_aLen w' d = de_aLen w d"
  using assms
  by (simp_all add: same_bytes_def de_inode_def word_of_bytes_def de_sub_def de_pLen_def de_aLen16_def de_aLen_def)

lemma same_name: "same_bytes w w' d (d + 8 + de_pLen w d) \<Longrightarrow> de_name w' d = de_name w d"
proof -
  assume s: "same_bytes w w' d (d + 8 + de_pLen w d)"
  then have "same_bytes w w' d (d + 8)" by (simp add: same_bytes_def)
  then have "de_pLen w' d = de_pLen w d" by (rule same_head)
  then show ?thesis using s unfolding de_name_def by (simp add: same_bytes_def bytes_at_def)
qed

section \<open>Sectors\<close>

text \<open>\<open>dsec w d es d2\<close>: the entries at \<open>es\<close> fill the bytes from \<open>d\<close> to \<open>d2\<close>, each with room for its name.\<close>

fun dsec :: "words \<Rightarrow> nat \<Rightarrow> nat list \<Rightarrow> nat \<Rightarrow> bool" where
  "dsec w d [] d2 = (d = d2)"
| "dsec w d (e # es) d2 = (e = d \<and> de_aLen w d mod 4 = 0 \<and> dentryLen (de_pLen w d) \<le> de_aLen w d \<and>
     d + de_aLen w d \<le> d2 \<and> dsec w (d + de_aLen w d) es d2)"

lemma entry_room: "8 + de_pLen w d \<le> dentryLen (de_pLen w d)"
  using de_pLen_less [of w d] by (simp add: dentryLen_eq)

lemma dsec_le: "dsec w d es d2 \<Longrightarrow> d \<le> d2"
  by (induction es arbitrary: d) auto

lemma dsec_append: "dsec w d (xs @ ys) d2 \<longleftrightarrow> (\<exists>m. dsec w d xs m \<and> dsec w m ys d2)"
proof (induction xs arbitrary: d)
  case (Cons x xs)
  have "d + de_aLen w d \<le> m" "d + de_aLen w d \<le> d2" if "dsec w (d + de_aLen w d) xs m" "dsec w m ys d2" for m
    using dsec_le [OF that(1)] dsec_le [OF that(2)] by simp_all
  then show ?case by (auto simp: Cons.IH)
qed simp

lemma dsec_split:
  assumes "dsec w d es d2" "e \<in> set es"
  obtains pre post where "es = pre @ e # post" "dsec w d pre e" "dsec w e (e # post) d2"
proof -
  from assms(2) obtain pre post where es: "es = pre @ e # post" by (auto simp: in_set_conv_decomp)
  with assms(1) obtain m where "dsec w d pre m" "dsec w m (e # post) d2" by (auto simp: dsec_append)
  then show thesis using that [OF es] by auto
qed

lemma dsec_in: "dsec w d es d2 \<Longrightarrow> e \<in> set es \<Longrightarrow> d \<le> e \<and> e + 8 + de_pLen w e \<le> e + de_aLen w e \<and> e + de_aLen w e \<le> d2"
proof -
  assume "dsec w d es d2" "e \<in> set es"
  then obtain pre post where "dsec w d pre e" "dsec w e (e # post) d2" by (rule dsec_split)
  then show ?thesis using dsec_le [of w d pre e] entry_room [of w e] by simp
qed

lemma same_bytes_sub: "same_bytes w w' a b \<Longrightarrow> a \<le> a' \<Longrightarrow> b' \<le> b \<Longrightarrow> same_bytes w w' a' b'"
  by (simp add: same_bytes_def)

lemma dsec_same: "dsec w d es d2 \<Longrightarrow> same_bytes w w' d d2 \<Longrightarrow> dsec w' d es d2"
proof (induction es arbitrary: d)
  case (Cons e es)
  have "d + 8 \<le> d2" using Cons.prems(1) entry_room [of w d] by simp
  then have h: "same_bytes w w' d (d + 8)" using Cons.prems(2) by (rule same_bytes_sub [rotated -1]) simp_all
  have "same_bytes w w' (d + de_aLen w d) d2" using Cons.prems(2) by (rule same_bytes_sub) simp_all
  with Cons same_head [OF h] show ?case by simp
qed simp

lemma entry_same:
  assumes "dsec w d es d2" "e \<in> set es" "same_bytes w w' d d2"
  shows "de_name w' e = de_name w e" "de_inode w' e = de_inode w e" "de_sub w' e = de_sub w e"
proof -
  from dsec_in [OF assms(1,2)] have "d \<le> e" "e + 8 + de_pLen w e \<le> d2" by simp_all
  then have n: "same_bytes w w' e (e + 8 + de_pLen w e)" using assms(3) by (simp add: same_bytes_def)
  then have "same_bytes w w' e (e + 8)" by (simp add: same_bytes_def)
  then show "de_name w' e = de_name w e" "de_inode w' e = de_inode w e" "de_sub w' e = de_sub w e"
    using same_name [OF n] same_head by auto
qed

section \<open>Looking a name up\<close>

definition lookup :: "words \<Rightarrow> nat list \<Rightarrow> u8 list \<Rightarrow> (u32 \<times> u8) option" where
  "lookup w es q = map_option (\<lambda>e. (de_inode w e, de_sub w e)) (find (\<lambda>e. de_name w e = q) es)"

lemma lookup_Nil [simp]: "lookup w [] q = None"
  by (simp add: lookup_def)

lemma lookup_Cons [simp]: "lookup w (e # es) q = (if de_name w e = q then Some (de_inode w e, de_sub w e) else lookup w es q)"
  by (simp add: lookup_def)

lemma lookup_append: "lookup w (xs @ ys) q = (case lookup w xs q of None \<Rightarrow> lookup w ys q | Some r \<Rightarrow> Some r)"
  by (induction xs) auto

lemma lookup_same:
  assumes "dsec w d es d2" "same_bytes w w' d d2"
  shows "lookup w' es q = lookup w es q"
proof -
  have "lookup w' xs q = lookup w xs q" if "set xs \<subseteq> set es" for xs
    using that by (induction xs) (use entry_same [OF assms(1) _ assms(2)] in auto)
  then show ?thesis by blast
qed

text \<open>The first test of \<open>pfsGetDentry\<close> compares the name; its loop over a sector is the search in the entries.\<close>

lemma fits_name: "dentry_fits 0 (Some p) w e = Some (de_name w e = chars p)"
proof -
  have "de_name w e = chars p \<Longrightarrow> length p = de_pLen w e"
    using length_bytes_at [of w "e + 8" "de_pLen w e"] by (simp add: de_name_def chars_def)
  then show ?thesis by (auto simp: dentry_fits_def de_name_def Let_def)
qed

lemma scan_sector_find:
  assumes "dsec w d es d2" "\<forall>e \<in> set es. dentry_fits sel path w e = Some (P e)"
  shows "fst (scan_sector sel path w d2 d sz) = (case find P es of None \<Rightarrow> DEnd | Some e \<Rightarrow> DFound e)"
  using assms
proof (induction es arbitrary: d sz)
  case Nil
  then show ?case by (subst scan_sector.simps) simp
next
  case (Cons e es)
  have "d < d2" using Cons.prems(1) entry_room [of w d] by simp
  then have "scan_sector sel path w d2 d sz =
      (if P d then (DFound d, sz) else scan_sector sel path w d2 (d + de_aLen w d) (sz + of_nat (de_aLen w d)))"
    using Cons.prems by (subst scan_sector.simps) (simp add: Let_def not_less)
  then show ?case using Cons by auto
qed

section \<open>Writing an entry\<close>

lemma length_and_type:
  assumes "n < 4096"
  shows "unat ((of_nat n OR (x AND 0xF000)) AND 0xFFF :: u16) = n" "unat (((x AND 0xF000) OR of_nat n) AND 0xFFF :: u16) = n"
proof -
  have b: "bit (0xF000 :: int) i = (12 \<le> i \<and> i < 16)" "bit (0xFFF :: int) i = (i < 12)" for i
  proof -
    have m: "(0xF000 :: int) = push_bit 12 (mask 4)" "(0xFFF :: int) = mask 12" by (simp_all add: mask_eq_exp_minus_1 push_bit_eq_mult)
    show "bit (0xF000 :: int) i = (12 \<le> i \<and> i < 16)" "bit (0xFFF :: int) i = (i < 12)"
      unfolding m bit_push_bit_iff bit_mask_iff by auto
  qed
  have "bit n i \<Longrightarrow> i < 12" for i
  proof (rule ccontr)
    assume bi: "bit n i" and "\<not> i < 12"
    then have that: "12 \<le> i" by simp
    have "(2 :: nat) ^ 12 \<le> 2 ^ i" using that by (intro power_increasing) simp_all
    then show False using assms bi by (simp add: bit_iff_odd)
  qed
  then have "(of_nat n OR (x AND 0xF000)) AND 0xFFF = (of_nat n :: u16)" "((x AND 0xF000) OR of_nat n) AND 0xFFF = (of_nat n :: u16)"
    by (auto intro!: bit_word_eqI simp: bit_simps b not_le)
  then show "unat ((of_nat n OR (x AND 0xF000)) AND 0xFFF :: u16) = n" "unat (((x AND 0xF000) OR of_nat n) AND 0xFFF :: u16) = n"
    using assms by (simp_all add: unat_of_nat)
qed

lemma fill_entry:
  fixes d len :: nat and bi :: pfs_blockinfo_t and mode :: u16 and w :: words
  assumes "length path < 256" "len < 4096"
  defines "w' \<equiv> fill_dentry d path bi (of_nat len) mode w"
  shows "de_inode w' d = bi_number bi" "de_sub w' d = ucast (bi_subpart bi)" "de_pLen w' d = length path"
    "de_aLen w' d = len" "de_name w' d = chars path"
    "\<And>j. j < d \<or> d + 8 + length path \<le> j \<Longrightarrow> byte_at w' j = byte_at w j"
proof -
  let ?w1 = "set_de_inode d (bi_number bi) w"
  let ?a = "ucast (of_nat len :: u32) OR (mode AND FIO_S_IFMT) :: u16"
  let ?w4 = "set_de_aLen16 d ?a (set_de_pLen d (length path) (set_de_sub d (bi_subpart bi) ?w1))"
  have p4: "de_pLen ?w4 d = length path"
    using assms(1) by (simp add: de_pLen_def set_de_aLen16_def set_de_pLen_def byte_at_put_byte unat_of_nat)
  have w': "w' = put_bytes (d + 8) (chars path) ?w4"
    using p4 by (simp add: w'_def fill_dentry_def Let_def chars_def)
  have h: "same_bytes ?w4 w' d (d + 8)" by (simp add: same_bytes_def w' byte_at_put_bytes)
  have "ucast (of_nat len :: u32) = (of_nat len :: u16)" by (rule bit_word_eqI) (simp add: bit_simps)
  then have "de_aLen ?w4 d = len"
    using length_and_type(1) [OF assms(2)] by (simp add: de_aLen_def de_aLen16_set)
  then show "de_aLen w' d = len" using same_head(5) [OF h] by simp
  show "de_pLen w' d = length path" using same_head(3) [OF h] p4 by simp
  then show "de_name w' d = chars path"
    using bytes_at_put_bytes [of "d + 8" "chars path" ?w4] by (simp add: de_name_def w' chars_def)
  have "de_inode ?w4 d = de_inode ?w1 d"
    by (simp add: de_inode_def word_of_bytes_def set_de_aLen16_def set_de_pLen_def set_de_sub_def byte_at_put_byte)
  then show "de_inode w' d = bi_number bi" using same_head(1) [OF h] by (simp add: de_inode_set)
  have "de_sub ?w4 d = ucast (bi_subpart bi)"
    by (simp add: de_sub_def set_de_aLen16_def set_de_pLen_def set_de_sub_def byte_at_put_byte)
  then show "de_sub w' d = ucast (bi_subpart bi)" using same_head(2) [OF h] by simp
  show "byte_at w' j = byte_at w j" if "j < d \<or> d + 8 + length path \<le> j" for j
    using that by (auto simp: w' byte_at_put_bytes chars_def set_de_aLen16_def set_de_pLen_def set_de_sub_def
        set_de_inode_def byte_at_put_byte)
qed

text \<open>The change of the length of an entry alone.\<close>

lemma set_length:
  fixes d n :: nat and w :: words
  assumes "n < 4096"
  defines "w' \<equiv> set_de_aLen16 d ((de_aLen16 w d AND FIO_S_IFMT) OR of_nat n) w"
  shows "de_aLen w' d = n" "de_pLen w' d = de_pLen w d" "de_name w' d = de_name w d" "de_inode w' d = de_inode w d"
    "de_sub w' d = de_sub w d" "\<And>j. j < d \<or> d + 8 \<le> j \<Longrightarrow> byte_at w' j = byte_at w j"
proof -
  have b: "byte_at w' j = byte_at w j" if "j \<noteq> d + 6" "j \<noteq> d + 7" for j
    using that by (simp add: w'_def set_de_aLen16_def byte_at_put_byte)
  show "de_aLen w' d = n" using length_and_type(2) [OF assms(1)] by (simp add: w'_def de_aLen_def de_aLen16_set)
  show p: "de_pLen w' d = de_pLen w d" by (simp add: de_pLen_def b)
  show "de_inode w' d = de_inode w d" by (simp add: de_inode_def word_of_bytes_def b)
  show "de_sub w' d = de_sub w d" by (simp add: de_sub_def b)
  show "de_name w' d = de_name w d" unfolding de_name_def p by (rule bytes_at_eq) (simp add: b)
  show "byte_at w' j = byte_at w j" if "j < d \<or> d + 8 \<le> j" for j using that by (auto intro: b)
qed

section \<open>What a search returns\<close>

lemma free_keeps_data [simp]: "inode (pfsCacheFree p s) c = inode s c"
  by (cases p) (simp_all add: pfsCacheFree_eq inode_def upd_p_def, simp add: pfsCacheFree_def)

lemma scan_range: "fst (scan_sector sel path w d2 d sz) = DFound e \<Longrightarrow> d \<le> e \<and> e < d2"
proof (induction sel path w d2 d sz rule: scan_sector.induct)
  case (1 sel path w d2 d sz)
  show ?case
  proof (cases "d < d2 \<and> \<not> (de_aLen w d mod 4 \<noteq> 0 \<or> de_aLen w d < dentryLen (de_pLen w d) \<or> d2 < d + de_aLen w d) \<and>
      dentry_fits sel path w d = Some False")
    case True
    then have "scan_sector sel path w d2 d sz = scan_sector sel path w d2 (d + de_aLen w d) (sz + of_nat (de_aLen w d))"
      by (subst scan_sector.simps) (simp add: Let_def)
    with 1(1) [of "de_aLen w d" False] 1(2) True have "d + de_aLen w d \<le> e \<and> e < d2" by simp
    then show ?thesis by simp
  next
    case False
    with 1(2) show ?thesis
      by (subst (asm) scan_sector.simps) (auto simp: Let_def split: if_splits option.splits bool.splits)
  qed
qed

lemma dentry_chunk_at: "dentry_chunk B clink bp dc d2 s = Some (go, bp', dc', d, s') \<Longrightarrow> d = d2 \<or> d = 0"
  by (auto simp: dentry_chunk_def split: if_splits option.splits prod.splits Option.bind_splits)

text \<open>An entry the search returns was found in a sector of the block it returns.\<close>

definition found_in_sector :: "nat \<Rightarrow> string option \<Rightarrow> (nat \<times> nat) option \<times> u32 \<times> 'w pfs_state \<Rightarrow> bool" where
  "found_in_sector sel path = (\<lambda>(r, sz, t). \<forall>c e. r = Some (c, e) \<longrightarrow>
     (\<exists>d sz0. 512 dvd d \<and> fst (scan_sector sel path (inode t c) (d + 512) d sz0) = DFound e))"

lemma dentry_loop_found:
  fixes B :: "'w pfs_block_device_t"
  assumes "dentry_loop B sel path clink bp dc d2 sz s = Some r" "512 dvd d2"
  shows "found_in_sector sel path r"
proof -
  have "512 dvd d2 \<longrightarrow> found_in_sector sel path r"
  proof (rule dentry_loop.raw_induct [where P = "\<lambda>B sel path clink bp dc d2 sz s r. 512 dvd d2 \<longrightarrow> found_in_sector sel path r",
        OF _ assms(1)], intro impI)
    fix f :: "'w pfs_block_device_t \<Rightarrow> nat \<Rightarrow> string option \<Rightarrow> nat \<Rightarrow> pfs_blockpos_t \<Rightarrow> nat option \<Rightarrow> nat \<Rightarrow> u32 \<Rightarrow> 'w pfs_state \<Rightarrow>
        ((nat \<times> nat) option \<times> u32 \<times> 'w pfs_state) option"
      and B sel path clink bp dc sz s r and d2 :: nat
    assume IH: "\<And>B sel path clink bp dc d2 sz s r. f B sel path clink bp dc d2 sz s = Some r \<Longrightarrow>
        512 dvd d2 \<longrightarrow> found_in_sector sel path r"
    assume d2: "512 dvd d2"
    assume run: "(if \<not> ucast sz < i_size (inode s clink)
      then Some (None, sz, pfsCacheFree (bp_inode bp) (pfsCacheFree dc s))
      else do {
        (go, bp, dc, d, s) \<leftarrow> dentry_chunk B clink bp dc d2 s;
        if \<not> go then Some (None, sz, pfsCacheFree (bp_inode bp) (pfsCacheFree dc s))
        else do {
          c \<leftarrow> dc;
          (case scan_sector sel path (inode s c) (d + 512) d sz of
             (DFound d', sz) \<Rightarrow> Some (Some (c, d'), sz, pfsCacheFree (bp_inode bp) s)
           | (DBad, sz) \<Rightarrow> Some (None, sz, pfsCacheFree (bp_inode bp) (pfsCacheFree dc s))
           | (DEnd, sz) \<Rightarrow> f B sel path clink bp dc (d + 512) sz s) } }) = Some r"
    have none: "found_in_sector sel path (None, sz, s)" for sz s by (simp add: found_in_sector_def)
    show "found_in_sector sel path r"
    proof (cases "ucast sz < i_size (inode s clink)")
      case True
      with run obtain go bp1 dc1 d s1 where chunk: "dentry_chunk B clink bp dc d2 s = Some (go, bp1, dc1, d, s1)"
        by (auto split: Option.bind_splits)
      show ?thesis
      proof (cases "go \<and> dc1 \<noteq> None")
        case False
        with run True chunk none show ?thesis by (auto split: if_splits)
      next
        case True
        then obtain c where c: "dc1 = Some c" by blast
        obtain x sz1 where scan: "scan_sector sel path (inode s1 c) (d + 512) d sz = (x, sz1)" by fastforce
        have d: "512 dvd d" using dentry_chunk_at [OF chunk] d2 by auto
        have tail: "(case x of DFound d' \<Rightarrow> Some (Some (c, d'), sz1, pfsCacheFree (bp_inode bp1) s1)
             | DBad \<Rightarrow> Some (None, sz1, pfsCacheFree (bp_inode bp1) (pfsCacheFree dc1 s1))
             | DEnd \<Rightarrow> f B sel path clink bp1 dc1 (d + 512) sz1 s1) = Some r"
          using run \<open>ucast sz < _\<close> True chunk scan unfolding c by simp
        show ?thesis
        proof (cases x)
          case (DFound e)
          then have "fst (scan_sector sel path (inode s1 c) (d + 512) d sz) = DFound e" using scan by simp
          then have ex: "\<exists>d sz0. 512 dvd d \<and> fst (scan_sector sel path (inode s1 c) (d + 512) d sz0) = DFound e"
            using d by blast
          have r: "r = (Some (c, e), sz1, pfsCacheFree (bp_inode bp1) s1)" using tail DFound by simp
          show ?thesis unfolding r found_in_sector_def using ex by simp
        next
          case DEnd
          then have "f B sel path clink bp1 dc1 (d + 512) sz1 s1 = Some r" using tail by simp
          from IH [OF this] d show ?thesis by simp
        next
          case DBad
          then show ?thesis using tail none by auto
        qed
      qed
    qed (use run none in auto)
  qed
  with assms(2) show ?thesis by simp
qed

lemma getDentry_found:
  assumes "pfsGetDentry B clink path sel s = Some (Some (c, e), sz, t)"
  shows "\<exists>d sz0. 512 dvd d \<and> fst (scan_sector sel path (inode t c) (d + 512) d sz0) = DFound e"
proof -
  define bp where "bp = \<lparr>bp_inode = Some clink, bp_segment = 1, bp_offset = 0, bp_byte = 0\<rparr>"
  from assms obtain q dc s1 where "pfsGetDentriesChunk B bp (pfsCacheUsedAdd clink s) = Some (q, dc, s1)"
    by (auto simp: pfsGetDentry_def bp_def Let_def split: Option.bind_splits)
  with assms have "dentry_loop B sel path clink bp dc 0 0 s1 = Some (Some (c, e), sz, t)"
    by (simp add: pfsGetDentry_def bp_def Let_def split: if_splits)
  from dentry_loop_found [OF this] show ?thesis by (simp add: found_in_sector_def)
qed

section \<open>Adding an entry\<close>

text \<open>A sector in order: its entries fill it, and exactly the empty ones have no name.\<close>

definition dsec_ok :: "words \<Rightarrow> nat \<Rightarrow> nat list \<Rightarrow> bool" where
  "dsec_ok w k es \<longleftrightarrow> dsec w k es (k + 512) \<and> (\<forall>e \<in> set es. de_inode w e = 0 \<longleftrightarrow> de_name w e = [])"

lemma de_name_Nil: "de_name w e = [] \<longleftrightarrow> de_pLen w e = 0"
  by (simp add: de_name_def bytes_at_def)

lemma new_length_table: "\<forall>p\<in>set [0..<256]. unat ((of_nat (p + 8 + 3) :: u32) AND NOT 3) = (p + 11) div 4 * 4"
  by code_simp

lemma new_length: "p < 256 \<Longrightarrow> unat ((of_nat (p + 8 + 3) :: u32) AND NOT 3) = dentryLen p"
  using bspec [OF new_length_table, of p] by (simp add: dentryLen_eq)

lemma dentryLen_mod: "p < 256 \<Longrightarrow> dentryLen p mod 4 = 0"
  by (simp add: dentryLen_eq)

lemma room_for:
  assumes "dentry_fits 1 (Some p) w e = Some True" "length p < 256" "dentryLen (de_pLen w e) \<le> de_aLen w e"
  shows "dentryLen (length p) \<le> de_aLen w e"
    "de_inode w e \<noteq> 0 \<Longrightarrow> dentryLen (length p) + dentryLen (de_pLen w e) \<le> de_aLen w e"
  using assms new_length [OF assms(2)] by (auto simp: dentry_fits_def Let_def split: if_splits)

lemma dsec_end: "dsec w d es a \<Longrightarrow> dsec w d es b \<Longrightarrow> a = b"
  by (induction es arbitrary: d) auto

text \<open>A change of the bytes of some entries leaves those in front of them and behind them as they are.\<close>

lemma around_entries:
  assumes ok: "dsec_ok w k (pre @ old @ post)" and old: "dsec w e old x" "old \<noteq> []"
    and new: "dsec w' e mid x" "\<forall>d \<in> set mid. de_inode w' d = 0 \<longleftrightarrow> de_name w' d = []"
    and out: "\<And>j. j < e \<or> x \<le> j \<Longrightarrow> byte_at w' j = byte_at w j"
  shows "dsec_ok w' k (pre @ mid @ post)" "lookup w' pre q = lookup w pre q" "lookup w' post q = lookup w post q"
proof -
  from ok obtain m y where m: "dsec w k pre m" "dsec w m old y" "dsec w y post (k + 512)"
    by (auto simp: dsec_ok_def dsec_append)
  then have "m = e" using old by (cases old) auto
  note pre = m(1) [unfolded this]
  have "y = x" using m(2) old(1) unfolding \<open>m = e\<close> by (rule dsec_end)
  note post = m(3) [unfolded this]
  have s: "same_bytes w w' k e" "same_bytes w w' x (k + 512)"
    using out by (simp_all add: same_bytes_def)
  show "lookup w' pre q = lookup w pre q" "lookup w' post q = lookup w post q"
    using lookup_same [OF pre s(1)] lookup_same [OF post s(2)] by simp_all
  have "dsec w' k (pre @ mid @ post) (k + 512)"
    using dsec_same [OF pre s(1)] dsec_same [OF post s(2)] new(1) by (auto simp: dsec_append)
  moreover have "\<forall>d \<in> set (pre @ mid @ post). de_inode w' d = 0 \<longleftrightarrow> de_name w' d = []"
    using ok new(2) entry_same [OF pre _ s(1)] entry_same [OF post _ s(2)] by (auto simp: dsec_ok_def)
  ultimately show "dsec_ok w' k (pre @ mid @ post)" by (simp add: dsec_ok_def)
qed

lemma change_around:
  assumes ok: "dsec_ok w k (pre @ old @ post)" and old: "dsec w e old x" "old \<noteq> []"
    and new: "dsec w' e mid x" "\<forall>d \<in> set mid. de_inode w' d = 0 \<longleftrightarrow> de_name w' d = []"
    and out: "\<And>j. j < e \<or> x \<le> j \<Longrightarrow> byte_at w' j = byte_at w j"
    and mid: "\<And>q. q \<noteq> [] \<Longrightarrow> lookup w' mid q = (if q = n then v else lookup w old q)"
    and here: "lookup w pre n = None" "v = None \<Longrightarrow> lookup w post n = None"
  shows "dsec_ok w' k (pre @ mid @ post) \<and>
    (\<forall>q. q \<noteq> [] \<longrightarrow> lookup w' (pre @ mid @ post) q = (if q = n then v else lookup w (pre @ old @ post) q))"
proof -
  note ar = around_entries [OF ok old new out]
  have "lookup w' (pre @ mid @ post) q = (if q = n then v else lookup w (pre @ old @ post) q)" if "q \<noteq> []" for q
    using mid [OF that] here by (cases v) (auto simp: lookup_append ar split: option.split)
  with ar(1) show ?thesis by blast
qed

lemma add_over_empty:
  fixes w :: words and e :: nat
  assumes e: "dsec w e (e # post) d2" "de_inode w e = 0" "de_pLen w e = 0" "d2 \<le> e + 512"
    and fits: "dentry_fits 1 (Some p) w e = Some True" and p: "p \<noteq> []" "length p < 256" "bi_number bi \<noteq> 0"
  obtains w1 where "split_dentry e w = (e, of_nat (de_aLen w e), w1)"
    "\<And>j. j < e \<or> e + 8 \<le> j \<Longrightarrow> byte_at w1 j = byte_at w j"
    "dsec (fill_dentry e p bi (of_nat (de_aLen w e)) mode w1) e [e] (e + de_aLen w e)"
proof -
  define w1 where "w1 = set_de_aLen16 e ((de_aLen16 w e AND FIO_S_IFMT) OR of_nat 0) w"
  have l: "de_aLen w e < 4096" using e(1,4) by simp
  note w1 = set_length [where n = 0 and d = e and w = w, folded w1_def, simplified]
  have split: "split_dentry e w = (e, of_nat (de_aLen w e), w1)"
    using w1(1) e(3) by (simp add: split_dentry_def Let_def w1_def)
  have "dentryLen (length p) \<le> de_aLen w e" using room_for(1) [OF fits p(2)] e(1) by simp
  then have d: "dsec (fill_dentry e p bi (of_nat (de_aLen w e)) mode w1) e [e] (e + de_aLen w e)"
    using fill_entry(3,4) [OF p(2) l, where d = e and bi = bi and mode = mode and w = w1] e(1) by simp
  show thesis by (rule that [OF split w1(6) d])
qed

lemma add_behind:
  fixes w :: words and e :: nat
  assumes e: "dsec w e (e # post) d2" "de_inode w e \<noteq> 0" "de_pLen w e \<noteq> 0" "d2 \<le> e + 512"
    and fits: "dentry_fits 1 (Some p) w e = Some True" and p: "p \<noteq> []" "length p < 256" "bi_number bi \<noteq> 0"
  defines "d \<equiv> e + dentryLen (de_pLen w e)" and "n \<equiv> de_aLen w e - dentryLen (de_pLen w e)"
  obtains w1 where "split_dentry e w = (d, of_nat n, w1)"
    "\<And>j. j < e \<or> e + 8 \<le> j \<Longrightarrow> byte_at w1 j = byte_at w j"
    "de_name w1 e = de_name w e" "de_inode w1 e = de_inode w e" "de_sub w1 e = de_sub w e"
    "dsec (fill_dentry d p bi (of_nat n) mode w1) e [e, d] (e + de_aLen w e)"
    "same_bytes w1 (fill_dentry d p bi (of_nat n) mode w1) e (e + 8 + de_pLen w1 e)"
proof -
  have a: "dentryLen (length p) + dentryLen (de_pLen w e) \<le> de_aLen w e"
    using room_for(2) [OF fits p(2) _ e(2)] e(1) by simp
  have l: "n < 4096" "dentryLen (de_pLen w e) < 4096" using e(1,4) by (auto simp: n_def)
  define w1 where "w1 = set_de_aLen16 e ((de_aLen16 w e AND FIO_S_IFMT) OR of_nat (dentryLen (de_pLen w e))) w"
  note w1 = set_length [where n = "dentryLen (de_pLen w e)" and d = e and w = w, folded w1_def, OF l(2)]
  have split: "split_dentry e w = (d, of_nat n, w1)"
    using w1(1) e(1,3) by (simp add: split_dentry_def Let_def w1_def d_def n_def)
  let ?w = "fill_dentry d p bi (of_nat n) mode w1"
  note f = fill_entry [OF p(2) l(1), where d = d and bi = bi and mode = mode and w = w1]
  have "8 + de_pLen w e \<le> dentryLen (de_pLen w e)" by (rule entry_room)
  then have s: "same_bytes w1 ?w e (e + 8 + de_pLen w1 e)" using f(6) by (simp add: same_bytes_def d_def w1(2))
  then have "same_bytes w1 ?w e (e + 8)" by (rule same_bytes_sub) simp_all
  note h = same_head [OF this]
  have m: "n mod 4 = 0" "dentryLen (de_pLen w e) mod 4 = 0" using e(1) dentryLen_mod [OF de_pLen_less, of w e] 
    by (simp_all add: n_def dvd_eq_mod_eq_0 [symmetric])
  have d: "dsec ?w e [e, d] (e + de_aLen w e)"
    using h w1(1,2) f(3,4) a m by (simp add: d_def n_def)
  show thesis by (rule that [OF split w1(6,3,4,5) d s])
qed

text \<open>The block after the two steps of \<open>pfsDirAddEntry\<close> at an entry with room.\<close>

definition add_at :: "nat \<Rightarrow> string \<Rightarrow> pfs_blockinfo_t \<Rightarrow> u16 \<Rightarrow> words \<Rightarrow> words" where
  "add_at e p bi mode w = (case split_dentry e w of (d, len, w) \<Rightarrow> fill_dentry d p bi len mode w)"

lemma add_in_sector:
  fixes w :: words and e k :: nat and p :: string and bi :: pfs_blockinfo_t and mode :: u16
  assumes ok: "dsec_ok w k es" and e: "e \<in> set es"
    and fits: "dentry_fits 1 (Some p) w e = Some True" and p: "p \<noteq> []" "length p < 256" "bi_number bi \<noteq> 0"
    and fresh: "lookup w es (chars p) = None"
  defines "w' \<equiv> add_at e p bi mode w"
  shows "(\<exists>es'. dsec_ok w' k es' \<and> (\<forall>q. q \<noteq> [] \<longrightarrow> lookup w' es' q =
         (if q = chars p then Some (bi_number bi, ucast (bi_subpart bi)) else lookup w es q))) \<and>
    (\<forall>j. j < k \<or> k + 512 \<le> j \<longrightarrow> byte_at w' j = byte_at w j)"
proof -
  from ok e obtain pre post where es: "es = pre @ e # post" and pre: "dsec w k pre e" and post: "dsec w e (e # post) (k + 512)"
    by (auto simp: dsec_ok_def elim: dsec_split)
  have b: "k \<le> e" "e + de_aLen w e \<le> k + 512" "8 + de_pLen w e \<le> de_aLen w e" "k + 512 \<le> e + 512"
    using dsec_le [OF pre] post entry_room [of w e] by simp_all
  have len: "dentryLen (length p) \<le> de_aLen w e" using room_for(1) [OF fits p(2)] post by simp
  have np: "8 + length p \<le> dentryLen (length p)" using p(2) by (simp add: dentryLen_eq)
  have empty: "de_inode w e = 0 \<longleftrightarrow> de_pLen w e = 0" using ok es by (simp add: dsec_ok_def de_name_Nil)
  have pc: "chars p \<noteq> []" using p(1) by (simp add: chars_def)
  have fin: ?thesis if "dsec w' e mid (e + de_aLen w e)" "\<forall>d \<in> set mid. de_inode w' d = 0 \<longleftrightarrow> de_name w' d = []"
    and out: "\<And>j. j < e \<or> e + de_aLen w e \<le> j \<Longrightarrow> byte_at w' j = byte_at w j"
    and "\<And>q. q \<noteq> [] \<Longrightarrow> lookup w' mid q = (if q = chars p then Some (bi_number bi, ucast (bi_subpart bi)) else lookup w [e] q)"
    for mid
  proof -
    have "dsec_ok w k (pre @ [e] @ post)" "dsec w e [e] (e + de_aLen w e)" "[e] \<noteq> []" using ok post by (simp_all add: es)
    note c = change_around [OF this that]
    have "lookup w pre (chars p) = None" using fresh by (simp add: es lookup_append split: option.splits)
    then have "dsec_ok w' k (pre @ mid @ post) \<and> (\<forall>q. q \<noteq> [] \<longrightarrow> lookup w' (pre @ mid @ post) q =
        (if q = chars p then Some (bi_number bi, ucast (bi_subpart bi)) else lookup w es q))"
      using c by (simp add: es)
    with out b show ?thesis by auto
  qed
  show ?thesis
  proof (cases "de_pLen w e = 0")
    case True
    obtain w1 where w1: "split_dentry e w = (e, of_nat (de_aLen w e), w1)"
        "\<And>j. j < e \<or> e + 8 \<le> j \<Longrightarrow> byte_at w1 j = byte_at w j"
        "dsec (fill_dentry e p bi (of_nat (de_aLen w e)) mode w1) e [e] (e + de_aLen w e)"
      using add_over_empty [OF post _ True b(4) fits p] empty True by blast
    have w': "w' = fill_dentry e p bi (of_nat (de_aLen w e)) mode w1" by (simp add: w'_def add_at_def w1(1))
    have l: "de_aLen w e < 4096" using b by simp
    note f = fill_entry [OF p(2) l, where d = e and bi = bi and mode = mode and w = w1, folded w']
    show ?thesis
    proof (rule fin)
      show "dsec w' e [e] (e + de_aLen w e)" unfolding w' by (rule w1(3))
      show "byte_at w' j = byte_at w j" if "j < e \<or> e + de_aLen w e \<le> j" for j
        using that f(6) [of j] w1(2) [of j] len np by auto
    qed (use f pc p(3) True in \<open>auto simp: de_name_Nil [symmetric]\<close>)
  next
    case False
    define d where "d = e + dentryLen (de_pLen w e)"
    define n where "n = de_aLen w e - dentryLen (de_pLen w e)"
    obtain w1 where w1: "split_dentry e w = (d, of_nat n, w1)"
        "\<And>j. j < e \<or> e + 8 \<le> j \<Longrightarrow> byte_at w1 j = byte_at w j"
        "de_name w1 e = de_name w e" "de_inode w1 e = de_inode w e" "de_sub w1 e = de_sub w e"
        "dsec (fill_dentry d p bi (of_nat n) mode w1) e [e, d] (e + de_aLen w e)"
        "same_bytes w1 (fill_dentry d p bi (of_nat n) mode w1) e (e + 8 + de_pLen w1 e)"
      using add_behind [OF post _ False b(4) fits p] empty False unfolding d_def n_def by blast
    have w': "w' = fill_dentry d p bi (of_nat n) mode w1" by (simp add: w'_def add_at_def w1(1))
    have l: "n < 4096" using b by (simp add: n_def)
    note f = fill_entry [OF p(2) l, where d = d and bi = bi and mode = mode and w = w1, folded w']
    have e8: "same_bytes w1 w' e (e + 8)" using w1(7) unfolding w' by (rule same_bytes_sub) simp_all
    have nm: "de_name w' e = de_name w e" "de_inode w' e = de_inode w e" "de_sub w' e = de_sub w e"
      using same_name [OF w1(7)] same_head(1,2) [OF e8] w1(3-5) by (simp_all add: w')
    have "de_name w e \<noteq> chars p" using fresh by (auto simp: es lookup_append split: if_splits option.splits)
    moreover have room: "dentryLen (length p) + dentryLen (de_pLen w e) \<le> de_aLen w e"
      using room_for(2) [OF fits p(2)] post empty False by simp
    ultimately show ?thesis
    proof (intro fin [of "[e, d]"], goal_cases)
      case 1 show ?case unfolding w' by (rule w1(6))
    next
      case 2 show ?case using nm f(1,5) pc p(3) empty by (simp add: de_name_Nil [of w])
    next
      case (3 j) then show ?case using f(6) [of j] w1(2) [of j] np b unfolding d_def by auto
    next
      case (4 q) then show ?case using nm f(1,2,5) by simp
    qed
  qed
qed

section \<open>Removing an entry\<close>

lemma remove_walk_at:
  assumes "dsec w dn (pre @ e # post) (k + 512)" "dn = k + i"
  shows "remove_walk w e dl dn i = Some (if pre = [] then (case dl of Some l \<Rightarrow> Merged l | None \<Rightarrow> Emptied) else Merged (last pre))"
  using assms
proof (induction pre arbitrary: dn dl i)
  case Nil
  then show ?case by (subst remove_walk.simps) simp
next
  case (Cons x pre)
  from Cons.prems have x: "x = dn" "8 + de_pLen w dn \<le> de_aLen w dn" "dsec w (dn + de_aLen w dn) (pre @ e # post) (k + 512)"
    using entry_room [of w dn] by auto
  have "e \<in> set (pre @ e # post)" by simp
  from dsec_in [OF x(3) this] have "dn + de_aLen w dn \<le> e" "e + 8 \<le> k + 512" by simp_all
  then have "dn \<noteq> e" "i + de_aLen w dn < 512" using x(2) Cons.prems(2) by simp_all
  then have "remove_walk w e dl dn i = remove_walk w e (Some dn) (dn + de_aLen w dn) (i + de_aLen w dn)"
    by (subst remove_walk.simps) simp
  also have "\<dots> = Some (if pre = [] then Merged dn else Merged (last pre))"
    using Cons.IH [OF x(3)] Cons.prems(2) by simp
  finally show ?case using x(1) by simp
qed

definition merge_entry :: "nat \<Rightarrow> nat \<Rightarrow> words \<Rightarrow> words" where
  "merge_entry l n w = set_de_aLen16 l ((de_aLen16 w l AND FIO_S_IFMT) OR of_nat (de_aLen w l + n)) w"

definition empty_dentry :: "nat \<Rightarrow> words \<Rightarrow> words" where
  "empty_dentry d w = set_de_pLen d 0 (set_de_inode d 0 w)"

definition names_distinct :: "words \<Rightarrow> nat list \<Rightarrow> bool" where
  "names_distinct w es \<longleftrightarrow> distinct (filter (\<lambda>q. q \<noteq> []) (map (de_name w) es))"

lemma lookup_None: "q \<notin> de_name w ` set es \<Longrightarrow> lookup w es q = None"
  by (induction es) auto

lemma remove_in_sector:
  fixes w :: words and e k :: nat
  assumes ok: "dsec_ok w k es" and e: "e \<in> set es" and uniq: "names_distinct w es" "de_name w e \<noteq> []"
  obtains r w' es' where "remove_walk w e None k 0 = Some r"
    "w' = (case r of Merged l \<Rightarrow> merge_entry l (de_aLen w e) w | _ \<Rightarrow> empty_dentry e w)" "r \<noteq> Missing"
    "dsec_ok w' k es'" "\<forall>q. q \<noteq> [] \<longrightarrow> lookup w' es' q = (if q = de_name w e then None else lookup w es q)"
    "\<forall>j. j < k \<or> k + 512 \<le> j \<longrightarrow> byte_at w' j = byte_at w j"
proof -
  from ok e obtain pre post where es: "es = pre @ e # post" and pre: "dsec w k pre e" and post: "dsec w e (e # post) (k + 512)"
    by (auto simp: dsec_ok_def elim: dsec_split)
  have b: "k \<le> e" "e + de_aLen w e \<le> k + 512" "8 + de_pLen w e \<le> de_aLen w e"
    using dsec_le [OF pre] post entry_room [of w e] by simp_all
  have none: "lookup w pre (de_name w e) = None" "lookup w post (de_name w e) = None"
    using uniq unfolding es by (auto intro!: lookup_None simp: names_distinct_def)
  have walk: "remove_walk w e None k 0 = Some (if pre = [] then Emptied else Merged (last pre))"
    using remove_walk_at [of w k pre e post k 0 None] ok by (simp add: dsec_ok_def es)
  show thesis
  proof (cases pre rule: rev_cases)
    case Nil
    define w' where "w' = empty_dentry e w"
    have h: "de_inode w' e = 0" "de_pLen w' e = 0" "de_aLen w' e = de_aLen w e"
      by (simp_all add: w'_def empty_dentry_def de_inode_def word_of_bytes_def de_pLen_def de_aLen_def de_aLen16_def
          set_de_inode_def set_de_pLen_def byte_at_put_byte)
    have out: "byte_at w' j = byte_at w j" if "j < e \<or> e + de_aLen w e \<le> j" for j
      using that b by (auto simp: w'_def empty_dentry_def set_de_inode_def set_de_pLen_def byte_at_put_byte)
    have d: "dsec w' e [e] (e + de_aLen w e)" using h post b by (simp add: dentryLen_eq)
    have l: "lookup w' [e] q = (if q = de_name w e then None else lookup w [e] q)" if "q \<noteq> []" for q
      using that h(2) by (simp add: de_name_Nil [symmetric])
    have o: "dsec_ok w k ([] @ [e] @ post)" "dsec w e [e] (e + de_aLen w e)" "[e] \<noteq> []" using ok post Nil by (simp_all add: es)
    have n: "\<forall>d \<in> set [e]. de_inode w' d = 0 \<longleftrightarrow> de_name w' d = []" using h by (simp add: de_name_Nil)
    note c = change_around [OF o d n out l lookup_Nil none(2)]
    have out': "byte_at w' j = byte_at w j" if "j < k \<or> k + 512 \<le> j" for j using that b by (intro out) auto
    have es': "es = [] @ [e] @ post" by (simp add: es Nil)
    show thesis by (rule that [OF walk, of w' "[] @ [e] @ post"], unfold es') (use c out' Nil in \<open>simp_all add: w'_def\<close>)
  next
    case (snoc pre' a)
    define w' where "w' = merge_entry a (de_aLen w e) w"
    from pre snoc have pa: "dsec w k pre' a" and a: "de_aLen w a mod 4 = 0" "dentryLen (de_pLen w a) \<le> de_aLen w a" "a + de_aLen w a = e"
      by (auto simp: dsec_append)
    have l: "de_aLen w a + de_aLen w e < 4096" using a(3) b dsec_le [OF pa] by simp
    note h = set_length [OF l, where d = a and w = w, folded merge_entry_def, folded w'_def]
    have out: "byte_at w' j = byte_at w j" if "j < a \<or> e + de_aLen w e \<le> j" for j
      using that h(6) [of j] a b by auto
    have d: "dsec w' a [a] (e + de_aLen w e)" using h(1,2) a post by auto
    have ne: "de_name w a \<noteq> de_name w e" using uniq by (auto simp: names_distinct_def es snoc)
    have o: "dsec_ok w k (pre' @ [a, e] @ post)" "dsec w a [a, e] (e + de_aLen w e)" "[a, e] \<noteq> []"
      using ok post a by (auto simp: es snoc)
    have n: "\<forall>d \<in> set [a]. de_inode w' d = 0 \<longleftrightarrow> de_name w' d = []" using h ok by (simp add: dsec_ok_def es snoc)
    have lk: "lookup w' [a] q = (if q = de_name w e then None else lookup w [a, e] q)" if "q \<noteq> []" for q
      using h(3-5) ne by auto
    have "lookup w pre' (de_name w e) = None" using none(1) by (simp add: snoc lookup_append split: option.splits)
    note c = change_around [OF o d n out lk this none(2)]
    have out': "byte_at w' j = byte_at w j" if "j < k \<or> k + 512 \<le> j" for j
      using that b dsec_le [OF pa] by (intro out) auto
    have es': "es = pre' @ [a, e] @ post" by (simp add: es snoc)
    show thesis by (rule that [OF walk, of w' "pre' @ [a] @ post"], unfold es')
      (use c out' snoc in \<open>simp_all add: w'_def\<close>)
  qed
qed

section \<open>The directory as a map\<close>

lemma fits_some: "sel < 3 \<Longrightarrow> dentry_fits sel path w e = Some (dentry_fits sel path w e = Some True)"
  by (auto simp: dentry_fits_def Let_def)

lemma found_entry:
  assumes "pfsGetDentry B dir path sel s = Some (Some (c, e), sz, t)" "sel < 3" "dsec (inode t c) (e div 512 * 512) es (e div 512 * 512 + 512)"
  shows "e \<in> set es" "dentry_fits sel path (inode t c) e = Some True"
proof -
  obtain d sz0 where d: "512 dvd d" "fst (scan_sector sel path (inode t c) (d + 512) d sz0) = DFound e"
    using getDentry_found [OF assms(1)] by blast
  from scan_range [OF d(2)] have "d \<le> e" "e < d + 512" by simp_all
  then have k: "d = e div 512 * 512" using d(1) by (auto elim!: dvdE)
  let ?P = "\<lambda>e. dentry_fits sel path (inode t c) e = Some True"
  have "find ?P es = Some e"
    using scan_sector_find [OF assms(3) [folded k], of sel path ?P sz0] d(2) fits_some [OF assms(2), of path "inode t c"]
    by (auto split: option.splits)
  then show "e \<in> set es" "?P e" by (auto simp: find_Some_iff)
qed

text \<open>
  (C28) Adding a name. When the search finds an entry with room in a sector in order, in which the name
  does not occur, adding it succeeds in that block, the sector is in order afterwards, the name leads to
  the new inode, every other name leads where it did, and no byte outside the sector changes.
\<close>

theorem add_entry_correct:
  assumes found: "pfsGetDentry B dir (Some p) 1 s = Some (Some (c, e), sz, s1)"
    and p: "p \<noteq> []" "length p < 256" "bi_number bi \<noteq> 0"
    and sec: "dsec_ok (inode s1 c) (e div 512 * 512) es" "lookup (inode s1 c) es (chars p) = None"
  shows "\<exists>t es'. pfsDirAddEntry B dir p bi mode r s = Some (r, Some c, t) \<and>
    dsec_ok (inode t c) (e div 512 * 512) es' \<and>
    (\<forall>q. q \<noteq> [] \<longrightarrow> lookup (inode t c) es' q =
       (if q = chars p then Some (bi_number bi, ucast (bi_subpart bi)) else lookup (inode s1 c) es q)) \<and>
    (\<forall>j. j < e div 512 * 512 \<or> e div 512 * 512 + 512 \<le> j \<longrightarrow> byte_at (inode t c) j = byte_at (inode s1 c) j)"
proof -
  obtain d len w where sp: "split_dentry e (inode s1 c) = (d, len, w)" by (metis prod_cases3)
  define t where "t = pfsFillDentry c d p bi len mode (upd_data c (\<lambda>_. w) s1)"
  have run: "pfsDirAddEntry B dir p bi mode r s = Some (r, Some c, t)" by (simp add: pfsDirAddEntry_def found [simplified] sp t_def)
  have "inode t c = add_at e p bi mode (inode s1 c)"
    unfolding add_at_def sp by (simp add: t_def pfsFillDentry_def inode_def upd_data_def upd_p_def)
  with run add_in_sector [OF sec(1) found_entry(1,2) [OF found _ sec(1) [unfolded dsec_ok_def, THEN conjunct1]] p sec(2)]
  show ?thesis by auto
qed

text \<open>
  (C29) Removing a name. When the search finds it in a sector in order without duplicate names, removing
  it succeeds in that block, the sector is in order afterwards, the name is gone, every other name
  leads where it did, and no byte outside the sector changes.
\<close>

theorem remove_entry_correct:
  assumes found: "pfsGetDentry B dir (Some p) 0 s = Some (Some (c, e), sz, s1)" and p: "p \<noteq> []" "c \<noteq> dir"
    and sec: "dsec_ok (inode s1 c) (e div 512 * 512) es" "names_distinct (inode s1 c) es"
  shows "\<exists>t es'. pfsDirRemoveEntry B dir p s = Some (Some c, t) \<and>
    dsec_ok (inode t c) (e div 512 * 512) es' \<and>
    (\<forall>q. q \<noteq> [] \<longrightarrow> lookup (inode t c) es' q = (if q = chars p then None else lookup (inode s1 c) es q)) \<and>
    (\<forall>j. j < e div 512 * 512 \<or> e div 512 * 512 + 512 \<le> j \<longrightarrow> byte_at (inode t c) j = byte_at (inode s1 c) j)"
proof -
  note f = found_entry [OF found _ sec(1) [unfolded dsec_ok_def, THEN conjunct1], simplified]
  then have n: "de_name (inode s1 c) e = chars p" "de_name (inode s1 c) e \<noteq> []" using p(1) by (simp_all add: fits_name chars_def)
  obtain r w' es' where r: "remove_walk (inode s1 c) e None (e div 512 * 512) 0 = Some r"
    "w' = (case r of Merged l \<Rightarrow> merge_entry l (de_aLen (inode s1 c) e) (inode s1 c) | _ \<Rightarrow> empty_dentry e (inode s1 c))"
    "r \<noteq> Missing" "dsec_ok w' (e div 512 * 512) es'"
    "\<forall>q. q \<noteq> [] \<longrightarrow> lookup w' es' q = (if q = de_name (inode s1 c) e then None else lookup (inode s1 c) es q)"
    "\<forall>j. j < e div 512 * 512 \<or> e div 512 * 512 + 512 \<le> j \<longrightarrow> byte_at w' j = byte_at (inode s1 c) j"
    by (rule remove_in_sector [OF sec(1) f(1) sec(2) n(2)])
  have "\<exists>t. pfsDirRemoveEntry B dir p s = Some (Some c, t) \<and> inode t c = w'"
  proof (cases r)
    case (Merged l)
    then show ?thesis using r(1,2)
      by (simp add: pfsDirRemoveEntry_def found merge_entry_def inode_def upd_data_def upd_p_def)
  next
    case Emptied
    then show ?thesis using r(1,2) p(2)
      by (simp add: pfsDirRemoveEntry_def found empty_dentry_def inode_def upd_data_def upd_p_def Let_def)
  qed (use r(3) in simp)
  then obtain t where "pfsDirRemoveEntry B dir p s = Some (Some c, t)" "inode t c = w'" by blast
  then show ?thesis by (intro exI [of _ t] exI [of _ es'] conjI) (use r(4-6) in \<open>simp_all add: n(1)\<close>)
qed

text \<open>A directory of one sector that holds the two standard entries and a file \<open>f\<close>.\<close>

definition names_words :: words where
  "names_words = (\<lambda>_. 0)(0 := 20, 1 := 0x100C0100, 2 := 0x2E, 3 := 20, 4 := 0x100C0200, 5 := 0x2E2E,
     6 := 30, 7 := 0x21E80100, 8 := 0x66)"

definition names_state :: "ram_disk pfs_state" where
  "names_state = blank_state\<lparr>pfsCacheBuf := (\<lambda>i.
       if i = 1 then (empty_entry (set_size64 512 (put_seg 1 \<lparr>bi_number = 40, bi_subpart = 0, bi_count = 1\<rparr> (\<lambda>_. 0))))
            \<lparr>p_mount := 1, p_sector := 20, p_nused := 1\<rparr>
       else (empty_entry names_words)\<lparr>p_mount := 1, p_sector := 40, p_nused := 1\<rparr>),
     pfsCacheNumBuffers := 2\<rparr>"

lemma names_entries:
  "de_pLen names_words 0 = 1" "de_aLen names_words 0 = 12" "de_inode names_words 0 = 20" "de_name names_words 0 = chars ''.''"
  "de_pLen names_words 12 = 2" "de_aLen names_words 12 = 12" "de_inode names_words 12 = 20" "de_name names_words 12 = chars ''..''"
  "de_pLen names_words 24 = 1" "de_aLen names_words 24 = 488" "de_inode names_words 24 = 30" "de_name names_words 24 = chars ''f''"
  by code_simp+

lemma names_sector: "dsec_ok names_words 0 [0, 12, 24]" "names_distinct names_words [0, 12, 24]"
  by (simp_all add: dsec_ok_def names_distinct_def names_entries dentryLen_eq chars_def)

lemma seg_size: "seg_at (set_size64 n w) (Suc 0) = seg_at w (Suc 0)" "i_size (set_size64 512 w) = 512"
  by (simp_all add: seg_at_def get_bi_def set_size64_def i_size_def)

lemma names_found:
  assumes "\<forall>e \<in> {0, 12, 24}. dentry_fits sel (Some p) names_words e = Some (e = 24)"
  shows "\<exists>s. pfsGetDentry ram_device 1 (Some p) sel names_state = Some (Some (2, 24), 24, s) \<and> inode s 2 = names_words"
proof -
  have scan: "scan_sector sel (Some p) names_words 512 0 0 = (DFound 24, 24)"
    using assms by (simp add: scan_sector.simps names_entries dentryLen_eq)
  define bp where "bp = \<lparr>bp_inode = Some 1, bp_segment = 1, bp_offset = 0, bp_byte = 0\<rparr>"
  let ?s0 = "pfsCacheUsedAdd 1 names_state"
  have seg: "seg_at (inode ?s0 1) (pfsFixIndex 1) = \<lparr>bi_number = 40, bi_subpart = 0, bi_count = 1\<rparr>"
    by (simp add: pfsFixIndex_def inode_def pfsCacheUsedAdd_def upd_p_def names_state_def empty_entry_def seg_size seg_put_seg)
  have "\<exists>s1. pfsGetDentriesChunk ram_device bp ?s0 = Some (0, Some 2, s1) \<and> inode s1 2 = names_words \<and>
      inode s1 1 = inode names_state 1"
    using seg by (simp add: pfsGetDentriesChunk_def bp_def mount_of_def mnt_def pfsCacheGetData_def Let_def
        pfsCacheUsedAdd_def upd_p_def names_state_def empty_entry_def blank_state_def blank_mount_def slots_def inode_def upt_rec)
  then obtain s1 where s1: "pfsGetDentriesChunk ram_device bp ?s0 = Some (0, Some 2, s1)" "inode s1 2 = names_words"
      "inode s1 1 = inode names_state 1" by blast
  have "i_size (inode names_state 1) = 512" by (simp add: inode_def names_state_def empty_entry_def seg_size)
  then have "dentry_loop ram_device sel (Some p) 1 bp (Some 2) 0 0 s1 = Some (Some (2, 24), 24, pfsCacheFree (bp_inode bp) s1)"
    using s1 scan by (subst dentry_loop.simps) (simp add: dentry_chunk_def)
  then show ?thesis unfolding pfsGetDentry_def Let_def bp_def [symmetric] using s1 by simp
qed

lemma names_fit: "\<forall>e \<in> {0, 12, 24}. dentry_fits 1 (Some ''g'') names_words e = Some (e = 24)"
  by (simp add: dentry_fits_def Let_def names_entries dentryLen_eq)

lemma names_is: "\<forall>e \<in> {0, 12, 24}. dentry_fits 0 (Some ''f'') names_words e = Some (e = 24)"
  by (simp add: fits_name names_entries chars_def)

definition names_new :: pfs_blockinfo_t where
  "names_new = \<lparr>bi_number = 50, bi_subpart = 0, bi_count = 1\<rparr>"

theorem add_entry_correct_witness:
  "\<exists>t es. pfsDirAddEntry ram_device 1 ''g'' names_new 0x2000 0 names_state = Some (0, Some 2, t) \<and>
     lookup (inode t 2) es (chars ''g'') = Some (50, 0) \<and> lookup (inode t 2) es (chars ''f'') = Some (30, 0)"
proof -
  obtain s where s: "pfsGetDentry ram_device 1 (Some ''g'') 1 names_state = Some (Some (2, 24), 24, s)" "inode s 2 = names_words"
    using names_found [OF names_fit] by blast
  have "de_sub names_words 24 = 0" by code_simp
  then have l: "lookup names_words [0, 12, 24] (chars ''g'') = None" "lookup names_words [0, 12, 24] (chars ''f'') = Some (30, 0)"
    by (simp_all add: names_entries chars_def)
  have "\<exists>t es'. pfsDirAddEntry ram_device 1 ''g'' names_new 0x2000 0 names_state = Some (0, Some 2, t) \<and>
     dsec_ok (inode t 2) (24 div 512 * 512) es' \<and>
     (\<forall>q. q \<noteq> [] \<longrightarrow> lookup (inode t 2) es' q =
       (if q = chars ''g'' then Some (bi_number names_new, ucast (bi_subpart names_new)) else lookup (inode s 2) [0, 12, 24] q)) \<and>
     (\<forall>j. j < 24 div 512 * 512 \<or> 24 div 512 * 512 + 512 \<le> j \<longrightarrow> byte_at (inode t 2) j = byte_at (inode s 2) j)"
    by (rule add_entry_correct [OF s(1)]) (use names_sector(1) l in \<open>simp_all add: s(2) names_new_def\<close>)
  then obtain t es where t: "pfsDirAddEntry ram_device 1 ''g'' names_new 0x2000 0 names_state = Some (0, Some 2, t)"
    "\<forall>q. q \<noteq> [] \<longrightarrow> lookup (inode t 2) es q =
       (if q = chars ''g'' then Some (bi_number names_new, ucast (bi_subpart names_new)) else lookup (inode s 2) [0, 12, 24] q)"
    by blast
  have "chars ''g'' \<noteq> []" "chars ''f'' \<noteq> []" "chars ''f'' \<noteq> chars ''g''" by (simp_all add: chars_def)
  then have "lookup (inode t 2) es (chars ''g'') = Some (50, 0)" "lookup (inode t 2) es (chars ''f'') = Some (30, 0)"
    using t(2) l(2) by (simp_all add: s(2) names_new_def del: lookup_Cons)
  with t(1) show ?thesis by blast
qed

theorem remove_entry_correct_witness:
  "\<exists>t es. pfsDirRemoveEntry ram_device 1 ''f'' names_state = Some (Some 2, t) \<and>
     lookup (inode t 2) es (chars ''f'') = None \<and> lookup (inode t 2) es (chars ''..'') = Some (20, 0)"
proof -
  obtain s where s: "pfsGetDentry ram_device 1 (Some ''f'') 0 names_state = Some (Some (2, 24), 24, s)" "inode s 2 = names_words"
    using names_found [OF names_is] by blast
  have "de_sub names_words 12 = 0" by code_simp
  then have l: "lookup names_words [0, 12, 24] (chars ''..'') = Some (20, 0)" by (simp add: names_entries chars_def)
  have "\<exists>t es'. pfsDirRemoveEntry ram_device 1 ''f'' names_state = Some (Some 2, t) \<and>
     dsec_ok (inode t 2) (24 div 512 * 512) es' \<and>
     (\<forall>q. q \<noteq> [] \<longrightarrow> lookup (inode t 2) es' q = (if q = chars ''f'' then None else lookup (inode s 2) [0, 12, 24] q)) \<and>
     (\<forall>j. j < 24 div 512 * 512 \<or> 24 div 512 * 512 + 512 \<le> j \<longrightarrow> byte_at (inode t 2) j = byte_at (inode s 2) j)"
    by (rule remove_entry_correct [OF s(1)]) (use names_sector in \<open>simp_all add: s(2)\<close>)
  then obtain t es where t: "pfsDirRemoveEntry ram_device 1 ''f'' names_state = Some (Some 2, t)"
    "\<forall>q. q \<noteq> [] \<longrightarrow> lookup (inode t 2) es q = (if q = chars ''f'' then None else lookup (inode s 2) [0, 12, 24] q)"
    by blast
  have "chars ''f'' \<noteq> []" "chars ''..'' \<noteq> []" "chars ''..'' \<noteq> chars ''f''" by (simp_all add: chars_def)
  then have "lookup (inode t 2) es (chars ''f'') = None" "lookup (inode t 2) es (chars ''..'') = Some (20, 0)"
    using t(2) l by (simp_all add: s(2) del: lookup_Cons)
  with t(1) show ?thesis by blast
qed

end
