(* ===== verification/Spec2Isabelle.thy ===== *)
theory Spec2Isabelle
  imports HddOpen IopHeap IomanFiles PfsOnHdd PfsNames
begin

text \<open>
  The storage stack of the I/O processor of ps2sdk: the partition manager and its driver, the file system
  and its driver, the file manager in front of them and the heap.

  \<^bold>\<open>The program.\<close> The hard disk of the console is divided by APA (iop/hdd/libapa), a doubly linked list of
  partition headers on the disk with a cache of headers and a journal of header writes. A partition of
  the right type holds a PFS file system (iop/hdd/libpfs): zones with allocation bitmaps, inodes with
  lists of segments, directories, and again a metadata cache and a journal. Two drivers offer them as the
  devices hdd: (iop/hdd/apa) and pfs: (iop/hdd/pfs); the second sends its transfers as requests to the
  first. Programs reach both through the file manager iomanX (iop/system/iomanx), which resolves device
  names and descriptors to drivers. iop/system/alloc is the heap behind \<open>malloc\<close> on this processor.

  \<^bold>\<open>Style of the model.\<close> A C function is a HOL function of the same name. Globals are a record that is passed
  in and returned. Machine integers are words of their width; \<open>int\<close> results are integers, errors negative
  as in the code. A call without a defined result - a null or out-of-range access, a wait that never
  ends, a loop that never ends - is \<open>None\<close>, every result of the code is \<open>Some\<close>; loops with no bound in the
  code are \<open>partial_function (option)\<close>, so nothing is cut off by fuel, and where a theorem says that a
  routine returns it says so. Structures on the disk are arrays of 32-bit words. Code outside the
  modelled files is a parameter: the ATA driver (\<open>ata_ops\<close>, and \<open>hdd_env\<close> with the commands only the driver
  uses), the block device of a mounted file system (\<open>pfs_block_device_t\<close>, a table of functions in the code
  as well), the drivers below iomanX (\<open>iop_device_ops_t\<close>), the calls of the PFS driver to the file manager
  (\<open>pfs_env\<close>), the clock and the system allocator. Assumptions on a parameter are hypotheses of
  the theorem that needs them, and its witness runs it on a concrete instance.

  \<^bold>\<open>Shared theories.\<close> \<open>Prelude\<close> has the words, error numbers, byte access, loops over the option monad and
  generic lemmas. \<open>Ring\<close> has circular lists with a sentinel and the locale \<open>linked_ring\<close>, the contract of the
  pointer operations of both caches; it is interpreted on \<open>apaCacheLink\<close>/\<open>apaCacheUnLink\<close> in \<open>ApaLru\<close> and on
  \<open>pfsCacheLink\<close>/\<open>pfsCacheUnLink\<close> in \<open>PfsLru\<close>. \<open>Clock\<close> is the clock reading both libraries have.

  \<^bold>\<open>APA.\<close> \<open>ApaCache\<close> models cache.c and journal.c of libapa with the header and checksum routines of apa.c;
  \<open>ApaPart\<close> the rest of apa.c and free.c. \<open>AtaDisk\<close> is a drive with a volatile write cache and power
  failures. \<open>ApaLru\<close> shows that the cache is a least-recently-used pool and that its free list never
  breaks; \<open>ApaJournal\<close> that a flush of dirty headers is atomic whatever command power fails in, with the
  recovery included; \<open>ApaWalk\<close> that the searches over the partition list end and find the right
  partition, and that headers read back as they were written. \<open>ApaPassword\<close> is the cipher of password.c, and
  shows that it can be undone and which bits of a password count.

  \<^bold>\<open>The APA driver.\<close> \<open>HddDriver\<close> models hdd.c (options, probing of the drives, placing of a new partition), \<open>HddFio\<close>
  hdd_fio.c, every operation with the semaphore and the table of open partitions. \<open>HddFiles\<close> shows that no
  order of calls leaves the semaphore taken or a position outside the area files may use, and that
  transfers stay in their partition; \<open>HddOpen\<close> what opening a partition by name gives, and that an open one
  is protected.

  \<^bold>\<open>PFS.\<close> \<open>PfsCache\<close> models cache.c and journal.c of libpfs with parts of misc.c and inode.c, \<open>PfsBitmap\<close> bitmap.c,
  \<open>PfsBlock\<close> block.c, blockWrite.c and inode.c, \<open>PfsDentry\<close> and \<open>PfsDir\<close> dir.c, \<open>PfsSuper\<close> super.c and superWrite.c.
  \<open>PfsDisk\<close> is a disk in memory for the witnesses. \<open>PfsLru\<close> has the invariant of the metadata cache and
  what a failed write does to it; \<open>PfsZones\<close> what the bitmap routines do to the zones, and that the search
  never reports a full disk; \<open>PfsLayout\<close> the zone sizes, the size of the bitmaps and the agreement of
  formatting and mounting; \<open>PfsSeek\<close> positions in files, and the cut of a file; \<open>PfsNames\<close> the entries of a
  sector of a directory.

  \<^bold>\<open>The PFS driver.\<close> \<open>PfsDriver\<close> models pfs.c and the first part of pfs_fio.c (start, mounts, opening and closing),
  \<open>PfsTransfer\<close> the transfers of pfs_fio.c with the sector buffer of each open file, \<open>PfsFio\<close> and \<open>PfsAdmin\<close> the other
  operations and pfs_fioctl.c. \<open>PfsFiles\<close> has the invariant of the driver over all orders of calls
  (\<open>pfs_call\<close>, \<open>pfs_reach\<close>), the range of a seek, and why attributes of files do not work. \<open>PfsData\<close> shows that
  a read returns the bytes of the medium for every split into partial and whole sectors, that a write in
  a buffer is seen by all open files, and how a buffer can take over another's contents.

  \<^bold>\<open>The two together.\<close> \<open>PfsOnHdd\<close> models the call table of libpfs/src/misc.c, which connects PFS with the APA driver,
  and shows what a read of a file gives in terms of the sectors of the drive.

  \<^bold>\<open>The file manager.\<close> \<open>IomanX\<close> models iomanX.c, and the entry points and format conversions of ioman_sbv.c for
  programs that use the older manager. \<open>IomanFiles\<close> shows how device names resolve, what open and close do
  to the descriptors, and that a descriptor keeps its meaning through any calls on others.

  \<^bold>\<open>The heap.\<close> \<open>IopAlloc\<close> models alloc.c over a byte memory; \<open>IopHeap\<close> shows that blocks never overlap, that
  \<open>malloc\<close> and \<open>free\<close> change nothing but the block they are about, and where the lock is not released.

  \<^bold>\<open>Bounds.\<close> The loops of \<open>pfsGetTime\<close> and \<open>apaGetTime\<close> run at most 20 times in the code, and the model counts the
  same; \<open>halves_loop\<close> has 32 rounds because each halves a 32-bit number. \<open>follow_links\<close> counts the four symbolic
  links \<open>openFile\<close> follows. No other loop has a counter that the code does not have. The theorems on reads ask
  for segments below 4 GB, because the code computes what is left of a segment with 32 bits.

  \<^bold>\<open>Not modelled.\<close> Debug output. The patching of the export table in ioman_sbv.c, which writes machine code.
  The printing of inodes and of the contents of bitmaps. The calls of the two drivers that register them
  with the file manager; the table they change is part of the model of iomanX. The rest of the SDK: the
  code for the main processor, the network stack and the drivers of other devices are programs of their
  own that this stack does not call, most of them over hardware registers whose behaviour is not in the
  sources.
\<close>

end
